(* ===== verification/Clank_Prelude.thy ===== *)
theory Clank_Prelude
  imports Main "HOL-Library.Word" "HOL-Library.Monad_Syntax"
begin

text \<open>
  The vocabulary the components share: machine integers, C arrays and loops.

  \<^item> An array (or a buffer reached through a pointer) is a list, a pointer into it an index.
    \<open>rd\<close> and \<open>wr\<close> are the load and the store. Outside the array they give \<open>None\<close>, which
    stands for undefined behaviour throughout the development; a theorem that a function
    returns \<open>Some\<close> says, among other things, that it stays inside its buffers.
  \<^item> A counted C loop is \<open>repeatM\<close>, a loop over an index range \<open>forM\<close>.
  \<^item> Signed C integers are mathematical integers with the conversions written where the C
    code converts (\<open>to_i16\<close>, \<open>to_u8\<close>, \<dots>). Signed overflow is undefined in C, so
    the components prove that the intermediate values stay in range instead of wrapping.
\<close>

unbundle bit_operations_syntax

named_theorems mem_simps \<open>loads and stores that stay inside an array\<close>
named_theorems range_intros \<open>range facts for converted integers\<close>

type_synonym u8 = "8 word"
type_synonym u16 = "16 word"
type_synonym u32 = "32 word"

section \<open>Arrays\<close>

definition rd :: "'a list \<Rightarrow> nat \<Rightarrow> 'a option" where
  "rd xs i = (if i < length xs then Some (xs ! i) else None)"

definition wr :: "'a list \<Rightarrow> nat \<Rightarrow> 'a \<Rightarrow> 'a list option" where
  "wr xs i v = (if i < length xs then Some (xs[i := v]) else None)"

text \<open>\<open>*p++ = v\<close> for each \<open>v\<close> in turn, starting at index \<open>i\<close>.\<close>

fun wr_seq :: "'a list \<Rightarrow> nat \<Rightarrow> 'a list \<Rightarrow> 'a list option" where
  "wr_seq xs i [] = Some xs"
| "wr_seq xs i (v # vs) = do { ys \<leftarrow> wr xs i v; wr_seq ys (Suc i) vs }"

text \<open>\<open>v = *p++\<close>, \<open>n\<close> times, starting at index \<open>i\<close>.\<close>

fun rd_seq :: "'a list \<Rightarrow> nat \<Rightarrow> nat \<Rightarrow> 'a list option" where
  "rd_seq xs i 0 = Some []"
| "rd_seq xs i (Suc n) = do { v \<leftarrow> rd xs i; vs \<leftarrow> rd_seq xs (Suc i) n; Some (v # vs) }"

section \<open>Loops\<close>

text \<open>\<open>for (i = n; i > 0; i--) body\<close>, where the body does not use \<open>i\<close>.\<close>

primrec repeatM :: "nat \<Rightarrow> ('s \<Rightarrow> 's option) \<Rightarrow> 's \<Rightarrow> 's option" where
  "repeatM 0 body s = Some s"
| "repeatM (Suc n) body s = do { s' \<leftarrow> body s; repeatM n body s' }"

text \<open>\<open>for (\<dots>) body(i)\<close> for the values \<open>i\<close> of a list, in order.\<close>

primrec forM :: "'i list \<Rightarrow> ('i \<Rightarrow> 's \<Rightarrow> 's option) \<Rightarrow> 's \<Rightarrow> 's option" where
  "forM [] body s = Some s"
| "forM (i # is) body s = do { s' \<leftarrow> body i s; forM is body s' }"

section \<open>Integer conversions\<close>

definition to_i16 :: "int \<Rightarrow> int" where "to_i16 x = signed_take_bit 15 x"
definition to_u8 :: "int \<Rightarrow> int" where "to_u8 x = x mod 256"
definition to_u16 :: "int \<Rightarrow> int" where "to_u16 x = x mod 65536"
definition to_u32 :: "int \<Rightarrow> int" where "to_u32 x = x mod 4294967296"

definition i16_range :: "int \<Rightarrow> bool" where
  "i16_range x \<longleftrightarrow> -32768 \<le> x \<and> x \<le> 32767"

definition i32_range :: "int \<Rightarrow> bool" where
  "i32_range x \<longleftrightarrow> -2147483648 \<le> x \<and> x \<le> 2147483647"

section \<open>The array interface\<close>

text \<open>
  What the loops of the components rely on. The laws are those of a C array: a load or a
  store inside the bounds succeeds, a load sees the last store, and nothing changes size.
\<close>

locale c_array =
  fixes load :: "'m \<Rightarrow> nat \<Rightarrow> 'a option"
    and store :: "'m \<Rightarrow> nat \<Rightarrow> 'a \<Rightarrow> 'm option"
    and extent :: "'m \<Rightarrow> nat"
  assumes load_defined: "(\<exists>v. load m i = Some v) \<longleftrightarrow> i < extent m"
    and store_defined: "(\<exists>m'. store m i v = Some m') \<longleftrightarrow> i < extent m"
    and load_store: "store m i v = Some m' \<Longrightarrow> load m' j = (if j = i then Some v else load m j)"
    and extent_store: "store m i v = Some m' \<Longrightarrow> extent m' = extent m"
begin

primrec fill :: "'a list \<Rightarrow> nat \<Rightarrow> 'm \<Rightarrow> 'm option" where
  "fill [] i m = Some m"
| "fill (v # vs) i m = do { m' \<leftarrow> store m i v; fill vs (Suc i) m' }"

lemma fill_extent: "fill vs i m = Some m' \<Longrightarrow> extent m' = extent m"
  by (induction vs arbitrary: i m) (auto split: bind_splits dest: extent_store)

lemma fill_defined: "(\<exists>m'. fill vs i m = Some m') \<longleftrightarrow> vs = [] \<or> i + length vs \<le> extent m"
proof (induction vs arbitrary: i m)
  case Nil
  then show ?case by simp
next
  case (Cons v vs)
  show ?case
  proof (cases "store m i v")
    case None
    then have "\<not> i < extent m" using store_defined [of m i v] by simp
    with None show ?thesis by simp
  next
    case (Some m')
    then have "i < extent m" using store_defined [of m i v] by auto
    with Some Cons.IH [of "Suc i" m'] extent_store [OF Some] show ?thesis by auto
  qed
qed

lemma fill_load:
  "fill vs i m = Some m' \<Longrightarrow>
   load m' j = (if i \<le> j \<and> j < i + length vs then Some (vs ! (j - i)) else load m j)"
proof (induction vs arbitrary: i m)
  case Nil
  then show ?case by auto
next
  case (Cons v vs)
  from Cons.prems obtain m1 where m1: "store m i v = Some m1" "fill vs (Suc i) m1 = Some m'"
    by (auto split: bind_splits)
  show ?case
    using Cons.IH [OF m1(2)] load_store [OF m1(1), of j]
    by (auto simp: nth_Cons' Suc_le_eq)
qed

end

interpretation arr: c_array rd wr length
  by unfold_locales (auto simp: rd_def wr_def split: if_splits)

section \<open>Loads and stores\<close>

lemma rd_in [simp, mem_simps]: "i < length xs \<Longrightarrow> rd xs i = Some (xs ! i)"
  by (simp add: rd_def)

lemma rd_Some_iff: "rd xs i = Some v \<longleftrightarrow> i < length xs \<and> xs ! i = v"
  by (auto simp: rd_def)

lemma wr_in [simp, mem_simps]: "i < length xs \<Longrightarrow> wr xs i v = Some (xs[i := v])"
  by (simp add: wr_def)

lemma wr_Some_iff: "wr xs i v = Some ys \<longleftrightarrow> i < length xs \<and> ys = xs[i := v]"
  by (auto simp: wr_def)

lemma wr_out [simp]: "length xs \<le> i \<Longrightarrow> wr xs i v = None"
  by (simp add: wr_def)

lemma rd_out [simp]: "length xs \<le> i \<Longrightarrow> rd xs i = None"
  by (simp add: rd_def)

lemma wr_seq_fill: "wr_seq xs i vs = arr.fill vs i xs"
  by (induction vs arbitrary: xs i) (simp_all cong: Option.bind_cong)

lemma wr_seq_Some_iff:
  "wr_seq xs i vs = Some ys \<longleftrightarrow>
     (vs = [] \<or> i + length vs \<le> length xs) \<and> ys = take i xs @ take (length xs - i) vs @ drop (i + length vs) xs"
  (is "?L \<longleftrightarrow> ?R")
proof (induction vs arbitrary: xs i)
  case Nil
  then show ?case by auto
next
  case (Cons v vs)
  show ?case
  proof (cases "i < length xs")
    case True
    then have *: "take (Suc i) (xs[i := v]) = take i xs @ [v]"
      by (simp add: take_Suc_conv_app_nth)
    from True * Cons.IH [of "xs[i := v]" "Suc i"] show ?thesis
      by (cases "length xs - i") (auto simp: drop_update_cancel)
  qed simp
qed

lemma wr_seq_in [mem_simps]:
  "i + length vs \<le> length xs \<Longrightarrow> wr_seq xs i vs = Some (take i xs @ vs @ drop (i + length vs) xs)"
  by (subst wr_seq_Some_iff) auto

lemma rd_seq_in [mem_simps]:
  "i + n \<le> length xs \<Longrightarrow> rd_seq xs i n = Some (take n (drop i xs))"
  by (induction n arbitrary: i) (auto simp: Cons_nth_drop_Suc [symmetric])

section \<open>Loop rules\<close>

lemma repeatM_invariant:
  assumes "I 0 s"
    and "\<And>k t. k < n \<Longrightarrow> I k t \<Longrightarrow> \<exists>t'. body t = Some t' \<and> I (Suc k) t'"
  shows "\<exists>s'. repeatM n body s = Some s' \<and> I n s'"
proof -
  have "\<lbrakk>I k t; k + m = n\<rbrakk> \<Longrightarrow> \<exists>s'. repeatM m body t = Some s' \<and> I n s'" for k m t
  proof (induction m arbitrary: k t)
    case 0
    then show ?case by simp
  next
    case (Suc m)
    from assms(2) [of k t] Suc.prems obtain t' where "body t = Some t'" "I (Suc k) t'" by auto
    with Suc.IH [of "Suc k" t'] Suc.prems show ?case by simp
  qed
  from this [of 0 s n] assms(1) show ?thesis by simp
qed

lemma repeatM_add: "repeatM (m + n) body s = do { s' \<leftarrow> repeatM m body s; repeatM n body s' }"
  by (induction m arbitrary: s) (simp_all cong: Option.bind_cong)

lemma repeatM_preserves:
  "repeatM n body s = Some s' \<Longrightarrow> P s \<Longrightarrow> (\<And>t t'. P t \<Longrightarrow> body t = Some t' \<Longrightarrow> P t') \<Longrightarrow> P s'"
  by (induction n arbitrary: s) (auto split: bind_splits)

lemma forM_preserves:
  "forM is body s = Some s' \<Longrightarrow> P s \<Longrightarrow> (\<And>i t t'. i \<in> set is \<Longrightarrow> P t \<Longrightarrow> body i t = Some t' \<Longrightarrow> P t') \<Longrightarrow> P s'"
  by (induction "is" arbitrary: s) (auto split: bind_splits, metis)

lemma forM_append: "forM (xs @ ys) body s = do { s' \<leftarrow> forM xs body s; forM ys body s' }"
  by (induction xs arbitrary: s) (simp_all cong: Option.bind_cong)

lemma forM_upt_invariant:
  assumes "I 0 s"
    and "\<And>k t. k < n \<Longrightarrow> I k t \<Longrightarrow> \<exists>t'. body k t = Some t' \<and> I (Suc k) t'"
  shows "\<exists>s'. forM [0..<n] body s = Some s' \<and> I n s'"
  using assms
proof (induction n)
  case 0
  then show ?case by simp
next
  case (Suc n)
  then obtain s' where "forM [0..<n] body s = Some s'" "I n s'" by force
  with Suc.prems(2) [of n s'] show ?case by (auto simp: forM_append)
qed

text \<open>Stores to distinct places, in any order.\<close>

lemma forM_scatter:
  assumes "distinct is" and "inj_on f (set is)" and "\<forall>i \<in> set is. f i < length t"
  shows "\<exists>t'. forM is (\<lambda>i t. wr t (f i) (g i)) t = Some t' \<and> length t' = length t \<and>
           (\<forall>i \<in> set is. t' ! f i = g i) \<and> (\<forall>j. j \<notin> f ` set is \<longrightarrow> t' ! j = t ! j)"
  using assms
proof (induction "is" arbitrary: t)
  case Nil
  then show ?case by simp
next
  case (Cons i "is")
  let ?t = "t[f i := g i]"
  from Cons.prems have "distinct is" "inj_on f (set is)" "\<forall>j \<in> set is. f j < length ?t" by auto
  from Cons.IH [OF this] obtain t' where t': "forM is (\<lambda>i t. wr t (f i) (g i)) ?t = Some t'" "length t' = length t"
    "\<forall>j \<in> set is. t' ! f j = g j" "\<forall>j. j \<notin> f ` set is \<longrightarrow> t' ! j = ?t ! j" by auto
  have "f i \<notin> f ` set is" using Cons.prems by auto
  with t' Cons.prems show ?case by (intro exI [of _ t']) auto
qed

lemma forM_cong: "(\<And>i s. i \<in> set is \<Longrightarrow> body i s = body' i s) \<Longrightarrow> forM is body s = forM is body' s"
  by (induction "is" arbitrary: s) (auto cong: Option.bind_cong)

section \<open>Conversions\<close>

lemma to_u8_id [simp]: "0 \<le> x \<Longrightarrow> x < 256 \<Longrightarrow> to_u8 x = x"
  by (simp add: to_u8_def)

lemma to_u16_id [simp]: "0 \<le> x \<Longrightarrow> x < 65536 \<Longrightarrow> to_u16 x = x"
  by (simp add: to_u16_def)

lemma to_u32_id [simp]: "0 \<le> x \<Longrightarrow> x < 4294967296 \<Longrightarrow> to_u32 x = x"
  by (simp add: to_u32_def)

lemma to_i16_id [simp]: "i16_range x \<Longrightarrow> to_i16 x = x"
  by (simp add: to_i16_def i16_range_def signed_take_bit_int_eq_self_iff)

lemma to_i16_range [simp, range_intros]: "i16_range (to_i16 x)"
  using signed_take_bit_int_greater_eq_minus_exp [of 15 x] signed_take_bit_int_less_exp [of 15 x]
  by (simp add: to_i16_def i16_range_def)

lemma i16_range_imp_i32 [range_intros]: "i16_range x \<Longrightarrow> i32_range x"
  by (simp add: i16_range_def i32_range_def)

end
