(* ===== verification/C_String.thy ===== *)
theory C_String
  imports Clank_Prelude
begin

text \<open>
  The part of the C string library the sources call, over buffers of characters.

  A \<open>char *\<close> is an index into a buffer; the string it denotes is read with \<open>c_str\<close>, which is
  \<open>None\<close> when no terminating NUL follows. Functions that only look at the string
  (\<open>strncmp\<close>, \<open>strspn\<close>, \<open>strchr\<close>, \<open>strstr\<close>, \<open>strtol\<close>) take the string itself;
  \<open>strtok\<close>, which writes NULs into its buffer and keeps a saved pointer between calls,
  takes the buffer and returns it with the new saved pointer.
\<close>

section \<open>Definitions\<close>

abbreviation NUL :: char where "NUL \<equiv> CHR 0x00"

definition is_digit :: "char \<Rightarrow> bool" where
  "is_digit c \<longleftrightarrow> c \<in> set ''0123456789''"

definition is_space :: "char \<Rightarrow> bool" where
  "is_space c \<longleftrightarrow> c \<in> {CHR '' '', CHR 0x09, CHR 0x0A, CHR 0x0B, CHR 0x0C, CHR 0x0D}"

definition c_str :: "string \<Rightarrow> nat \<Rightarrow> string option" where
  "c_str buf p = (let s = takeWhile (\<lambda>c. c \<noteq> NUL) (drop p buf)
                  in if p + length s < length buf then Some s else None)"

text \<open>What a reader of a buffer sees: the text up to its first zero byte.\<close>

definition c_text :: "string \<Rightarrow> string" where
  "c_text s = takeWhile (\<lambda>c. c \<noteq> NUL) s"

text \<open>\<open>strncmp(a, b, n) == 0\<close> on NUL-free strings with their terminators.\<close>

definition strncmp_eq :: "string \<Rightarrow> string \<Rightarrow> nat \<Rightarrow> bool" where
  "strncmp_eq a b n \<longleftrightarrow> take n (a @ [NUL]) = take n (b @ [NUL])"

definition strspn :: "string \<Rightarrow> string \<Rightarrow> nat" where
  "strspn s accept = length (takeWhile (\<lambda>c. c \<in> set accept) s)"

fun strchr :: "string \<Rightarrow> char \<Rightarrow> nat option" where
  "strchr [] c = None"
| "strchr (x # xs) c = (if x = c then Some 0 else map_option Suc (strchr xs c))"

fun is_prefix :: "string \<Rightarrow> string \<Rightarrow> bool" where
  "is_prefix [] s = True"
| "is_prefix (p # ps) [] = False"
| "is_prefix (p # ps) (c # cs) = (p = c \<and> is_prefix ps cs)"

fun strstr :: "string \<Rightarrow> string \<Rightarrow> nat option" where
  "strstr [] pat = (if pat = [] then Some 0 else None)"
| "strstr (c # cs) pat = (if is_prefix pat (c # cs) then Some 0 else map_option Suc (strstr cs pat))"

text \<open>
  \<open>strtok(s, d)\<close> with a one-character delimiter set: the start of the token (\<open>None\<close> for a
  NULL result), the buffer with the delimiter after the token overwritten, and the saved
  pointer. A second call \<open>strtok(NULL, d)\<close> resumes from the saved pointer.
\<close>

record tok_state =
  tk_buf :: string
  tk_save :: "nat option"

definition strtok_at :: "string \<Rightarrow> nat \<Rightarrow> char \<Rightarrow> (nat option \<times> tok_state) option" where
  "strtok_at buf p d = do {
     s \<leftarrow> c_str buf p;
     let skipped = length (takeWhile (\<lambda>c. c = d) s);
     let rest = drop skipped s;
     let start = p + skipped;
     let tlen = length (takeWhile (\<lambda>c. c \<noteq> d) rest);
     if rest = [] then Some (None, \<lparr>tk_buf = buf, tk_save = None\<rparr>)
     else if tlen = length rest then Some (Some start, \<lparr>tk_buf = buf, tk_save = None\<rparr>)
     else Some (Some start, \<lparr>tk_buf = buf[start + tlen := NUL], tk_save = Some (Suc (start + tlen))\<rparr>)
   }"

definition strtok_next :: "tok_state \<Rightarrow> char \<Rightarrow> (nat option \<times> tok_state) option" where
  "strtok_next t d = (case tk_save t of
       None \<Rightarrow> Some (None, t)
     | Some p \<Rightarrow> strtok_at (tk_buf t) p d)"

text \<open>
  The string a token pointer denotes. Handing a NULL token to a string function is undefined
  behaviour, hence \<open>None\<close>.
\<close>

definition token_str :: "nat option \<Rightarrow> tok_state \<Rightarrow> string option" where
  "token_str tok t = (case tok of None \<Rightarrow> None | Some p \<Rightarrow> c_str (tk_buf t) p)"

subsection \<open>Numbers as text\<close>

definition digit_char :: "int \<Rightarrow> char" where
  "digit_char d = ''0123456789'' ! nat d"

definition index_of :: "char \<Rightarrow> string \<Rightarrow> nat" where
  "index_of c s = length (takeWhile (\<lambda>x. x \<noteq> c) s)"

definition digit_val :: "char \<Rightarrow> int" where
  "digit_val c = int (index_of c ''0123456789'')"

function digits10 :: "int \<Rightarrow> string" where
  "digits10 n = (if n < 10 then [digit_char n] else digits10 (n div 10) @ [digit_char (n mod 10)])"
  by pat_completeness auto
termination
  by (relation "measure nat") auto

declare digits10.simps [simp del]

definition digits_val :: "string \<Rightarrow> int" where
  "digits_val s = foldl (\<lambda>a c. 10 * a + digit_val c) 0 s"

text \<open>\<open>printf\<close>'s \<open>%d\<close>.\<close>

definition fmt_d :: "int \<Rightarrow> string" where
  "fmt_d n = (if n < 0 then ''-'' else []) @ digits10 \<bar>n\<bar>"

text \<open>\<open>strtol(s, NULL, 10)\<close> for a \<open>long\<close> of \<open>w\<close> bits: saturating, 0 when no digit is found.\<close>

definition strtol10 :: "nat \<Rightarrow> string \<Rightarrow> int" where
  "strtol10 w s = (let t = dropWhile is_space s;
       neg = (t \<noteq> [] \<and> hd t = CHR ''-'');
       u = (if t \<noteq> [] \<and> (hd t = CHR ''-'' \<or> hd t = CHR ''+'') then tl t else t);
       v = digits_val (takeWhile is_digit u)
     in if neg then max (- v) (- (2 ^ (w - 1))) else min v (2 ^ (w - 1) - 1))"

section \<open>Strings in buffers\<close>

lemma c_str_append:
  assumes "NUL \<notin> set s"
  shows "c_str (pre @ s @ NUL # post) (length pre) = Some s"
proof -
  have "takeWhile (\<lambda>c. c \<noteq> NUL) (s @ NUL # post) = s"
    using assms by (subst takeWhile_append2) auto
  then show ?thesis by (simp add: c_str_def)
qed

lemma c_str_0: "NUL \<notin> set s \<Longrightarrow> c_str (s @ NUL # post) 0 = Some s"
  using c_str_append [of s "[]"] by simp

lemma c_str_no_NUL: "c_str buf p = Some s \<Longrightarrow> NUL \<notin> set s"
  by (auto simp: c_str_def Let_def dest: set_takeWhileD split: if_splits)

lemma strncmp_eq_literal:
  assumes "length b = n" and "NUL \<notin> set b"
  shows "strncmp_eq a b n \<longleftrightarrow> take n a = b"
  using assms by (cases "n \<le> length a") (auto simp: strncmp_eq_def dest: arg_cong [where f = set])

lemma strncmp_eq_exact:
  assumes "length b < n" and "NUL \<notin> set a" and "NUL \<notin> set b"
  shows "strncmp_eq a b n \<longleftrightarrow> a = b"
proof
  assume "strncmp_eq a b n"
  then have *: "take n (a @ [NUL]) = b @ [NUL]" using assms(1) by (simp add: strncmp_eq_def)
  show "a = b"
  proof (cases "n \<le> length a")
    case True
    with * have "take n a = b @ [NUL]" by simp
    with assms(2) have False by (metis in_set_conv_decomp in_set_takeD)
    then show ?thesis ..
  next
    case False
    with * show ?thesis by simp
  qed
next
  assume "a = b"
  then show "strncmp_eq a b n" by (simp add: strncmp_eq_def)
qed

lemma strspn_full: "strspn s accept = length s \<longleftrightarrow> set s \<subseteq> set accept"
  by (induction s) (auto simp: strspn_def)

lemma strspn_le: "strspn s accept \<le> length s"
  by (simp add: strspn_def length_takeWhile_le)

lemma is_prefix_iff: "is_prefix p s \<longleftrightarrow> take (length p) s = p"
  by (induction p s rule: is_prefix.induct) auto

lemma strstr_Some: "strstr s pat = Some i \<Longrightarrow> i \<le> length s \<and> take (length pat) (drop i s) = pat"
proof (induction s arbitrary: i)
  case Nil
  then show ?case by (auto split: if_splits)
next
  case (Cons c cs)
  show ?case
  proof (cases "is_prefix pat (c # cs)")
    case True
    with Cons.prems show ?thesis by (auto simp: is_prefix_iff)
  next
    case False
    with Cons.prems obtain j where "strstr cs pat = Some j" "i = Suc j" by auto
    with Cons.IH show ?thesis by auto
  qed
qed

lemma strchr_Some: "strchr s c = Some i \<Longrightarrow> i < length s \<and> s ! i = c \<and> c \<notin> set (take i s)"
  by (induction s arbitrary: i) (auto split: if_splits)

lemma c_text_id: "NUL \<notin> set t \<Longrightarrow> c_text t = t"
  by (auto simp: c_text_def takeWhile_eq_all_conv)

lemma strstr_first:
  "hd pat \<notin> set a \<Longrightarrow> pat \<noteq> [] \<Longrightarrow> strstr (a @ pat @ r) pat = Some (length a)"
proof (induction a)
  case Nil
  have "is_prefix pat (pat @ r)" by (simp add: is_prefix_iff)
  with Nil show ?case by (cases "pat @ r") auto
next
  case (Cons c a)
  then have "\<not> is_prefix pat (c # a @ pat @ r)" by (cases pat) auto
  with Cons show ?case by simp
qed

section \<open>Tokens\<close>

lemma length_takeWhile_all: "(\<And>c. c \<in> set s \<Longrightarrow> P c) \<Longrightarrow> length (takeWhile P s) = length s"
  by (induction s) auto

text \<open>The first token of a string with at least two fields, and the state that is left.\<close>

lemma strtok_at_field:
  assumes "f \<noteq> []" and "d \<notin> set f" and "NUL \<notin> set f" and "NUL \<notin> set rest" and "d \<noteq> NUL"
  shows "strtok_at (pre @ f @ d # rest @ NUL # post) (length pre) d =
    Some (Some (length pre), \<lparr>tk_buf = pre @ f @ NUL # rest @ NUL # post,
                              tk_save = Some (length pre + length f + 1)\<rparr>)"
proof -
  have s: "c_str (pre @ f @ d # rest @ NUL # post) (length pre) = Some (f @ d # rest)"
    using c_str_append [of "f @ d # rest" pre post] assms by auto
  from assms(1,2) have "takeWhile (\<lambda>c. c = d) (f @ d # rest) = []"
    by (cases f) auto
  moreover from assms(2) have "takeWhile (\<lambda>c. c \<noteq> d) (f @ d # rest) = f"
    by (subst takeWhile_append2) auto
  ultimately show ?thesis
    using assms(1) s by (simp add: strtok_at_def list_update_append Let_def)
qed

lemma strtok_at_last:
  assumes "f \<noteq> []" and "d \<notin> set f" and "NUL \<notin> set f"
  shows "strtok_at (pre @ f @ NUL # post) (length pre) d =
    Some (Some (length pre), \<lparr>tk_buf = pre @ f @ NUL # post, tk_save = None\<rparr>)"
proof -
  have s: "c_str (pre @ f @ NUL # post) (length pre) = Some f"
    using c_str_append [of f pre post] assms by auto
  from assms(1,2) have "takeWhile (\<lambda>c. c = d) f = []" by (cases f) auto
  moreover from assms(2) have "length (takeWhile (\<lambda>c. c \<noteq> d) f) = length f"
    by (intro length_takeWhile_all) auto
  ultimately show ?thesis using assms(1) s by (simp add: strtok_at_def Let_def)
qed

lemma strtok_at_empty:
  "set s \<subseteq> {d} \<Longrightarrow> c_str buf p = Some s \<Longrightarrow>
   strtok_at buf p d = Some (None, \<lparr>tk_buf = buf, tk_save = None\<rparr>)"
  using length_takeWhile_all [of s "\<lambda>c. c = d", OF singletonD]
  by (auto simp: strtok_at_def Let_def subset_iff)

lemma token_str_field:
  "NUL \<notin> set f \<Longrightarrow> token_str (Some (length pre)) \<lparr>tk_buf = pre @ f @ NUL # post, tk_save = q\<rparr> = Some f"
  by (simp add: token_str_def c_str_append)

section \<open>Decimal numbers\<close>

lemma digit_char_digit [simp]: "0 \<le> d \<Longrightarrow> d < 10 \<Longrightarrow> is_digit (digit_char d)"
  unfolding is_digit_def digit_char_def by (rule nth_mem) simp

lemma digit_val_char: "0 \<le> d \<Longrightarrow> d < 10 \<Longrightarrow> digit_val (digit_char d) = d"
proof -
  assume "0 \<le> d" "d < 10"
  then have "d = 0 \<or> d = 1 \<or> d = 2 \<or> d = 3 \<or> d = 4 \<or> d = 5 \<or> d = 6 \<or> d = 7 \<or> d = 8 \<or> d = 9"
    by presburger
  then show ?thesis by (elim disjE) (simp_all add: digit_val_def digit_char_def index_of_def)
qed

lemma digits10_all_digits: "0 \<le> n \<Longrightarrow> \<forall>c \<in> set (digits10 n). is_digit c"
proof (induction n rule: digits10.induct)
  case (1 n)
  show ?case
  proof (cases "n < 10")
    case True
    with 1 show ?thesis by (simp add: digits10.simps [of n])
  next
    case False
    with 1 show ?thesis by (auto simp: digits10.simps [of n])
  qed
qed

lemma digits10_nonempty [simp]: "digits10 n \<noteq> []"
  by (subst digits10.simps) simp

lemma digits_val_snoc: "digits_val (s @ [c]) = 10 * digits_val s + digit_val c"
  by (simp add: digits_val_def)

lemma digits_val_digits10 [simp]: "0 \<le> n \<Longrightarrow> digits_val (digits10 n) = n"
proof (induction n rule: digits10.induct)
  case (1 n)
  show ?case
  proof (cases "n < 10")
    case True
    with 1 show ?thesis
      using digit_val_char [of n] by (simp add: digits10.simps [of n] digits_val_def)
  next
    case False
    with 1 show ?thesis
      using digit_val_char [of "n mod 10"] by (simp add: digits10.simps [of n] digits_val_snoc)
  qed
qed

lemma length_digits10_le: "n < 10 ^ Suc k \<Longrightarrow> length (digits10 n) \<le> Suc k"
proof (induction k arbitrary: n)
  case 0
  then show ?case by (simp add: digits10.simps [of n])
next
  case (Suc k)
  show ?case
  proof (cases "n < 10")
    case True
    then show ?thesis by (simp add: digits10.simps [of n])
  next
    case False
    from Suc.prems have "n div 10 < 10 ^ Suc k" by simp
    with Suc.IH have "length (digits10 (n div 10)) \<le> Suc k" by blast
    with False show ?thesis by (simp add: digits10.simps [of n])
  qed
qed

lemma is_digit_NUL [simp]: "\<not> is_digit NUL" and is_digit_colon [simp]: "\<not> is_digit (CHR '':'')"
  by (simp_all add: is_digit_def)

lemma digits10_no [simp]: "0 \<le> n \<Longrightarrow> \<not> is_digit c \<Longrightarrow> c \<notin> set (digits10 n)"
  using digits10_all_digits by blast

lemma fmt_d_nonneg [simp]: "0 \<le> n \<Longrightarrow> fmt_d n = digits10 n"
  by (simp add: fmt_d_def)

lemma hd_digits10: "0 \<le> n \<Longrightarrow> is_digit (hd (digits10 n))"
  using digits10_all_digits [of n] by (simp add: hd_in_set)

lemma is_digit_not_space: "is_digit c \<Longrightarrow> \<not> is_space c"
  by (auto simp: is_digit_def is_space_def)

text \<open>Reading back what \<open>%d\<close> printed, for a number that fits a \<open>long\<close>.\<close>

lemma strtol10_digits10:
  assumes "0 \<le> n" and "n < 2 ^ (w - 1)" and "rest = [] \<or> \<not> is_digit (hd rest)"
  shows "strtol10 w (digits10 n @ rest) = n"
proof -
  define t where "t = digits10 n @ rest"
  have h: "is_digit (hd t)" "t \<noteq> []" using hd_digits10 assms(1) by (simp_all add: t_def)
  have ws: "dropWhile is_space t = t"
    using h is_digit_not_space by (cases t) auto
  have sign: "hd t \<noteq> CHR ''-''" "hd t \<noteq> CHR ''+''"
    using h by (auto simp: is_digit_def)
  have "takeWhile is_digit rest = []"
    using assms(3) by (cases rest) simp_all
  moreover have "takeWhile is_digit t = digits10 n @ takeWhile is_digit rest"
    unfolding t_def by (rule takeWhile_append2) (use digits10_all_digits [OF assms(1)] in blast)
  ultimately have tw: "takeWhile is_digit t = digits10 n" by simp
  have "strtol10 w t = min (digits_val (takeWhile is_digit t)) (2 ^ (w - 1) - 1)"
    unfolding strtol10_def Let_def ws using sign by simp
  also have "\<dots> = n" using assms(1,2) by (simp add: tw)
  finally show ?thesis by (simp add: t_def)
qed

end
