(* ===== verification/C_Float.thy ===== *)
theory C_Float
  imports C_String Complex_Main
begin

text \<open>
  The C types \<open>float\<close> and \<open>double\<close> as IEEE-754 binary32 and binary64 values: a finite value
  is a rational number, and every operation rounds its exact result to the nearest
  representable number, ties to even. The two zeros are not told apart; no code modelled
  here divides by a computed value or prints a zero's sign.

  \<open>strtod\<close> reads decimal and hexadecimal notation, infinities and NaNs; \<open>fmt_f2\<close> is
  \<open>printf\<close>'s \<open>%.2f\<close>.
\<close>

section \<open>Values and rounding\<close>

datatype cfloat = Fin rat | PInf | NInf | NaN

definition pow2 :: "int \<Rightarrow> rat" where
  "pow2 e = (if 0 \<le> e then 2 ^ nat e else 1 / 2 ^ nat (- e))"

function bit_length :: "int \<Rightarrow> int" where
  "bit_length n = (if n \<le> 0 then 0 else 1 + bit_length (n div 2))"
  by pat_completeness auto
termination
  by (relation "measure nat") auto

declare bit_length.simps [simp del]

text \<open>\<open>\<lfloor>log\<^sub>2 x\<rfloor>\<close> for a positive rational.\<close>

definition floor_log2 :: "rat \<Rightarrow> int" where
  "floor_log2 x = (if 1 \<le> x then bit_length \<lfloor>x\<rfloor> - 1 else - bit_length (\<lceil>1 / x\<rceil> - 1))"

definition round_half_even :: "rat \<Rightarrow> int" where
  "round_half_even x = (let f = \<lfloor>x\<rfloor>; d = x - of_int f in
     if d < 1 / 2 then f else if 1 / 2 < d then f + 1 else if even f then f else f + 1)"

text \<open>Rounding to a binary format with \<open>prec\<close> significant bits and exponents \<open>emin\<close> to \<open>emax\<close>.\<close>

definition fround :: "int \<Rightarrow> int \<Rightarrow> int \<Rightarrow> rat \<Rightarrow> cfloat" where
  "fround prec emin emax x = (if x = 0 then Fin 0 else
     let ulp = pow2 (max (floor_log2 \<bar>x\<bar>) emin - prec + 1);
         r = of_int (round_half_even (x / ulp)) * ulp
     in if pow2 (emax + 1) \<le> \<bar>r\<bar> then (if 0 < x then PInf else NInf) else Fin r)"

abbreviation "round32 \<equiv> fround 24 (-126) 127"
abbreviation "round64 \<equiv> fround 53 (-1022) 1023"

section \<open>Operations\<close>

text \<open>The format of a result is that of the rounding function handed in.\<close>

fun f_add :: "(rat \<Rightarrow> cfloat) \<Rightarrow> cfloat \<Rightarrow> cfloat \<Rightarrow> cfloat" where
  "f_add r (Fin x) (Fin y) = r (x + y)"
| "f_add r NaN y = NaN"
| "f_add r x NaN = NaN"
| "f_add r PInf NInf = NaN"
| "f_add r NInf PInf = NaN"
| "f_add r PInf y = PInf"
| "f_add r x PInf = PInf"
| "f_add r NInf y = NInf"
| "f_add r x NInf = NInf"

fun f_neg :: "cfloat \<Rightarrow> cfloat" where
  "f_neg (Fin x) = Fin (- x)" | "f_neg PInf = NInf" | "f_neg NInf = PInf" | "f_neg NaN = NaN"

definition f_sub :: "(rat \<Rightarrow> cfloat) \<Rightarrow> cfloat \<Rightarrow> cfloat \<Rightarrow> cfloat" where
  "f_sub r x y = f_add r x (f_neg y)"

text \<open>Multiplication and division by a positive constant, the only ones the firmware uses.\<close>

definition f_scale :: "(rat \<Rightarrow> cfloat) \<Rightarrow> cfloat \<Rightarrow> rat \<Rightarrow> cfloat" where
  "f_scale r x c = (case x of Fin v \<Rightarrow> r (v * c) | _ \<Rightarrow> x)"

definition f_cast :: "(rat \<Rightarrow> cfloat) \<Rightarrow> cfloat \<Rightarrow> cfloat" where
  "f_cast r x = (case x of Fin v \<Rightarrow> r v | _ \<Rightarrow> x)"

text \<open>Comparisons are false on a NaN, except \<open>!=\<close>.\<close>

fun f_less :: "cfloat \<Rightarrow> cfloat \<Rightarrow> bool" where
  "f_less (Fin x) (Fin y) = (x < y)"
| "f_less (Fin x) PInf = True"
| "f_less NInf (Fin y) = True"
| "f_less NInf PInf = True"
| "f_less _ _ = False"

definition f_eq :: "cfloat \<Rightarrow> cfloat \<Rightarrow> bool" where
  "f_eq x y \<longleftrightarrow> x \<noteq> NaN \<and> y \<noteq> NaN \<and> x = y"

definition f_ne :: "cfloat \<Rightarrow> cfloat \<Rightarrow> bool" where
  "f_ne x y \<longleftrightarrow> \<not> f_eq x y"

definition f_le :: "cfloat \<Rightarrow> cfloat \<Rightarrow> bool" where
  "f_le x y \<longleftrightarrow> f_less x y \<or> f_eq x y"

section \<open>Text\<close>

text \<open>\<open>%.2f\<close>: the exact value, rounded half to even at the second decimal.\<close>

definition fmt_f2 :: "cfloat \<Rightarrow> string" where
  "fmt_f2 x = (case x of
       Fin v \<Rightarrow> (let n = round_half_even (\<bar>v\<bar> * 100) in
          (if v < 0 then ''-'' else []) @ digits10 (n div 100) @ ''.'' @
          [digit_char (n div 10 mod 10), digit_char (n mod 10)])
     | PInf \<Rightarrow> ''inf'' | NInf \<Rightarrow> ''-inf'' | NaN \<Rightarrow> ''nan'')"

definition to_lower :: "char \<Rightarrow> char" where
  "to_lower c = (let i = index_of c ''ABCDEFGHIJKLMNOPQRSTUVWXYZ'' in
     if i < 26 then ''abcdefghijklmnopqrstuvwxyz'' ! i else c)"

definition hex_val :: "char \<Rightarrow> int option" where
  "hex_val c = (let i = index_of (to_lower c) ''0123456789abcdef'' in
     if i < 16 then Some (int i) else None)"

definition is_hex :: "char \<Rightarrow> bool" where
  "is_hex c \<longleftrightarrow> hex_val c \<noteq> None"

text \<open>
  A mantissa in base \<open>b\<close>: the value of its digits, the number of fraction digits, the number
  of digits in all and the text that follows.
\<close>

definition scan_mantissa :: "(char \<Rightarrow> bool) \<Rightarrow> (char \<Rightarrow> int) \<Rightarrow> int \<Rightarrow> string \<Rightarrow> int \<times> nat \<times> nat \<times> string" where
  "scan_mantissa dig val b s = (let ip = takeWhile dig s;
       r = drop (length ip) s;
       fp = (if r \<noteq> [] \<and> hd r = CHR ''.'' then takeWhile dig (tl r) else []);
       r' = (if r \<noteq> [] \<and> hd r = CHR ''.'' then drop (length fp) (tl r) else r)
     in (foldl (\<lambda>a c. b * a + val c) 0 (ip @ fp), length fp, length ip + length fp, r'))"

text \<open>An optional exponent introduced by \<open>e\<close>.\<close>

definition scan_exponent :: "char \<Rightarrow> string \<Rightarrow> int" where
  "scan_exponent e s = (if s \<noteq> [] \<and> to_lower (hd s) = e then
       let t = tl s;
           neg = (t \<noteq> [] \<and> hd t = CHR ''-'');
           u = (if t \<noteq> [] \<and> (hd t = CHR ''-'' \<or> hd t = CHR ''+'') then tl t else t);
           v = digits_val (takeWhile is_digit u)
       in if neg then - v else v
     else 0)"

definition rat_power :: "rat \<Rightarrow> int \<Rightarrow> rat" where
  "rat_power b e = (if 0 \<le> e then b ^ nat e else 1 / b ^ nat (- e))"

text \<open>
  \<open>strtod(s, NULL)\<close>: optional white space and sign, then a number, \<open>inf\<close> or \<open>nan\<close>;
  0 when there is none.
\<close>

definition strtod :: "string \<Rightarrow> cfloat" where
  "strtod s = (let t = dropWhile is_space s;
       neg = (t \<noteq> [] \<and> hd t = CHR ''-'');
       u = (if t \<noteq> [] \<and> (hd t = CHR ''-'' \<or> hd t = CHR ''+'') then tl t else t);
       l = map to_lower u;
       (hm, hf, hn, hr) = scan_mantissa is_hex (\<lambda>c. the (hex_val c)) 16 (drop 2 u);
       (dm, df, dn, dr) = scan_mantissa is_digit digit_val 10 u;
       mag = (if is_prefix ''inf'' l then PInf
              else if is_prefix ''nan'' l then NaN
              else if is_prefix ''0x'' l \<and> 0 < hn
                then round64 (of_int hm * rat_power 2 (scan_exponent CHR ''p'' hr - 4 * int hf))
              else if 0 < dn
                then round64 (of_int dm * rat_power 10 (scan_exponent CHR ''e'' dr - int df))
              else Fin 0)
     in if neg then f_neg mag else mag)"

lemma floor_rat_numeral:
  "\<lfloor>(numeral a / numeral b :: rat)\<rfloor> = numeral a div numeral b"
  "\<lfloor>(1 / numeral b :: rat)\<rfloor> = 1 div numeral b"
  "\<lfloor>(- numeral a / numeral b :: rat)\<rfloor> = - numeral a div numeral b"
  using floor_divide_of_int_eq [of "numeral a" "numeral b", where 'a = rat]
    floor_divide_of_int_eq [of 1 "numeral b", where 'a = rat]
    floor_divide_of_int_eq [of "- numeral a" "numeral b", where 'a = rat]
  by simp_all

lemma ceiling_rat_numeral:
  "\<lceil>(numeral a / numeral b :: rat)\<rceil> = - (- numeral a div numeral b)"
  "\<lceil>(1 / numeral b :: rat)\<rceil> = - (- 1 div numeral b)"
  using floor_divide_of_int_eq [of "- numeral a" "numeral b", where 'a = rat]
    floor_divide_of_int_eq [of "- 1" "numeral b", where 'a = rat]
  by (simp_all add: ceiling_def)

text \<open>What evaluates the functions above on concrete values, by simplification.\<close>

lemmas float_eval = strtod_def scan_mantissa_def scan_exponent_def rat_power_def to_lower_def hex_val_def
  is_hex_def is_space_def is_digit_def digit_val_def index_of_def digits_val_def Let_def fround_def
  floor_log2_def round_half_even_def pow2_def bit_length.simps f_cast_def f_scale_def
  floor_rat_numeral ceiling_rat_numeral

section \<open>Facts\<close>

lemma f_less_irrefl [simp]: "\<not> f_less x x"
  by (cases x) auto

lemma f_less_asym: "f_less x y \<Longrightarrow> \<not> f_less y x"
  by (cases "(x, y)" rule: f_less.cases) auto

lemma f_less_trans: "f_less x y \<Longrightarrow> f_less y z \<Longrightarrow> f_less x z"
  by (cases x; cases y; cases z) auto

lemma f_linear: "x \<noteq> NaN \<Longrightarrow> y \<noteq> NaN \<Longrightarrow> f_less x y \<or> x = y \<or> f_less y x"
  by (cases x; cases y) auto

lemma f_le_refl: "x \<noteq> NaN \<Longrightarrow> f_le x x"
  by (simp add: f_le_def f_eq_def)

lemma f_less_not_NaN: "f_less x y \<Longrightarrow> x \<noteq> NaN \<and> y \<noteq> NaN"
  by (cases x; cases y) auto

lemma not_f_less_iff: "x \<noteq> NaN \<Longrightarrow> y \<noteq> NaN \<Longrightarrow> \<not> f_less x y \<longleftrightarrow> f_le y x"
  by (cases x; cases y) (auto simp: f_le_def f_eq_def)

lemma round_half_even_bounds: "x - 1 / 2 \<le> of_int (round_half_even x) \<and> of_int (round_half_even x) \<le> x + 1 / 2"
  by (auto simp: round_half_even_def Let_def) linarith+

lemma round_half_even_mono_int: "x \<le> of_int k \<Longrightarrow> round_half_even x \<le> k"
  by (auto simp: round_half_even_def Let_def floor_le_iff)

text \<open>The text of a value below \<open>10\<^sup>k\<close> in magnitude has at most \<open>k + 5\<close> characters.\<close>

lemma length_fmt_f2_le:
  assumes "\<bar>v\<bar> < 10 ^ Suc k"
  shows "length (fmt_f2 (Fin v)) \<le> Suc k + 5"
proof -
  define n where "n = round_half_even (\<bar>v\<bar> * 100)"
  from assms have "\<bar>v\<bar> * 100 \<le> of_int (10 ^ Suc k * 100)" by simp
  then have "n \<le> 10 ^ Suc k * 100" unfolding n_def by (rule round_half_even_mono_int)
  then have "n div 100 \<le> 10 ^ Suc k" by simp
  then have "n div 100 < 10 ^ Suc (Suc k)" by (rule le_less_trans) simp
  then have "length (digits10 (n div 100)) \<le> Suc (Suc k)" by (rule length_digits10_le)
  moreover have "fmt_f2 (Fin v) = (if v < 0 then ''-'' else []) @ digits10 (n div 100) @ ''.'' @
      [digit_char (n div 10 mod 10), digit_char (n mod 10)]"
    unfolding fmt_f2_def n_def Let_def cfloat.case by (rule refl)
  ultimately show ?thesis by simp
qed

text \<open>Values whose text has at most \<open>k\<close> characters.\<close>

definition short_text :: "nat \<Rightarrow> cfloat \<Rightarrow> bool" where
  "short_text k x \<longleftrightarrow> length (fmt_f2 x) \<le> k"

lemma short_text_Fin: "\<bar>v\<bar> < 10 ^ Suc k \<Longrightarrow> short_text (Suc k + 5) (Fin v)"
  unfolding short_text_def by (rule length_fmt_f2_le)

section \<open>Exact results\<close>

text \<open>A value that is a multiple of the unit in its last place is its own rounding.\<close>

lemma pow2_pos [simp]: "0 < pow2 e"
  by (simp add: pow2_def)

lemma pow2_powi: "pow2 e = 2 powi e"
  by (auto simp: pow2_def power_int_def field_simps)

lemma pow2_add: "pow2 (a + b) = pow2 a * pow2 b"
  by (simp add: pow2_powi power_int_add)

lemma pow2_le: "a \<le> b \<Longrightarrow> pow2 a \<le> pow2 b"
  by (simp add: pow2_powi power_int_increasing)

lemma bit_length_bounds:
  "0 < n \<Longrightarrow> 0 < bit_length n \<and> pow2 (bit_length n - 1) \<le> of_int n \<and> of_int n < pow2 (bit_length n)"
proof (induction n rule: bit_length.induct)
  case (1 n)
  show ?case
  proof (cases "n = 1")
    case True
    then show ?thesis by (simp add: bit_length.simps [of 1] bit_length.simps [of 0] pow2_def)
  next
    case False
    with 1 have n: "0 < n div 2" "\<not> n \<le> 0" by auto
    let ?l = "bit_length (n div 2)"
    from 1(1) [OF n(2,1)] have IH: "0 < ?l" "pow2 (?l - 1) \<le> of_int (n div 2)" "of_int (n div 2) < pow2 ?l" by auto
    have bl: "bit_length n = 1 + ?l" using n(2) by (simp add: bit_length.simps [of n])
    have "of_int (n div 2) + 1 \<le> pow2 ?l"
    proof -
      have "pow2 ?l = of_int (2 ^ nat ?l)" using IH(1) by (simp add: pow2_def)
      with IH(3) have "n div 2 < 2 ^ nat ?l" by (metis of_int_less_iff)
      then have "n div 2 + 1 \<le> 2 ^ nat ?l" by simp
      then have "of_int (n div 2 + 1) \<le> (of_int (2 ^ nat ?l) :: rat)" by (simp only: of_int_le_iff)
      with \<open>pow2 ?l = of_int (2 ^ nat ?l)\<close> show ?thesis by simp
    qed
    moreover have "2 * (n div 2) \<le> n" "n < 2 * (n div 2 + 1)" by auto
    then have "of_int (2 * (n div 2)) \<le> (of_int n :: rat)" "of_int n < (of_int (2 * (n div 2 + 1)) :: rat)"
      by (simp_all only: of_int_le_iff of_int_less_iff)
    then have "2 * of_int (n div 2) \<le> (of_int n :: rat)" "of_int n < (2 * (of_int (n div 2) + 1) :: rat)"
      by simp_all
    moreover have "pow2 (bit_length n - 1) = 2 * pow2 (?l - 1)" "pow2 (bit_length n) = 2 * pow2 ?l"
      using pow2_add [of 1 "?l - 1"] pow2_add [of 1 ?l] by (simp_all add: bl pow2_def)
    ultimately show ?thesis using IH bl by simp
  qed
qed

lemma bit_length_Suc_le: "0 < n \<Longrightarrow> of_int n + 1 \<le> pow2 (bit_length n)"
proof -
  assume "0 < n"
  from bit_length_bounds [OF this] have "0 < bit_length n" "of_int n < pow2 (bit_length n)" by auto
  moreover from this(1) have p: "pow2 (bit_length n) = of_int (2 ^ nat (bit_length n))" by (simp add: pow2_def)
  ultimately have "n < 2 ^ nat (bit_length n)" by (metis of_int_less_iff)
  then have "n + 1 \<le> 2 ^ nat (bit_length n)" by simp
  then have "of_int (n + 1) \<le> (of_int (2 ^ nat (bit_length n)) :: rat)" by (simp only: of_int_le_iff)
  then show ?thesis by (simp add: p)
qed

lemma floor_log2_le:
  assumes "0 < x" shows "pow2 (floor_log2 x) \<le> x"
proof (cases "1 \<le> x")
  case True
  then have "0 < \<lfloor>x\<rfloor>" by simp
  from bit_length_bounds [OF this] have "pow2 (bit_length \<lfloor>x\<rfloor> - 1) \<le> of_int \<lfloor>x\<rfloor>" by simp
  also have "\<dots> \<le> x" by simp
  finally show ?thesis using True by (simp add: floor_log2_def)
next
  case False
  define n where "n = \<lceil>1 / x\<rceil> - 1"
  have "1 < 1 / x" using False assms by simp
  then have "0 < n" by (simp add: n_def less_ceiling_iff)
  have "1 / x \<le> of_int n + 1" by (simp add: n_def)
  also have "\<dots> \<le> pow2 (bit_length n)" using \<open>0 < n\<close> by (rule bit_length_Suc_le)
  finally have "1 / pow2 (bit_length n) \<le> x" using assms by (simp add: field_simps)
  moreover have "pow2 (- bit_length n) = 1 / pow2 (bit_length n)"
    by (simp add: pow2_powi power_int_minus divide_inverse)
  ultimately show ?thesis using False by (simp add: floor_log2_def n_def)
qed

lemma round_half_even_int: "round_half_even (of_int k) = k"
  by (simp add: round_half_even_def Let_def)

lemma floor_log2_less:
  assumes "0 < x" and "x < pow2 k" shows "floor_log2 x < k"
proof (rule ccontr)
  assume "\<not> floor_log2 x < k"
  then have "pow2 k \<le> pow2 (floor_log2 x)" by (intro pow2_le) simp
  with floor_log2_le [OF assms(1)] assms(2) show False by simp
qed

text \<open>A multiple \<open>m \<cdot> 2\<^sup>q\<close> of a power of two with \<open>|m| < 2\<^sup>p\<^sup>r\<^sup>e\<^sup>c\<close> is representable.\<close>

lemma fround_exact:
  assumes x: "x = of_int m * pow2 q" and m: "\<bar>of_int m\<bar> < pow2 prec"
    and q: "emin - prec + 1 \<le> q" "q + prec \<le> emax + 1"
  shows "fround prec emin emax x = Fin x"
proof (cases "x = 0")
  case True
  then show ?thesis by (simp add: fround_def)
next
  case False
  have ax: "\<bar>x\<bar> = \<bar>of_int m\<bar> * pow2 q" by (simp add: x abs_mult abs_of_pos)
  have less: "\<bar>x\<bar> < pow2 (q + prec)"
    unfolding ax pow2_add using m by (simp add: mult.commute)
  define u where "u = max (floor_log2 \<bar>x\<bar>) emin - prec + 1"
  have u: "u \<le> q" using floor_log2_less [OF _ less] False q(1) by (simp add: u_def)
  have pu: "pow2 q = pow2 u * pow2 (q - u)" by (simp add: pow2_add [symmetric])
  have "pow2 (q - u) = of_int (2 ^ nat (q - u))" using u by (simp add: pow2_def)
  then have xu: "x / pow2 u = of_int (m * 2 ^ nat (q - u))"
    using pow2_pos [of u] by (simp add: x pu less_imp_neq [symmetric] del: pow2_pos)
  have "of_int (round_half_even (x / pow2 u)) * pow2 u = x"
    unfolding xu round_half_even_int using xu pow2_pos [of u] by (simp add: field_simps)
  moreover have "\<bar>x\<bar> < pow2 (emax + 1)" using less pow2_le [OF q(2)] by simp
  ultimately show ?thesis using False by (simp add: fround_def u_def [symmetric] Let_def)
qed

lemma floor_log2_upper:
  assumes "0 < x" shows "x < pow2 (floor_log2 x + 1)"
proof (cases "1 \<le> x")
  case True
  then have "0 < \<lfloor>x\<rfloor>" by simp
  from bit_length_Suc_le [OF this] have "of_int \<lfloor>x\<rfloor> + 1 \<le> pow2 (bit_length \<lfloor>x\<rfloor>)" .
  moreover have "x < of_int \<lfloor>x\<rfloor> + 1" by linarith
  ultimately show ?thesis using True by (simp add: floor_log2_def)
next
  case False
  define n where "n = \<lceil>1 / x\<rceil> - 1"
  have "1 < 1 / x" using False assms by simp
  then have "0 < n" by (simp add: n_def less_ceiling_iff)
  from bit_length_bounds [OF this] have "pow2 (bit_length n - 1) \<le> of_int n" by simp
  also have "of_int n < 1 / x" by (simp add: n_def) linarith
  finally have "x < 1 / pow2 (bit_length n - 1)" using assms by (simp add: field_simps)
  also have "1 / pow2 (bit_length n - 1) = pow2 (1 - bit_length n)"
    using power_int_minus [of "2 :: rat" "bit_length n - 1"] by (simp add: pow2_powi divide_inverse)
  finally show ?thesis using False by (simp add: floor_log2_def n_def)
qed

end
