(* ===== verification/Sam_Board.thy ===== *)
theory Sam_Board
  imports C_Float
begin

text \<open>
  What the firmware of the SAM micro-controller sees of the Arduino core, which is not part of
  this repository: the constants of \<open>Arduino.h\<close> and its \<open>abs\<close> macro as a record of parameters, the
  levels on the pins as functions, and the calls that drive the pins as a list of events.
  \<open>board_ok\<close> is what \<open>Arduino.h\<close> documents of the constants.

  Messages are built with \<open>sprintf\<close> in a local buffer of 64 characters; printing more than 63
  is undefined behaviour.
\<close>

record board =
  INPUT :: int
  OUTPUT :: int
  INPUT_PULLUP :: int
  HIGH :: int
  LOW :: int
  arduino_abs :: "cfloat \<Rightarrow> cfloat"

record pin_levels =
  digitalRead :: "int \<Rightarrow> int"
  analogRead :: "int \<Rightarrow> int"

text \<open>
  The calls, with their arguments as the code writes them: what the core converts the value of
  \<open>analogWrite\<close> to is declared there.
\<close>

datatype hw_event = PinMode int int | DigitalWrite int int | AnalogWrite int cfloat

definition board_ok :: "board \<Rightarrow> bool" where
  "board_ok b \<longleftrightarrow> distinct [INPUT b, OUTPUT b, INPUT_PULLUP b] \<and> HIGH b \<noteq> LOW b"

text \<open>The values the SAM core uses, for concrete runs.\<close>

definition sam3x :: board where
  "sam3x = \<lparr>INPUT = 0, OUTPUT = 1, INPUT_PULLUP = 2, HIGH = 1, LOW = 0,
            arduino_abs = (\<lambda>x. if f_less (Fin 0) x then x else f_neg x)\<rparr>"

lemma board_ok_sam3x: "board_ok sam3x"
  by (simp add: board_ok_def sam3x_def)

definition sprintf_buf :: "nat \<Rightarrow> string \<Rightarrow> string option" where
  "sprintf_buf n s = (if length s < n then Some s else None)"

text \<open>
  The last lines of every report function: \<open>-1\<close> when the message does not fit into the space
  left, otherwise the message is copied to the caller's buffer and its length returned.
\<close>

definition report_result :: "string \<Rightarrow> int \<Rightarrow> int \<times> string" where
  "report_result msg space = (if int (length msg) > space then (-1, []) else (int (length msg), msg))"

lemma report_result_fits:
  "report_result msg space = (r, out) \<Longrightarrow> r = -1 \<or> r = int (length out) \<and> int (length out) \<le> space"
  by (auto simp: report_result_def split: if_splits)

lemma sprintf_buf_Some: "sprintf_buf n s = Some t \<longleftrightarrow> length s < n \<and> t = s"
  by (auto simp: sprintf_buf_def)

section \<open>Fields of a command\<close>

text \<open>
  \<open>action = strtok(\<dots>, ":")\<close> followed by a use of \<open>action\<close>, which dereferences NULL when no
  field is left.
\<close>

definition first_field :: "string \<Rightarrow> nat \<Rightarrow> (string \<times> tok_state) option" where
  "first_field buf p = do {
     (tok, t) \<leftarrow> strtok_at buf p CHR '':''; s \<leftarrow> token_str tok t; Some (s, t) }"

definition next_field :: "tok_state \<Rightarrow> (string \<times> tok_state) option" where
  "next_field t = do {
     (tok, t') \<leftarrow> strtok_next t CHR '':''; s \<leftarrow> token_str tok t'; Some (s, t') }"

section \<open>The loops of \<open>ReportStatus\<close>\<close>

text \<open>
  \<open>ReportStatus\<close> (HardwareDaemon.ino) has the same loop three times, once per kind of pin: each
  pin's report function is handed the free part of the transmit buffer and the space left; the
  loop ends at the first negative result, and \<open>TxBufPtr\<close> advances by the others. A report function
  copies its message, with the terminating NUL, only when it is not empty. The result of the loop
  is the pin that failed, if one did, the pins, the buffer, the offset and the hardware events.
\<close>

abbreviation BUF_SIZE :: nat where "BUF_SIZE \<equiv> 1024"

type_synonym 'p report_fun = "'p \<Rightarrow> int \<Rightarrow> (int \<times> string \<times> 'p \<times> hw_event list) option"

fun report_pins ::
    "'p report_fun \<Rightarrow> 'p list \<Rightarrow> string \<Rightarrow> nat \<Rightarrow> ('p option \<times> 'p list \<times> string \<times> nat \<times> hw_event list) option" where
  "report_pins rep [] buf ptr = Some (None, [], buf, ptr, [])"
| "report_pins rep (p # ps) buf ptr = do {
     (n, msg, p', ev) \<leftarrow> rep p (int BUF_SIZE - int ptr);
     buf' \<leftarrow> (if msg = [] then Some buf else wr_seq buf ptr (msg @ [NUL]));
     if n < 0 then Some (Some p', p' # ps, buf', ptr, ev)
     else do {
       (failed, ps', buf'', ptr', evs) \<leftarrow> report_pins rep ps buf' (nat (int ptr + n));
       Some (failed, p' # ps', buf'', ptr', ev @ evs) }
   }"

definition no_events :: "('p \<Rightarrow> int \<Rightarrow> (int \<times> string \<times> 'p) option) \<Rightarrow> 'p report_fun" where
  "no_events rep p space = map_option (\<lambda>(n, msg, p'). (n, msg, p', [])) (rep p space)"

section \<open>The contract of a report function\<close>

text \<open>
  \<open>report pin space\<close> either fails with \<open>-1\<close>, handing out nothing, or hands out a message of
  the length it returns that fits into the space it was given.
\<close>

locale reporting =
  fixes report :: "'p report_fun"
  assumes report_fits: "report p space = Some (n, msg, p', ev) \<Longrightarrow> 0 \<le> space \<Longrightarrow>
     n = -1 \<and> msg = [] \<or> n = int (length msg) \<and> int (length msg) \<le> space"
begin

text \<open>
  The loop keeps the buffer's size and what was collected before, never moves the offset past
  \<open>BUF_SIZE\<close>, and appends its messages at the offset.
\<close>

lemma loop_ok:
  assumes "report_pins report ps buf ptr = Some (failed, ps', buf', ptr', ev)"
    and "ptr \<le> BUF_SIZE" and "BUF_SIZE + 2 \<le> length buf"
  shows "ptr \<le> ptr' \<and> ptr' \<le> BUF_SIZE \<and> length buf' = length buf \<and> length ps' = length ps \<and>
         take ptr buf' = take ptr buf"
  using assms
proof (induction ps arbitrary: buf ptr ps' ev)
  case Nil
  then show ?case by simp
next
  case (Cons p ps)
  from Cons.prems(1) obtain n msg p1 ev1 buf1 where
    step: "report p (int BUF_SIZE - int ptr) = Some (n, msg, p1, ev1)"
      "(if msg = [] then Some buf else wr_seq buf ptr (msg @ [NUL])) = Some buf1"
    by (auto split: bind_splits)
  from report_fits [OF step(1)] Cons.prems(2)
  have n: "n = -1 \<and> msg = [] \<or> n = int (length msg) \<and> ptr + length msg \<le> BUF_SIZE" by auto
  have buf1: "length buf1 = length buf" "take ptr buf1 = take ptr buf"
    using step(2) Cons.prems(3) n by (auto simp: wr_seq_Some_iff split: if_splits)
  show ?case
  proof (cases "n < 0")
    case True
    with Cons.prems step buf1 show ?thesis by (auto split: bind_splits)
  next
    case False
    with Cons.prems(1) step obtain ps2 ev2 where
      rec: "report_pins report ps buf1 (nat (int ptr + n)) = Some (failed, ps2, buf', ptr', ev2)"
      "ps' = p1 # ps2"
      by (auto split: bind_splits)
    have le: "nat (int ptr + n) \<le> BUF_SIZE" "ptr \<le> nat (int ptr + n)" using n False by auto
    from Cons.IH [OF rec(1) le(1)] Cons.prems(3) buf1
    have "nat (int ptr + n) \<le> ptr'" "ptr' \<le> BUF_SIZE" "length buf' = length buf" "length ps2 = length ps"
      "take (nat (int ptr + n)) buf' = take (nat (int ptr + n)) buf1"
      by auto
    moreover from this(5) le(2) have "take ptr buf' = take ptr buf1"
      by (metis min_absorb2 take_take min.commute)
    ultimately show ?thesis using le(2) buf1 rec(2) by auto
  qed
qed

text \<open>When every pin reports and the sum of their messages' lengths fits, nothing is lost.\<close>

lemma loop_defined:
  assumes "\<And>p space. p \<in> set ps \<Longrightarrow> \<exists>r. report p space = Some r"
    and "ptr \<le> BUF_SIZE" and "BUF_SIZE + 2 \<le> length buf"
  shows "\<exists>r. report_pins report ps buf ptr = Some r"
  using assms
proof (induction ps arbitrary: buf ptr)
  case Nil
  then show ?case by simp
next
  case (Cons p ps)
  from Cons.prems(1) [of p "int BUF_SIZE - int ptr"] obtain n msg p1 ev1 where
    r: "report p (int BUF_SIZE - int ptr) = Some (n, msg, p1, ev1)" by force
  from report_fits [OF r] Cons.prems(2)
  have n: "n = -1 \<and> msg = [] \<or> n = int (length msg) \<and> ptr + length msg \<le> BUF_SIZE" by auto
  obtain buf1 where b1: "(if msg = [] then Some buf else wr_seq buf ptr (msg @ [NUL])) = Some buf1"
    "length buf1 = length buf"
    using n Cons.prems(3) wr_seq_in [of ptr "msg @ [NUL]" buf] by (cases "msg = []") auto
  have "nat (int ptr + n) \<le> BUF_SIZE" if "\<not> n < 0" using n that by auto
  then obtain r' where "\<not> n < 0 \<longrightarrow> report_pins report ps buf1 (nat (int ptr + n)) = Some r'"
    using Cons.IH [of "nat (int ptr + n)" buf1] Cons.prems b1(2) by (metis list.set_intros(2))
  with r b1(1) show ?case by (cases r') auto
qed

lemma loop_preserves:
  assumes "report_pins report ps buf ptr = Some (failed, ps', buf', ptr', ev)"
    and "\<And>p space n msg p' ev. report p space = Some (n, msg, p', ev) \<Longrightarrow> Q p \<Longrightarrow> Q p'"
    and "\<And>p space n msg p' ev. report p space = Some (n, msg, p', ev) \<Longrightarrow> f p' = f p"
    and "\<forall>p \<in> set ps. Q p"
  shows "(\<forall>p \<in> set ps'. Q p) \<and> map f ps' = map f ps \<and> (\<forall>p. failed = Some p \<longrightarrow> f p \<in> f ` set ps)"
  using assms(1,4)
proof (induction ps arbitrary: buf ptr ps' ev)
  case Nil
  then show ?case by simp
next
  case (Cons p ps)
  from Cons.prems(1) obtain n msg p1 ev1 buf1 where
    step: "report p (int BUF_SIZE - int ptr) = Some (n, msg, p1, ev1)"
      "(if msg = [] then Some buf else wr_seq buf ptr (msg @ [NUL])) = Some buf1"
    by (auto split: bind_splits)
  have p1: "Q p1" "f p1 = f p" using assms(2,3) step(1) Cons.prems(2) by fastforce+
  show ?case
  proof (cases "n < 0")
    case True
    with Cons.prems step p1 show ?thesis by (auto split: bind_splits)
  next
    case False
    with Cons.prems(1) step obtain ps2 ev2 where
      "report_pins report ps buf1 (nat (int ptr + n)) = Some (failed, ps2, buf', ptr', ev2)" "ps' = p1 # ps2"
      by (auto split: bind_splits)
    with Cons.IH Cons.prems(2) p1 show ?thesis by fastforce
  qed
qed

end

end
