(* ===== verification/Sam_Gpio.thy ===== *)
theory Sam_Gpio
  imports Sam_Board
begin

text \<open>
  \<open>SAM/libs/GpioPin.c\<close>: a digital pin of the firmware. Each C function is a definition that
  takes the pin, returns the new one and lists the calls it makes to the Arduino core.
  \<open>GpioPin_Init\<close> ends without a \<open>return\<close> when it succeeds; its result is then \<open>None\<close>
  (no value), which no caller looks at.
\<close>

record gpio_pin =
  g_Enabled :: int
  g_LastReportedEnabled :: int
  g_Direction :: int
  g_LastReportedDirection :: int
  g_Value :: int
  g_LastReportedValue :: int
  g_Id :: int

definition GpioPin_Set :: "board \<Rightarrow> gpio_pin \<Rightarrow> int \<Rightarrow> int \<Rightarrow> bool \<times> gpio_pin \<times> hw_event list" where
  "GpioPin_Set b pin direction value =
     (True, pin\<lparr>g_Direction := direction, g_Value := value\<rparr>,
      if direction = OUTPUT b
      then [PinMode (g_Id pin) (OUTPUT b),
            DigitalWrite (g_Id pin) (if value = HIGH b then HIGH b else LOW b)]
      else [PinMode (g_Id pin) (if value = LOW b then INPUT b else INPUT_PULLUP b)])"

definition GpioPin_Init :: "board \<Rightarrow> gpio_pin \<Rightarrow> int \<Rightarrow> bool option \<times> gpio_pin \<times> hw_event list" where
  "GpioPin_Init b pin i =
     (if i < 22 \<or> 53 < i then (Some False, pin, [])
      else let (_, pin', ev) = GpioPin_Set b
                 (pin\<lparr>g_Id := i, g_Enabled := 0, g_LastReportedEnabled := 0,
                      g_LastReportedDirection := -1, g_LastReportedValue := -1\<rparr>)
                 (INPUT b) (HIGH b)
           in (None, pin', ev))"

definition GpioPin_Enable :: "gpio_pin \<Rightarrow> bool \<times> gpio_pin" where
  "GpioPin_Enable pin = (True, pin\<lparr>g_Enabled := 1\<rparr>)"

definition GpioPin_Disable :: "board \<Rightarrow> gpio_pin \<Rightarrow> bool \<times> gpio_pin \<times> hw_event list" where
  "GpioPin_Disable b pin = (let (_, pin', ev) = GpioPin_Set b pin (INPUT b) (LOW b)
     in (True, pin'\<lparr>g_Enabled := 0\<rparr>, ev))"

definition GpioPin_Read :: "board \<Rightarrow> pin_levels \<Rightarrow> gpio_pin \<Rightarrow> bool \<times> gpio_pin" where
  "GpioPin_Read b lv pin =
     (True, if g_Direction pin = INPUT b \<or> g_Direction pin = INPUT_PULLUP b
            then pin\<lparr>g_Value := digitalRead lv (g_Id pin)\<rparr> else pin)"

definition gpio_state_msg :: "board \<Rightarrow> gpio_pin \<Rightarrow> string" where
  "gpio_state_msg b pin = ''GPIO'' @ fmt_d (g_Id pin) @
     '':dir:'' @ (if g_Direction pin = OUTPUT b then ''Out'' else ''In'') @
     '':val:'' @ (if g_Value pin = HIGH b then ''Hi'' else ''Low'') @ '':'' @ [CHR 0x0A]"

definition GpioPin_Report :: "board \<Rightarrow> pin_levels \<Rightarrow> gpio_pin \<Rightarrow> int \<Rightarrow> (int \<times> string \<times> gpio_pin) option" where
  "GpioPin_Report b lv pin spaceRemaining =
     (if g_LastReportedEnabled pin = g_Enabled pin \<and> g_Enabled pin = 0 then Some (0, [], pin)
      else do {
        let enabledChanged = (g_LastReportedEnabled pin \<noteq> g_Enabled pin);
        let pin1 = (if enabledChanged then pin\<lparr>g_LastReportedEnabled := g_Enabled pin\<rparr> else pin);
        msg1 \<leftarrow> (if enabledChanged
                 then sprintf_buf 64 (''GPIO'' @ fmt_d (g_Id pin) @
                        (if g_Enabled pin = 1 then '':Enabled:'' else '':Disabled:'') @ [CHR 0x0A])
                 else Some []);
        let pin2 = (if g_Direction pin1 = INPUT b \<or> g_Direction pin1 = INPUT_PULLUP b
                    then snd (GpioPin_Read b lv pin1) else pin1);
        let changed = (\<not> enabledChanged \<and> (g_LastReportedDirection pin2 \<noteq> g_Direction pin2 \<or>
                                            g_LastReportedValue pin2 \<noteq> g_Value pin2));
        let pin3 = (if changed then pin2\<lparr>g_LastReportedDirection := g_Direction pin2,
                                         g_LastReportedValue := g_Value pin2\<rparr> else pin2);
        msg \<leftarrow> (if changed then sprintf_buf 64 (gpio_state_msg b pin3) else Some msg1);
        let (r, out) = report_result msg spaceRemaining;
        Some (r, out, pin3)
      })"

text \<open>
  \<open>GpioPin_Process\<close> tokenises the message that starts at index \<open>p\<close> of \<open>buf\<close>.
\<close>

definition gpio_direction :: "board \<Rightarrow> string \<Rightarrow> int option" where
  "gpio_direction b action =
     (if strncmp_eq action ''In'' 2 then Some (INPUT b)
      else if strncmp_eq action ''Out'' 3 then Some (OUTPUT b) else None)"

definition gpio_value :: "board \<Rightarrow> string \<Rightarrow> int option" where
  "gpio_value b action =
     (if strncmp_eq action ''Hi'' 2 then Some (HIGH b)
      else if strncmp_eq action ''Low'' 3 then Some (LOW b) else None)"

definition GpioPin_Process :: "board \<Rightarrow> gpio_pin \<Rightarrow> string \<Rightarrow> nat \<Rightarrow> (bool \<times> gpio_pin \<times> hw_event list) option" where
  "GpioPin_Process b pin buf p = do {
     (action, t) \<leftarrow> first_field buf p;
     if strncmp_eq action ''dir'' 3 then do {
       (action, t) \<leftarrow> next_field t;
       (case gpio_direction b action of
          None \<Rightarrow> Some (False, pin, [])
        | Some direction \<Rightarrow> do {
            (action, t) \<leftarrow> next_field t;
            if \<not> strncmp_eq action ''val'' 3 then Some (False, pin, [])
            else do {
              (action, t) \<leftarrow> next_field t;
              (case gpio_value b action of
                 None \<Rightarrow> Some (False, pin, [])
               | Some value \<Rightarrow> Some (GpioPin_Set b pin direction value)) } }) }
     else if strncmp_eq action ''enable'' 6 then
       (let (r, pin') = GpioPin_Enable pin in Some (r, pin', []))
     else if strncmp_eq action ''disable'' 8 then Some (GpioPin_Disable b pin)
     else Some (False, pin, [])
   }"

section \<open>Properties\<close>

text \<open>A pin as \<open>GpioPin_Init\<close> leaves it and as every operation keeps it.\<close>

definition gpio_inv :: "board \<Rightarrow> gpio_pin \<Rightarrow> bool" where
  "gpio_inv b pin \<longleftrightarrow> 22 \<le> g_Id pin \<and> g_Id pin \<le> 53 \<and> g_Enabled pin \<in> {0, 1} \<and>
     g_LastReportedEnabled pin \<in> {0, 1} \<and> g_Direction pin \<in> {INPUT b, OUTPUT b}"

lemmas gpio_op_defs = GpioPin_Set_def GpioPin_Enable_def GpioPin_Disable_def GpioPin_Read_def Let_def

lemma gpio_Init_inv:
  "22 \<le> i \<Longrightarrow> i \<le> 53 \<Longrightarrow> gpio_inv b (fst (snd (GpioPin_Init b pin i)))"
  by (simp add: GpioPin_Init_def gpio_op_defs gpio_inv_def)

lemma gpio_Set_inv:
  "gpio_inv b pin \<Longrightarrow> d \<in> {INPUT b, OUTPUT b} \<Longrightarrow> gpio_inv b (fst (snd (GpioPin_Set b pin d v)))"
  by (auto simp: gpio_op_defs gpio_inv_def)

lemma gpio_Enable_inv: "gpio_inv b pin \<Longrightarrow> gpio_inv b (snd (GpioPin_Enable pin))"
  by (auto simp: gpio_op_defs gpio_inv_def)

lemma gpio_Disable_inv: "gpio_inv b pin \<Longrightarrow> gpio_inv b (fst (snd (GpioPin_Disable b pin)))"
  by (auto simp: gpio_op_defs gpio_inv_def)

lemma gpio_Report_inv:
  "gpio_inv b pin \<Longrightarrow> GpioPin_Report b lv pin n = Some (r, msg, pin') \<Longrightarrow> gpio_inv b pin'"
  by (auto simp: GpioPin_Report_def gpio_op_defs gpio_inv_def split: if_splits bind_splits prod.splits)

text \<open>Whatever its text, a command leaves the pin alone, sets it, enables it or disables it.\<close>

lemma gpio_Process_cases:
  "GpioPin_Process b pin buf p = Some (r, pin', ev) \<Longrightarrow>
   pin' = pin \<or> (\<exists>d v. (d = INPUT b \<or> d = OUTPUT b) \<and> pin' = fst (snd (GpioPin_Set b pin d v))) \<or>
   pin' = snd (GpioPin_Enable pin) \<or> pin' = fst (snd (GpioPin_Disable b pin))"
  unfolding GpioPin_Process_def
  by (simp add: bind_eq_Some_conv GpioPin_Enable_def gpio_direction_def
      split: if_split_asm option.split_asm prod.split_asm; elim exE conjE disjE; simp; metis fst_conv snd_conv)

lemma gpio_Process_inv:
  "gpio_inv b pin \<Longrightarrow> GpioPin_Process b pin buf p = Some (r, pin', ev) \<Longrightarrow> gpio_inv b pin'"
  by (drule gpio_Process_cases) (auto simp: gpio_op_defs gpio_inv_def)

text \<open>No report overflows the local buffer, and none exceeds the space it was given.\<close>

lemma length_id: "0 \<le> i \<Longrightarrow> i < 100 \<Longrightarrow> length (fmt_d i) \<le> 2"
  using length_digits10_le [of i 1] by simp

lemma length_gpio_state_msg:
  "0 \<le> g_Id pin \<Longrightarrow> g_Id pin < 100 \<Longrightarrow> length (gpio_state_msg b pin) \<le> 24"
  using length_id [of "g_Id pin"] by (simp add: gpio_state_msg_def)

lemma gpio_Report_defined:
  assumes "gpio_inv b pin"
  shows "\<exists>r msg pin'. GpioPin_Report b lv pin n = Some (r, msg, pin')"
proof -
  have i: "0 \<le> g_Id pin" "g_Id pin < 100" using assms by (auto simp: gpio_inv_def)
  have "length (gpio_state_msg b p) < 64" if "g_Id p = g_Id pin" for p
    using length_gpio_state_msg [of p b] i that by simp
  with length_id [OF i] show ?thesis
    by (auto simp: GpioPin_Report_def gpio_op_defs sprintf_buf_def report_result_def)
qed

lemma gpio_Report_fits:
  "GpioPin_Report b lv pin space = Some (n, msg, pin') \<Longrightarrow>
   n = -1 \<and> msg = [] \<or> n = int (length msg) \<and> (0 \<le> space \<longrightarrow> int (length msg) \<le> space)"
  by (auto simp: GpioPin_Report_def Let_def report_result_def split: if_splits bind_splits)

lemma gpio_Report_Id:
  "GpioPin_Report b lv pin space = Some (n, msg, pin') \<Longrightarrow> g_Id pin' = g_Id pin"
  by (auto simp: GpioPin_Report_def gpio_op_defs split: if_splits bind_splits prod.splits)

lemma gpio_Process_Id:
  "GpioPin_Process b pin buf p = Some (r, pin', ev) \<Longrightarrow> g_Id pin' = g_Id pin"
  by (drule gpio_Process_cases) (auto simp: gpio_op_defs)

interpretation gpio_rep: reporting "no_events (GpioPin_Report b lv)"
  by unfold_locales (auto simp: no_events_def dest: gpio_Report_fits)

end
