(* ===== verification/Sam_Adc.thy ===== *)
theory Sam_Adc
  imports Sam_Board
begin

text \<open>
  \<open>SAM/libs/AdcPin.c\<close>: an analogue input. The value reported is the reading of the 10-bit
  converter as a percentage, computed in single precision; it is reported when the threshold
  has changed or when it has moved by more than the threshold since the last report.
\<close>

record adc_pin =
  a_Enabled :: int
  a_LastReportedEnabled :: int
  a_Threshold :: cfloat
  a_LastReportedThreshold :: cfloat
  a_LastReportedValue :: cfloat
  a_Id :: int

definition AdcPin_Init :: "adc_pin \<Rightarrow> int \<Rightarrow> bool \<times> adc_pin" where
  "AdcPin_Init pin i =
     (if i < 0 \<or> 11 < i then (False, pin)
      else (True, pin\<lparr>a_Id := i, a_Enabled := 0, a_LastReportedEnabled := 0, a_Threshold := Fin 5,
                       a_LastReportedThreshold := Fin 5, a_LastReportedValue := Fin 0\<rparr>))"

definition AdcPin_Enable :: "adc_pin \<Rightarrow> bool \<times> adc_pin" where
  "AdcPin_Enable pin = (True, pin\<lparr>a_Enabled := 1\<rparr>)"

definition AdcPin_Disable :: "adc_pin \<Rightarrow> bool \<times> adc_pin" where
  "AdcPin_Disable pin = (True, pin\<lparr>a_Enabled := 0\<rparr>)"

definition adc_percent :: "int \<Rightarrow> cfloat" where
  "adc_percent n = f_scale round32 (f_scale round32 (round32 (of_int n)) 100) (1 / 1024)"

definition adc_state_msg :: "adc_pin \<Rightarrow> cfloat \<Rightarrow> string" where
  "adc_state_msg pin v = ''ADC'' @ fmt_d (a_Id pin) @ '':thresh:'' @ fmt_f2 (a_LastReportedThreshold pin) @
     '':val:'' @ fmt_f2 v @ '':'' @ [CHR 0x0A]"

definition AdcPin_Report :: "board \<Rightarrow> pin_levels \<Rightarrow> adc_pin \<Rightarrow> int \<Rightarrow> (int \<times> string \<times> adc_pin) option" where
  "AdcPin_Report b lv pin spaceRemaining =
     (if a_LastReportedEnabled pin = a_Enabled pin \<and> a_Enabled pin = 0 then Some (0, [], pin)
      else do {
        let enabledChanged = (a_LastReportedEnabled pin \<noteq> a_Enabled pin);
        let pin1 = (if enabledChanged then pin\<lparr>a_LastReportedEnabled := a_Enabled pin\<rparr> else pin);
        msg1 \<leftarrow> (if enabledChanged
                 then sprintf_buf 64 (''ADC'' @ fmt_d (a_Id pin) @
                        (if a_Enabled pin = 1 then '':Enabled:'' else '':Disabled:'') @ [CHR 0x0A])
                 else Some []);
        let v = adc_percent (analogRead lv (a_Id pin1));
        let changed = (\<not> enabledChanged \<and>
              (f_ne (a_Threshold pin1) (a_LastReportedThreshold pin1) \<or>
               f_less (a_Threshold pin1) (arduino_abs b (f_sub round32 v (a_LastReportedValue pin1)))));
        let pin2 = (if changed then pin1\<lparr>a_LastReportedThreshold := a_Threshold pin1,
                                         a_LastReportedValue := v\<rparr> else pin1);
        msg \<leftarrow> (if changed then sprintf_buf 64 (adc_state_msg pin2 v) else Some msg1);
        let (r, out) = report_result msg spaceRemaining;
        Some (r, out, pin2)
      })"

text \<open>
  \<open>AdcPin_Process\<close> ignores its \<open>message\<close> argument and continues the tokenisation of the receive
  buffer that its caller began, whose state it is handed.
\<close>

definition AdcPin_Process :: "adc_pin \<Rightarrow> tok_state \<Rightarrow> (bool \<times> adc_pin) option" where
  "AdcPin_Process pin t = do {
     (action, t) \<leftarrow> next_field t;
     if strncmp_eq action ''enable'' 6 then Some (AdcPin_Enable pin)
     else if strncmp_eq action ''disable'' 8 then Some (AdcPin_Disable pin)
     else if strncmp_eq action ''thresh'' 6 then do {
       (action, t) \<leftarrow> next_field t;
       let threshold = f_cast round32 (strtod action);
       if f_le threshold (Fin 0) then Some (False, pin)
       else Some (True, pin\<lparr>a_Threshold := threshold\<rparr>) }
     else Some (False, pin)
   }"

section \<open>Properties\<close>

definition adc_inv :: "adc_pin \<Rightarrow> bool" where
  "adc_inv pin \<longleftrightarrow> 0 \<le> a_Id pin \<and> a_Id pin \<le> 11 \<and> a_Enabled pin \<in> {0, 1} \<and>
     a_LastReportedEnabled pin \<in> {0, 1} \<and> \<not> f_le (a_Threshold pin) (Fin 0)"

lemmas adc_op_defs = AdcPin_Enable_def AdcPin_Disable_def Let_def

lemma adc_Init_inv: "0 \<le> i \<Longrightarrow> i \<le> 11 \<Longrightarrow> adc_inv (snd (AdcPin_Init pin i))"
  by (simp add: AdcPin_Init_def adc_inv_def f_le_def f_eq_def)

lemma adc_Report_inv:
  "adc_inv pin \<Longrightarrow> AdcPin_Report b lv pin n = Some (r, msg, pin') \<Longrightarrow> adc_inv pin'"
  by (auto simp: AdcPin_Report_def Let_def adc_inv_def split: if_splits bind_splits prod.splits)

lemma adc_Process_inv:
  "adc_inv pin \<Longrightarrow> AdcPin_Process pin t = Some (r, pin') \<Longrightarrow> adc_inv pin'"
  by (auto simp: AdcPin_Process_def adc_op_defs adc_inv_def split: if_splits bind_splits prod.splits)

lemma adc_Report_fits:
  "AdcPin_Report b lv pin space = Some (n, msg, pin') \<Longrightarrow>
   n = -1 \<and> msg = [] \<or> n = int (length msg) \<and> (0 \<le> space \<longrightarrow> int (length msg) \<le> space)"
  by (auto simp: AdcPin_Report_def Let_def report_result_def split: if_splits bind_splits)

lemma adc_Report_Id:
  "AdcPin_Report b lv pin space = Some (n, msg, pin') \<Longrightarrow> a_Id pin' = a_Id pin"
  by (auto simp: AdcPin_Report_def Let_def split: if_splits bind_splits prod.splits)

lemma adc_Process_Id: "AdcPin_Process pin t = Some (r, pin') \<Longrightarrow> a_Id pin' = a_Id pin"
  by (auto simp: AdcPin_Process_def adc_op_defs split: if_splits bind_splits prod.splits)

interpretation adc_rep: reporting "no_events (AdcPin_Report b lv)"
  by unfold_locales (auto simp: no_events_def dest: adc_Report_fits)

text \<open>The percentage of a 10-bit reading is exact: no step of its computation rounds.\<close>

lemma adc_percent_exact:
  assumes "0 \<le> n" and "n < 1024"
  shows "adc_percent n = Fin (of_int (n * 100) / 1024)"
proof -
  have small: "\<bar>of_int n :: rat\<bar> < pow2 24" "\<bar>of_int (n * 100) :: rat\<bar> < pow2 24"
    using assms by (simp_all add: pow2_def)
  have 1: "round32 (of_int n) = Fin (of_int n)"
    using small(1) by (intro fround_exact [where m = n and q = 0]) (simp_all add: pow2_def)
  have 2: "round32 (of_int n * 100) = Fin (of_int n * 100)"
    using small(2) by (intro fround_exact [where m = "n * 100" and q = 0]) (simp_all add: pow2_def)
  have 3: "round32 (of_int n * 100 / 1024) = Fin (of_int n * 100 / 1024)"
    using small(2) by (intro fround_exact [where m = "n * 100" and q = "- 10"]) (simp_all add: pow2_def)
  show ?thesis using 3 by (simp add: adc_percent_def f_scale_def 1 2)
qed

text \<open>With a threshold whose text is short, no report overflows the local buffer of 64 characters.\<close>

definition adc_printable :: "adc_pin \<Rightarrow> bool" where
  "adc_printable pin \<longleftrightarrow> short_text 35 (a_Threshold pin)"

definition levels_ok :: "pin_levels \<Rightarrow> bool" where
  "levels_ok lv \<longleftrightarrow> (\<forall>i. 0 \<le> analogRead lv i \<and> analogRead lv i < 1024)"

lemma adc_percent_short:
  assumes "levels_ok lv"
  shows "short_text 8 (adc_percent (analogRead lv i))"
proof -
  from assms have n: "0 \<le> analogRead lv i" "analogRead lv i < 1024" by (simp_all add: levels_ok_def)
  then have "0 \<le> (of_int (analogRead lv i * 100) :: rat)" "of_int (analogRead lv i * 100) \<le> (102300 :: rat)"
    by (simp_all add: of_int_le_iff [of _ 1023, where 'a = rat, simplified])
  then have "\<bar>of_int (analogRead lv i * 100) / 1024 :: rat\<bar> < 10 ^ Suc 2" by simp
  from short_text_Fin [OF this] show ?thesis by (simp add: adc_percent_exact [OF n] del: of_int_mult)
qed

lemma length_adc_state_msg:
  assumes "0 \<le> a_Id pin" "a_Id pin \<le> 11" "short_text 35 (a_LastReportedThreshold pin)" "short_text 8 v"
  shows "length (adc_state_msg pin v) < 64"
proof -
  have "length (fmt_d (a_Id pin)) \<le> 2"
    using assms(1,2) length_digits10_le [of "a_Id pin" 1] by simp
  with assms(3,4) show ?thesis by (simp add: adc_state_msg_def short_text_def)
qed

lemma adc_Report_defined:
  assumes "adc_inv pin" and "adc_printable pin" and "levels_ok lv"
  shows "\<exists>r msg pin'. AdcPin_Report b lv pin n = Some (r, msg, pin')"
proof -
  have i: "0 \<le> a_Id pin" "a_Id pin \<le> 11" using assms(1) by (simp_all add: adc_inv_def)
  have "length (fmt_d (a_Id pin)) \<le> 2"
    using i length_digits10_le [of "a_Id pin" 1] by simp
  moreover have "length (adc_state_msg (pin\<lparr>a_LastReportedThreshold := a_Threshold pin, a_LastReportedValue := v\<rparr>)
      (adc_percent (analogRead lv k))) < 64" for v k
    using i assms(2) adc_percent_short [OF assms(3), of k]
    by (intro length_adc_state_msg) (simp_all add: adc_printable_def)
  ultimately show ?thesis
    by (simp add: AdcPin_Report_def Let_def sprintf_buf_def report_result_def)
qed

end
