(* ===== verification/Sam_Pwm.thy ===== *)
theory Sam_Pwm
  imports Sam_Board
begin

text \<open>
  \<open>SAM/libs/PwmPin.c\<close>: a pulse-width output with a ramp. \<open>PwmPin_Set\<close> is called on every report
  and moves the duty cycle one ramp step towards the set point.

  \<open>PwmPin_Init\<close>, \<open>PwmPin_Enable\<close> and \<open>PwmPin_Disable\<close> have no \<open>return\<close> statement on their normal
  path, and \<open>PwmPin_Process\<close> none for an unknown action; those results are \<open>None\<close>.
\<close>

record pwm_pin =
  p_Enabled :: int
  p_LastReportedEnabled :: int
  p_PwmValue :: cfloat
  p_LastReportedPwmValue :: cfloat
  p_SetPoint :: cfloat
  p_RampSpeed :: cfloat
  p_LastReportedRampSpeed :: cfloat
  p_Id :: int

text \<open>The next duty cycle: the nested conditionals of \<open>PwmPin_Set\<close>.\<close>

definition pwm_next :: "cfloat \<Rightarrow> cfloat \<Rightarrow> cfloat \<Rightarrow> cfloat" where
  "pwm_next setpoint v ramp =
     (if f_le ramp (Fin 0) then setpoint
      else if f_less v setpoint then
        (if f_less setpoint (f_add round32 v ramp) then setpoint else f_add round32 v ramp)
      else if f_less setpoint v then
        (if f_less (f_sub round32 v ramp) setpoint then setpoint else f_sub round32 v ramp)
      else v)"

definition PwmPin_Set :: "pwm_pin \<Rightarrow> bool \<times> pwm_pin \<times> hw_event list" where
  "PwmPin_Set pin =
     (if f_ne (p_SetPoint pin) (p_PwmValue pin) \<and> f_le (Fin 0) (p_SetPoint pin)
      then let v = pwm_next (p_SetPoint pin) (p_PwmValue pin) (p_RampSpeed pin)
           in (True, pin\<lparr>p_PwmValue := v\<rparr>,
               [AnalogWrite (p_Id pin) (f_scale round64 (f_scale round64 v 255) (1 / 100))])
      else (True, pin, []))"

definition PwmPin_Init :: "pwm_pin \<Rightarrow> int \<Rightarrow> bool option \<times> pwm_pin \<times> hw_event list" where
  "PwmPin_Init pin i =
     (if i < 2 \<or> 13 < i then (Some False, pin, [])
      else let (_, pin', ev) = PwmPin_Set
                 (pin\<lparr>p_Id := i, p_Enabled := 0, p_LastReportedEnabled := 0, p_PwmValue := Fin (-1),
                      p_LastReportedPwmValue := Fin (-1), p_SetPoint := Fin 0, p_RampSpeed := Fin (-1),
                      p_LastReportedRampSpeed := Fin (-1)\<rparr>)
           in (None, pin', ev))"

definition PwmPin_Enable :: "pwm_pin \<Rightarrow> bool option \<times> pwm_pin \<times> hw_event list" where
  "PwmPin_Enable pin =
     (let (_, pin', ev) = PwmPin_Set
            (pin\<lparr>p_Enabled := 1, p_PwmValue := Fin 1, p_SetPoint := Fin 0, p_RampSpeed := Fin (-1)\<rparr>)
      in (None, pin', ev))"

definition PwmPin_Disable :: "board \<Rightarrow> pwm_pin \<Rightarrow> bool option \<times> pwm_pin \<times> hw_event list" where
  "PwmPin_Disable b pin = (None, pin\<lparr>p_Enabled := 0\<rparr>, [PinMode (p_Id pin) (INPUT b)])"

definition pwm_state_msg :: "pwm_pin \<Rightarrow> string" where
  "pwm_state_msg pin = ''PWM'' @ fmt_d (p_Id pin) @ '':val:'' @ fmt_f2 (p_PwmValue pin) @
     '':set:'' @ fmt_f2 (p_SetPoint pin) @ '':ramp:'' @ fmt_f2 (p_RampSpeed pin) @ '':'' @ [CHR 0x0A]"

definition PwmPin_Report :: "pwm_pin \<Rightarrow> int \<Rightarrow> (int \<times> string \<times> pwm_pin \<times> hw_event list) option" where
  "PwmPin_Report pin spaceRemaining =
     (if p_LastReportedEnabled pin = p_Enabled pin \<and> p_Enabled pin = 0 then Some (0, [], pin, [])
      else do {
        let enabledChanged = (p_LastReportedEnabled pin \<noteq> p_Enabled pin);
        let pin1 = (if enabledChanged then pin\<lparr>p_LastReportedEnabled := p_Enabled pin\<rparr> else pin);
        msg1 \<leftarrow> (if enabledChanged
                 then sprintf_buf 64 (''PWM'' @ fmt_d (p_Id pin) @
                        (if p_Enabled pin = 1 then '':Enabled:'' else '':Disabled:'') @ [CHR 0x0A])
                 else Some []);
        let (_, pin2, ev) = PwmPin_Set pin1;
        let changed = (\<not> enabledChanged \<and>
              (f_ne (p_PwmValue pin2) (p_LastReportedPwmValue pin2) \<or>
               f_ne (p_RampSpeed pin2) (p_LastReportedRampSpeed pin2)));
        let pin3 = (if changed then pin2\<lparr>p_LastReportedPwmValue := p_PwmValue pin2,
                                         p_LastReportedRampSpeed := p_RampSpeed pin2\<rparr> else pin2);
        msg \<leftarrow> (if changed then sprintf_buf 64 (pwm_state_msg pin3) else Some msg1);
        let (r, out) = report_result msg spaceRemaining;
        Some (r, out, pin3, ev)
      })"

definition PwmPin_Process ::
    "board \<Rightarrow> pwm_pin \<Rightarrow> string \<Rightarrow> nat \<Rightarrow> (bool option \<times> pwm_pin \<times> hw_event list) option" where
  "PwmPin_Process b pin buf p = do {
     (action, t) \<leftarrow> first_field buf p;
     if strncmp_eq action ''val'' 3 then do {
       (val_text, t) \<leftarrow> next_field t;
       if strspn val_text ''0123456789.'' \<noteq> length val_text then Some (Some False, pin, [])
       else do {
         (action, t) \<leftarrow> next_field t;
         if \<not> strncmp_eq action ''ramp'' 4 then Some (Some False, pin, [])
         else do {
           (ramp_text, t) \<leftarrow> next_field t;
           if strspn ramp_text ''0123456789.-'' \<noteq> length ramp_text then Some (Some False, pin, [])
           else (let (r, pin', ev) = PwmPin_Set
                       (pin\<lparr>p_SetPoint := f_cast round32 (strtod val_text),
                            p_RampSpeed := f_cast round32 (strtod ramp_text)\<rparr>)
                 in Some (Some r, pin', ev)) } } }
     else if strncmp_eq action ''enable'' 6 then Some (PwmPin_Enable pin)
     else if strncmp_eq action ''disable'' 8 then Some (PwmPin_Disable b pin)
     else Some (None, pin, [])
   }"

section \<open>Properties\<close>

definition pwm_inv :: "pwm_pin \<Rightarrow> bool" where
  "pwm_inv pin \<longleftrightarrow> 2 \<le> p_Id pin \<and> p_Id pin \<le> 13 \<and> p_Enabled pin \<in> {0, 1} \<and>
     p_LastReportedEnabled pin \<in> {0, 1}"

lemmas pwm_op_defs = PwmPin_Set_def PwmPin_Enable_def PwmPin_Disable_def Let_def

lemma pwm_Init_inv: "2 \<le> i \<Longrightarrow> i \<le> 13 \<Longrightarrow> pwm_inv (fst (snd (PwmPin_Init pin i)))"
  by (simp add: PwmPin_Init_def pwm_op_defs pwm_inv_def)

lemma pwm_Report_inv:
  "pwm_inv pin \<Longrightarrow> PwmPin_Report pin n = Some (r, msg, pin', ev) \<Longrightarrow> pwm_inv pin'"
  by (auto simp: PwmPin_Report_def pwm_op_defs pwm_inv_def split: if_splits bind_splits prod.splits)

lemma pwm_Process_inv:
  "pwm_inv pin \<Longrightarrow> PwmPin_Process b pin buf p = Some (r, pin', ev) \<Longrightarrow> pwm_inv pin'"
  by (auto simp: PwmPin_Process_def pwm_op_defs pwm_inv_def split: if_splits bind_splits prod.splits)

lemma pwm_Report_fits:
  "PwmPin_Report pin space = Some (n, msg, pin', ev) \<Longrightarrow>
   n = -1 \<and> msg = [] \<or> n = int (length msg) \<and> (0 \<le> space \<longrightarrow> int (length msg) \<le> space)"
  by (auto simp: PwmPin_Report_def Let_def report_result_def split: if_splits bind_splits prod.splits)

lemma pwm_Report_Id: "PwmPin_Report pin space = Some (n, msg, pin', ev) \<Longrightarrow> p_Id pin' = p_Id pin"
  by (auto simp: PwmPin_Report_def pwm_op_defs split: if_splits bind_splits prod.splits)

lemma pwm_Process_Id: "PwmPin_Process b pin buf p = Some (r, pin', ev) \<Longrightarrow> p_Id pin' = p_Id pin"
  by (auto simp: PwmPin_Process_def pwm_op_defs split: if_splits bind_splits prod.splits)

interpretation pwm_rep: reporting PwmPin_Report
  by unfold_locales (auto dest: pwm_Report_fits)

text \<open>
  With values whose texts are short no report overflows the local buffer; a report moves the duty
  cycle first, so the next value has to be short as well.
\<close>

definition pwm_printable :: "pwm_pin \<Rightarrow> bool" where
  "pwm_printable pin \<longleftrightarrow> short_text 13 (p_PwmValue pin) \<and> short_text 13 (p_SetPoint pin) \<and>
     short_text 13 (p_RampSpeed pin) \<and>
     short_text 13 (pwm_next (p_SetPoint pin) (p_PwmValue pin) (p_RampSpeed pin))"

lemma pwm_Report_defined:
  assumes "pwm_inv pin" and "pwm_printable pin"
  shows "\<exists>r msg pin' ev. PwmPin_Report pin n = Some (r, msg, pin', ev)"
proof -
  have "length (fmt_d (p_Id pin)) \<le> 2"
    using assms(1) length_digits10_le [of "p_Id pin" 1] by (simp add: pwm_inv_def)
  then show ?thesis
    using assms(2)
    by (auto simp: PwmPin_Report_def PwmPin_Set_def Let_def sprintf_buf_def report_result_def
        pwm_state_msg_def pwm_printable_def short_text_def split: prod.splits)
qed

section \<open>The ramp\<close>

text \<open>
  One step of the ramp never passes the set point, and when it does not reach it the step is
  exactly one (rounded) addition of the ramp speed.
\<close>

lemma pwm_next_no_overshoot:
  "s \<noteq> NaN \<Longrightarrow> v \<noteq> NaN \<Longrightarrow> pwm_next s v r \<noteq> NaN \<Longrightarrow>
   (f_less v s \<longrightarrow> f_le (pwm_next s v r) s) \<and> (f_less s v \<longrightarrow> f_le s (pwm_next s v r)) \<and> (v = s \<longrightarrow> pwm_next s v r = s)"
proof -
  assume a: "s \<noteq> NaN" "v \<noteq> NaN" "pwm_next s v r \<noteq> NaN"
  have up: "f_le (pwm_next s v r) s" if "f_less v s"
  proof -
    have "pwm_next s v r = s \<or> \<not> f_less s (pwm_next s v r)" using that by (simp add: pwm_next_def)
    then show ?thesis using f_le_refl [OF a(1)] not_f_less_iff [OF a(1,3)] by auto
  qed
  have down: "f_le s (pwm_next s v r)" if "f_less s v"
  proof -
    have "pwm_next s v r = s \<or> \<not> f_less (pwm_next s v r) s"
      using that f_less_asym [OF that] by (simp add: pwm_next_def)
    then show ?thesis using f_le_refl [OF a(1)] not_f_less_iff [OF a(3,1)] by auto
  qed
  show ?thesis using up down by (simp add: pwm_next_def)
qed

end
