(* ===== verification/Sam_Daemon.thy ===== *)
theory Sam_Daemon
  imports Sam_Gpio Sam_Adc Sam_Pwm
begin

text \<open>
  \<open>SAM/HardwareDaemon.ino\<close>: the main loop of the firmware. It owns the pins, the receive and
  the transmit buffer, reads the host's commands character by character, hands a complete line
  to the pin it names and reports what has changed every 20 ms.

  The state is the file's global variables, what was written to the serial port
  (\<open>serial_out\<close>) and the calls made to the Arduino core (\<open>hw\<close>), in order. \<open>TxBufPtr\<close> and
  \<open>RxBufPtr\<close> are offsets. The clock and the characters that are waiting, each with the time \<open>millis\<close> gives while it is
  processed, are arguments of \<open>loop_body\<close>.
  \<open>long\<close> has 32 bits on this processor.
\<close>

record daemon =
  TxBuf :: string
  RxBuf :: string
  TxBufPtr :: nat
  RxBufPtr :: nat
  previousTime :: u32
  GpioPins :: "gpio_pin list"
  AdcPins :: "adc_pin list"
  PwmPins :: "pwm_pin list"
  serial_out :: string
  hw :: "hw_event list"

abbreviation NL :: char where "NL \<equiv> CHR 0x0A"
abbreviation CR :: char where "CR \<equiv> CHR 0x0D"

definition Serial_write :: "string \<Rightarrow> daemon \<Rightarrow> daemon" where
  "Serial_write s d = d\<lparr>serial_out := serial_out d @ s\<rparr>"

definition Serial_println :: "string \<Rightarrow> daemon \<Rightarrow> daemon" where
  "Serial_println s d = Serial_write (s @ [CR, NL]) d"

definition drive :: "hw_event list \<Rightarrow> daemon \<Rightarrow> daemon" where
  "drive ev d = d\<lparr>hw := hw d @ ev\<rparr>"

section \<open>\<open>ResetAll\<close> and \<open>setup\<close>\<close>

definition clear_buf :: "string \<Rightarrow> string option" where
  "clear_buf buf = forM [0..<BUF_SIZE + 1] (\<lambda>i b. wr b i NUL) buf"

definition init_gpio :: "board \<Rightarrow> nat \<Rightarrow> daemon \<Rightarrow> daemon option" where
  "init_gpio b i d = do {
     pin \<leftarrow> rd (GpioPins d) i;
     let (_, pin', ev) = GpioPin_Init b pin (int i + 22);
     pins \<leftarrow> wr (GpioPins d) i pin';
     Some (drive ev (d\<lparr>GpioPins := pins\<rparr>)) }"

definition init_adc_pwm :: "nat \<Rightarrow> daemon \<Rightarrow> daemon option" where
  "init_adc_pwm i d = do {
     apin \<leftarrow> rd (AdcPins d) i;
     apins \<leftarrow> wr (AdcPins d) i (snd (AdcPin_Init apin (int i)));
     ppin \<leftarrow> rd (PwmPins d) i;
     let (_, ppin', ev) = PwmPin_Init ppin (int i + 2);
     ppins \<leftarrow> wr (PwmPins d) i ppin';
     Some (drive ev (d\<lparr>AdcPins := apins, PwmPins := ppins\<rparr>)) }"

definition ResetAll :: "board \<Rightarrow> u32 \<Rightarrow> daemon \<Rightarrow> daemon option" where
  "ResetAll b millis d = do {
     tx \<leftarrow> clear_buf (TxBuf d);
     rx \<leftarrow> clear_buf (RxBuf d);
     d1 \<leftarrow> forM [0..<32] (init_gpio b) (d\<lparr>TxBuf := tx, RxBuf := rx\<rparr>);
     d2 \<leftarrow> forM [0..<12] init_adc_pwm d1;
     Some (d2\<lparr>previousTime := millis, RxBufPtr := 0, TxBufPtr := 0\<rparr>) }"

definition setup_daemon :: "board \<Rightarrow> u32 \<Rightarrow> daemon \<Rightarrow> daemon option" where
  "setup_daemon b millis d = do {
     d1 \<leftarrow> ResetAll b millis (Serial_write (''Beginning initialization process...'' @ [NL]) d);
     Some (Serial_write ''Done initializing!'' d1) }"

section \<open>\<open>ReportStatus\<close>\<close>

definition ReportStatus :: "board \<Rightarrow> pin_levels \<Rightarrow> daemon \<Rightarrow> daemon option" where
  "ReportStatus b lv d = do {
     tx0 \<leftarrow> clear_buf (TxBuf d);
     (failed1, gpins, tx1, ptr1, ev1) \<leftarrow> report_pins (no_events (GpioPin_Report b lv)) (GpioPins d) tx0 0;
     let d1 = drive ev1 (d\<lparr>GpioPins := gpins, TxBuf := tx1, TxBufPtr := ptr1\<rparr>);
     (case failed1 of
        Some p \<Rightarrow> do { e \<leftarrow> sprintf_buf 64 (''Error report GPIO'' @ fmt_d (g_Id p)); Some (Serial_write e d1) }
      | None \<Rightarrow> do {
          (failed2, apins, tx2, ptr2, ev2) \<leftarrow> report_pins (no_events (AdcPin_Report b lv)) (AdcPins d1) tx1 ptr1;
          let d2 = drive ev2 (d1\<lparr>AdcPins := apins, TxBuf := tx2, TxBufPtr := ptr2\<rparr>);
          (case failed2 of
             Some p \<Rightarrow> do { e \<leftarrow> sprintf_buf 64 (''Error report ADC'' @ fmt_d (a_Id p)); Some (Serial_write e d2) }
           | None \<Rightarrow> do {
               (failed3, ppins, tx3, ptr3, ev3) \<leftarrow> report_pins PwmPin_Report (PwmPins d2) tx2 ptr2;
               let d3 = drive ev3 (d2\<lparr>PwmPins := ppins, TxBuf := tx3, TxBufPtr := ptr3\<rparr>);
               (case failed3 of
                  Some p \<Rightarrow> do { e \<leftarrow> sprintf_buf 64 (''Error report PWM'' @ fmt_d (p_Id p)); Some (Serial_write e d3) }
                | None \<Rightarrow> do { out \<leftarrow> rd_seq tx3 0 ptr3; Some (Serial_write out d3) }) }) }) }"

section \<open>\<open>ProcessMessage\<close>\<close>

text \<open>
  \<open>WorkBuf\<close> is an uninitialised local array; the model knows the string copied into it and its
  terminator, and reading behind that is undefined. The first \<open>strtok\<close> cuts \<open>RxBuf\<close>, so the
  number behind \<open>GPIO\<close>, \<open>ADC\<close> or \<open>PWM\<close> is read from the first field.
\<close>

definition clear_rx :: "daemon \<Rightarrow> daemon option" where
  "clear_rx d = do { rx \<leftarrow> clear_buf (RxBuf d); Some (d\<lparr>RxBuf := rx\<rparr>) }"

definition process_gpio :: "board \<Rightarrow> string \<Rightarrow> daemon \<Rightarrow> daemon option" where
  "process_gpio b WorkBuf d = do {
     n \<leftarrow> c_str (RxBuf d) 4;
     let i = strtol10 32 n;
     if i < 22 \<or> 53 < i then Some (Serial_write ''Error: Invalid GPIO'' d)
     else do {
       pin \<leftarrow> rd (GpioPins d) (nat (i - 22));
       (_, pin', ev) \<leftarrow> GpioPin_Process b pin WorkBuf 7;
       pins \<leftarrow> wr (GpioPins d) (nat (i - 22)) pin';
       Some (drive ev (d\<lparr>GpioPins := pins\<rparr>)) } }"

definition process_adc :: "tok_state \<Rightarrow> string \<Rightarrow> daemon \<Rightarrow> daemon option" where
  "process_adc t firstToken d = do {
     let i = strtol10 32 (drop 3 firstToken);
     if i < 0 \<or> 11 < i then Some (Serial_write ''Error: Invalid ADC'' d)
     else do {
       pin \<leftarrow> rd (AdcPins d) (nat i);
       (_, pin') \<leftarrow> AdcPin_Process pin t;
       pins \<leftarrow> wr (AdcPins d) (nat i) pin';
       clear_rx (d\<lparr>AdcPins := pins\<rparr>) } }"

definition process_pwm :: "board \<Rightarrow> string \<Rightarrow> string \<Rightarrow> daemon \<Rightarrow> daemon option" where
  "process_pwm b WorkBuf firstToken d = do {
     let i = strtol10 32 (drop 3 firstToken);
     if i < 2 \<or> 13 < i then Some (Serial_write ''Error: Invalid PWM'' d)
     else do {
       pin \<leftarrow> rd (PwmPins d) (nat (i - 2));
       (_, pin', ev) \<leftarrow> PwmPin_Process b pin WorkBuf (length firstToken + 1);
       pins \<leftarrow> wr (PwmPins d) (nat (i - 2)) pin';
       clear_rx (drive ev (d\<lparr>PwmPins := pins\<rparr>)) } }"

definition ProcessMessage :: "board \<Rightarrow> u32 \<Rightarrow> daemon \<Rightarrow> daemon option" where
  "ProcessMessage b millis d = do {
     msg \<leftarrow> c_str (RxBuf d) 0;
     if msg = ''Ping'' then Some (Serial_println ''Pong'' d)
     else if msg = ''Reset'' then do { d1 \<leftarrow> ResetAll b millis d; Some (Serial_println ''Reset'' d1) }
     else if BUF_SIZE < length msg then None
     else do {
       let WorkBuf = msg @ [NUL];
       (firstToken, t) \<leftarrow> first_field (RxBuf d) 0;
       let d1 = d\<lparr>RxBuf := tk_buf t\<rparr>;
       if strncmp_eq firstToken ''GPIO'' 4 then process_gpio b WorkBuf d1
       else if strncmp_eq firstToken ''ADC'' 3 then process_adc t firstToken d1
       else if strncmp_eq firstToken ''PWM'' 3 then process_pwm b WorkBuf firstToken d1
       else clear_rx (Serial_write ''Error: Unsupported peripheral.'' d1) } }"

section \<open>\<open>loop\<close>\<close>

definition recv_char :: "board \<Rightarrow> u32 \<Rightarrow> char \<Rightarrow> daemon \<Rightarrow> daemon option" where
  "recv_char b millis c d = do {
     rx \<leftarrow> wr (RxBuf d) (RxBufPtr d) c;
     if c = NL then do {
       rx' \<leftarrow> wr rx (RxBufPtr d) NUL;
       d1 \<leftarrow> ProcessMessage b millis (d\<lparr>RxBuf := rx'\<rparr>);
       Some (d1\<lparr>RxBufPtr := 0\<rparr>) }
     else if Suc (RxBufPtr d) = BUF_SIZE
       then Some (Serial_write ''Error: Buffer overflow'' (d\<lparr>RxBuf := rx, RxBufPtr := 0\<rparr>))
     else Some (d\<lparr>RxBuf := rx, RxBufPtr := Suc (RxBufPtr d)\<rparr>) }"

definition loop_body :: "board \<Rightarrow> pin_levels \<Rightarrow> u32 \<Rightarrow> (char \<times> u32) list \<Rightarrow> daemon \<Rightarrow> daemon option" where
  "loop_body b lv currentTime available d = do {
     d1 \<leftarrow> (if currentTime - previousTime d > 20
            then ReportStatus b lv (d\<lparr>previousTime := currentTime\<rparr>) else Some d);
     forM available (\<lambda>(c, millis). recv_char b millis c) d1 }"

section \<open>Power-up state\<close>

definition gpio_reset :: "board \<Rightarrow> nat \<Rightarrow> gpio_pin" where
  "gpio_reset b i = \<lparr>g_Enabled = 0, g_LastReportedEnabled = 0, g_Direction = INPUT b,
     g_LastReportedDirection = -1, g_Value = HIGH b, g_LastReportedValue = -1, g_Id = int i + 22\<rparr>"

definition adc_reset :: "nat \<Rightarrow> adc_pin" where
  "adc_reset i = \<lparr>a_Enabled = 0, a_LastReportedEnabled = 0, a_Threshold = Fin 5,
     a_LastReportedThreshold = Fin 5, a_LastReportedValue = Fin 0, a_Id = int i\<rparr>"

definition pwm_reset :: "nat \<Rightarrow> pwm_pin" where
  "pwm_reset i = \<lparr>p_Enabled = 0, p_LastReportedEnabled = 0, p_PwmValue = Fin 0,
     p_LastReportedPwmValue = Fin (-1), p_SetPoint = Fin 0, p_RampSpeed = Fin (-1),
     p_LastReportedRampSpeed = Fin (-1), p_Id = int i + 2\<rparr>"

lemma clear_buf_eq:
  assumes "BUF_SIZE + 1 \<le> length buf"
  shows "clear_buf buf = Some (replicate (BUF_SIZE + 1) NUL @ drop (BUF_SIZE + 1) buf)"
proof -
  define I where "I k s \<longleftrightarrow> s = replicate k NUL @ drop k buf" for k s
  have "\<exists>s. clear_buf buf = Some s \<and> I (BUF_SIZE + 1) s"
    unfolding clear_buf_def
  proof (rule forM_upt_invariant [where I = I])
    show "I 0 buf" by (simp add: I_def)
  next
    fix k t assume "k < BUF_SIZE + 1" and "I k t"
    with assms have k: "k < length buf" "t = replicate k NUL @ buf ! k # drop (Suc k) buf"
      by (simp_all add: I_def Cons_nth_drop_Suc)
    then have "t[k := NUL] = replicate (Suc k) NUL @ drop (Suc k) buf"
      by (simp add: list_update_append replicate_append_same [symmetric])
    with k show "\<exists>t'. wr t k NUL = Some t' \<and> I (Suc k) t'" by (simp add: I_def)
  qed
  then show ?thesis by (simp add: I_def)
qed

lemma GpioPin_Init_reset:
  "i < 32 \<Longrightarrow> fst (snd (GpioPin_Init b pin (int i + 22))) = gpio_reset b i"
  by (simp add: GpioPin_Init_def GpioPin_Set_def Let_def gpio_reset_def)

lemma AdcPin_Init_reset: "i < 12 \<Longrightarrow> snd (AdcPin_Init pin (int i)) = adc_reset i"
  by (simp add: AdcPin_Init_def adc_reset_def)

lemma PwmPin_Init_reset: "i < 12 \<Longrightarrow> fst (snd (PwmPin_Init pin (int i + 2))) = pwm_reset i"
  by (simp add: PwmPin_Init_def PwmPin_Set_def Let_def pwm_reset_def pwm_next_def f_ne_def f_eq_def
      f_le_def)

lemma list_update_prefix:
  "k < length xs \<Longrightarrow> length ys = k \<Longrightarrow> (ys @ drop k xs)[k := v] = (ys @ [v]) @ drop (Suc k) xs"
  by (simp add: list_update_append Cons_nth_drop_Suc [symmetric])

lemma init_gpio_loop:
  assumes "length (GpioPins d) = 32"
  shows "\<exists>ev. forM [0..<32] (init_gpio b) d =
           Some (d\<lparr>GpioPins := map (gpio_reset b) [0..<32], hw := hw d @ ev\<rparr>)"
proof -
  define I where "I k s \<longleftrightarrow> (\<exists>ev. s = d\<lparr>GpioPins := map (gpio_reset b) [0..<k] @ drop k (GpioPins d),
      hw := hw d @ ev\<rparr>)" for k s
  have "\<exists>s. forM [0..<32] (init_gpio b) d = Some s \<and> I 32 s"
  proof (rule forM_upt_invariant [where I = I])
    show "I 0 d" unfolding I_def by (intro exI [of _ "[]"]) simp
  next
    fix k :: nat and t assume k: "k < 32" and "I k t"
    then obtain ev where t: "t = d\<lparr>GpioPins := map (gpio_reset b) [0..<k] @ drop k (GpioPins d), hw := hw d @ ev\<rparr>"
      by (auto simp: I_def)
    obtain r pin' ev' where g: "GpioPin_Init b (GpioPins d ! k) (int k + 22) = (r, pin', ev')"
      by (metis prod_cases3)
    then have pin': "pin' = gpio_reset b k" using GpioPin_Init_reset [OF k, of b "GpioPins d ! k"] by simp
    have "init_gpio b k t = Some (d\<lparr>GpioPins := map (gpio_reset b) [0..<Suc k] @ drop (Suc k) (GpioPins d),
            hw := hw d @ (ev @ ev')\<rparr>)"
      using k assms g pin' list_update_prefix [of k "GpioPins d" "map (gpio_reset b) [0..<k]"]
      by (simp add: init_gpio_def t nth_append drive_def)
    then show "\<exists>t'. init_gpio b k t = Some t' \<and> I (Suc k) t'" unfolding I_def by blast
  qed
  with assms show ?thesis by (auto simp: I_def)
qed

lemma init_adc_pwm_loop:
  assumes "length (AdcPins d) = 12" and "length (PwmPins d) = 12"
  shows "\<exists>ev. forM [0..<12] init_adc_pwm d =
           Some (d\<lparr>AdcPins := map adc_reset [0..<12], PwmPins := map pwm_reset [0..<12], hw := hw d @ ev\<rparr>)"
proof -
  define I where "I k s \<longleftrightarrow> (\<exists>ev. s = d\<lparr>AdcPins := map adc_reset [0..<k] @ drop k (AdcPins d),
      PwmPins := map pwm_reset [0..<k] @ drop k (PwmPins d), hw := hw d @ ev\<rparr>)" for k s
  have "\<exists>s. forM [0..<12] init_adc_pwm d = Some s \<and> I 12 s"
  proof (rule forM_upt_invariant [where I = I])
    show "I 0 d" unfolding I_def by (intro exI [of _ "[]"]) simp
  next
    fix k :: nat and t assume k: "k < 12" and "I k t"
    then obtain ev where t: "t = d\<lparr>AdcPins := map adc_reset [0..<k] @ drop k (AdcPins d),
      PwmPins := map pwm_reset [0..<k] @ drop k (PwmPins d), hw := hw d @ ev\<rparr>"
      by (auto simp: I_def)
    obtain r pin' ev' where g: "PwmPin_Init (PwmPins d ! k) (int k + 2) = (r, pin', ev')"
      by (metis prod_cases3)
    then have pin': "pin' = pwm_reset k" using PwmPin_Init_reset [OF k, of "PwmPins d ! k"] by simp
    have "init_adc_pwm k t = Some (d\<lparr>AdcPins := map adc_reset [0..<Suc k] @ drop (Suc k) (AdcPins d),
            PwmPins := map pwm_reset [0..<Suc k] @ drop (Suc k) (PwmPins d), hw := hw d @ (ev @ ev')\<rparr>)"
      using k assms g pin' AdcPin_Init_reset [OF k]
        list_update_prefix [of k "AdcPins d" "map adc_reset [0..<k]"]
        list_update_prefix [of k "PwmPins d" "map pwm_reset [0..<k]"]
      by (simp add: init_adc_pwm_def t nth_append drive_def)
    then show "\<exists>t'. init_adc_pwm k t = Some t' \<and> I (Suc k) t'" unfolding I_def by blast
  qed
  with assms show ?thesis by (auto simp: I_def)
qed

definition daemon_sizes :: "daemon \<Rightarrow> bool" where
  "daemon_sizes d \<longleftrightarrow> length (TxBuf d) = BUF_SIZE + 2 \<and> length (RxBuf d) = BUF_SIZE + 2 \<and>
     length (GpioPins d) = 32 \<and> length (AdcPins d) = 12 \<and> length (PwmPins d) = 12"

lemma ResetAll_eq:
  assumes "daemon_sizes d"
  shows "\<exists>ev. ResetAll b t d = Some (d\<lparr>TxBuf := replicate (BUF_SIZE + 1) NUL @ drop (BUF_SIZE + 1) (TxBuf d),
     RxBuf := replicate (BUF_SIZE + 1) NUL @ drop (BUF_SIZE + 1) (RxBuf d),
     GpioPins := map (gpio_reset b) [0..<32], AdcPins := map adc_reset [0..<12],
     PwmPins := map pwm_reset [0..<12], hw := hw d @ ev, previousTime := t, RxBufPtr := 0, TxBufPtr := 0\<rparr>)"
proof -
  let ?d0 = "d\<lparr>TxBuf := replicate (BUF_SIZE + 1) NUL @ drop (BUF_SIZE + 1) (TxBuf d),
     RxBuf := replicate (BUF_SIZE + 1) NUL @ drop (BUF_SIZE + 1) (RxBuf d)\<rparr>"
  have c: "clear_buf (TxBuf d) = Some (TxBuf ?d0)" "clear_buf (RxBuf d) = Some (RxBuf ?d0)"
    using assms by (simp_all add: daemon_sizes_def clear_buf_eq)
  obtain ev1 where 1: "forM [0..<32] (init_gpio b) ?d0 =
      Some (?d0\<lparr>GpioPins := map (gpio_reset b) [0..<32], hw := hw d @ ev1\<rparr>)" (is "_ = Some ?d1")
    using init_gpio_loop [of ?d0 b] assms by (auto simp: daemon_sizes_def)
  obtain ev2 where 2: "forM [0..<12] init_adc_pwm ?d1 =
      Some (?d1\<lparr>AdcPins := map adc_reset [0..<12], PwmPins := map pwm_reset [0..<12], hw := hw ?d1 @ ev2\<rparr>)"
    using init_adc_pwm_loop [of ?d1] assms by (auto simp: daemon_sizes_def)
  show ?thesis
    using c 1 2 by (intro exI [of _ "ev1 @ ev2"]) (simp add: ResetAll_def del: upt_Suc upt_conv_Cons_Cons upt_rec_numeral)
qed

section \<open>The invariant of the daemon\<close>

text \<open>
  The buffers keep their sizes, the offsets stay inside them, and pin \<open>i\<close> of each array carries
  the number the command syntax gives it and satisfies the invariant of its kind.
\<close>

definition pins_ok :: "('p \<Rightarrow> int) \<Rightarrow> ('p \<Rightarrow> bool) \<Rightarrow> nat \<Rightarrow> int \<Rightarrow> 'p list \<Rightarrow> bool" where
  "pins_ok f Q n base pins \<longleftrightarrow> length pins = n \<and> (\<forall>i < n. f (pins ! i) = int i + base \<and> Q (pins ! i))"

abbreviation "gpio_pins_ok b \<equiv> pins_ok g_Id (gpio_inv b) 32 22"
abbreviation "adc_pins_ok \<equiv> pins_ok a_Id adc_inv 12 0"
abbreviation "pwm_pins_ok \<equiv> pins_ok p_Id pwm_inv 12 2"

definition daemon_inv :: "board \<Rightarrow> daemon \<Rightarrow> bool" where
  "daemon_inv b d \<longleftrightarrow> length (TxBuf d) = BUF_SIZE + 2 \<and> length (RxBuf d) = BUF_SIZE + 2 \<and>
     RxBufPtr d < BUF_SIZE \<and> TxBufPtr d \<le> BUF_SIZE \<and>
     gpio_pins_ok b (GpioPins d) \<and> adc_pins_ok (AdcPins d) \<and> pwm_pins_ok (PwmPins d)"

lemma pins_ok_length: "pins_ok f Q n base pins \<Longrightarrow> length pins = n"
  by (simp add: pins_ok_def)

text \<open>Replacing a pin by one with the same number that satisfies the invariant.\<close>

lemma pins_ok_update:
  "pins_ok f Q n base pins \<Longrightarrow> k < n \<Longrightarrow> f p = f (pins ! k) \<Longrightarrow> Q p \<Longrightarrow> pins_ok f Q n base (pins[k := p])"
  by (auto simp: pins_ok_def nth_list_update)

lemma pins_ok_nth: "pins_ok f Q n base pins \<Longrightarrow> k < n \<Longrightarrow> Q (pins ! k)"
  by (simp add: pins_ok_def)

lemma pins_ok_map:
  "pins_ok f Q n base pins \<Longrightarrow> \<forall>p \<in> set pins'. Q p \<Longrightarrow> map f pins' = map f pins \<Longrightarrow> pins_ok f Q n base pins'"
  unfolding pins_ok_def by (metis length_map nth_map nth_mem)

lemma pins_ok_set: "pins_ok f Q n base pins \<Longrightarrow> \<forall>p \<in> set pins. Q p"
  by (auto simp: pins_ok_def in_set_conv_nth)

lemma daemon_inv_sizes: "daemon_inv b d \<Longrightarrow> daemon_sizes d"
  by (auto simp: daemon_inv_def daemon_sizes_def dest: pins_ok_length)

lemma daemon_inv_serial [simp]:
  "daemon_inv b (Serial_write s d) = daemon_inv b d"
  "daemon_inv b (Serial_println s d) = daemon_inv b d"
  "daemon_inv b (drive ev d) = daemon_inv b d"
  by (simp_all add: daemon_inv_def Serial_write_def Serial_println_def drive_def)

lemma reset_pins_ok:
  "gpio_pins_ok b (map (gpio_reset b) [0..<32])" "adc_pins_ok (map adc_reset [0..<12])"
  "pwm_pins_ok (map pwm_reset [0..<12])"
  by (simp_all add: pins_ok_def gpio_inv_def gpio_reset_def adc_inv_def adc_reset_def pwm_inv_def
      pwm_reset_def f_le_def f_eq_def del: upt_rec_numeral)

lemma ResetAll_inv:
  assumes "daemon_sizes d" and "ResetAll b t d = Some d'"
  shows "daemon_inv b d'"
proof -
  from ResetAll_eq [OF assms(1), of b t] assms(2) obtain ev where
    "d' = d\<lparr>TxBuf := replicate (BUF_SIZE + 1) NUL @ drop (BUF_SIZE + 1) (TxBuf d),
     RxBuf := replicate (BUF_SIZE + 1) NUL @ drop (BUF_SIZE + 1) (RxBuf d),
     GpioPins := map (gpio_reset b) [0..<32], AdcPins := map adc_reset [0..<12],
     PwmPins := map pwm_reset [0..<12], hw := hw d @ ev, previousTime := t, RxBufPtr := 0, TxBufPtr := 0\<rparr>"
    by auto
  then show ?thesis
    using assms(1) reset_pins_ok
    by (simp add: daemon_inv_def daemon_sizes_def del: upt_rec_numeral)
qed

lemma clear_rx_inv: "daemon_inv b d \<Longrightarrow> clear_rx d = Some d' \<Longrightarrow> daemon_inv b d'"
  by (auto simp: clear_rx_def clear_buf_eq daemon_inv_def)

text \<open>What a command to a pin can do, whatever its text.\<close>

lemma process_gpio_cases:
  assumes "process_gpio b w d = Some d'"
  obtains "d' = Serial_write ''Error: Invalid GPIO'' d"
  | k r pin' ev where "k < length (GpioPins d)"
    "GpioPin_Process b (GpioPins d ! k) w 7 = Some (r, pin', ev)"
    "d' = drive ev (d\<lparr>GpioPins := (GpioPins d)[k := pin']\<rparr>)"
proof -
  from assms obtain n where n: "c_str (RxBuf d) 4 = Some n"
    by (auto simp: process_gpio_def bind_eq_Some_conv)
  define i where "i = strtol10 32 n"
  show thesis
  proof (cases "i < 22 \<or> 53 < i")
    case True
    with assms n have "d' = Serial_write ''Error: Invalid GPIO'' d"
      by (simp add: process_gpio_def i_def [symmetric])
    then show thesis by (rule that(1))
  next
    case False
    then have *: "\<not> i < 22" "\<not> 53 < i" by auto
    from assms n obtain pin r pin' ev pins where "rd (GpioPins d) (nat (i - 22)) = Some pin"
      "GpioPin_Process b pin w 7 = Some (r, pin', ev)" "wr (GpioPins d) (nat (i - 22)) pin' = Some pins"
      "d' = drive ev (d\<lparr>GpioPins := pins\<rparr>)"
      by (auto simp: process_gpio_def i_def [symmetric] * bind_eq_Some_conv)
    then show thesis by (intro that(2) [of "nat (i - 22)" r pin' ev]) (auto simp: rd_Some_iff wr_Some_iff)
  qed
qed

lemma process_adc_cases:
  assumes "process_adc t f d = Some d'"
  obtains "d' = Serial_write ''Error: Invalid ADC'' d"
  | k r pin' where "k < length (AdcPins d)" "AdcPin_Process (AdcPins d ! k) t = Some (r, pin')"
    "clear_rx (d\<lparr>AdcPins := (AdcPins d)[k := pin']\<rparr>) = Some d'"
proof -
  define i where "i = strtol10 32 (drop 3 f)"
  show thesis
  proof (cases "i < 0 \<or> 11 < i")
    case True
    with assms have "d' = Serial_write ''Error: Invalid ADC'' d"
      by (simp add: process_adc_def i_def [symmetric])
    then show thesis by (rule that(1))
  next
    case False
    then have *: "\<not> i < 0" "\<not> 11 < i" by auto
    from assms obtain pin r pin' pins where "rd (AdcPins d) (nat i) = Some pin"
      "AdcPin_Process pin t = Some (r, pin')" "wr (AdcPins d) (nat i) pin' = Some pins"
      "clear_rx (d\<lparr>AdcPins := pins\<rparr>) = Some d'"
      by (auto simp: process_adc_def i_def [symmetric] * bind_eq_Some_conv)
    then show thesis by (intro that(2) [of "nat i" r pin']) (auto simp: rd_Some_iff wr_Some_iff)
  qed
qed

lemma process_pwm_cases:
  assumes "process_pwm b w f d = Some d'"
  obtains "d' = Serial_write ''Error: Invalid PWM'' d"
  | k r pin' ev n where "k < length (PwmPins d)" "PwmPin_Process b (PwmPins d ! k) w n = Some (r, pin', ev)"
    "clear_rx (drive ev (d\<lparr>PwmPins := (PwmPins d)[k := pin']\<rparr>)) = Some d'"
proof -
  define i where "i = strtol10 32 (drop 3 f)"
  show thesis
  proof (cases "i < 2 \<or> 13 < i")
    case True
    with assms have "d' = Serial_write ''Error: Invalid PWM'' d"
      by (simp add: process_pwm_def i_def [symmetric])
    then show thesis by (rule that(1))
  next
    case False
    then have *: "\<not> i < 2" "\<not> 13 < i" by auto
    from assms obtain pin r pin' ev pins where "rd (PwmPins d) (nat (i - 2)) = Some pin"
      "PwmPin_Process b pin w (length f + 1) = Some (r, pin', ev)" "wr (PwmPins d) (nat (i - 2)) pin' = Some pins"
      "clear_rx (drive ev (d\<lparr>PwmPins := pins\<rparr>)) = Some d'"
      by (auto simp: process_pwm_def i_def [symmetric] * bind_eq_Some_conv)
    then show thesis
      by (intro that(2) [of "nat (i - 2)" "length f + 1" r pin' ev]) (auto simp: rd_Some_iff wr_Some_iff)
  qed
qed

lemma process_gpio_inv:
  assumes "process_gpio b w d = Some d'" and "daemon_inv b d"
  shows "daemon_inv b d'"
  using assms(1)
proof (cases rule: process_gpio_cases)
  case (2 k r pin' ev)
  from assms(2) have ok: "gpio_pins_ok b (GpioPins d)" by (simp add: daemon_inv_def)
  with 2(1) have k: "k < 32" by (simp add: pins_ok_length)
  from pins_ok_update [OF ok k gpio_Process_Id [OF 2(2)] gpio_Process_inv [OF pins_ok_nth [OF ok k] 2(2)]]
  show ?thesis using assms(2) 2(3) by (simp add: daemon_inv_def drive_def)
qed (use assms(2) in simp)

lemma process_adc_inv:
  assumes "process_adc t f d = Some d'" and "daemon_inv b d"
  shows "daemon_inv b d'"
  using assms(1)
proof (cases rule: process_adc_cases)
  case (2 k r pin')
  from assms(2) have ok: "adc_pins_ok (AdcPins d)" by (simp add: daemon_inv_def)
  with 2(1) have k: "k < 12" by (simp add: pins_ok_length)
  from pins_ok_update [OF ok k adc_Process_Id [OF 2(2)] adc_Process_inv [OF pins_ok_nth [OF ok k] 2(2)]]
  have "daemon_inv b (d\<lparr>AdcPins := (AdcPins d)[k := pin']\<rparr>)" using assms(2) by (simp add: daemon_inv_def)
  then show ?thesis using 2(3) by (rule clear_rx_inv)
qed (use assms(2) in simp)

lemma process_pwm_inv:
  assumes "process_pwm b w f d = Some d'" and "daemon_inv b d"
  shows "daemon_inv b d'"
  using assms(1)
proof (cases rule: process_pwm_cases)
  case (2 k r pin' ev n)
  from assms(2) have ok: "pwm_pins_ok (PwmPins d)" by (simp add: daemon_inv_def)
  with 2(1) have k: "k < 12" by (simp add: pins_ok_length)
  from pins_ok_update [OF ok k pwm_Process_Id [OF 2(2)] pwm_Process_inv [OF pins_ok_nth [OF ok k] 2(2)]]
  have "daemon_inv b (drive ev (d\<lparr>PwmPins := (PwmPins d)[k := pin']\<rparr>))" using assms(2) by (simp add: daemon_inv_def drive_def)
  then show ?thesis using 2(3) by (rule clear_rx_inv)
qed (use assms(2) in simp)

lemma strtok_at_length: "strtok_at buf p c = Some (tok, t) \<Longrightarrow> length (tk_buf t) = length buf"
  by (auto simp: strtok_at_def Let_def split: bind_splits if_splits)

lemma first_field_length: "first_field buf p = Some (s, t) \<Longrightarrow> length (tk_buf t) = length buf"
  by (auto simp: first_field_def bind_eq_Some_conv dest: strtok_at_length)

lemma ProcessMessage_cases:
  assumes "ProcessMessage b ms d = Some d'"
  obtains "d' = Serial_println ''Pong'' d"
  | d1 where "ResetAll b ms d = Some d1" "d' = Serial_println ''Reset'' d1"
  | t w f where "first_field (RxBuf d) 0 = Some (f, t)"
     "process_gpio b w (d\<lparr>RxBuf := tk_buf t\<rparr>) = Some d' \<or> process_adc t f (d\<lparr>RxBuf := tk_buf t\<rparr>) = Some d' \<or>
      process_pwm b w f (d\<lparr>RxBuf := tk_buf t\<rparr>) = Some d' \<or>
      clear_rx (Serial_write ''Error: Unsupported peripheral.'' (d\<lparr>RxBuf := tk_buf t\<rparr>)) = Some d'"
  using assms unfolding ProcessMessage_def Let_def
  by (auto simp: bind_eq_Some_conv split: if_split_asm)

lemma ProcessMessage_inv:
  assumes "daemon_inv b d" and "ProcessMessage b ms d = Some d'"
  shows "daemon_inv b d'"
  using assms(2)
proof (cases rule: ProcessMessage_cases)
  case 1
  with assms(1) show ?thesis by simp
next
  case (2 d1)
  with ResetAll_inv [OF daemon_inv_sizes [OF assms(1)]] show ?thesis by simp
next
  case (3 t w f)
  have "daemon_inv b (d\<lparr>RxBuf := tk_buf t\<rparr>)"
    using assms(1) first_field_length [OF 3(1)] by (simp add: daemon_inv_def)
  then show ?thesis
    using 3(2) process_gpio_inv process_adc_inv process_pwm_inv clear_rx_inv daemon_inv_serial(1) by blast
qed

lemma recv_char_inv:
  assumes "daemon_inv b d" and "recv_char b ms c d = Some d'"
  shows "daemon_inv b d'"
proof -
  have rx: "daemon_inv b (d\<lparr>RxBuf := (RxBuf d)[k := v], RxBufPtr := n\<rparr>)"
    "daemon_inv b (d\<lparr>RxBuf := (RxBuf d)[k := v]\<rparr>)" if "n < BUF_SIZE" for k v n
    using assms(1) that by (simp_all add: daemon_inv_def)
  have ptr: "daemon_inv b (e\<lparr>RxBufPtr := 0\<rparr>)" if "daemon_inv b e" for e
    using that by (simp add: daemon_inv_def)
  have "RxBufPtr d < BUF_SIZE" using assms(1) by (simp add: daemon_inv_def)
  then show ?thesis
    using assms(2) rx rx(2) [of 0] ptr
    by (auto simp: recv_char_def wr_Some_iff split: bind_splits if_splits dest: ProcessMessage_inv [rotated])
qed

text \<open>The three report loops keep the pins, whatever they print.\<close>

lemma report_loop_ok:
  assumes "report_pins rep pins buf ptr = Some (failed, pins', buf', ptr', ev)" and "reporting rep"
    and "ptr \<le> BUF_SIZE" and "length buf = BUF_SIZE + 2" and "pins_ok f Q n base pins"
    and "\<And>p space n msg p' ev. rep p space = Some (n, msg, p', ev) \<Longrightarrow> Q p \<Longrightarrow> Q p'"
    and "\<And>p space n msg p' ev. rep p space = Some (n, msg, p', ev) \<Longrightarrow> f p' = f p"
  shows "ptr' \<le> BUF_SIZE \<and> length buf' = BUF_SIZE + 2 \<and> pins_ok f Q n base pins' \<and> take ptr buf' = take ptr buf"
  using reporting.loop_ok [OF assms(2,1,3)] assms(4)
    reporting.loop_preserves [OF assms(2,1,6,7) pins_ok_set [OF assms(5)]] pins_ok_map [OF assms(5)]
  by auto

lemmas gpio_loop_ok = report_loop_ok [OF _ gpio_rep.reporting_axioms, where f = g_Id and Q = "gpio_inv b" for b]
lemmas adc_loop_ok = report_loop_ok [OF _ adc_rep.reporting_axioms, where f = a_Id and Q = adc_inv]
lemmas pwm_loop_ok = report_loop_ok [OF _ pwm_rep.reporting_axioms, where f = p_Id and Q = pwm_inv]

lemma gpio_loop_inv:
  assumes "report_pins (no_events (GpioPin_Report b lv)) pins buf ptr = Some (failed, pins', buf', ptr', ev)"
    and "ptr \<le> BUF_SIZE" and "length buf = BUF_SIZE + 2" and "gpio_pins_ok b pins"
  shows "ptr' \<le> BUF_SIZE" "length buf' = BUF_SIZE + 2" "gpio_pins_ok b pins'" "take ptr buf' = take ptr buf"
  using gpio_loop_ok [OF assms(1,2,3,4)]
  by (auto simp: no_events_def dest: gpio_Report_inv [rotated] gpio_Report_Id)

lemma adc_loop_inv:
  assumes "report_pins (no_events (AdcPin_Report b lv)) pins buf ptr = Some (failed, pins', buf', ptr', ev)"
    and "ptr \<le> BUF_SIZE" and "length buf = BUF_SIZE + 2" and "adc_pins_ok pins"
  shows "ptr' \<le> BUF_SIZE" "length buf' = BUF_SIZE + 2" "adc_pins_ok pins'" "take ptr buf' = take ptr buf"
  using adc_loop_ok [OF assms(1,2,3,4)]
  by (auto simp: no_events_def dest: adc_Report_inv [rotated] adc_Report_Id)

lemma pwm_loop_inv:
  assumes "report_pins PwmPin_Report pins buf ptr = Some (failed, pins', buf', ptr', ev)"
    and "ptr \<le> BUF_SIZE" and "length buf = BUF_SIZE + 2" and "pwm_pins_ok pins"
  shows "ptr' \<le> BUF_SIZE" "length buf' = BUF_SIZE + 2" "pwm_pins_ok pins'" "take ptr buf' = take ptr buf"
  using pwm_loop_ok [OF assms(1,2,3,4)]
  by (auto dest: pwm_Report_inv [rotated] pwm_Report_Id)

lemma ReportStatus_inv:
  assumes inv: "daemon_inv b d" and run: "ReportStatus b lv d = Some d'"
  shows "daemon_inv b d'"
proof -
  define tx0 where "tx0 = replicate (BUF_SIZE + 1) NUL @ drop (BUF_SIZE + 1) (TxBuf d)"
  have l0: "length tx0 = BUF_SIZE + 2" and c: "clear_buf (TxBuf d) = Some tx0"
    using inv by (simp_all add: tx0_def daemon_inv_def clear_buf_eq)
  note ser = daemon_inv_serial(1) daemon_inv_serial(3)
  from run c obtain f1 gpins tx1 ptr1 ev1 where
    g: "report_pins (no_events (GpioPin_Report b lv)) (GpioPins d) tx0 0 = Some (f1, gpins, tx1, ptr1, ev1)"
    by (auto simp: ReportStatus_def bind_eq_Some_conv)
  from gpio_loop_inv [OF g _ l0] inv
  have 1: "ptr1 \<le> BUF_SIZE" "length tx1 = BUF_SIZE + 2" "gpio_pins_ok b gpins" by (simp_all add: daemon_inv_def)
  define d1 where "d1 = drive ev1 (d\<lparr>GpioPins := gpins, TxBuf := tx1, TxBufPtr := ptr1\<rparr>)"
  have i1: "daemon_inv b d1" using inv 1 unfolding d1_def ser by (simp add: daemon_inv_def)
  show ?thesis
  proof (cases f1)
    case (Some p)
    with run c g have "\<exists>e. d' = Serial_write e d1"
      by (auto simp: ReportStatus_def Let_def d1_def bind_eq_Some_conv)
    with i1 show ?thesis by auto
  next
    case None
    with run c g obtain f2 apins tx2 ptr2 ev2 where
      a: "report_pins (no_events (AdcPin_Report b lv)) (AdcPins d1) tx1 ptr1 = Some (f2, apins, tx2, ptr2, ev2)"
      by (auto simp: ReportStatus_def Let_def d1_def bind_eq_Some_conv)
    from adc_loop_inv [OF a 1(1,2)] i1
    have 2: "ptr2 \<le> BUF_SIZE" "length tx2 = BUF_SIZE + 2" "adc_pins_ok apins" by (simp_all add: daemon_inv_def)
    define d2 where "d2 = drive ev2 (d1\<lparr>AdcPins := apins, TxBuf := tx2, TxBufPtr := ptr2\<rparr>)"
    have i2: "daemon_inv b d2" using i1 2 unfolding d2_def ser by (simp add: daemon_inv_def)
    show ?thesis
    proof (cases f2)
      case (Some p)
      with run c g None a have "\<exists>e. d' = Serial_write e d2"
        by (auto simp: ReportStatus_def Let_def d1_def [symmetric] d2_def bind_eq_Some_conv)
      with i2 show ?thesis by auto
    next
      case f2: None
      with run c g None a obtain f3 ppins tx3 ptr3 ev3 e where
        p: "report_pins PwmPin_Report (PwmPins d2) tx2 ptr2 = Some (f3, ppins, tx3, ptr3, ev3)"
        and d': "d' = Serial_write e (drive ev3 (d2\<lparr>PwmPins := ppins, TxBuf := tx3, TxBufPtr := ptr3\<rparr>))"
        by (auto simp: ReportStatus_def Let_def d1_def [symmetric] d2_def [symmetric] bind_eq_Some_conv
            split: option.splits)
      from pwm_loop_inv [OF p 2(1,2)] i2
      have "daemon_inv b (d2\<lparr>PwmPins := ppins, TxBuf := tx3, TxBufPtr := ptr3\<rparr>)"
        by (simp add: daemon_inv_def)
      then show ?thesis by (simp add: d')
    qed
  qed
qed

lemma loop_body_inv:
  assumes "daemon_inv b d" and "loop_body b lv ms cs d = Some d'"
  shows "daemon_inv b d'"
proof -
  have "daemon_inv b (d\<lparr>previousTime := ms\<rparr>)" using assms(1) by (simp add: daemon_inv_def)
  with assms obtain d1 where "daemon_inv b d1" "forM cs (\<lambda>(c, millis). recv_char b millis c) d1 = Some d'"
    by (auto simp: loop_body_def bind_eq_Some_conv split: if_splits dest: ReportStatus_inv [rotated])
  then show ?thesis
    by (rule_tac forM_preserves [where P = "daemon_inv b"]) (auto dest: recv_char_inv [rotated])
qed

text \<open>
  With printable values a report never fails, overflows no buffer and finds its error texts short
  enough. Only the space in the transmit buffer can run out, which is the error path.
\<close>

lemma error_text_fits: "0 \<le> i \<Longrightarrow> i < 100 \<Longrightarrow> length s \<le> 20 \<Longrightarrow> \<exists>e. sprintf_buf 64 (s @ fmt_d i) = Some e"
  using length_digits10_le [of i 1] by (simp add: sprintf_buf_def)

lemma pins_ok_ids: "pins_ok f Q n base pins \<Longrightarrow> p \<in> set pins \<Longrightarrow> base \<le> f p \<and> f p < base + int n"
  by (auto simp: pins_ok_def in_set_conv_nth)

lemma gpio_loop_defined:
  assumes "gpio_pins_ok b pins" and "ptr \<le> BUF_SIZE" and "length buf = BUF_SIZE + 2"
  shows "\<exists>r. report_pins (no_events (GpioPin_Report b lv)) pins buf ptr = Some r"
  using assms gpio_Report_defined pins_ok_set [OF assms(1)]
  by (intro gpio_rep.loop_defined) (fastforce simp: no_events_def)+

lemma adc_loop_defined:
  assumes "adc_pins_ok pins" and "\<forall>p \<in> set pins. adc_printable p" and "levels_ok lv"
    and "ptr \<le> BUF_SIZE" and "length buf = BUF_SIZE + 2"
  shows "\<exists>r. report_pins (no_events (AdcPin_Report b lv)) pins buf ptr = Some r"
  using assms adc_Report_defined pins_ok_set [OF assms(1)]
  by (intro adc_rep.loop_defined) (fastforce simp: no_events_def)+

lemma pwm_loop_defined:
  assumes "pwm_pins_ok pins" and "\<forall>p \<in> set pins. pwm_printable p"
    and "ptr \<le> BUF_SIZE" and "length buf = BUF_SIZE + 2"
  shows "\<exists>r. report_pins PwmPin_Report pins buf ptr = Some r"
  using assms pwm_Report_defined pins_ok_set [OF assms(1)]
  by (intro pwm_rep.loop_defined) fastforce+

lemma loop_failed_id:
  assumes "report_pins rep pins buf ptr = Some (Some p, pins', buf', ptr', ev)" and "reporting rep"
    and "pins_ok f Q n base pins"
    and "\<And>p space n msg p' ev. rep p space = Some (n, msg, p', ev) \<Longrightarrow> f p' = f p"
  shows "base \<le> f p \<and> f p < base + int n"
proof -
  have "f p \<in> f ` set pins"
    using reporting.loop_preserves [OF assms(2,1), of "\<lambda>_. True" f] assms(4) by auto
  then show ?thesis using pins_ok_ids [OF assms(3)] by auto
qed

lemma gpio_failed_text:
  assumes "report_pins (no_events (GpioPin_Report b lv)) pins buf ptr = Some (Some p, r)" and "gpio_pins_ok b pins"
  shows "\<exists>e. sprintf_buf 64 (''Error report GPIO'' @ fmt_d (g_Id p)) = Some e"
proof (cases r)
  case (fields a b c d)
  from loop_failed_id [OF assms(1) [unfolded fields] gpio_rep.reporting_axioms assms(2)]
  have "22 \<le> g_Id p \<and> g_Id p < 22 + int 32" by (auto simp: no_events_def dest: gpio_Report_Id)
  then show ?thesis by (intro error_text_fits) auto
qed

lemma adc_failed_text:
  assumes "report_pins (no_events (AdcPin_Report b lv)) pins buf ptr = Some (Some p, r)" and "adc_pins_ok pins"
  shows "\<exists>e. sprintf_buf 64 (''Error report ADC'' @ fmt_d (a_Id p)) = Some e"
proof (cases r)
  case (fields a b c d)
  from loop_failed_id [OF assms(1) [unfolded fields] adc_rep.reporting_axioms assms(2)]
  have "0 \<le> a_Id p \<and> a_Id p < 0 + int 12" by (auto simp: no_events_def dest: adc_Report_Id)
  then show ?thesis by (intro error_text_fits) auto
qed

lemma pwm_failed_text:
  assumes "report_pins PwmPin_Report pins buf ptr = Some (Some p, r)" and "pwm_pins_ok pins"
  shows "\<exists>e. sprintf_buf 64 (''Error report PWM'' @ fmt_d (p_Id p)) = Some e"
proof (cases r)
  case (fields a b c d)
  from loop_failed_id [OF assms(1) [unfolded fields] pwm_rep.reporting_axioms assms(2)]
  have "2 \<le> p_Id p \<and> p_Id p < 2 + int 12" by (auto dest: pwm_Report_Id)
  then show ?thesis by (intro error_text_fits) auto
qed

definition printable :: "daemon \<Rightarrow> bool" where
  "printable d \<longleftrightarrow> (\<forall>p \<in> set (AdcPins d). adc_printable p) \<and> (\<forall>p \<in> set (PwmPins d). pwm_printable p)"

lemma ReportStatus_defined:
  assumes inv: "daemon_inv b d" and pr: "printable d" and lv: "levels_ok lv"
  shows "\<exists>d'. ReportStatus b lv d = Some d'"
proof -
  define tx0 where "tx0 = replicate (BUF_SIZE + 1) NUL @ drop (BUF_SIZE + 1) (TxBuf d)"
  have l0: "length tx0 = BUF_SIZE + 2" and c: "clear_buf (TxBuf d) = Some tx0"
    using inv by (simp_all add: tx0_def daemon_inv_def clear_buf_eq)
  have ok: "gpio_pins_ok b (GpioPins d)" "adc_pins_ok (AdcPins d)" "pwm_pins_ok (PwmPins d)"
    using inv by (simp_all add: daemon_inv_def)
  have p: "\<forall>p \<in> set (AdcPins d). adc_printable p" "\<forall>p \<in> set (PwmPins d). pwm_printable p"
    using pr by (simp_all add: printable_def)
  obtain f1 gpins tx1 ptr1 ev1 where
    g: "report_pins (no_events (GpioPin_Report b lv)) (GpioPins d) tx0 0 = Some (f1, gpins, tx1, ptr1, ev1)"
    using gpio_loop_defined [OF ok(1) _ l0, of 0 lv] by auto
  have 1: "ptr1 \<le> BUF_SIZE" "length tx1 = BUF_SIZE + 2" using gpio_loop_inv [OF g _ l0 ok(1)] by simp_all
  obtain f2 apins tx2 ptr2 ev2 where
    a: "report_pins (no_events (AdcPin_Report b lv)) (AdcPins d) tx1 ptr1 = Some (f2, apins, tx2, ptr2, ev2)"
    using adc_loop_defined [OF ok(2) p(1) lv 1(1,2), of b] by auto
  note 2 = adc_loop_inv [OF a 1(1,2) ok(2)]
  obtain f3 ppins tx3 ptr3 ev3 where
    w: "report_pins PwmPin_Report (PwmPins d) tx2 ptr2 = Some (f3, ppins, tx3, ptr3, ev3)"
    using pwm_loop_defined [OF ok(3) p(2) 2(1,2)] by auto
  note 3 = pwm_loop_inv [OF w 2(1,2) ok(3)]
  have "rd_seq tx3 0 ptr3 = Some (take ptr3 tx3)" using 3 by (simp add: rd_seq_in)
  then show ?thesis
    using c g a w gpio_failed_text [OF _ ok(1)] adc_failed_text [OF _ ok(2)] pwm_failed_text [OF _ ok(3)]
    by (cases f1; cases f2; cases f3) (fastforce simp: ReportStatus_def Let_def drive_def)+
qed

end
