(* ===== verification/Sam_Protocol.thy ===== *)
theory Sam_Protocol
  imports Sam_Daemon
begin

text \<open>
  The protocol between the host and the firmware, seen from the firmware: how the characters that
  arrive become messages, and what each message does. The messages are those that the host's
  \<open>StateToMessage\<close> functions write (clank/lib/hardware).
\<close>

section \<open>Fields\<close>

text \<open>What \<open>strtok\<close> still has to read.\<close>

definition at_rest :: "tok_state \<Rightarrow> string \<Rightarrow> bool" where
  "at_rest t rest \<longleftrightarrow> NUL \<notin> set rest \<and> (\<exists>pre post. tk_buf t = pre @ rest @ NUL # post \<and> tk_save t = Some (length pre))"

definition field :: "string \<Rightarrow> bool" where
  "field f \<longleftrightarrow> f \<noteq> [] \<and> CHR '':'' \<notin> set f \<and> NUL \<notin> set f"

lemma first_field_cut:
  assumes "field f" and "NUL \<notin> set rest"
  shows "\<exists>t. first_field (pre @ f @ CHR '':'' # rest @ NUL # post) (length pre) = Some (f, t) \<and> at_rest t rest \<and>
     tk_buf t = pre @ f @ NUL # rest @ NUL # post"
proof -
  have "strtok_at (pre @ f @ CHR '':'' # rest @ NUL # post) (length pre) CHR '':'' =
    Some (Some (length pre), \<lparr>tk_buf = pre @ f @ NUL # rest @ NUL # post, tk_save = Some (length pre + length f + 1)\<rparr>)"
    using assms by (intro strtok_at_field) (auto simp: field_def)
  moreover have "token_str (Some (length pre)) \<lparr>tk_buf = pre @ f @ NUL # rest @ NUL # post,
      tk_save = Some (length pre + length f + 1)\<rparr> = Some f"
    using assms(1) by (intro token_str_field) (simp add: field_def)
  moreover have "at_rest \<lparr>tk_buf = pre @ f @ NUL # rest @ NUL # post, tk_save = Some (length pre + length f + 1)\<rparr> rest"
    unfolding at_rest_def using assms(2)
    by (intro conjI exI [of _ "pre @ f @ [NUL]"] exI [of _ post]) simp_all
  ultimately show ?thesis by (simp add: first_field_def)
qed

lemma next_field_cut:
  assumes "at_rest t (f @ CHR '':'' # rest)" and "field f"
  shows "\<exists>t'. next_field t = Some (f, t') \<and> at_rest t' rest"
proof -
  from assms(1) obtain pre post where t: "tk_buf t = pre @ f @ CHR '':'' # rest @ NUL # post"
    "tk_save t = Some (length pre)" "NUL \<notin> set rest"
    by (auto simp: at_rest_def)
  have "next_field t = first_field (tk_buf t) (length pre)"
    by (simp add: next_field_def first_field_def strtok_next_def t(2))
  then show ?thesis using first_field_cut [OF assms(2) t(3), of pre post] t(1) by auto
qed

text \<open>Reading past the last field dereferences NULL.\<close>

lemma next_field_end: "at_rest t [] \<Longrightarrow> next_field t = None"
  by (auto simp: at_rest_def next_field_def strtok_next_def strtok_at_def c_str_append [of "[]", simplified]
      token_str_def Let_def)

section \<open>Framing\<close>

lemma recv_chars:
  assumes "daemon_inv b d" and "NL \<notin> set cs" and "RxBufPtr d + length cs < BUF_SIZE"
  shows "forM cs (recv_char b ms) d = Some (d\<lparr>RxBuf := take (RxBufPtr d) (RxBuf d) @ cs @ drop (RxBufPtr d + length cs) (RxBuf d),
           RxBufPtr := RxBufPtr d + length cs\<rparr>)"
  using assms
proof (induction cs arbitrary: d)
  case Nil
  then show ?case by simp
next
  case (Cons c cs)
  from Cons.prems(1) have l: "length (RxBuf d) = BUF_SIZE + 2" by (simp add: daemon_inv_def)
  define p where "p = RxBufPtr d"
  define d1 where "d1 = d\<lparr>RxBuf := (RxBuf d)[p := c], RxBufPtr := Suc p\<rparr>"
  have step: "recv_char b ms c d = Some d1"
    using Cons.prems l by (auto simp: recv_char_def d1_def p_def)
  have inv: "daemon_inv b d1" using recv_char_inv [OF Cons.prems(1) step] .
  have "take (Suc p) ((RxBuf d)[p := c]) = take p (RxBuf d) @ [c]"
    using Cons.prems(3) l by (simp add: p_def take_Suc_conv_app_nth)
  then show ?case
    using Cons.IH [OF inv] Cons.prems step by (simp add: d1_def p_def [symmetric])
qed

text \<open>
  A line of fewer than 1024 characters is handed to \<open>ProcessMessage\<close> as a C string, wherever
  the boundaries between the bursts in which it arrives are.
\<close>

lemma recv_line:
  assumes "daemon_inv b d" and "RxBufPtr d = 0" and "NL \<notin> set msg" and "length msg < BUF_SIZE"
  shows "forM (msg @ [NL]) (recv_char b ms) d =
     map_option (\<lambda>d1. d1\<lparr>RxBufPtr := 0\<rparr>)
       (ProcessMessage b ms (d\<lparr>RxBufPtr := length msg, RxBuf := msg @ NUL # drop (Suc (length msg)) (RxBuf d)\<rparr>))"
proof -
  have l: "length (RxBuf d) = BUF_SIZE + 2" using assms(1) by (simp add: daemon_inv_def)
  with assms(4) have "drop (length msg) (RxBuf d) \<noteq> []" by simp
  then obtain x where x: "drop (length msg) (RxBuf d) = x # drop (Suc (length msg)) (RxBuf d)"
    using assms(4) l by (metis Cons_nth_drop_Suc drop_eq_Nil not_le)
  show ?thesis
    using recv_chars [OF assms(1,3), of ms] assms(2,4) x
    by (simp add: forM_append recv_char_def list_update_append map_conv_bind_option comp_def wr_def)
qed

section \<open>Commands\<close>

lemma digits10_len2: "10 \<le> i \<Longrightarrow> i < 100 \<Longrightarrow> length (digits10 i) = 2"
  by (simp add: digits10.simps [of i] digits10.simps [of "i div 10"])

lemma field_simps_cmd: "0 \<le> i \<Longrightarrow> field (''GPIO'' @ digits10 i)" "0 \<le> i \<Longrightarrow> field (''ADC'' @ digits10 i)"
  "0 \<le> i \<Longrightarrow> field (''PWM'' @ digits10 i)"
  "field ''dir''" "field ''val''" "field ''In''" "field ''Out''" "field ''Hi''" "field ''Low''"
  "field ''thresh''" "field ''ramp''" "field ''enable''" "field ''disable''"
  by (simp_all add: field_def)

definition gpio_command :: "int \<Rightarrow> string \<Rightarrow> string \<Rightarrow> string" where
  "gpio_command i D V = ''GPIO'' @ fmt_d i @ '':dir:'' @ D @ '':val:'' @ V @ '':''"

lemma gpio_Process_dir_val:
  assumes "(D, dir) \<in> {(''In'', INPUT b), (''Out'', OUTPUT b)}" and "(V, v) \<in> {(''Hi'', HIGH b), (''Low'', LOW b)}"
  shows "GpioPin_Process b pin (pre @ ''dir:'' @ D @ '':val:'' @ V @ '':'' @ NUL # post) (length pre) =
           Some (GpioPin_Set b pin dir v)"
proof -
  have D: "field D" "NUL \<notin> set D" and V: "field V" "NUL \<notin> set V" using assms by (auto simp: field_def)
  let ?r2 = "''val:'' @ V @ '':''" and ?r3 = "V @ '':''"
  obtain t1 where t1: "first_field (pre @ ''dir'' @ CHR '':'' # (D @ CHR '':'' # ?r2) @ NUL # post) (length pre) = Some (''dir'', t1)"
    "at_rest t1 (D @ CHR '':'' # ?r2)"
    using first_field_cut [of "''dir''" "D @ CHR '':'' # ?r2" pre post] D V by (auto simp: field_simps_cmd)
  obtain t2 where t2: "next_field t1 = Some (D, t2)" "at_rest t2 (''val'' @ CHR '':'' # ?r3)"
    using next_field_cut [OF t1(2) D(1)] by auto
  obtain t3 where t3: "next_field t2 = Some (''val'', t3)" "at_rest t3 (V @ CHR '':'' # [])"
    using next_field_cut [OF t2(2)] by (auto simp: field_simps_cmd)
  obtain t4 where t4: "next_field t3 = Some (V, t4)"
    using next_field_cut [OF t3(2) V(1)] by auto
  have "gpio_direction b D = Some dir" "gpio_value b V = Some v"
    using assms by (auto simp: gpio_direction_def gpio_value_def strncmp_eq_def)
  with t1(1) t2(1) t3(1) t4 show ?thesis by (simp add: GpioPin_Process_def strncmp_eq_def)
qed

lemma process_gpio_command:
  assumes inv: "daemon_inv b d" and i: "22 \<le> i" "i \<le> 53"
    and D: "(D, dir) \<in> {(''In'', INPUT b), (''Out'', OUTPUT b)}" and V: "(V, v) \<in> {(''Hi'', HIGH b), (''Low'', LOW b)}"
    and rx: "RxBuf d = gpio_command i D V @ NUL # post"
    and set: "GpioPin_Set b (GpioPins d ! nat (i - 22)) dir v = (r, pin', ev)"
  shows "\<exists>rx'. ProcessMessage b ms d = Some (drive ev (d\<lparr>RxBuf := rx', GpioPins := (GpioPins d)[nat (i - 22) := pin']\<rparr>))"
proof -
  have DV: "NUL \<notin> set D" "NUL \<notin> set V" "length D \<le> 3" "length V \<le> 3" using D V by auto
  let ?n = "''GPIO'' @ digits10 i" and ?rest = "''dir:'' @ D @ '':val:'' @ V @ '':''"
  have cmd: "gpio_command i D V = ?n @ CHR '':'' # ?rest" using i by (simp add: gpio_command_def)
  have len: "length (?n @ [CHR '':'']) = 7" using digits10_len2 [of i] i by simp
  have nonul: "NUL \<notin> set (gpio_command i D V)" using DV i by (auto simp: cmd)
  have fn: "field ?n" using i by (intro field_simps_cmd) simp
  obtain t where t: "first_field (RxBuf d) 0 = Some (?n, t)" "tk_buf t = ?n @ NUL # ?rest @ NUL # post"
    using first_field_cut [OF fn, of ?rest "[]" post] DV by (auto simp: rx cmd)
  have msg: "c_str (RxBuf d) 0 = Some (gpio_command i D V)" using nonul by (simp add: rx c_str_0)
  have short: "\<not> BUF_SIZE < length (gpio_command i D V)" using DV len by (simp add: cmd)
  have num: "c_str (tk_buf t) 4 = Some (digits10 i)"
    using c_str_append [of "digits10 i" "''GPIO''" "?rest @ NUL # post"] i by (simp add: t(2) numeral_eq_Suc)
  have id: "strtol10 32 (digits10 i) = i" using strtol10_digits10 [of i 32 "[]"] i by simp
  have k: "nat (i - 22) < length (GpioPins d)" using inv i by (auto simp: daemon_inv_def dest!: pins_ok_length)
  have proc: "GpioPin_Process b (GpioPins d ! nat (i - 22)) (gpio_command i D V @ [NUL]) 7 = Some (r, pin', ev)"
    using gpio_Process_dir_val [OF D V, of "GpioPins d ! nat (i - 22)" "?n @ [CHR '':'']" "[]"] set len by (simp add: cmd)
  have "process_gpio b (gpio_command i D V @ [NUL]) (d\<lparr>RxBuf := tk_buf t\<rparr>) =
      Some (drive ev (d\<lparr>RxBuf := tk_buf t, GpioPins := (GpioPins d)[nat (i - 22) := pin']\<rparr>))"
    using num id i k proc by (simp add: process_gpio_def)
  moreover have "gpio_command i D V \<noteq> ''Ping''" "gpio_command i D V \<noteq> ''Reset''" by (simp_all add: gpio_command_def)
  moreover have "strncmp_eq ?n ''GPIO'' 4" by (simp add: strncmp_eq_def)
  ultimately show ?thesis using msg short t(1) by (auto simp: ProcessMessage_def Let_def)
qed

text \<open>
  The threshold of an analogue input. The host prints it with \<open>to_string\<close>; here it is any
  field. A value that is not positive is rejected, without an answer.
\<close>

definition adc_command :: "int \<Rightarrow> string \<Rightarrow> string" where
  "adc_command i T = ''ADC'' @ fmt_d i @ '':thresh:'' @ T @ '':''"

lemma adc_Process_thresh:
  assumes "at_rest t (''thresh:'' @ T @ '':'')" and "field T"
  shows "AdcPin_Process pin t = Some (let v = f_cast round32 (strtod T) in
     if f_le v (Fin 0) then (False, pin) else (True, pin\<lparr>a_Threshold := v\<rparr>))"
proof -
  obtain t1 where t1: "next_field t = Some (''thresh'', t1)" "at_rest t1 (T @ CHR '':'' # [])"
    using next_field_cut [of t "''thresh''" "T @ '':''"] assms by (auto simp: field_simps_cmd)
  obtain t2 where t2: "next_field t1 = Some (T, t2)" using next_field_cut [OF t1(2) assms(2)] by auto
  show ?thesis using t1(1) t2 by (simp add: AdcPin_Process_def strncmp_eq_def Let_def)
qed

lemma process_adc_command:
  assumes inv: "daemon_inv b d" and i: "0 \<le> i" "i \<le> 11" and T: "field T" "length T \<le> 64"
    and rx: "RxBuf d = adc_command i T @ NUL # post"
    and v: "v = f_cast round32 (strtod T)" "\<not> f_le v (Fin 0)"
  shows "\<exists>rx'. ProcessMessage b ms d =
     Some (d\<lparr>RxBuf := rx', AdcPins := (AdcPins d)[nat i := (AdcPins d ! nat i)\<lparr>a_Threshold := v\<rparr>]\<rparr>)"
proof -
  let ?n = "''ADC'' @ digits10 i" and ?rest = "''thresh:'' @ T @ '':''"
  let ?d = "\<lambda>r. d\<lparr>RxBuf := r, AdcPins := (AdcPins d)[nat i := (AdcPins d ! nat i)\<lparr>a_Threshold := v\<rparr>]\<rparr>"
  have TN: "NUL \<notin> set T" using T(1) by (simp add: field_def)
  have cmd: "adc_command i T = ?n @ CHR '':'' # ?rest" using i by (simp add: adc_command_def)
  have len: "length ?n \<le> 5" using length_digits10_le [of i 1] i by simp
  have fn: "field ?n" using i by (intro field_simps_cmd) simp
  obtain t where t: "first_field (RxBuf d) 0 = Some (?n, t)" "at_rest t ?rest" "length (tk_buf t) = length (RxBuf d)"
    using first_field_cut [OF fn, of ?rest "[]" post] TN by (auto simp: rx cmd)
  have "NUL \<notin> set (adc_command i T)" using TN i by (auto simp: cmd)
  then have msg: "c_str (RxBuf d) 0 = Some (adc_command i T)" by (simp add: rx c_str_0)
  have short: "\<not> BUF_SIZE < length (adc_command i T)" using T(2) len by (simp add: cmd)
  have id: "strtol10 32 (drop 3 ?n) = i" using strtol10_digits10 [of i 32 "[]"] i by simp
  have k: "nat i < length (AdcPins d)" using inv i by (auto simp: daemon_inv_def dest!: pins_ok_length)
  obtain r where r: "clear_buf (tk_buf t) = Some r"
    using inv t(3) by (simp add: daemon_inv_def clear_buf_eq)
  have "process_adc t ?n (d\<lparr>RxBuf := tk_buf t\<rparr>) = Some (?d r)"
    unfolding process_adc_def Let_def id using i k r v adc_Process_thresh [OF t(2) T(1)]
    by (cases d) (simp add: Let_def clear_rx_def)
  moreover have "\<not> strncmp_eq ?n ''GPIO'' 4" "strncmp_eq ?n ''ADC'' 3" by (simp_all add: strncmp_eq_def)
  moreover have "adc_command i T \<noteq> ''Ping''" "adc_command i T \<noteq> ''Reset''" by (simp_all add: adc_command_def)
  ultimately show ?thesis using msg short t(1) by (auto simp: ProcessMessage_def Let_def)
qed

section \<open>Command lines\<close>

lemma recv_gpio_line:
  assumes inv: "daemon_inv b d" and ptr: "RxBufPtr d = 0" and i: "22 \<le> i" "i \<le> 53"
    and D: "(D, dir) \<in> {(''In'', INPUT b), (''Out'', OUTPUT b)}" and V: "(V, v) \<in> {(''Hi'', HIGH b), (''Low'', LOW b)}"
    and set: "GpioPin_Set b (GpioPins d ! nat (i - 22)) dir v = (r, pin', ev)"
  shows "\<exists>rx. forM (gpio_command i D V @ [NL]) (recv_char b ms) d =
           Some ((drive ev (d\<lparr>RxBuf := rx, GpioPins := (GpioPins d)[nat (i - 22) := pin']\<rparr>))\<lparr>RxBufPtr := 0\<rparr>)"
proof -
  let ?m = "gpio_command i D V"
  have m: "NL \<notin> set ?m" "length ?m < BUF_SIZE"
    using D V i digits10_len2 [of i] by (auto simp: gpio_command_def is_digit_def)
  let ?d = "d\<lparr>RxBufPtr := length ?m, RxBuf := ?m @ NUL # drop (Suc (length ?m)) (RxBuf d)\<rparr>"
  have "daemon_inv b ?d" using inv m(2) by (simp add: daemon_inv_def)
  from process_gpio_command [OF this i D V, of _ r pin' ev ms] set
  obtain rx where "ProcessMessage b ms ?d = Some (drive ev (?d\<lparr>RxBuf := rx, GpioPins := (GpioPins d)[nat (i - 22) := pin']\<rparr>))"
    by auto
  then show ?thesis using recv_line [OF inv ptr m, of ms] by (auto simp: drive_def)
qed

lemma recv_adc_line:
  assumes inv: "daemon_inv b d" and ptr: "RxBufPtr d = 0" and i: "0 \<le> i" "i \<le> 11"
    and T: "field T" "NL \<notin> set T" "length T \<le> 64" and v: "v = f_cast round32 (strtod T)" "\<not> f_le v (Fin 0)"
  shows "\<exists>rx. forM (adc_command i T @ [NL]) (recv_char b ms) d =
     Some (d\<lparr>RxBuf := rx, AdcPins := (AdcPins d)[nat i := (AdcPins d ! nat i)\<lparr>a_Threshold := v\<rparr>], RxBufPtr := 0\<rparr>)"
proof -
  let ?m = "adc_command i T"
  have m: "NL \<notin> set ?m" "length ?m < BUF_SIZE"
    using T(2,3) i length_digits10_le [of i 1] by (auto simp: adc_command_def is_digit_def)
  let ?d = "d\<lparr>RxBufPtr := length ?m, RxBuf := ?m @ NUL # drop (Suc (length ?m)) (RxBuf d)\<rparr>"
  have "daemon_inv b ?d" using inv m(2) by (simp add: daemon_inv_def)
  from process_adc_command [OF this i T(1,3) _ v, of _ ms] obtain rx where
    "ProcessMessage b ms ?d = Some (?d\<lparr>RxBuf := rx, AdcPins := (AdcPins d)[nat i := (AdcPins d ! nat i)\<lparr>a_Threshold := v\<rparr>]\<rparr>)"
    by auto
  then show ?thesis using recv_line [OF inv ptr m, of ms] by auto
qed

section \<open>Properties of the firmware\<close>

definition start :: daemon where
  "start = \<lparr>TxBuf = replicate (BUF_SIZE + 2) NUL, RxBuf = replicate (BUF_SIZE + 2) NUL, TxBufPtr = 0, RxBufPtr = 0,
     previousTime = 0, GpioPins = map (gpio_reset sam3x) [0..<32], AdcPins = map adc_reset [0..<12],
     PwmPins = map pwm_reset [0..<12], serial_out = [], hw = []\<rparr>"

definition levels512 :: pin_levels where
  "levels512 = \<lparr>digitalRead = (\<lambda>_. 1), analogRead = (\<lambda>_. 512)\<rparr>"

lemma start_inv: "daemon_inv sam3x start"
  using reset_pins_ok by (simp add: daemon_inv_def start_def del: upt_rec_numeral)

lemma start_facts:
  "RxBufPtr start = 0" "previousTime start = 0" "length (RxBuf start) = 1026"
  by (simp_all add: start_def)

lemma start_pins: "GpioPins start ! 0 = gpio_reset sam3x 0" "AdcPins start ! 3 = adc_reset 3"
  unfolding start_def daemon.select_convs by (subst nth_map; simp del: upt_rec_numeral)+

text \<open>C15: one pass of the main loop, whatever characters arrive and whatever the
  pins read, keeps the daemon's invariant: buffer sizes, offsets inside the buffers, and every
  pin of the three arrays with its number and the invariant of its kind.\<close>

theorem loop_invariant:
  assumes "daemon_inv b d" and "loop_body b lv currentTime available d = Some d'"
  shows "daemon_inv b d'"
  using assms by (rule loop_body_inv)

lemma loop_start_run: "loop_body sam3x levels512 5 [(CHR ''P'', 6)] start =
    Some (start\<lparr>RxBuf := (RxBuf start)[0 := CHR ''P''], RxBufPtr := 1\<rparr>)"
  by (simp add: loop_body_def recv_char_def start_facts)

theorem loop_invariant_witness:
  "daemon_inv sam3x (start\<lparr>RxBuf := (RxBuf start)[0 := CHR ''P''], RxBufPtr := 1\<rparr>)"
  by (rule loop_invariant [OF start_inv loop_start_run])

text \<open>C27: \<open>ResetAll\<close> never fails on arrays of the declared sizes, and the pins, the
  offsets and the first 1025 bytes of the buffers it leaves do not depend on what was there
  before; the result satisfies the invariant.\<close>

theorem reset_state:
  assumes "daemon_sizes d"
  shows "\<exists>d'. ResetAll b t d = Some d' \<and> daemon_inv b d' \<and> previousTime d' = t \<and>
     GpioPins d' = map (gpio_reset b) [0..<32] \<and> AdcPins d' = map adc_reset [0..<12] \<and>
     PwmPins d' = map pwm_reset [0..<12] \<and> RxBufPtr d' = 0 \<and> TxBufPtr d' = 0 \<and>
     take (BUF_SIZE + 1) (RxBuf d') = replicate (BUF_SIZE + 1) NUL \<and>
     take (BUF_SIZE + 1) (TxBuf d') = replicate (BUF_SIZE + 1) NUL"
proof -
  obtain ev where e: "ResetAll b t d = Some (d\<lparr>TxBuf := replicate (BUF_SIZE + 1) NUL @ drop (BUF_SIZE + 1) (TxBuf d),
     RxBuf := replicate (BUF_SIZE + 1) NUL @ drop (BUF_SIZE + 1) (RxBuf d),
     GpioPins := map (gpio_reset b) [0..<32], AdcPins := map adc_reset [0..<12],
     PwmPins := map pwm_reset [0..<12], hw := hw d @ ev, previousTime := t, RxBufPtr := 0, TxBufPtr := 0\<rparr>)"
    (is "_ = Some ?d'")
    using ResetAll_eq [OF assms] by blast
  show ?thesis
    by (rule exI [of _ ?d']) (use ResetAll_inv [OF assms e] in \<open>simp add: e\<close>)
qed

theorem reset_state_witness: "\<exists>d'. ResetAll sam3x 7 start = Some d' \<and> daemon_inv sam3x d'"
  using reset_state [of start sam3x 7, OF daemon_inv_sizes [OF start_inv]] by blast

text \<open>C26: a status report never overflows the transmit buffer, the pins' message
  buffers or the error buffer, as long as the texts of the thresholds and of the PWM values are
  short enough to be printed (35 and 13 characters); it keeps the invariant.\<close>

theorem report_total:
  assumes "daemon_inv b d" and "printable d" and "levels_ok lv"
  shows "\<exists>d'. ReportStatus b lv d = Some d' \<and> daemon_inv b d'"
  using ReportStatus_defined [OF assms] ReportStatus_inv [OF assms(1)] by blast

lemma start_printable: "printable start"
proof -
  have "short_text 35 (Fin 5)" "short_text 13 (Fin 0)" "short_text 13 (Fin (-1))"
    using short_text_Fin [of 5 29] short_text_Fin [of 0 7] short_text_Fin [of "-1" 7] by simp_all
  then show ?thesis
    by (auto simp: printable_def start_def adc_printable_def pwm_printable_def adc_reset_def pwm_reset_def
        pwm_next_def f_le_def)
qed

theorem report_total_witness: "\<exists>d'. ReportStatus sam3x levels512 start = Some d' \<and> daemon_inv sam3x d'"
  by (rule report_total [OF start_inv start_printable]) (simp add: levels_ok_def levels512_def)

text \<open>A GPIO line as the host writes it (\<open>GPIO22:dir:Out:val:Hi:\<close> and so on,
  for every pin, direction and value), received character by character, sets exactly that pin,
  drives the hardware as \<open>GpioPin_Set\<close> does and changes nothing else but the receive buffer.\<close>

theorem gpio_command_sets_pin:
  assumes inv: "daemon_inv b d" and ptr: "RxBufPtr d = 0" and i: "22 \<le> i" "i \<le> 53"
    and D: "(D, dir) \<in> {(''In'', INPUT b), (''Out'', OUTPUT b)}" and V: "(V, v) \<in> {(''Hi'', HIGH b), (''Low'', LOW b)}"
    and set: "GpioPin_Set b (GpioPins d ! nat (i - 22)) dir v = (r, pin', ev)"
  shows "\<exists>rx. forM (gpio_command i D V @ [NL]) (recv_char b ms) d =
           Some ((drive ev (d\<lparr>RxBuf := rx, GpioPins := (GpioPins d)[nat (i - 22) := pin']\<rparr>))\<lparr>RxBufPtr := 0\<rparr>)"
  using assms by (rule recv_gpio_line)

theorem gpio_command_sets_pin_witness:
  "\<exists>rx. forM (gpio_command 22 ''Out'' ''Hi'' @ [NL]) (recv_char sam3x 0) start =
     Some ((drive [PinMode 22 1, DigitalWrite 22 1] (start\<lparr>RxBuf := rx, GpioPins := (GpioPins start)[0 :=
        (gpio_reset sam3x 0)\<lparr>g_Direction := 1, g_Value := 1\<rparr>]\<rparr>))\<lparr>RxBufPtr := 0\<rparr>)"
proof -
  have "GpioPin_Set sam3x (GpioPins start ! nat (22 - 22)) 1 1 =
      (True, (gpio_reset sam3x 0)\<lparr>g_Direction := 1, g_Value := 1\<rparr>, [PinMode 22 1, DigitalWrite 22 1])"
    by (simp add: start_pins sam3x_def GpioPin_Set_def gpio_reset_def)
  from gpio_command_sets_pin [OF start_inv start_facts(1) _ _ _ _ this, of "''Out''" "''Hi''" 0] show ?thesis
    by (simp add: sam3x_def)
qed

text \<open>An ADC line with a positive threshold sets the threshold of that input, rounded to
  single precision, and nothing else but the receive buffer changes.\<close>

theorem adc_command_sets_threshold:
  assumes inv: "daemon_inv b d" and ptr: "RxBufPtr d = 0" and i: "0 \<le> i" "i \<le> 11"
    and T: "field T" "NL \<notin> set T" "length T \<le> 64" and v: "v = f_cast round32 (strtod T)" "\<not> f_le v (Fin 0)"
  shows "\<exists>rx. forM (adc_command i T @ [NL]) (recv_char b ms) d =
     Some (d\<lparr>RxBuf := rx, AdcPins := (AdcPins d)[nat i := (AdcPins d ! nat i)\<lparr>a_Threshold := v\<rparr>], RxBufPtr := 0\<rparr>)"
  using assms by (rule recv_adc_line)

theorem adc_command_sets_threshold_witness:
  "\<exists>rx. forM (adc_command 3 ''2.5'' @ [NL]) (recv_char sam3x 0) start =
     Some (start\<lparr>RxBuf := rx, AdcPins := (AdcPins start)[3 := (adc_reset 3)\<lparr>a_Threshold := Fin (5 / 2)\<rparr>], RxBufPtr := 0\<rparr>)"
proof -
  have v: "Fin (5 / 2) = f_cast round32 (strtod ''2.5'')" by (simp add: float_eval)
  have "\<not> f_le (Fin (5 / 2)) (Fin 0)" by (simp add: f_le_def f_eq_def)
  from adc_command_sets_threshold [OF start_inv start_facts(1) _ _ _ _ _ v this, of 3 0] show ?thesis
    by (simp add: start_pins field_def)
qed

text \<open>A line that fills the receive buffer without a terminator is dropped:
  the offset returns to the start of the buffer, the host is told, and no pin changes.\<close>

theorem recv_overflow_recovers:
  assumes "daemon_inv b d" and "RxBufPtr d = 0" and "NL \<notin> set cs" and "length cs = BUF_SIZE"
  shows "\<exists>rx. forM cs (recv_char b ms) d = Some (Serial_write ''Error: Buffer overflow'' (d\<lparr>RxBuf := rx, RxBufPtr := 0\<rparr>))"
proof -
  obtain xs c where cs: "cs = xs @ [c]" using assms(4) by (cases cs rule: rev_cases) auto
  then show ?thesis
    using recv_chars [OF assms(1), of xs ms] assms
    by (auto simp: forM_append recv_char_def daemon_inv_def Serial_write_def wr_def)
qed

theorem recv_overflow_recovers_witness:
  "\<exists>rx. forM (replicate BUF_SIZE CHR ''x'') (recv_char sam3x 0) start =
     Some (Serial_write ''Error: Buffer overflow'' (start\<lparr>RxBuf := rx, RxBufPtr := 0\<rparr>))"
  by (rule recv_overflow_recovers [OF start_inv start_facts(1)]) simp_all

text \<open>A line of fewer than 1024 characters is handed to \<open>ProcessMessage\<close> as the C
  string it is, and the offset returns to the start of the buffer for the next line.\<close>

theorem line_framing:
  assumes "daemon_inv b d" and "RxBufPtr d = 0" and "NL \<notin> set msg" and "NUL \<notin> set msg" and "length msg < BUF_SIZE"
  shows "\<exists>d0. forM (msg @ [NL]) (recv_char b ms) d = map_option (\<lambda>d1. d1\<lparr>RxBufPtr := 0\<rparr>) (ProcessMessage b ms d0) \<and>
     c_str (RxBuf d0) 0 = Some msg \<and> daemon_inv b d0 \<and> GpioPins d0 = GpioPins d \<and> AdcPins d0 = AdcPins d \<and>
     PwmPins d0 = PwmPins d \<and> serial_out d0 = serial_out d \<and> hw d0 = hw d"
proof -
  let ?d0 = "d\<lparr>RxBufPtr := length msg, RxBuf := msg @ NUL # drop (Suc (length msg)) (RxBuf d)\<rparr>"
  have "daemon_inv b ?d0" using assms(1,5) by (simp add: daemon_inv_def)
  then show ?thesis
    using recv_line [OF assms(1,2,3,5), of ms] by (intro exI [of _ ?d0]) (simp add: c_str_0 [OF assms(4)])
qed

theorem line_framing_witness:
  "\<exists>d0. forM (''Ping'' @ [NL]) (recv_char sam3x 0) start = map_option (\<lambda>d1. d1\<lparr>RxBufPtr := 0\<rparr>) (ProcessMessage sam3x 0 d0) \<and>
     c_str (RxBuf d0) 0 = Some ''Ping''"
  using line_framing [OF start_inv start_facts(1), of "''Ping''" 0] by auto

text \<open>A ramp step never passes the set point, from either side, whatever the rounding
  does, and a duty cycle that has arrived stays.\<close>

theorem pwm_no_overshoot:
  assumes "p_SetPoint pin \<noteq> NaN" and "p_PwmValue pin \<noteq> NaN" and "PwmPin_Set pin = (r, pin', ev)" and "p_PwmValue pin' \<noteq> NaN"
  shows "(f_less (p_PwmValue pin) (p_SetPoint pin) \<longrightarrow> f_le (p_PwmValue pin') (p_SetPoint pin)) \<and>
     (f_less (p_SetPoint pin) (p_PwmValue pin) \<longrightarrow> f_le (p_SetPoint pin) (p_PwmValue pin')) \<and>
     (p_PwmValue pin = p_SetPoint pin \<longrightarrow> p_PwmValue pin' = p_SetPoint pin) \<and> p_SetPoint pin' = p_SetPoint pin"
  using assms pwm_next_no_overshoot [of "p_SetPoint pin" "p_PwmValue pin" "p_RampSpeed pin"]
  by (auto simp: PwmPin_Set_def Let_def f_le_def f_ne_def f_eq_def split: if_splits)

theorem pwm_no_overshoot_witness:
  "f_le (p_PwmValue (fst (snd (PwmPin_Set ((pwm_reset 0)\<lparr>p_SetPoint := Fin 10, p_RampSpeed := Fin 3\<rparr>))))) (Fin 10)"
proof -
  let ?p = "(pwm_reset 0)\<lparr>p_SetPoint := Fin 10, p_RampSpeed := Fin 3\<rparr>"
  have "PwmPin_Set ?p = (True, ?p\<lparr>p_PwmValue := Fin 3\<rparr>, [AnalogWrite 2 (f_scale round64 (f_scale round64 (Fin 3) 255) (1 / 100))])"
    by (simp add: PwmPin_Set_def pwm_reset_def pwm_next_def f_ne_def f_eq_def f_le_def float_eval)
  from pwm_no_overshoot [OF _ _ this] show ?thesis
    by (simp add: pwm_reset_def PwmPin_Set_def pwm_next_def f_ne_def f_eq_def f_le_def float_eval)
qed

section \<open>Defects\<close>

text \<open>The threshold of an analogue input is not bounded: after the line
  \<open>ADC3:thresh:1e38:\<close>, which is accepted, the next report prints more than 63 characters into the
  buffer of 64.\<close>

theorem adc_threshold_overflow:
  "\<exists>v. v = f_cast round32 (strtod ''1e38'') \<and> \<not> f_le v (Fin 0) \<and>
     AdcPin_Report b levels512 ((adc_reset 3)\<lparr>a_Enabled := 1, a_LastReportedEnabled := 1, a_Threshold := v\<rparr>) 1024 = None"
proof -
  have v: "f_cast round32 (strtod ''1e38'') = Fin 99999996802856924650656260769173209088" by (simp add: float_eval)
  have p: "adc_percent 512 = Fin 50" by (simp add: adc_percent_exact)
  show ?thesis
    unfolding v by (simp add: f_le_def f_eq_def AdcPin_Report_def adc_reset_def levels512_def p f_ne_def
      adc_state_msg_def sprintf_buf_def fmt_f2_def float_eval digits10.simps digit_char_def)
qed

text \<open>An empty line, which \<open>strtok\<close> answers with NULL, is handed to \<open>strncmp\<close>.\<close>

theorem short_line_null:
  assumes "daemon_inv b d" and "RxBufPtr d = 0"
  shows "recv_char b ms NL d = None"
proof -
  have "0 < length (RxBuf d)" using assms(1) by (simp add: daemon_inv_def)
  then have c: "c_str ((RxBuf d)[0 := NUL]) 0 = Some []" by (cases "RxBuf d") (simp_all add: c_str_def)
  have "strtok_at ((RxBuf d)[0 := NUL]) 0 CHR '':'' = Some (None, \<lparr>tk_buf = (RxBuf d)[0 := NUL], tk_save = None\<rparr>)"
    using strtok_at_empty [OF _ c] by simp
  then show ?thesis using assms c by (simp add: recv_char_def ProcessMessage_def first_field_def token_str_def wr_def)
qed

theorem short_line_null_witness: "recv_char sam3x 0 NL start = None"
  by (rule short_line_null [OF start_inv start_facts(1)])

text \<open>A change that does not fit into the space left is recorded as reported
  although nothing was sent: with the space of a later report nothing is sent either.\<close>

theorem unsent_report_lost:
  assumes "gpio_inv b pin" and "g_Direction pin = OUTPUT b" and "board_ok b" and "g_Enabled pin = 1" and "g_LastReportedEnabled pin = 1"
    and "g_LastReportedValue pin \<noteq> g_Value pin" and "0 \<le> space" and "space < 18"
  shows "\<exists>pin'. GpioPin_Report b lv pin space = Some (-1, [], pin') \<and>
     GpioPin_Report b lv' pin' 1024 = Some (0, [], pin')"
proof -
  have i: "0 \<le> g_Id pin" "g_Id pin < 100" "10 \<le> g_Id pin" using assms(1) by (auto simp: gpio_inv_def)
  let ?p = "pin\<lparr>g_LastReportedDirection := g_Direction pin, g_LastReportedValue := g_Value pin\<rparr>"
  have len: "length (gpio_state_msg b ?p) < 64" "18 < length (gpio_state_msg b ?p)"
    using length_gpio_state_msg [of ?p b] i digits10_len2 [of "g_Id pin"] by (simp_all add: gpio_state_msg_def)
  have o: "OUTPUT b \<noteq> INPUT b" "OUTPUT b \<noteq> INPUT_PULLUP b" using assms(3) by (auto simp: board_ok_def)
  have "GpioPin_Report b lv pin space = Some (-1, [], ?p)"
    using assms o len by (simp add: GpioPin_Report_def sprintf_buf_def report_result_def)
  moreover have "GpioPin_Report b lv' ?p 1024 = Some (0, [], ?p)"
    using assms o by (simp add: GpioPin_Report_def sprintf_buf_def report_result_def)
  ultimately show ?thesis by blast
qed

theorem unsent_report_lost_witness:
  "\<exists>pin'. GpioPin_Report sam3x levels512
       ((gpio_reset sam3x 0)\<lparr>g_Enabled := 1, g_LastReportedEnabled := 1, g_Direction := 1\<rparr>) 4 = Some (-1, [], pin') \<and>
     GpioPin_Report sam3x levels512 pin' 1024 = Some (0, [], pin')"
  by (rule unsent_report_lost) (simp_all add: gpio_inv_def gpio_reset_def sam3x_def board_ok_def)

end
