(* ===== verification/Float_Text.thy ===== *)
theory Float_Text
  imports C_Float
begin

text \<open>
  Numbers that travel as text: \<open>printf\<close> with a fixed number of decimals (\<open>%.2f\<close> in the
  firmware, \<open>%f\<close> in the host's \<open>std::to_string\<close>), what \<open>strtod\<close> reads back from it, and the error
  of a rounding. Together they tell which values survive the trip unchanged.
\<close>

section \<open>Fixed-point text\<close>

primrec frac_digits :: "nat \<Rightarrow> int \<Rightarrow> string" where
  "frac_digits 0 n = []"
| "frac_digits (Suc k) n = frac_digits k (n div 10) @ [digit_char (n mod 10)]"

text \<open>The integer \<open>n\<close> as a number with \<open>k\<close> decimals, and \<open>%.kf\<close>.\<close>

definition fixed_text :: "nat \<Rightarrow> int \<Rightarrow> string" where
  "fixed_text k n = digits10 (n div 10 ^ k) @ ''.'' @ frac_digits k n"

definition fmt_fixed :: "nat \<Rightarrow> cfloat \<Rightarrow> string" where
  "fmt_fixed k x = (case x of
       Fin v \<Rightarrow> (if v < 0 then ''-'' else []) @ fixed_text k (round_half_even (\<bar>v\<bar> * 10 ^ k))
     | PInf \<Rightarrow> ''inf'' | NInf \<Rightarrow> ''-inf'' | NaN \<Rightarrow> ''nan'')"

lemma fmt_f2_fixed: "fmt_f2 x = fmt_fixed 2 x"
  by (simp add: fmt_f2_def fmt_fixed_def fixed_text_def Let_def numeral_2_eq_2 split: cfloat.split)

lemma frac_digits_digits: "c \<in> set (frac_digits k n) \<Longrightarrow> is_digit c"
  by (induction k arbitrary: n) auto

lemma length_frac_digits [simp]: "length (frac_digits k n) = k"
  by (induction k arbitrary: n) auto

lemma digits_val_fixed: "0 \<le> n \<Longrightarrow> digits_val (digits10 (n div 10 ^ k) @ frac_digits k n) = n"
proof (induction k arbitrary: n)
  case 0
  then show ?case by simp
next
  case (Suc k)
  have "digits_val (digits10 (n div 10 div 10 ^ k) @ frac_digits k (n div 10)) = n div 10"
    using Suc by simp
  moreover have "n div 10 ^ Suc k = n div 10 div 10 ^ k" by (simp add: zdiv_zmult2_eq)
  ultimately show ?case
    using digits_val_snoc [of "digits10 (n div 10 div 10 ^ k) @ frac_digits k (n div 10)"]
      digit_val_char [of "n mod 10"] Suc.prems
    by simp
qed

section \<open>Reading it back\<close>

lemma to_lower_digit: "is_digit c \<Longrightarrow> to_lower c = c"
  unfolding is_digit_def by (simp, elim disjE; simp add: to_lower_def index_of_def)

lemma div_pow10_nonneg: "0 \<le> n \<Longrightarrow> 0 \<le> n div 10 ^ k" for n :: int
  by (simp add: pos_imp_zdiv_nonneg_iff)

lemma scan_fixed:
  assumes "0 \<le> n"
  shows "scan_mantissa is_digit digit_val 10 (fixed_text k n) =
    (n, k, length (digits10 (n div 10 ^ k)) + k, [])"
proof -
  let ?ip = "digits10 (n div 10 ^ k)" and ?fp = "frac_digits k n"
  have dot: "\<not> is_digit (CHR ''.'')" by (simp add: is_digit_def)
  have "0 \<le> n div 10 ^ k" using assms by (rule div_pow10_nonneg)
  then have "takeWhile is_digit (?ip @ CHR ''.'' # ?fp) = ?ip"
    using digits10_all_digits [of "n div 10 ^ k"] dot by (subst takeWhile_append2) auto
  moreover have fp: "takeWhile is_digit ?fp = ?fp"
    using frac_digits_digits by (simp only: takeWhile_eq_all_conv) blast
  moreover have "foldl (\<lambda>a c. 10 * a + digit_val c) 0 (?ip @ ?fp) = n"
    using digits_val_fixed [OF assms, of k] by (simp only: digits_val_def)
  ultimately show ?thesis by (simp add: fp scan_mantissa_def fixed_text_def Let_def del: foldl_append takeWhile_eq_all_conv)
qed

lemma fixed_text_head:
  assumes "0 \<le> n"
  obtains c d s where "fixed_text k n = c # d # s" and "is_digit c" and "is_digit d \<or> d = CHR ''.''"
proof -
  have d: "\<forall>c \<in> set (digits10 (n div 10 ^ k)). is_digit c" using digits10_all_digits [OF div_pow10_nonneg [OF assms]] .
  show thesis
  proof (cases "digits10 (n div 10 ^ k)")
    case Nil
    then show ?thesis by simp
  next
    case (Cons c cs)
    with d that show ?thesis by (cases cs) (auto simp: fixed_text_def)
  qed
qed

text \<open>The magnitude a text denotes, where it denotes a finite one, and whether it starts with a number.\<close>

definition number_start :: "string \<Rightarrow> string" where
  "number_start s = (let t = dropWhile is_space s in
     if t \<noteq> [] \<and> (hd t = CHR ''-'' \<or> hd t = CHR ''+'') then tl t else t)"

definition exact_magnitude :: "string \<Rightarrow> rat option" where
  "exact_magnitude s = (let u = number_start s;
       l = map to_lower u;
       (hm, hf, hn, hr) = scan_mantissa is_hex (\<lambda>c. the (hex_val c)) 16 (drop 2 u);
       (dm, df, dn, dr) = scan_mantissa is_digit digit_val 10 u
     in if is_prefix ''inf'' l \<or> is_prefix ''nan'' l then None
        else if is_prefix ''0x'' l \<and> 0 < hn
          then Some (of_int hm * rat_power 2 (scan_exponent CHR ''p'' hr - 4 * int hf))
        else if 0 < dn then Some (of_int dm * rat_power 10 (scan_exponent CHR ''e'' dr - int df))
        else None)"

definition converts :: "string \<Rightarrow> bool" where
  "converts s \<longleftrightarrow> exact_magnitude s \<noteq> None \<or>
     is_prefix ''inf'' (map to_lower (number_start s)) \<or> is_prefix ''nan'' (map to_lower (number_start s))"

lemma not_special:
  assumes "is_digit c" and "is_digit d \<or> d = CHR ''.''"
  shows "\<not> is_space c" "c \<noteq> CHR ''-''" "c \<noteq> CHR ''+''"
    "\<not> is_prefix ''inf'' (map to_lower (c # d # s))" "\<not> is_prefix ''nan'' (map to_lower (c # d # s))"
    "\<not> is_prefix ''0x'' (map to_lower (c # d # s))"
proof -
  have "to_lower d \<noteq> CHR ''x''"
  proof (cases "is_digit d")
    case True
    then show ?thesis by (auto simp: to_lower_digit is_digit_def)
  next
    case False
    with assms(2) have "d = CHR ''.''" by simp
    then show ?thesis by (simp add: to_lower_def index_of_def)
  qed
  then show "\<not> is_prefix ''0x'' (map to_lower (c # d # s))" by simp
  show "\<not> is_space c" using assms(1) by (rule is_digit_not_space)
  show "c \<noteq> CHR ''-''" "c \<noteq> CHR ''+''" using assms(1) by (auto simp: is_digit_def)
  show "\<not> is_prefix ''inf'' (map to_lower (c # d # s))" "\<not> is_prefix ''nan'' (map to_lower (c # d # s))"
    using assms(1) to_lower_digit [OF assms(1)] by (auto simp: is_digit_def)
qed

text \<open>What both readers find in a fixed-point text without and with a sign.\<close>

lemma exact_magnitude_fixed:
  assumes "0 \<le> n"
  shows "exact_magnitude (fixed_text k n) = Some (of_int n / 10 ^ k)"
    and "exact_magnitude (CHR ''-'' # fixed_text k n) = Some (of_int n / 10 ^ k)"
proof -
  obtain c d s where u: "fixed_text k n = c # d # s" and cd: "is_digit c" "is_digit d \<or> d = CHR ''.''"
    using fixed_text_head [OF assms] .
  note ns = not_special [OF cd]
  have dn: "0 < length (digits10 (n div 10 ^ k)) + k" by simp
  have sc: "scan_mantissa is_digit digit_val 10 (c # d # s) = (n, k, length (digits10 (n div 10 ^ k)) + k, [])"
    using scan_fixed [OF assms, of k] by (simp only: u)
  have v: "of_int n * rat_power 10 (0 - int k) = of_int n / 10 ^ k"
    by (simp add: rat_power_def)
  have st: "number_start (fixed_text k n) = c # d # s" "number_start (CHR ''-'' # fixed_text k n) = c # d # s"
    using ns(1-3) by (simp_all add: number_start_def u is_space_def)
  show "exact_magnitude (fixed_text k n) = Some (of_int n / 10 ^ k)"
    unfolding exact_magnitude_def Let_def st sc using ns(4-6) dn v
    by (simp add: scan_exponent_def split: prod.split del: is_prefix.simps)
  show "exact_magnitude (CHR ''-'' # fixed_text k n) = Some (of_int n / 10 ^ k)"
    unfolding exact_magnitude_def Let_def st sc using ns(4-6) dn v
    by (simp add: scan_exponent_def split: prod.split del: is_prefix.simps)
qed

lemma strtod_fixed:
  assumes "0 \<le> n"
  shows "strtod (fixed_text k n) = round64 (of_int n / 10 ^ k)"
proof -
  obtain c d s where u: "fixed_text k n = c # d # s" and cd: "is_digit c" "is_digit d \<or> d = CHR ''.''"
    using fixed_text_head [OF assms] .
  note ns = not_special [OF cd]
  have sc: "scan_mantissa is_digit digit_val 10 (c # d # s) = (n, k, length (digits10 (n div 10 ^ k)) + k, [])"
    using scan_fixed [OF assms, of k] by (simp only: u)
  have v: "of_int n * rat_power 10 (0 - int k) = of_int n / 10 ^ k"
    by (simp add: rat_power_def)
  show ?thesis
    unfolding strtod_def u Let_def using ns sc v
    by (simp add: scan_exponent_def split: prod.split del: is_prefix.simps)
qed

section \<open>Rounding errors\<close>

lemma fround_error:
  assumes "\<bar>x\<bar> < pow2 emax" and "0 < prec" and "emin \<le> emax"
  obtains r where "fround prec emin emax x = Fin r" and "\<bar>r - x\<bar> \<le> max \<bar>x\<bar> (pow2 emin) * pow2 (- prec)"
proof (cases "x = 0")
  case True
  then show ?thesis by (intro that [of 0]) (simp_all add: fround_def less_imp_le)
next
  case False
  define e where "e = max (floor_log2 \<bar>x\<bar>) emin"
  define u where "u = pow2 (e - prec + 1)"
  define r where "r = of_int (round_half_even (x / u)) * u"
  have u: "0 < u" by (simp add: u_def)
  have "pow2 e \<le> max \<bar>x\<bar> (pow2 emin)"
    using floor_log2_le [of "\<bar>x\<bar>"] False by (cases "emin \<le> floor_log2 \<bar>x\<bar>") (auto simp: e_def max_def)
  moreover have "u / 2 = pow2 e * pow2 (- prec)"
    using pow2_add [of "e - prec" 1] pow2_add [of e "- prec"] by (simp add: u_def pow2_def)
  ultimately have half: "u / 2 \<le> max \<bar>x\<bar> (pow2 emin) * pow2 (- prec)"
    by (simp add: mult_right_mono less_imp_le)
  have "\<bar>of_int (round_half_even (x / u)) - x / u\<bar> \<le> 1 / 2"
    using round_half_even_bounds [of "x / u"] by linarith
  then have "\<bar>of_int (round_half_even (x / u)) - x / u\<bar> * u \<le> 1 / 2 * u"
    using u by (intro mult_right_mono) auto
  moreover have "\<bar>of_int (round_half_even (x / u)) - x / u\<bar> * u = \<bar>r - x\<bar>"
    using u abs_mult [of "of_int (round_half_even (x / u)) - x / u" u]
    by (simp add: r_def left_diff_distrib)
  ultimately have err: "\<bar>r - x\<bar> \<le> max \<bar>x\<bar> (pow2 emin) * pow2 (- prec)" using half by linarith
  have "max \<bar>x\<bar> (pow2 emin) \<le> pow2 emax" using assms pow2_le [of emin emax] by simp
  then have "max \<bar>x\<bar> (pow2 emin) * pow2 (- prec) \<le> pow2 emax * pow2 (- prec)"
    by (intro mult_right_mono) (simp_all add: less_imp_le)
  moreover have "pow2 (- prec) \<le> pow2 (- 1)" using assms(2) by (intro pow2_le) simp
  then have "pow2 emax * pow2 (- prec) \<le> pow2 emax * (1 / 2)"
    by (intro mult_left_mono) (simp_all add: pow2_def less_imp_le)
  ultimately have "\<bar>r\<bar> < pow2 emax + pow2 emax" using err assms(1) pow2_pos [of emax] by linarith
  also have "\<dots> = pow2 (emax + 1)" using pow2_add [of emax 1] by (simp add: pow2_def)
  finally have "fround prec emin emax x = Fin r"
    using False by (simp add: fround_def Let_def u_def r_def e_def)
  with err that show ?thesis by blast
qed

lemma round_half_even_near:
  assumes "\<bar>x - of_int k\<bar> < 1 / 2"
  shows "round_half_even x = k"
proof -
  have x: "of_int k - 1 / 2 < x" "x < of_int k + 1 / 2" using assms by linarith+
  have "of_int (round_half_even x) < (of_int k + 1 :: rat)" using round_half_even_bounds [of x] x by linarith
  then have "of_int (round_half_even x) < (of_int (k + 1) :: rat)" by simp
  moreover have "of_int k - 1 < (of_int (round_half_even x) :: rat)" using round_half_even_bounds [of x] x by linarith
  then have "of_int (k - 1) < (of_int (round_half_even x) :: rat)" by simp
  ultimately show ?thesis by (simp only: of_int_less_iff)
qed

end
