(* ===== verification/Sam_Ramp.thy ===== *)
theory Sam_Ramp
  imports Sam_Pwm Float_Text
begin

text \<open>
  The ramp of a pulse-width output over many reports: \<open>PwmPin_Set\<close> runs once per report, in single
  precision. A ramp of at least a hundredth of a percent reaches every set point; a ramp smaller than
  half a unit in the last place of the duty cycle moves nothing.
\<close>

definition ramp_steps :: "nat \<Rightarrow> pwm_pin \<Rightarrow> pwm_pin" where
  "ramp_steps n = ((\<lambda>pin. fst (snd (PwmPin_Set pin))) ^^ n)"

lemma ramp_steps_Suc: "ramp_steps (Suc n) pin = ramp_steps n (fst (snd (PwmPin_Set pin)))"
  by (simp add: ramp_steps_def funpow_Suc_right del: funpow.simps)

lemma ramp_steps_0: "ramp_steps 0 pin = pin"
  by (simp add: ramp_steps_def)

lemma PwmPin_Set_pin:
  assumes "p_SetPoint pin = Fin s" and "p_PwmValue pin = Fin v" and "0 \<le> s"
  shows "fst (snd (PwmPin_Set pin)) = (if s = v then pin else pin\<lparr>p_PwmValue := pwm_next (Fin s) (Fin v) (p_RampSpeed pin)\<rparr>)"
  using assms by (simp add: PwmPin_Set_def Let_def f_ne_def f_eq_def f_le_def le_less)

text \<open>One step in single precision.\<close>

lemma ramp_sum:
  assumes "\<bar>x\<bar> \<le> 200"
  obtains w where "round32 x = Fin w" and "\<bar>w - x\<bar> \<le> 1 / 1000"
proof -
  have "\<bar>x\<bar> < pow2 127" using assms pow2_le [of 8 127] by (simp add: pow2_def [of 8])
  then obtain w where w: "round32 x = Fin w" "\<bar>w - x\<bar> \<le> max \<bar>x\<bar> (pow2 (- 126)) * pow2 (- 24)"
    using fround_error [of x 127 24 "- 126"] by auto
  have "max \<bar>x\<bar> (pow2 (- 126)) \<le> 200" using assms pow2_le [of "- 126" 0] by (simp add: pow2_def [of 0])
  then have "max \<bar>x\<bar> (pow2 (- 126)) * pow2 (- 24) \<le> 200 * pow2 (- 24)" by (intro mult_right_mono) (simp_all add: less_imp_le)
  also have "\<dots> \<le> 1 / 1000" by (simp add: pow2_def)
  finally have "\<bar>w - x\<bar> \<le> 1 / 1000" using w(2) by linarith
  with w(1) show thesis by (rule that)
qed

lemma pwm_next_progress:
  assumes s: "0 \<le> s" "s \<le> 100" and v: "0 \<le> v" "v \<le> 100" and r: "1 / 100 \<le> r" "r \<le> 100" and "s \<noteq> v"
  obtains w where "pwm_next (Fin s) (Fin v) (Fin r) = Fin w" and "0 \<le> w" and "w \<le> 100" and "w = s \<or> \<bar>s - w\<bar> \<le> \<bar>s - v\<bar> - r / 2"
proof -
  have r0: "\<not> f_le (Fin r) (Fin 0)" using r by (simp add: f_le_def f_eq_def)
  have b: "\<bar>v + r\<bar> \<le> 200" "\<bar>v - r\<bar> \<le> 200" using v r by (auto simp: abs_le_iff)
  obtain u where u: "round32 (v + r) = Fin u" "\<bar>u - (v + r)\<bar> \<le> 1 / 1000" by (rule ramp_sum [OF b(1)])
  obtain d where d: "round32 (v - r) = Fin d" "\<bar>d - (v - r)\<bar> \<le> 1 / 1000" by (rule ramp_sum [OF b(2)])
  have ud: "v + r - 1 / 1000 \<le> u" "u \<le> v + r + 1 / 1000" "v - r - 1 / 1000 \<le> d" "d \<le> v - r + 1 / 1000"
    using u(2) d(2) by (simp_all only: abs_le_iff) linarith+
  have eq: "pwm_next (Fin s) (Fin v) (Fin r) = Fin (if v < s then (if s < u then s else u) else (if d < s then s else d))"
    using r0 assms(7) u(1) d(1) by (simp add: pwm_next_def f_sub_def)
  show thesis
  proof (rule that [OF eq])
    show "0 \<le> (if v < s then (if s < u then s else u) else (if d < s then s else d))"
      using s v r ud by auto
    show "(if v < s then (if s < u then s else u) else (if d < s then s else d)) \<le> 100"
      using s v r ud by auto
    show "(if v < s then (if s < u then s else u) else (if d < s then s else d)) = s \<or>
      \<bar>s - (if v < s then (if s < u then s else u) else (if d < s then s else d))\<bar> \<le> \<bar>s - v\<bar> - r / 2"
      using r ud assms(7) by (auto simp: abs_if split: if_splits)
  qed
qed

lemma ramp_progress:
  assumes "p_SetPoint pin = Fin s" and "p_PwmValue pin = Fin v" and "p_RampSpeed pin = Fin r"
    and s: "0 \<le> s" "s \<le> 100" and v: "0 \<le> v" "v \<le> 100" and r: "1 / 100 \<le> r" "r \<le> 100"
  shows "\<exists>w. p_PwmValue (ramp_steps n pin) = Fin w \<and> (w = s \<or> \<bar>s - w\<bar> \<le> \<bar>s - v\<bar> - of_nat n * (r / 2))"
  using assms
proof (induction n arbitrary: pin v)
  case 0
  then show ?case by (simp add: ramp_steps_0)
next
  case (Suc n)
  show ?case
  proof (cases "s = v")
    case True
    with Suc.prems have "fst (snd (PwmPin_Set pin)) = pin" by (simp add: PwmPin_Set_pin)
    moreover from Suc.IH [OF Suc.prems] True obtain w where "p_PwmValue (ramp_steps n pin) = Fin w" "w = s \<or> \<bar>s - w\<bar> \<le> - (of_nat n * (r / 2))"
      by auto
    moreover have "0 \<le> of_nat n * (r / 2)" using Suc.prems(8) by simp
    ultimately show ?thesis by (auto simp: ramp_steps_Suc)
  next
    case False
    with Suc.prems obtain w where w: "pwm_next (Fin s) (Fin v) (Fin r) = Fin w" "0 \<le> w" "w \<le> 100" "w = s \<or> \<bar>s - w\<bar> \<le> \<bar>s - v\<bar> - r / 2"
      using pwm_next_progress [of s v r] by metis
    let ?p = "pin\<lparr>p_PwmValue := Fin w\<rparr>"
    have p: "fst (snd (PwmPin_Set pin)) = ?p" using Suc.prems(1-4) False w(1) by (simp add: PwmPin_Set_pin)
    have f: "p_SetPoint ?p = Fin s" "p_PwmValue ?p = Fin w" "p_RampSpeed ?p = Fin r" using Suc.prems(1,3) by simp_all
    obtain y where y: "p_PwmValue (ramp_steps n ?p) = Fin y" "y = s \<or> \<bar>s - y\<bar> \<le> \<bar>s - w\<bar> - of_nat n * (r / 2)"
      using Suc.IH [OF f s w(2,3) r] by blast
    define q where "q = of_nat n * (r / 2)"
    have q: "0 \<le> q" "of_nat (Suc n) * (r / 2) = q + r / 2" using r by (simp_all add: q_def distrib_right)
    have "y = s \<or> \<bar>s - y\<bar> \<le> \<bar>s - v\<bar> - (q + r / 2)"
    proof (rule disjCI)
      assume "\<not> \<bar>s - y\<bar> \<le> \<bar>s - v\<bar> - (q + r / 2)"
      with w(4) y(2) [folded q_def] q(1) show "y = s" by auto
    qed
    with y(1) show ?thesis by (simp only: ramp_steps_Suc p q(2)) blast
  qed
qed

text \<open>C22: a ramp arrives. With a ramp of at least 0.01 per report the duty cycle is at its set
  point, exactly, after more than \<open>2 * |s - v| / r\<close> reports, and stays there.\<close>

theorem pwm_ramp_arrives:
  assumes "p_SetPoint pin = Fin s" and "p_PwmValue pin = Fin v" and "p_RampSpeed pin = Fin r"
    and "0 \<le> s" "s \<le> 100" and "0 \<le> v" "v \<le> 100" and "1 / 100 \<le> r" "r \<le> 100" and "2 * \<bar>s - v\<bar> < of_nat n * r"
  shows "p_PwmValue (ramp_steps n pin) = p_SetPoint pin"
proof -
  obtain w where w: "p_PwmValue (ramp_steps n pin) = Fin w" "w = s \<or> \<bar>s - w\<bar> \<le> \<bar>s - v\<bar> - of_nat n * (r / 2)"
    using ramp_progress [OF assms(1-9)] by blast
  have "\<bar>s - v\<bar> - of_nat n * (r / 2) < 0" using assms(10) by simp
  then have "\<not> \<bar>s - w\<bar> \<le> \<bar>s - v\<bar> - of_nat n * (r / 2)" using abs_ge_zero [of "s - w"] by linarith
  with w assms(1) show ?thesis by simp
qed

text \<open>A duty cycle of at least 64 is a multiple of \<open>2\<^sup>-\<^sup>1\<^sup>7\<close>.\<close>

lemma round32_stuck:
  assumes "round32 v = Fin v" and "64 \<le> v" and "v < 128" and "0 < r" and "r \<le> pow2 (- 19)"
  shows "round32 (v + r) = Fin v"
proof -
  have lg: "floor_log2 x = 6" if "64 \<le> x" "x < 128" for x :: rat
  proof -
    have "x < pow2 (floor_log2 x + 1)" using that by (intro floor_log2_upper) simp
    then have "\<not> floor_log2 x + 1 \<le> 6" using that pow2_le [of "floor_log2 x + 1" 6] by (auto simp: pow2_def [of 6])
    moreover have "floor_log2 x < 7" using that by (intro floor_log2_less) (simp_all add: pow2_def)
    ultimately show ?thesis by simp
  qed
  let ?u = "pow2 (- 17)"
  have v: "of_int (round_half_even (v / ?u)) * ?u = v"
    using assms(1-3) lg [of v] by (auto simp: fround_def Let_def split: if_splits)
  define m where "m = round_half_even (v / ?u)"
  have vm: "v = of_int m * ?u" using v by (simp add: m_def)
  have "of_int m * ?u < 128" using assms(3) vm by simp
  then have m: "m < 16777216" by (simp add: pow2_def)
  then have "of_int m + 1 \<le> (16777216 :: rat)" by (metis add1_zle_eq of_int_1 of_int_add of_int_le_iff of_int_numeral)
  then have "v + ?u \<le> 128" by (simp add: vm pow2_def)
  moreover have q: "r / ?u \<le> 1 / 4" using assms(5) by (simp add: pow2_def)
  ultimately have vr: "64 \<le> v + r" "v + r < 128" using assms(2,4) by (simp_all add: pow2_def)
  have "round_half_even ((v + r) / ?u) = m"
    using q assms(4) by (intro round_half_even_near) (simp add: vm add_divide_distrib)
  moreover have "\<not> 340282366920938463463374607431768211456 \<le> v" using assms(3) by simp
  ultimately show ?thesis
    using lg [OF vr] vr vm assms(2) by (simp add: fround_def pow2_def [of 128])
qed

text \<open>A ramp may never arrive. The firmware accepts every positive ramp; with one of at
  most \<open>2\<^sup>-\<^sup>1\<^sup>9\<close> a duty cycle of 64 or more never rises, however many reports pass.\<close>

theorem pwm_ramp_stuck:
  assumes "p_SetPoint pin = Fin s" and "p_PwmValue pin = Fin v" and "p_RampSpeed pin = Fin r"
    and "round32 v = Fin v" and "64 \<le> v" and "v < s" and "s \<le> 100" and "0 < r" and "r \<le> pow2 (- 19)"
  shows "p_PwmValue (ramp_steps n pin) = Fin v"
proof -
  have "round32 (v + r) = Fin v" using assms by (intro round32_stuck) simp_all
  then have "pwm_next (Fin s) (Fin v) (Fin r) = Fin v" using assms by (simp add: pwm_next_def f_le_def f_eq_def)
  then have "fst (snd (PwmPin_Set pin)) = pin" using assms by (simp add: PwmPin_Set_pin)
  then have "ramp_steps n pin = pin" by (induction n) (simp_all add: ramp_steps_0 ramp_steps_Suc)
  then show ?thesis using assms(2) by simp
qed

section \<open>Runs\<close>

definition ramped_pin :: "cfloat \<Rightarrow> pwm_pin" where
  "ramped_pin ramp = \<lparr>p_Enabled = 1, p_LastReportedEnabled = 1, p_PwmValue = Fin 64, p_LastReportedPwmValue = Fin 64,
     p_SetPoint = Fin 100, p_RampSpeed = ramp, p_LastReportedRampSpeed = ramp, p_Id = 2\<rparr>"

theorem pwm_ramp_arrives_witness: "p_PwmValue (ramp_steps 100 (ramped_pin (Fin 1))) = Fin 100"
  using pwm_ramp_arrives [of "ramped_pin (Fin 1)" 100 64 1 100] by (simp add: ramped_pin_def)

theorem pwm_ramp_stuck_witness:
  "\<exists>r. f_cast round32 (strtod ''0.000001'') = r \<and> p_PwmValue (ramp_steps 1000000 (ramped_pin r)) = Fin 64"
proof -
  let ?x = "8796093 / 8796093022208"
  have "f_cast round32 (strtod ''0.000001'') = Fin ?x" by (simp add: float_eval)
  moreover have "round32 64 = Fin 64" by (simp add: float_eval)
  ultimately show ?thesis
    using pwm_ramp_stuck [of "ramped_pin (Fin ?x)" 100 64 ?x 1000000] by (simp add: ramped_pin_def pow2_def)
qed

end
