(* ===== verification/Jpeg_Huffman.thy ===== *)
theory Jpeg_Huffman
  imports Clank_Prelude
begin

text \<open>
  \<open>input_gspcav1/huffman.c\<close>: entropy coding of a quantised block and the end of the bit stream.

  \<^item> The globals \<open>lcode\<close> and \<open>bitindex\<close> and the output written so far form the record
    \<open>bitstream\<close>; \<open>*output_ptr++ = b\<close> appends to \<open>out\<close>.
  \<^item> \<open>lcode\<close> is a 32-bit register (declared \<open>INT32\<close>; its left shifts are the two's complement
    ones of the compiler, its right shifts are only used for bits that a byte keeps).
  \<^item> The \<open>PUTBITS\<close> code, which the source repeats four times, is \<open>putbits\<close>.
  \<^item> Coefficients are \<open>INT16\<close>, hence \<open>to_i16\<close> where one is assigned.
  \<^item> \<open>close_bitstream\<close> reads the bytes of \<open>lcode\<close> from the highest address down, on a
    little-endian machine.
\<close>

section \<open>Tables\<close>

definition luminance_dc_code_table :: "int list" where
  "luminance_dc_code_table = [
    0x0000, 0x0002, 0x0003, 0x0004, 0x0005, 0x0006, 0x000E, 0x001E, 0x003E, 0x007E, 0x00FE, 0x01FE]"

definition luminance_dc_size_table :: "nat list" where
  "luminance_dc_size_table = [
    2, 3, 3, 3, 3, 3, 4, 5, 6, 7, 8, 9]"

definition chrominance_dc_code_table :: "int list" where
  "chrominance_dc_code_table = [
    0x0000, 0x0001, 0x0002, 0x0006, 0x000E, 0x001E, 0x003E, 0x007E, 0x00FE, 0x01FE, 0x03FE, 0x07FE]"

definition chrominance_dc_size_table :: "nat list" where
  "chrominance_dc_size_table = [
    2, 2, 2, 3, 4, 5, 6, 7, 8, 9, 10, 11]"

definition luminance_ac_code_table :: "int list" where
  "luminance_ac_code_table = [
    0x000A, 0x0000, 0x0001, 0x0004, 0x000B, 0x001A, 0x0078, 0x00F8, 0x03F6, 0xFF82, 0xFF83, 0x000C,
    0x001B, 0x0079, 0x01F6, 0x07F6, 0xFF84, 0xFF85, 0xFF86, 0xFF87, 0xFF88, 0x001C, 0x00F9, 0x03F7,
    0x0FF4, 0xFF89, 0xFF8A, 0xFF8B, 0xFF8C, 0xFF8D, 0xFF8E, 0x003A, 0x01F7, 0x0FF5, 0xFF8F, 0xFF90,
    0xFF91, 0xFF92, 0xFF93, 0xFF94, 0xFF95, 0x003B, 0x03F8, 0xFF96, 0xFF97, 0xFF98, 0xFF99, 0xFF9A,
    0xFF9B, 0xFF9C, 0xFF9D, 0x007A, 0x07F7, 0xFF9E, 0xFF9F, 0xFFA0, 0xFFA1, 0xFFA2, 0xFFA3, 0xFFA4,
    0xFFA5, 0x007B, 0x0FF6, 0xFFA6, 0xFFA7, 0xFFA8, 0xFFA9, 0xFFAA, 0xFFAB, 0xFFAC, 0xFFAD, 0x00FA,
    0x0FF7, 0xFFAE, 0xFFAF, 0xFFB0, 0xFFB1, 0xFFB2, 0xFFB3, 0xFFB4, 0xFFB5, 0x01F8, 0x7FC0, 0xFFB6,
    0xFFB7, 0xFFB8, 0xFFB9, 0xFFBA, 0xFFBB, 0xFFBC, 0xFFBD, 0x01F9, 0xFFBE, 0xFFBF, 0xFFC0, 0xFFC1,
    0xFFC2, 0xFFC3, 0xFFC4, 0xFFC5, 0xFFC6, 0x01FA, 0xFFC7, 0xFFC8, 0xFFC9, 0xFFCA, 0xFFCB, 0xFFCC,
    0xFFCD, 0xFFCE, 0xFFCF, 0x03F9, 0xFFD0, 0xFFD1, 0xFFD2, 0xFFD3, 0xFFD4, 0xFFD5, 0xFFD6, 0xFFD7,
    0xFFD8, 0x03FA, 0xFFD9, 0xFFDA, 0xFFDB, 0xFFDC, 0xFFDD, 0xFFDE, 0xFFDF, 0xFFE0, 0xFFE1, 0x07F8,
    0xFFE2, 0xFFE3, 0xFFE4, 0xFFE5, 0xFFE6, 0xFFE7, 0xFFE8, 0xFFE9, 0xFFEA, 0xFFEB, 0xFFEC, 0xFFED,
    0xFFEE, 0xFFEF, 0xFFF0, 0xFFF1, 0xFFF2, 0xFFF3, 0xFFF4, 0xFFF5, 0xFFF6, 0xFFF7, 0xFFF8, 0xFFF9,
    0xFFFA, 0xFFFB, 0xFFFC, 0xFFFD, 0xFFFE, 0x07F9]"

definition luminance_ac_size_table :: "nat list" where
  "luminance_ac_size_table = [
    4, 2, 2, 3, 4, 5, 7, 8, 10, 16, 16, 4, 5, 7, 9, 11, 16, 16, 16, 16, 16, 5, 8, 10, 12, 16, 16,
    16, 16, 16, 16, 6, 9, 12, 16, 16, 16, 16, 16, 16, 16, 6, 10, 16, 16, 16, 16, 16, 16, 16, 16, 7,
    11, 16, 16, 16, 16, 16, 16, 16, 16, 7, 12, 16, 16, 16, 16, 16, 16, 16, 16, 8, 12, 16, 16, 16,
    16, 16, 16, 16, 16, 9, 15, 16, 16, 16, 16, 16, 16, 16, 16, 9, 16, 16, 16, 16, 16, 16, 16, 16,
    16, 9, 16, 16, 16, 16, 16, 16, 16, 16, 16, 10, 16, 16, 16, 16, 16, 16, 16, 16, 16, 10, 16, 16,
    16, 16, 16, 16, 16, 16, 16, 11, 16, 16, 16, 16, 16, 16, 16, 16, 16, 16, 16, 16, 16, 16, 16, 16,
    16, 16, 16, 16, 16, 16, 16, 16, 16, 16, 16, 16, 16, 11]"

definition chrominance_ac_code_table :: "int list" where
  "chrominance_ac_code_table = [
    0x0000, 0x0001, 0x0004, 0x000A, 0x0018, 0x0019, 0x0038, 0x0078, 0x01F4, 0x03F6, 0x0FF4, 0x000B,
    0x0039, 0x00F6, 0x01F5, 0x07F6, 0x0FF5, 0xFF88, 0xFF89, 0xFF8A, 0xFF8B, 0x001A, 0x00F7, 0x03F7,
    0x0FF6, 0x7FC2, 0xFF8C, 0xFF8D, 0xFF8E, 0xFF8F, 0xFF90, 0x001B, 0x00F8, 0x03F8, 0x0FF7, 0xFF91,
    0xFF92, 0xFF93, 0xFF94, 0xFF95, 0xFF96, 0x003A, 0x01F6, 0xFF97, 0xFF98, 0xFF99, 0xFF9A, 0xFF9B,
    0xFF9C, 0xFF9D, 0xFF9E, 0x003B, 0x03F9, 0xFF9F, 0xFFA0, 0xFFA1, 0xFFA2, 0xFFA3, 0xFFA4, 0xFFA5,
    0xFFA6, 0x0079, 0x07F7, 0xFFA7, 0xFFA8, 0xFFA9, 0xFFAA, 0xFFAB, 0xFFAC, 0xFFAD, 0xFFAE, 0x007A,
    0x07F8, 0xFFAF, 0xFFB0, 0xFFB1, 0xFFB2, 0xFFB3, 0xFFB4, 0xFFB5, 0xFFB6, 0x00F9, 0xFFB7, 0xFFB8,
    0xFFB9, 0xFFBA, 0xFFBB, 0xFFBC, 0xFFBD, 0xFFBE, 0xFFBF, 0x01F7, 0xFFC0, 0xFFC1, 0xFFC2, 0xFFC3,
    0xFFC4, 0xFFC5, 0xFFC6, 0xFFC7, 0xFFC8, 0x01F8, 0xFFC9, 0xFFCA, 0xFFCB, 0xFFCC, 0xFFCD, 0xFFCE,
    0xFFCF, 0xFFD0, 0xFFD1, 0x01F9, 0xFFD2, 0xFFD3, 0xFFD4, 0xFFD5, 0xFFD6, 0xFFD7, 0xFFD8, 0xFFD9,
    0xFFDA, 0x01FA, 0xFFDB, 0xFFDC, 0xFFDD, 0xFFDE, 0xFFDF, 0xFFE0, 0xFFE1, 0xFFE2, 0xFFE3, 0x07F9,
    0xFFE4, 0xFFE5, 0xFFE6, 0xFFE7, 0xFFE8, 0xFFE9, 0xFFEA, 0xFFEB, 0xFFEC, 0x3FE0, 0xFFED, 0xFFEE,
    0xFFEF, 0xFFF0, 0xFFF1, 0xFFF2, 0xFFF3, 0xFFF4, 0xFFF5, 0x7FC3, 0xFFF6, 0xFFF7, 0xFFF8, 0xFFF9,
    0xFFFA, 0xFFFB, 0xFFFC, 0xFFFD, 0xFFFE, 0x03FA]"

definition chrominance_ac_size_table :: "nat list" where
  "chrominance_ac_size_table = [
    2, 2, 3, 4, 5, 5, 6, 7, 9, 10, 12, 4, 6, 8, 9, 11, 12, 16, 16, 16, 16, 5, 8, 10, 12, 15, 16, 16,
    16, 16, 16, 5, 8, 10, 12, 16, 16, 16, 16, 16, 16, 6, 9, 16, 16, 16, 16, 16, 16, 16, 16, 6, 10,
    16, 16, 16, 16, 16, 16, 16, 16, 7, 11, 16, 16, 16, 16, 16, 16, 16, 16, 7, 11, 16, 16, 16, 16,
    16, 16, 16, 16, 8, 16, 16, 16, 16, 16, 16, 16, 16, 16, 9, 16, 16, 16, 16, 16, 16, 16, 16, 16, 9,
    16, 16, 16, 16, 16, 16, 16, 16, 16, 9, 16, 16, 16, 16, 16, 16, 16, 16, 16, 9, 16, 16, 16, 16,
    16, 16, 16, 16, 16, 11, 16, 16, 16, 16, 16, 16, 16, 16, 16, 14, 16, 16, 16, 16, 16, 16, 16, 16,
    16, 15, 16, 16, 16, 16, 16, 16, 16, 16, 16, 10]"

definition bitsize :: "nat list" where
  "bitsize = [
    0, 1, 2, 2, 3, 3, 3, 3, 4, 4, 4, 4, 4, 4, 4, 4, 5, 5, 5, 5, 5, 5, 5, 5, 5, 5, 5, 5, 5, 5, 5, 5,
    6, 6, 6, 6, 6, 6, 6, 6, 6, 6, 6, 6, 6, 6, 6, 6, 6, 6, 6, 6, 6, 6, 6, 6, 6, 6, 6, 6, 6, 6, 6, 6,
    7, 7, 7, 7, 7, 7, 7, 7, 7, 7, 7, 7, 7, 7, 7, 7, 7, 7, 7, 7, 7, 7, 7, 7, 7, 7, 7, 7, 7, 7, 7, 7,
    7, 7, 7, 7, 7, 7, 7, 7, 7, 7, 7, 7, 7, 7, 7, 7, 7, 7, 7, 7, 7, 7, 7, 7, 7, 7, 7, 7, 7, 7, 7, 7,
    8, 8, 8, 8, 8, 8, 8, 8, 8, 8, 8, 8, 8, 8, 8, 8, 8, 8, 8, 8, 8, 8, 8, 8, 8, 8, 8, 8, 8, 8, 8, 8,
    8, 8, 8, 8, 8, 8, 8, 8, 8, 8, 8, 8, 8, 8, 8, 8, 8, 8, 8, 8, 8, 8, 8, 8, 8, 8, 8, 8, 8, 8, 8, 8,
    8, 8, 8, 8, 8, 8, 8, 8, 8, 8, 8, 8, 8, 8, 8, 8, 8, 8, 8, 8, 8, 8, 8, 8, 8, 8, 8, 8, 8, 8, 8, 8,
    8, 8, 8, 8, 8, 8, 8, 8, 8, 8, 8, 8, 8, 8, 8, 8, 8, 8, 8, 8, 8, 8, 8, 8, 8, 8, 8, 8, 8, 8, 8, 8]"

section \<open>State\<close>

record jpeg_encoder =
  mcu_width :: int
  mcu_height :: int
  horizontal_mcus :: int
  vertical_mcus :: int
  rows_in_bottom_mcus :: int
  cols_in_right_mcus :: int
  length_minus_mcu_width :: int
  length_minus_width :: int
  mcu_width_size :: int
  offset :: int
  ldc1 :: int
  ldc2 :: int
  ldc3 :: int
  rows :: int
  cols :: int
  incr :: int

record bitstream =
  lcode :: u32
  bitindex :: nat
  out :: "u8 list"

section \<open>Bits out\<close>

definition emit_byte :: "u8 \<Rightarrow> u8 list \<Rightarrow> u8 list" where
  "emit_byte b ys = (if b = 0xFF then ys @ [b] @ [0] else ys @ [b])"

definition putbits :: "u32 \<Rightarrow> nat \<Rightarrow> bitstream \<Rightarrow> bitstream" where
  "putbits data numbits s =
     (let bits_in_next_word = to_i16 (int (bitindex s) + int numbits - 32) in
      if bits_in_next_word < 0
      then s\<lparr>lcode := push_bit numbits (lcode s) OR data, bitindex := bitindex s + numbits\<rparr>
      else let w = push_bit (32 - bitindex s) (lcode s) OR drop_bit (nat bits_in_next_word) data;
               o1 = emit_byte (ucast (drop_bit 24 w)) (out s);
               o2 = emit_byte (ucast (drop_bit 16 w)) o1;
               o3 = emit_byte (ucast (drop_bit 8 w)) o2;
               o4 = emit_byte (ucast w) o3
           in s\<lparr>lcode := data, bitindex := nat bits_in_next_word, out := o4\<rparr>)"

definition close_bitstream :: "bitstream \<Rightarrow> u8 list" where
  "close_bitstream s =
     (let out1 = (if 0 < bitindex s
        then let w = push_bit (32 - bitindex s) (lcode s);
                 count = (bitindex s + 7) div 8
             in fold (\<lambda>i ys. emit_byte (ucast (drop_bit (24 - 8 * i) w)) ys) [0..<count] (out s)
        else out s)
      in out1 @ [0xFF] @ [0xD9])"

section \<open>\<open>huffman\<close>\<close>

text \<open>The number of bits of a difference: \<open>while (AbsCoeff != 0) { AbsCoeff >>= 1; DataSize++; }\<close>.\<close>

function dc_size :: "int \<Rightarrow> nat" where
  "dc_size a = (if a \<le> 0 then 0 else Suc (dc_size (a div 2)))"
  by pat_completeness auto
termination
  by (relation "measure nat") auto

declare dc_size.simps [simp del]

definition ac_size :: "int \<Rightarrow> nat option" where
  "ac_size AbsCoeff =
     (if AbsCoeff div 2 ^ 8 = 0 then rd bitsize (nat AbsCoeff)
      else do { b \<leftarrow> rd bitsize (nat (AbsCoeff div 2 ^ 8)); Some (b + 8) })"

text \<open>
  \<open>AbsCoeff = (Coeff < 0) ? -Coeff-- : Coeff\<close>: the absolute value, and the coefficient,
  decremented when it is negative.
\<close>

definition split_sign :: "int \<Rightarrow> int \<times> int" where
  "split_sign Coeff = (if Coeff < 0 then (- Coeff, to_i16 (Coeff - 1)) else (Coeff, Coeff))"

text \<open>A table entry, followed by the low \<open>DataSize\<close> bits of the coefficient.\<close>

definition put_symbol :: "int list \<Rightarrow> nat list \<Rightarrow> nat \<Rightarrow> nat \<Rightarrow> int \<Rightarrow> bitstream \<Rightarrow> bitstream option" where
  "put_symbol code_table size_table index DataSize Coeff s = do {
     HuffCode \<leftarrow> rd code_table index;
     HuffSize \<leftarrow> rd size_table index;
     let c = to_i16 (Coeff AND mask DataSize);
     Some (putbits (word_of_int (push_bit DataSize HuffCode OR c)) (HuffSize + DataSize) s) }"

definition put_code :: "int list \<Rightarrow> nat list \<Rightarrow> nat \<Rightarrow> bitstream \<Rightarrow> bitstream option" where
  "put_code code_table size_table index s = do {
     data \<leftarrow> rd code_table index;
     numbits \<leftarrow> rd size_table index;
     Some (putbits (word_of_int data) numbits s) }"

text \<open>\<open>while (RunLength > 15)\<close>: one code 161 (a run of 16 zeros) each time.\<close>

fun put_zero_runs :: "int list \<Rightarrow> nat list \<Rightarrow> nat \<Rightarrow> bitstream \<Rightarrow> (nat \<times> bitstream) option" where
  "put_zero_runs code_table size_table RunLength s =
     (if 15 < RunLength then do {
        s' \<leftarrow> put_code code_table size_table 161 s;
        put_zero_runs code_table size_table (RunLength - 16) s' }
      else Some (RunLength, s))"

declare put_zero_runs.simps [simp del]

definition put_ac :: "int list \<Rightarrow> nat list \<Rightarrow> int list \<Rightarrow> nat \<Rightarrow> nat \<times> bitstream \<Rightarrow> (nat \<times> bitstream) option" where
  "put_ac code_table size_table Temp i = (\<lambda>(RunLength, s). do {
     Coeff \<leftarrow> rd Temp i;
     if Coeff \<noteq> 0 then do {
       (RunLength', s') \<leftarrow> put_zero_runs code_table size_table RunLength s;
       let (AbsCoeff, Coeff') = split_sign Coeff;
       DataSize \<leftarrow> ac_size AbsCoeff;
       s'' \<leftarrow> put_symbol code_table size_table (RunLength' * 10 + DataSize) DataSize Coeff' s';
       Some (0, s'') }
     else Some (Suc RunLength, s) })"

definition put_dc :: "int list \<Rightarrow> nat list \<Rightarrow> int \<Rightarrow> bitstream \<Rightarrow> bitstream option" where
  "put_dc code_table size_table Coeff s =
     (let (AbsCoeff, Coeff') = split_sign Coeff; DataSize = dc_size AbsCoeff
      in put_symbol code_table size_table DataSize DataSize Coeff' s)"

definition huffman :: "jpeg_encoder \<Rightarrow> nat \<Rightarrow> int list \<Rightarrow> bitstream \<Rightarrow> (jpeg_encoder \<times> bitstream) option" where
  "huffman je component Temp s = do {
     Coeff \<leftarrow> rd Temp 0;
     let (dcc, dcs, acc, acs) =
       (if component = 1
        then (luminance_dc_code_table, luminance_dc_size_table, luminance_ac_code_table, luminance_ac_size_table)
        else (chrominance_dc_code_table, chrominance_dc_size_table, chrominance_ac_code_table, chrominance_ac_size_table));
     let (LastDc, je') =
       (if component = 1 then (ldc1 je, je\<lparr>ldc1 := Coeff\<rparr>)
        else if component = 2 then (ldc2 je, je\<lparr>ldc2 := Coeff\<rparr>)
        else (ldc3 je, je\<lparr>ldc3 := Coeff\<rparr>));
     s1 \<leftarrow> put_dc dcc dcs (to_i16 (Coeff - LastDc)) s;
     (RunLength, s2) \<leftarrow> forM [1..<64] (put_ac acc acs Temp) (0, s1);
     s3 \<leftarrow> (if RunLength \<noteq> 0 then put_code acc acs 0 s2 else Some s2);
     Some (je', s3) }"

end
