(* ===== verification/Jpeg_Bitstream.thy ===== *)
theory Jpeg_Bitstream
  imports Jpeg_Huffman
begin

text \<open>
  What the bit-level code of \<open>huffman.c\<close> means. The abstract view of the encoder's output is a
  list of bits, most significant first. \<open>represents o s bits\<close> relates a state of the code to
  it: since the output was \<open>o\<close>, whole bytes, stuffed (a zero after each \<open>0xFF\<close>), have been written,
  and the bits that are left wait in the low end of \<open>lcode\<close>. Every operation that writes appends
  to the bit list.
\<close>

section \<open>Bits of a number\<close>

definition bits_of :: "nat \<Rightarrow> 'a::semiring_bits \<Rightarrow> bool list" where
  "bits_of n w = map (bit w) (rev [0..<n])"

fun stuff :: "u8 list \<Rightarrow> u8 list" where
  "stuff [] = []"
| "stuff (b # bs) = (if b = 0xFF then b # 0 # stuff bs else b # stuff bs)"

fun unstuff :: "u8 list \<Rightarrow> u8 list" where
  "unstuff [] = []"
| "unstuff [b] = [b]"
| "unstuff (b # c # bs) = (if b = 0xFF \<and> c = 0 then b # unstuff bs else b # unstuff (c # bs))"

definition bytes_bits :: "u8 list \<Rightarrow> bool list" where
  "bytes_bits bs = concat (map (bits_of 8) bs)"

definition represents :: "u8 list \<Rightarrow> bitstream \<Rightarrow> bool list \<Rightarrow> bool" where
  "represents before s bits \<longleftrightarrow> bitindex s < 32 \<and>
     (\<exists>bs. out s = before @ stuff bs \<and> bits = bytes_bits bs @ bits_of (bitindex s) (lcode s))"

lemma length_bits_of [simp]: "length (bits_of n w) = n"
  by (simp add: bits_of_def)

lemma bits_of_0 [simp]: "bits_of 0 w = []"
  by (simp add: bits_of_def)

lemma bits_of_cong: "(\<And>i. i < n \<Longrightarrow> bit v i = bit w i) \<Longrightarrow> bits_of n v = bits_of n w"
  by (simp add: bits_of_def)

lemma bits_of_map: "(\<And>i. i < n \<Longrightarrow> bit v (f i) = bit w i) \<Longrightarrow> map (\<lambda>i. bit v (f i)) (rev [0..<n]) = bits_of n w"
  by (simp add: bits_of_def)

lemma upt_add: "[0..<m + n] = [0..<n] @ map ((+) n) [0..<m]"
  by (induction m) (simp_all add: add.commute)

text \<open>The high bits first.\<close>

lemma bits_of_append:
  fixes w :: "'a::semiring_bit_operations"
  shows "bits_of (m + n) w = bits_of m (drop_bit n w) @ bits_of n w"
  by (simp add: bits_of_def upt_add rev_map comp_def bit_drop_bit_eq)

lemma stuff_append: "stuff (xs @ ys) = stuff xs @ stuff ys"
  by (induction xs) auto

lemma stuff_eq_Nil [simp]: "stuff bs = [] \<longleftrightarrow> bs = []"
  by (cases bs) auto

text \<open>The end-of-image marker cannot be mistaken for data, and stuffing loses nothing.\<close>

lemma unstuff_stuff: "unstuff (stuff bs @ [0xFF, 0xD9]) = bs @ [0xFF, 0xD9]"
proof (induction bs)
  case (Cons b bs)
  have "stuff bs @ [0xFF, 0xD9] \<noteq> []" by simp
  then obtain c cs where c: "stuff bs @ [0xFF, 0xD9] = c # cs" by (cases "stuff bs @ [0xFF, 0xD9]") auto
  with Cons show ?case by (cases "b = 0xFF") auto
qed simp

lemma emit_byte_stuff: "emit_byte b (before @ stuff bs) = before @ stuff (bs @ [b])"
  by (simp add: emit_byte_def stuff_append)

lemma bytes_bits_append [simp]: "bytes_bits (xs @ ys) = bytes_bits xs @ bytes_bits ys"
  "bytes_bits [b] = bits_of 8 b" "bytes_bits [] = []"
  by (simp_all add: bytes_bits_def)

section \<open>\<open>PUTBITS\<close>\<close>

definition fits :: "nat \<Rightarrow> u32 \<Rightarrow> bool" where
  "fits n w \<longleftrightarrow> (\<forall>i. n \<le> i \<longrightarrow> \<not> bit w i)"

lemma bits_of_ucast_byte: "bits_of 8 (ucast (drop_bit k w) :: u8) = bits_of 8 (drop_bit k (w :: u32))"
  by (rule bits_of_cong) (simp add: bit_simps)

lemma four_bytes:
  "bits_of 32 (w :: u32) = bits_of 8 (ucast (drop_bit 24 w) :: u8) @ bits_of 8 (ucast (drop_bit 16 w) :: u8) @
     bits_of 8 (ucast (drop_bit 8 w) :: u8) @ bits_of 8 (ucast w :: u8)"
proof -
  have "bits_of 32 w = bits_of (8 + 24) w" "bits_of 24 w = bits_of (8 + 16) w" "bits_of 16 w = bits_of (8 + 8) w"
    by simp_all
  then have "bits_of 32 w = bits_of 8 (drop_bit 24 w) @ bits_of 8 (drop_bit 16 w) @ bits_of 8 (drop_bit 8 w) @ bits_of 8 w"
    by (simp only: bits_of_append append_assoc)
  moreover have "bits_of 8 (ucast w :: u8) = bits_of 8 w" using bits_of_ucast_byte [of 0 w] by simp
  ultimately show ?thesis by (simp only: bits_of_ucast_byte)
qed

lemma putbits_stay:
  assumes "bitindex s + n < 32" and "fits n d"
  shows "putbits d n s = s\<lparr>lcode := push_bit n (lcode s) OR d, bitindex := bitindex s + n\<rparr>"
    and "bits_of (bitindex s + n) (push_bit n (lcode s) OR d) = bits_of (bitindex s) (lcode s) @ bits_of n d"
proof -
  have "i16_range (int (bitindex s) + int n - 32)" using assms(1) by (simp add: i16_range_def)
  then show "putbits d n s = s\<lparr>lcode := push_bit n (lcode s) OR d, bitindex := bitindex s + n\<rparr>"
    using assms(1) by (simp add: putbits_def)
  have "bits_of (bitindex s) (drop_bit n (push_bit n (lcode s) OR d)) = bits_of (bitindex s) (lcode s)"
    using assms by (intro bits_of_cong) (auto simp: bit_simps fits_def)
  moreover have "bits_of n (push_bit n (lcode s) OR d) = bits_of n d"
    by (rule bits_of_cong) (simp add: bit_simps)
  ultimately show "bits_of (bitindex s + n) (push_bit n (lcode s) OR d) = bits_of (bitindex s) (lcode s) @ bits_of n d"
    by (simp add: bits_of_append)
qed

lemma putbits_flush:
  fixes s :: bitstream and d :: u32
  assumes b: "bitindex s < 32" and n: "n \<le> 32" "32 \<le> bitindex s + n" and d: "fits n d"
  defines "r \<equiv> bitindex s + n - 32"
  defines "w \<equiv> push_bit (32 - bitindex s) (lcode s) OR drop_bit r d"
  shows "putbits d n s = s\<lparr>lcode := d, bitindex := r, out := emit_byte (ucast w) (emit_byte (ucast (drop_bit 8 w))
           (emit_byte (ucast (drop_bit 16 w)) (emit_byte (ucast (drop_bit 24 w)) (out s))))\<rparr>"
    and "bits_of 32 w @ bits_of r d = bits_of (bitindex s) (lcode s) @ bits_of n d"
proof -
  have r: "int (bitindex s) + int n - 32 = int r" using n by (simp add: r_def)
  have "i16_range (int r)" using b n by (simp add: r_def i16_range_def)
  then show "putbits d n s = s\<lparr>lcode := d, bitindex := r, out := emit_byte (ucast w) (emit_byte (ucast (drop_bit 8 w))
           (emit_byte (ucast (drop_bit 16 w)) (emit_byte (ucast (drop_bit 24 w)) (out s))))\<rparr>"
    by (simp add: putbits_def r w_def Let_def)
  let ?k = "32 - bitindex s"
  have "bits_of (bitindex s) (drop_bit ?k w) = bits_of (bitindex s) (lcode s)"
    using b n d by (intro bits_of_cong) (auto simp: bit_simps fits_def w_def r_def)
  moreover have "bits_of ?k w = bits_of ?k (drop_bit r d)"
    by (rule bits_of_cong) (use b in \<open>simp add: bit_simps w_def\<close>)
  moreover have "bits_of 32 w = bits_of (bitindex s) (drop_bit ?k w) @ bits_of ?k w"
    using bits_of_append [of "bitindex s" ?k w] b by simp
  moreover have "n = ?k + r" using b n by (simp add: r_def)
  then have "bits_of n d = bits_of ?k (drop_bit r d) @ bits_of r d" by (metis bits_of_append)
  ultimately show "bits_of 32 w @ bits_of r d = bits_of (bitindex s) (lcode s) @ bits_of n d" by simp
qed

text \<open>Writing \<open>n\<close> bits appends them to the abstract bit list.\<close>

lemma putbits_represents:
  assumes "represents before s bits" and "n \<le> 32" and "fits n d"
  shows "represents before (putbits d n s) (bits @ bits_of n d)"
proof -
  from assms(1) obtain bs where bs: "bitindex s < 32" "out s = before @ stuff bs"
    "bits = bytes_bits bs @ bits_of (bitindex s) (lcode s)"
    by (auto simp: represents_def)
  show ?thesis
  proof (cases "bitindex s + n < 32")
    case True
    with putbits_stay [OF True assms(3)] bs show ?thesis by (auto simp: represents_def)
  next
    case False
    define r where "r = bitindex s + n - 32"
    define w where "w = push_bit (32 - bitindex s) (lcode s) OR drop_bit r d"
    let ?new = "[ucast (drop_bit 24 w), ucast (drop_bit 16 w), ucast (drop_bit 8 w), ucast w] :: u8 list"
    note flush = putbits_flush [OF bs(1) assms(2) _ assms(3), folded r_def w_def]
    have "out (putbits d n s) = before @ stuff (bs @ ?new)"
      using flush(1) False by (simp add: bs(2) emit_byte_stuff w_def)
    moreover have "bits @ bits_of n d = bytes_bits (bs @ ?new) @ bits_of r d"
      using flush(2) False by (simp add: bs(3) four_bytes bytes_bits_def w_def)
    moreover have "r < 32" using bs(1) assms(2) by (simp add: r_def)
    ultimately show ?thesis using flush(1) False unfolding represents_def by auto
  qed
qed

section \<open>The end of the stream\<close>

lemma fold_emit:
  "fold (\<lambda>i ys. emit_byte (f i) ys) xs (before @ stuff bs) = before @ stuff (bs @ map f xs)"
  by (induction xs arbitrary: bs) (simp_all add: emit_byte_stuff)

text \<open>
  The rest is padded with zero bits to whole bytes, stuffed like the others, and followed by the
  end-of-image marker.
\<close>

lemma close_bitstream_represents:
  assumes "represents before s bits"
  shows "\<exists>bs pad. close_bitstream s = before @ stuff bs @ [0xFF, 0xD9] \<and>
     bytes_bits bs = bits @ replicate pad False \<and> pad < 8"
proof -
  from assms obtain bs where bs: "bitindex s < 32" "out s = before @ stuff bs"
    "bits = bytes_bits bs @ bits_of (bitindex s) (lcode s)"
    by (auto simp: represents_def)
  show ?thesis
  proof (cases "bitindex s = 0")
    case True
    with bs show ?thesis by (intro exI [of _ bs] exI [of _ 0]) (simp add: close_bitstream_def)
  next
    case False
    define k where "k = bitindex s"
    define w where "w = push_bit (32 - k) (lcode s)"
    define c where "c = (k + 7) div 8"
    let ?f = "\<lambda>i. ucast (drop_bit (24 - 8 * i) w) :: u8"
    have kc: "k \<le> 8 * c" "8 * c < k + 8" "c \<le> 4" using bs(1) by (auto simp: c_def k_def)
    have "bytes_bits (map ?f [0..<m]) = bits_of (8 * m) (drop_bit (32 - 8 * m) w)" if "m \<le> 4" for m
      using that
    proof (induction m)
      case (Suc m)
      have "bits_of (8 * m + 8) (drop_bit (24 - 8 * m) w) =
          bits_of (8 * m) (drop_bit 8 (drop_bit (24 - 8 * m) w)) @ bits_of 8 (drop_bit (24 - 8 * m) w)"
        by (rule bits_of_append)
      moreover have "drop_bit 8 (drop_bit (24 - 8 * m) w) = drop_bit (32 - 8 * m) w"
        using Suc.prems by (simp add: drop_bit_drop_bit)
      ultimately show ?case
        using Suc by (simp add: bits_of_ucast_byte add.commute)
    qed simp
    from this [OF kc(3)] have "bytes_bits (map ?f [0..<c]) = bits_of (8 * c) (drop_bit (32 - 8 * c) w)" .
    moreover have "bits_of (8 * c) (drop_bit (32 - 8 * c) w) = bits_of k (lcode s) @ replicate (8 * c - k) False"
    proof -
      have "bits_of (k + (8 * c - k)) (drop_bit (32 - 8 * c) w) =
          bits_of k (drop_bit (8 * c - k) (drop_bit (32 - 8 * c) w)) @ bits_of (8 * c - k) (drop_bit (32 - 8 * c) w)"
        by (rule bits_of_append)
      moreover have "bits_of k (drop_bit (8 * c - k) (drop_bit (32 - 8 * c) w)) = bits_of k (lcode s)"
        using kc bs(1) by (intro bits_of_cong) (auto simp: bit_simps w_def k_def)
      moreover have "bits_of (8 * c - k) (drop_bit (32 - 8 * c) w) = replicate (8 * c - k) False"
        using kc bs(1) by (intro nth_equalityI) (auto simp: bits_of_def bit_simps w_def k_def rev_nth)
      ultimately show ?thesis using kc by simp
    qed
    moreover have "close_bitstream s = before @ stuff (bs @ map ?f [0..<c]) @ [0xFF, 0xD9]"
      using False bs(2) by (simp add: close_bitstream_def fold_emit k_def [symmetric] w_def [symmetric] c_def [symmetric] Let_def)
    ultimately show ?thesis
      using kc(2) by (intro exI [of _ "bs @ map ?f [0..<c]"] exI [of _ "8 * c - k"]) (simp add: bs(3) k_def)
  qed
qed

end
