(* ===== verification/Jpeg_Block.thy ===== *)
theory Jpeg_Block
  imports Jpeg_Bitstream
begin

text \<open>
  Blocks as symbols. The abstract specification of \<open>huffman\<close> is the bit string that the JPEG
  standard prescribes for a block: the code of the size of the DC difference and its magnitude
  bits, then for each non-zero AC coefficient the code of (run of zeros, size) and the
  magnitude bits, a run of 16 zeros having its own code, and an end-of-block code when zeros are
  left. \<open>huffman_refines\<close> shows that the code writes exactly these bits.
\<close>

section \<open>Tables\<close>

definition table_ok :: "int list \<Rightarrow> nat list \<Rightarrow> nat \<Rightarrow> bool" where
  "table_ok code_table size_table n \<longleftrightarrow> length code_table = n \<and> length size_table = n \<and>
     list_all2 (\<lambda>c k. 0 \<le> c \<and> c < 2 ^ k \<and> k \<le> 16) code_table size_table"

lemma table_ok_dc: "table_ok luminance_dc_code_table luminance_dc_size_table 12"
    "table_ok chrominance_dc_code_table chrominance_dc_size_table 12"
  by (simp_all add: table_ok_def luminance_dc_code_table_def luminance_dc_size_table_def
      chrominance_dc_code_table_def chrominance_dc_size_table_def)

lemma table_ok_ac_luminance: "table_ok luminance_ac_code_table luminance_ac_size_table 162"
  by (simp add: table_ok_def luminance_ac_code_table_def luminance_ac_size_table_def)

lemma table_ok_ac_chrominance: "table_ok chrominance_ac_code_table chrominance_ac_size_table 162"
  by (simp add: table_ok_def chrominance_ac_code_table_def chrominance_ac_size_table_def)

definition code_bits :: "int list \<Rightarrow> nat list \<Rightarrow> nat \<Rightarrow> bool list" where
  "code_bits code_table size_table i = bits_of (size_table ! i) (code_table ! i)"

text \<open>The magnitude bits of a coefficient of size \<open>k\<close>: negative values in one's complement.\<close>

definition mag_bits :: "nat \<Rightarrow> int \<Rightarrow> bool list" where
  "mag_bits k c = bits_of k (if c < 0 then c - 1 else c)"

definition coeff_size :: "int \<Rightarrow> nat" where
  "coeff_size c = dc_size \<bar>c\<bar>"

definition dc_bits :: "int list \<Rightarrow> nat list \<Rightarrow> int \<Rightarrow> bool list" where
  "dc_bits code_table size_table d = code_bits code_table size_table (coeff_size d) @ mag_bits (coeff_size d) d"

fun ac_bits :: "int list \<Rightarrow> nat list \<Rightarrow> nat \<Rightarrow> int list \<Rightarrow> bool list" where
  "ac_bits ct st r [] = (if r = 0 then [] else code_bits ct st 0)"
| "ac_bits ct st r (c # cs) =
     (if c = 0 then ac_bits ct st (Suc r) cs
      else concat (replicate (r div 16) (code_bits ct st 161)) @
           code_bits ct st ((r mod 16) * 10 + coeff_size c) @ mag_bits (coeff_size c) c @ ac_bits ct st 0 cs)"

section \<open>Sizes\<close>

lemma dc_size_0 [simp]: "dc_size 0 = 0"
  by (simp add: dc_size.simps)

lemma dc_size_less: "0 \<le> a \<Longrightarrow> a < 2 ^ dc_size a"
proof (induction a rule: dc_size.induct)
  case (1 a)
  show ?case
  proof (cases "a = 0")
    case False
    with 1 have "a div 2 < 2 ^ dc_size (a div 2)" by simp
    then have "a < 2 * 2 ^ dc_size (a div 2)" by simp
    with False 1(2) show ?thesis by (simp add: dc_size.simps [of a])
  qed simp
qed

lemma dc_size_ge: "0 < a \<Longrightarrow> 2 ^ (dc_size a - 1) \<le> a \<and> 0 < dc_size a"
proof (induction a rule: dc_size.induct)
  case (1 a)
  show ?case
  proof (cases "a = 1")
    case True
    then show ?thesis by (simp add: dc_size.simps [of 1])
  next
    case False
    with 1 have IH: "2 ^ (dc_size (a div 2) - 1) \<le> a div 2" "0 < dc_size (a div 2)" by auto
    from IH(2) have "(2::int) ^ dc_size (a div 2) = 2 * 2 ^ (dc_size (a div 2) - 1)"
      by (simp add: power_Suc [symmetric] del: power_Suc)
    with IH have "(2::int) ^ dc_size (a div 2) \<le> a" by simp
    with 1(2) show ?thesis by (simp add: dc_size.simps [of a])
  qed
qed

lemma dc_size_le: "a < 2 ^ k \<Longrightarrow> dc_size a \<le> k"
proof (induction k arbitrary: a)
  case 0
  then show ?case by (simp add: dc_size.simps [of a])
next
  case (Suc k)
  then have "a div 2 < 2 ^ k" by simp
  with Suc.IH show ?case by (simp add: dc_size.simps [of a])
qed

text \<open>The lookup table holds the sizes the loop computes.\<close>

lemma bitsize_dc_size: "bitsize = map (\<lambda>a. dc_size (int a)) [0..<256]"
  by code_simp

lemma dc_size_shift: "dc_size (a div 2 ^ k) = dc_size a - k"
proof (induction k arbitrary: a)
  case (Suc k)
  have "a div 2 ^ Suc k = a div 2 div 2 ^ k" by (simp add: zdiv_zmult2_eq)
  moreover have "dc_size (a div 2) = dc_size a - 1"
    using dc_size.simps [of "a div 2"] by (cases "a \<le> 0") (simp_all add: dc_size.simps [of a])
  ultimately show ?case using Suc [of "a div 2"] by simp
qed simp

lemma ac_size_eq:
  assumes "0 \<le> a" and "a < 65536" shows "ac_size a = Some (dc_size a)"
proof -
  have small: "rd bitsize (nat b) = Some (dc_size b)" if "0 \<le> b" "b < 256" for b
    using that by (simp add: bitsize_dc_size rd_def del: upt_rec_numeral)
  show ?thesis
  proof (cases "a div 2 ^ 8 = 0")
    case True
    then have "a < 256" using assms(1) by auto
    with True small [of a] assms(1) show ?thesis by (simp add: ac_size_def)
  next
    case False
    then have "0 < a div 2 ^ 8" using assms(1) by (simp add: pos_imp_zdiv_nonneg_iff order.strict_iff_order)
    with dc_size_ge have "0 < dc_size (a div 2 ^ 8)" by blast
    then have "dc_size (a div 2 ^ 8) + 8 = dc_size a" using dc_size_shift [of a 8] by simp
    moreover have "a div 2 ^ 8 < 256" using assms(2) by simp
    ultimately show ?thesis using False small [of "a div 2 ^ 8"] \<open>0 < a div 2 ^ 8\<close> by (simp add: ac_size_def)
  qed
qed

lemma coeff_size_le: "\<bar>c\<bar> < 2 ^ k \<Longrightarrow> coeff_size c \<le> k"
  by (simp add: coeff_size_def dc_size_le)

lemma coeff_size_pos: "c \<noteq> 0 \<Longrightarrow> 0 < coeff_size c"
  using dc_size_ge [of "\<bar>c\<bar>"] by (simp add: coeff_size_def)

section \<open>Symbols out\<close>

lemma table_ok_nth:
  "table_ok ct st n \<Longrightarrow> i < n \<Longrightarrow> 0 \<le> ct ! i \<and> ct ! i < 2 ^ (st ! i) \<and> st ! i \<le> 16"
  unfolding table_ok_def list_all2_conv_all_nth by blast

lemma bit_less: "0 \<le> c \<Longrightarrow> c < 2 ^ k \<Longrightarrow> k \<le> i \<Longrightarrow> \<not> bit (c::int) i"
  by (metis bit_take_bit_iff not_le take_bit_int_eq_self_iff)

lemma code_word:
  fixes c x :: int
  assumes c: "0 \<le> c" "c < 2 ^ k" and x: "0 \<le> x" "x < 2 ^ n" and kn: "k + n \<le> 32"
  defines "w \<equiv> word_of_int (push_bit n c OR x) :: u32"
  shows "fits (k + n) w" and "bits_of (k + n) w = bits_of k c @ bits_of n x"
proof -
  show "fits (k + n) w"
    unfolding fits_def w_def using bit_less [OF c] bit_less [OF x] by (auto simp: bit_simps)
  have "bits_of k (drop_bit n w) = bits_of k c"
    using bit_less [OF x] kn by (intro bits_of_cong) (auto simp: w_def bit_simps)
  moreover have "bits_of n w = bits_of n x"
    using kn by (intro bits_of_cong) (auto simp: w_def bit_simps)
  ultimately show "bits_of (k + n) w = bits_of k c @ bits_of n x" by (simp add: bits_of_append)
qed

lemma put_code_represents:
  assumes "represents before s bits" and "table_ok ct st n" and "i < n"
  shows "\<exists>s'. put_code ct st i s = Some s' \<and> represents before s' (bits @ code_bits ct st i)"
proof -
  note t = table_ok_nth [OF assms(2,3)]
  have len: "i < length ct" "i < length st" using assms(2,3) by (simp_all add: table_ok_def)
  have "fits (st ! i) (word_of_int (ct ! i))" "bits_of (st ! i) (word_of_int (ct ! i) :: u32) = bits_of (st ! i) (ct ! i)"
    using code_word [of "ct ! i" "st ! i" 0 0] t by simp_all
  then have "represents before (putbits (word_of_int (ct ! i)) (st ! i) s) (bits @ code_bits ct st i)"
    using putbits_represents [OF assms(1), of "st ! i" "word_of_int (ct ! i)"] t by (simp add: code_bits_def)
  then show ?thesis using len by (simp add: put_code_def)
qed

lemma put_symbol_represents:
  assumes "represents before s bits" and "table_ok ct st n" and "i < n" and "k \<le> 15"
  shows "\<exists>s'. put_symbol ct st i k c s = Some s' \<and> represents before s' (bits @ code_bits ct st i @ bits_of k c)"
proof -
  note t = table_ok_nth [OF assms(2,3)]
  have len: "i < length ct" "i < length st" using assms(2,3) by (simp_all add: table_ok_def)
  define x where "x = take_bit k c"
  have x: "0 \<le> x" "x < 2 ^ k" by (simp_all add: x_def)
  moreover have "(2::int) ^ k \<le> 2 ^ 15" using assms(4) by (rule power_increasing) simp
  ultimately have "i16_range x" by (simp add: i16_range_def)
  then have c: "to_i16 (c AND mask k) = x" by (simp add: x_def take_bit_eq_mask)
  have "bits_of k x = bits_of k c" unfolding x_def by (rule bits_of_cong) (simp add: bit_simps)
  then have "represents before (putbits (word_of_int (push_bit k (ct ! i) OR x)) (st ! i + k) s)
      (bits @ code_bits ct st i @ bits_of k c)"
    using code_word [of "ct ! i" "st ! i" x k] t x assms(4)
      putbits_represents [OF assms(1), of "st ! i + k" "word_of_int (push_bit k (ct ! i) OR x)"]
    by (simp add: code_bits_def)
  then show ?thesis using len by (simp add: put_symbol_def c Let_def)
qed

lemma split_sign_eq:
  "\<bar>c\<bar> \<le> 32767 \<Longrightarrow> split_sign c = (\<bar>c\<bar>, if c < 0 then c - 1 else c)"
  by (auto simp: split_sign_def i16_range_def)

lemma put_dc_represents:
  assumes "represents before s bits" and "table_ok ct st 12" and "\<bar>d\<bar> < 2 ^ 11"
  shows "\<exists>s'. put_dc ct st d s = Some s' \<and> represents before s' (bits @ dc_bits ct st d)"
proof -
  have k: "dc_size \<bar>d\<bar> \<le> 11" using assms(3) by (rule dc_size_le)
  have "split_sign d = (\<bar>d\<bar>, if d < 0 then d - 1 else d)" using assms(3) by (intro split_sign_eq) simp
  then show ?thesis
    using put_symbol_represents [OF assms(1,2), of "dc_size \<bar>d\<bar>" "dc_size \<bar>d\<bar>" "if d < 0 then d - 1 else d"] k
    by (auto simp: put_dc_def dc_bits_def coeff_size_def mag_bits_def Let_def)
qed

lemma put_zero_runs_represents:
  assumes "represents before s bits" and "table_ok ct st 162"
  shows "\<exists>s'. put_zero_runs ct st r s = Some (r mod 16, s') \<and>
     represents before s' (bits @ concat (replicate (r div 16) (code_bits ct st 161)))"
  using assms(1)
proof (induction r arbitrary: s bits rule: less_induct)
  case (less r)
  show ?case
  proof (cases "15 < r")
    case False
    with less.prems show ?thesis by (simp add: put_zero_runs.simps)
  next
    case True
    obtain s1 where s1: "put_code ct st 161 s = Some s1" "represents before s1 (bits @ code_bits ct st 161)"
      using put_code_represents [OF less.prems assms(2), of 161] by auto
    have r: "r - 16 < r" "r div 16 = Suc ((r - 16) div 16)" "r mod 16 = (r - 16) mod 16"
      using True by (simp_all add: le_div_geq le_mod_geq)
    from less.IH [OF r(1) s1(2)] s1(1) True r(2,3) show ?thesis
      by (simp add: put_zero_runs.simps [of ct st r])
  qed
qed

lemma put_ac_represents:
  assumes "represents before s bits" and "table_ok ct st 162" and "i < length Temp" and "\<bar>Temp ! i\<bar> < 2 ^ 10"
  shows "\<exists>r' s'. put_ac ct st Temp i (r, s) = Some (r', s') \<and>
     (if Temp ! i = 0 then r' = Suc r \<and> s' = s
      else r' = 0 \<and> represents before s' (bits @ concat (replicate (r div 16) (code_bits ct st 161)) @
           code_bits ct st ((r mod 16) * 10 + coeff_size (Temp ! i)) @ mag_bits (coeff_size (Temp ! i)) (Temp ! i)))"
proof (cases "Temp ! i = 0")
  case True
  with assms(3) show ?thesis by (simp add: put_ac_def)
next
  case False
  let ?c = "Temp ! i" and ?k = "coeff_size (Temp ! i)"
  obtain s1 where s1: "put_zero_runs ct st r s = Some (r mod 16, s1)"
    "represents before s1 (bits @ concat (replicate (r div 16) (code_bits ct st 161)))"
    using put_zero_runs_represents [OF assms(1,2)] by blast
  have k: "?k \<le> 10" using assms(4) by (rule coeff_size_le)
  have size: "ac_size \<bar>?c\<bar> = Some ?k" using assms(4) by (simp add: ac_size_eq coeff_size_def)
  have sign: "split_sign ?c = (\<bar>?c\<bar>, if ?c < 0 then ?c - 1 else ?c)" using assms(4) by (intro split_sign_eq) simp
  have "r mod 16 * 10 + ?k < 162" using k mod_less_divisor [of 16 r] by linarith
  from put_symbol_represents [OF s1(2) assms(2) this, of ?k "if ?c < 0 then ?c - 1 else ?c"] k
  obtain s2 where "put_symbol ct st (r mod 16 * 10 + ?k) ?k (if ?c < 0 then ?c - 1 else ?c) s1 = Some s2"
    "represents before s2 ((bits @ concat (replicate (r div 16) (code_bits ct st 161))) @
       code_bits ct st (r mod 16 * 10 + ?k) @ mag_bits ?k ?c)"
    by (auto simp: mag_bits_def)
  with False assms(3) s1(1) size sign show ?thesis by (simp add: put_ac_def)
qed

text \<open>The loop over the AC coefficients and the end-of-block code.\<close>

lemma put_acs_represent:
  assumes "table_ok ct st 162" and "\<forall>i. k \<le> i \<and> i < length Temp \<longrightarrow> \<bar>Temp ! i\<bar> < 2 ^ 10"
    and "represents before s bits" and "k \<le> length Temp"
  shows "\<exists>s'. (forM [k..<length Temp] (put_ac ct st Temp) (r, s) \<bind>
        (\<lambda>(r', s1). if r' \<noteq> 0 then put_code ct st 0 s1 else Some s1)) = Some s' \<and>
     represents before s' (bits @ ac_bits ct st r (drop k Temp))"
  using assms(4,2,3)
proof (induction arbitrary: r s bits rule: inc_induct)
  case base
  then show ?case using put_code_represents [OF base(2) assms(1), of 0] by auto
next
  case (step k)
  have k: "k < length Temp" "\<bar>Temp ! k\<bar> < 2 ^ 10" using step by auto
  have up: "[k..<length Temp] = k # [Suc k..<length Temp]" using k(1) by (simp add: upt_conv_Cons)
  have dr: "drop k Temp = Temp ! k # drop (Suc k) Temp" using k(1) by (simp add: Cons_nth_drop_Suc)
  have rest: "\<forall>i. Suc k \<le> i \<and> i < length Temp \<longrightarrow> \<bar>Temp ! i\<bar> < 2 ^ 10" using step.prems(1) by auto
  obtain r' s1 where s1: "put_ac ct st Temp k (r, s) = Some (r', s1)"
    "if Temp ! k = 0 then r' = Suc r \<and> s1 = s
      else r' = 0 \<and> represents before s1 (bits @ concat (replicate (r div 16) (code_bits ct st 161)) @
           code_bits ct st ((r mod 16) * 10 + coeff_size (Temp ! k)) @ mag_bits (coeff_size (Temp ! k)) (Temp ! k))"
    using put_ac_represents [OF step.prems(2) assms(1) k] by blast
  show ?case
  proof (cases "Temp ! k = 0")
    case True
    with s1 step.IH [OF rest step.prems(2), of "Suc r"] show ?thesis by (simp add: up dr)
  next
    case False
    with s1(2) have "r' = 0" and rep: "represents before s1 (bits @ concat (replicate (r div 16) (code_bits ct st 161)) @
           code_bits ct st ((r mod 16) * 10 + coeff_size (Temp ! k)) @ mag_bits (coeff_size (Temp ! k)) (Temp ! k))"
      by auto
    with s1(1) False step.IH [OF rest rep, of 0] show ?thesis by (simp add: up dr)
  qed
qed

section \<open>The refinement\<close>

definition block_bits :: "nat \<Rightarrow> int \<Rightarrow> int list \<Rightarrow> bool list" where
  "block_bits component d acs =
     (if component = 1
      then dc_bits luminance_dc_code_table luminance_dc_size_table d @
           ac_bits luminance_ac_code_table luminance_ac_size_table 0 acs
      else dc_bits chrominance_dc_code_table chrominance_dc_size_table d @
           ac_bits chrominance_ac_code_table chrominance_ac_size_table 0 acs)"

definition last_dc :: "nat \<Rightarrow> jpeg_encoder \<Rightarrow> int" where
  "last_dc component je = (if component = 1 then ldc1 je else if component = 2 then ldc2 je else ldc3 je)"

definition set_dc :: "nat \<Rightarrow> int \<Rightarrow> jpeg_encoder \<Rightarrow> jpeg_encoder" where
  "set_dc component v je = (if component = 1 then je\<lparr>ldc1 := v\<rparr> else if component = 2 then je\<lparr>ldc2 := v\<rparr>
     else je\<lparr>ldc3 := v\<rparr>)"

definition codable :: "int \<Rightarrow> int list \<Rightarrow> bool" where
  "codable prev Temp \<longleftrightarrow> length Temp = 64 \<and> \<bar>hd Temp - prev\<bar> < 2 ^ 11 \<and> (\<forall>c \<in> set (tl Temp). \<bar>c\<bar> < 2 ^ 10)"

lemma huffman_represents:
  assumes rep: "represents before s bits" and ok: "codable (last_dc component je) Temp"
  shows "\<exists>s'. huffman je component Temp s = Some (set_dc component (hd Temp) je, s') \<and>
     represents before s' (bits @ block_bits component (hd Temp - last_dc component je) (tl Temp))"
proof -
  define dct dst act ast where
    "dct = (if component = 1 then luminance_dc_code_table else chrominance_dc_code_table)" and
    "dst = (if component = 1 then luminance_dc_size_table else chrominance_dc_size_table)" and
    "act = (if component = 1 then luminance_ac_code_table else chrominance_ac_code_table)" and
    "ast = (if component = 1 then luminance_ac_size_table else chrominance_ac_size_table)"
  note tabs = dct_def dst_def act_def ast_def
  have t: "table_ok dct dst 12" "table_ok act ast 162"
    using table_ok_dc table_ok_ac_luminance table_ok_ac_chrominance by (simp_all add: tabs)
  let ?d = "hd Temp - last_dc component je"
  from ok have len: "length Temp = 64" and d: "\<bar>?d\<bar> < 2 ^ 11" and ac: "\<forall>c \<in> set (tl Temp). \<bar>c\<bar> < 2 ^ 10"
    by (simp_all add: codable_def)
  have hd: "rd Temp 0 = Some (hd Temp)" using len by (cases Temp) (simp_all add: rd_def)
  have "to_i16 ?d = ?d" using d by (intro to_i16_id) (auto simp: i16_range_def)
  with put_dc_represents [OF rep t(1) d] obtain s1 where
    s1: "put_dc dct dst (to_i16 ?d) s = Some s1" "represents before s1 (bits @ dc_bits dct dst ?d)" by auto
  have "\<forall>i. 1 \<le> i \<and> i < length Temp \<longrightarrow> \<bar>Temp ! i\<bar> < 2 ^ 10"
  proof (intro allI impI)
    fix i assume "1 \<le> i \<and> i < length Temp"
    then have "Temp ! i = tl Temp ! (i - 1)" "i - 1 < length (tl Temp)" by (cases i; auto simp: nth_tl)+
    with ac show "\<bar>Temp ! i\<bar> < 2 ^ 10" by simp
  qed
  from put_acs_represent [OF t(2) this s1(2), of 0] len obtain s2 where
    s2: "(forM [1..<64] (put_ac act ast Temp) (0, s1) \<bind>
        (\<lambda>(r', s1). if r' \<noteq> 0 then put_code act ast 0 s1 else Some s1)) = Some s2"
    "represents before s2 ((bits @ dc_bits dct dst ?d) @ ac_bits act ast 0 (tl Temp))"
    by (auto simp: drop_Suc simp del: upt_rec_numeral)
  have "huffman je component Temp s = Some (set_dc component (hd Temp) je, s2)"
    using hd s1(1) s2(1) by (auto simp: huffman_def tabs last_dc_def set_dc_def bind_eq_Some_conv split: if_splits)
  moreover have "block_bits component ?d (tl Temp) = dc_bits dct dst ?d @ ac_bits act ast 0 (tl Temp)"
    by (simp add: block_bits_def tabs)
  ultimately show ?thesis using s2(2) by auto
qed

end
