(* ===== verification/Jpeg_Prefix.thy ===== *)
theory Jpeg_Prefix
  imports Jpeg_Block "HOL-Library.Sublist"
begin

text \<open>
  Reading back what \<open>huffman.c\<close> writes. A decoder of a prefix code needs nothing but the
  property that no code is a prefix of another (locale \<open>prefix_code\<close>). The standard transmits a table as
  the number of codes of each length and the symbols in the order of their codes, from which
  \<open>canonical_codes\<close> rebuilds the codes; such codes are prefix-free by construction, so a
  code table that agrees with a transmitted one is a prefix code.
\<close>

section \<open>Prefix codes\<close>

definition decode_symbol :: "(nat \<Rightarrow> bool list) \<Rightarrow> nat \<Rightarrow> bool list \<Rightarrow> (nat \<times> bool list) option" where
  "decode_symbol code n bits =
     (case filter (\<lambda>i. prefix (code i) bits) [0..<n] of
        [] \<Rightarrow> None | i # _ \<Rightarrow> Some (i, drop (length (code i)) bits))"

locale prefix_code =
  fixes code :: "nat \<Rightarrow> bool list" and n :: nat
  assumes prefix_free: "i < n \<Longrightarrow> j < n \<Longrightarrow> prefix (code i) (code j) \<Longrightarrow> i = j"
begin

lemma decode_code: "i < n \<Longrightarrow> decode_symbol code n (code i @ rest) = Some (i, rest)"
proof -
  assume i: "i < n"
  have "filter (\<lambda>j. prefix (code j) (code i @ rest)) [0..<n] = filter (\<lambda>j. j = i) [0..<n]"
  proof (rule filter_cong)
    fix j assume "j \<in> set [0..<n]"
    then have "j < n" by simp
    show "prefix (code j) (code i @ rest) = (j = i)"
    proof
      assume "prefix (code j) (code i @ rest)"
      then have "prefix (code j) (code i) \<or> prefix (code i) (code j)"
        using prefix_same_cases prefixI by blast
      then show "j = i" using prefix_free i \<open>j < n\<close> by blast
    qed simp
  qed simp
  moreover have "filter (\<lambda>j. j = i) [0..<n] = [i]"
    using i by (induction n) (auto simp: less_Suc_eq filter_empty_conv)
  ultimately show ?thesis by (simp add: decode_symbol_def)
qed

text \<open>Two sequences of symbols with the same code are the same.\<close>

lemma encode_inj:
  assumes "set is \<subseteq> {..<n}" and "set js \<subseteq> {..<n}" and "\<forall>i < n. code i \<noteq> []"
    and "concat (map code is) = concat (map code js)"
  shows "is = js"
  using assms
proof (induction "is" arbitrary: js)
  case Nil
  then show ?case by (cases js) auto
next
  case (Cons i "is")
  then obtain j js' where js: "js = j # js'" by (cases js) auto
  have "Some (i, concat (map code is)) = decode_symbol code n (concat (map code (i # is)))"
    using Cons.prems(1) decode_code [of i] by simp
  also have "\<dots> = Some (j, concat (map code js'))"
    using Cons.prems(2,4) decode_code [of j] by (simp add: js)
  finally show ?case using Cons.IH [of js'] Cons.prems by (simp add: js)
qed

end

section \<open>Canonical codes\<close>

fun canonical_codes :: "nat \<Rightarrow> int \<Rightarrow> nat list \<Rightarrow> (nat \<times> int) list" where
  "canonical_codes l code [] = []"
| "canonical_codes l code (n # ns) =
     map (\<lambda>i. (l, code + int i)) [0..<n] @ canonical_codes (Suc l) (2 * (code + int n)) ns"

lemma canonical_codes_ge:
  "(l', c') \<in> set (canonical_codes l code ns) \<Longrightarrow> l \<le> l' \<and> code * 2 ^ (l' - l) \<le> c'"
proof (induction l code ns rule: canonical_codes.induct)
  case (2 l code n ns)
  from "2.prems" consider "l' = l" "code \<le> c'" | "(l', c') \<in> set (canonical_codes (Suc l) (2 * (code + int n)) ns)"
    by auto
  then show ?case
  proof cases
    case 2
    with "2.IH" have "Suc l \<le> l'" "2 * (code + int n) * 2 ^ (l' - Suc l) \<le> c'" by auto
    moreover have "code * 2 ^ (l' - l) \<le> 2 * (code + int n) * 2 ^ (l' - Suc l)"
      using \<open>Suc l \<le> l'\<close> by (simp add: Suc_diff_Suc [symmetric] mult.assoc)
    ultimately show ?thesis by simp
  qed simp
qed simp

text \<open>Each code ends before the next one begins, as intervals of left-justified bit strings.\<close>

lemma canonical_codes_sorted:
  "sorted_wrt (\<lambda>(l, c) (l', c'). l \<le> l' \<and> (c + 1) * 2 ^ (l' - l) \<le> c') (canonical_codes l code ns)"
proof (induction l code ns rule: canonical_codes.induct)
  case (2 l code n ns)
  have "l \<le> l' \<and> (code + int i + 1) * 2 ^ (l' - l) \<le> c'"
    if "i < n" "(l', c') \<in> set (canonical_codes (Suc l) (2 * (code + int n)) ns)" for i l' c'
  proof -
    from canonical_codes_ge [OF that(2)] have l: "Suc l \<le> l'" "2 * (code + int n) * 2 ^ (l' - Suc l) \<le> c'" by auto
    have "(code + int i + 1) * 2 ^ (l' - l) \<le> (code + int n) * 2 ^ (l' - l)" using that(1) by simp
    also have "\<dots> = 2 * (code + int n) * 2 ^ (l' - Suc l)" using l(1) by (simp add: Suc_diff_Suc [symmetric])
    finally show ?thesis using l by simp
  qed
  moreover have "sorted_wrt (\<lambda>(l, c) (l', c'). l \<le> l' \<and> (c + 1) * 2 ^ (l' - l) \<le> c') (map (\<lambda>i. (l, code + int i)) [0..<n])"
    by (simp add: sorted_wrt_map sorted_wrt_iff_nth_less)
  ultimately show ?case using "2.IH" by (auto simp: sorted_wrt_append)
qed simp

lemma bits_of_eqD: "bits_of n x = bits_of n y \<Longrightarrow> take_bit n x = take_bit n (y :: int)"
  by (rule bit_eqI) (auto simp: bits_of_def bit_simps)

lemma bits_of_prefix:
  assumes c: "0 \<le> c" "c < 2 ^ l" and c': "0 \<le> c'" "c' < 2 ^ l'" and p: "prefix (bits_of l c) (bits_of l' (c' :: int))"
  shows "l \<le> l' \<and> c = c' div 2 ^ (l' - l)"
proof -
  from prefix_length_le [OF p] have l: "l \<le> l'" by simp
  then have "bits_of l' c' = bits_of l (drop_bit (l' - l) c') @ bits_of (l' - l) c'"
    using bits_of_append [of l "l' - l" c'] by simp
  with p have "bits_of l c = bits_of l (drop_bit (l' - l) c')"
    by (metis (no_types, lifting) append_eq_append_conv length_bits_of prefixE append.assoc)
  then have "take_bit l c = take_bit l (drop_bit (l' - l) c')" by (rule bits_of_eqD)
  moreover have "take_bit l c = c" using c by (simp add: take_bit_int_eq_self)
  moreover have "drop_bit (l' - l) c' < 2 ^ l"
  proof -
    have "c' < 2 ^ l * 2 ^ (l' - l)" using c'(2) l by (simp add: power_add [symmetric])
    moreover have "c' div 2 ^ (l' - l) * 2 ^ (l' - l) \<le> c'"
    proof -
      have "0 \<le> c' mod 2 ^ (l' - l)" by simp
      with div_mult_mod_eq [of c' "2 ^ (l' - l)"] show ?thesis by linarith
    qed
    ultimately have "c' div 2 ^ (l' - l) * 2 ^ (l' - l) < 2 ^ l * 2 ^ (l' - l)" by linarith
    then have "c' div 2 ^ (l' - l) < 2 ^ l" by (rule mult_right_less_imp_less) simp
    then show ?thesis by (simp add: drop_bit_eq_div)
  qed
  then have "take_bit l (drop_bit (l' - l) c') = drop_bit (l' - l) c'"
    using c' by (simp add: take_bit_int_eq_self)
  ultimately show ?thesis using l by (simp add: drop_bit_eq_div)
qed

lemma canonical_prefix_free:
  assumes ks: "k < length cs" "k' < length cs" and cs: "cs = canonical_codes l0 c0 ns"
    and kc: "cs ! k = (l, c)" "cs ! k' = (l', c')"
    and c: "0 \<le> c" "c < 2 ^ l" and c': "0 \<le> c'" "c' < 2 ^ l'" and p: "prefix (bits_of l c) (bits_of l' c')"
  shows "k = k'"
proof (rule linorder_cases [of k k'])
  from bits_of_prefix [OF c c' p] have d: "l \<le> l'" "c = c' div 2 ^ (l' - l)" by auto
  note so = canonical_codes_sorted [of l0 c0 ns, folded cs, unfolded sorted_wrt_iff_nth_less, rule_format]
  show "k = k'" if "k < k'"
  proof -
    from so [OF that ks(2)] have "(c + 1) * 2 ^ (l' - l) \<le> c'" by (simp add: kc)
    then have "c + 1 \<le> c' div 2 ^ (l' - l)" using zdiv_mono1 [of "(c + 1) * 2 ^ (l' - l)" c' "2 ^ (l' - l)"] by simp
    with d(2) show ?thesis by simp
  qed
  show "k = k'" if "k' < k"
  proof -
    from so [OF that ks(1)] have "l' \<le> l" "(c' + 1) * 2 ^ (l - l') \<le> c" by (simp_all add: kc)
    with d show ?thesis by simp
  qed
qed simp

end
