(* ===== verification/Jpeg_Quant.thy ===== *)
theory Jpeg_Quant
  imports Clank_Prelude
begin

text \<open>
  \<open>input_gspcav1/quant.c\<close>: the quantisation tables of the JPEG encoder. \<open>Lqt\<close> and \<open>Cqt\<close> are
  the tables that are transmitted, in zigzag order; \<open>ILqt\<close> and \<open>ICqt\<close> hold the reciprocals
  (scaled by \<open>2\<^sup>1\<^sup>5\<close>) the encoder multiplies with, in row order. Unsigned 32-bit arithmetic is
  written out with \<open>to_u32\<close>.
\<close>

abbreviation BLOCK_SIZE :: nat where "BLOCK_SIZE \<equiv> 64"

definition zigzag_table :: "nat list" where
  "zigzag_table = [
    0, 1, 5, 6, 14, 15, 27, 28, 2, 4, 7, 13, 16, 26, 29, 42, 3, 8, 12, 17,
    25, 30, 41, 43, 9, 11, 18, 24, 31, 40, 44, 53, 10, 19, 23, 32, 39, 45, 52,
    54, 20, 22, 33, 38, 46, 51, 55, 60, 21, 34, 37, 47, 50, 56, 59, 61, 35, 36,
    48, 49, 57, 58, 62, 63]"

text \<open>Sixteen steps of a restoring division; the quotient is shifted into the freed low bits.\<close>

definition division_step :: "int \<Rightarrow> int \<Rightarrow> int" where
  "division_step denom numer =
     (if denom < numer then to_u32 (to_u32 (2 * to_u32 (numer - denom)) + 1) else to_u32 (2 * numer))"

definition DSP_Division :: "int \<Rightarrow> int \<Rightarrow> int" where
  "DSP_Division numer denom = to_u16 ((division_step (to_u32 (denom * 2 ^ 15)) ^^ 16) numer)"

definition luminance_quant_table :: "int list" where
  "luminance_quant_table = [
    16, 11, 10, 16, 24, 40, 51, 61, 12, 12, 14, 19, 26, 58, 60, 55, 14, 13,
    16, 24, 40, 57, 69, 56, 14, 17, 22, 29, 51, 87, 80, 62, 18, 22, 37,
    56, 68, 109, 103, 77, 24, 35, 55, 64, 81, 104, 113, 92, 49, 64, 78,
    87, 103, 121, 120, 101, 72, 92, 95, 98, 112, 100, 103, 99]"

definition chrominance_quant_table :: "int list" where
  "chrominance_quant_table = [
    17, 18, 24, 47, 99, 99, 99, 99, 18, 21, 26, 66, 99, 99, 99, 99, 24, 26,
    56, 99, 99, 99, 99, 99, 47, 66, 99, 99, 99, 99, 99, 99, 99, 99, 99,
    99, 99, 99, 99, 99, 99, 99, 99, 99, 99, 99, 99, 99, 99, 99, 99, 99,
    99, 99, 99, 99, 99, 99, 99, 99, 99, 99, 99, 99]"

record quant_tables =
  Lqt :: "int list"
  Cqt :: "int list"
  ILqt :: "int list"
  ICqt :: "int list"

definition quant_value :: "int \<Rightarrow> int \<Rightarrow> int" where
  "quant_value base quality_factor =
     (let value = to_u32 (to_u32 (base * quality_factor) + 0x200) div 2 ^ 10
      in if value = 0 then 1 else if 255 < value then 255 else value)"

definition init_quant_entry :: "int \<Rightarrow> nat \<Rightarrow> quant_tables \<Rightarrow> quant_tables option" where
  "init_quant_entry quality_factor i q = do {
     index \<leftarrow> rd zigzag_table i;
     lbase \<leftarrow> rd luminance_quant_table i;
     let lvalue = quant_value lbase quality_factor;
     lq \<leftarrow> wr (Lqt q) index lvalue;
     ilq \<leftarrow> wr (ILqt q) i (DSP_Division 0x8000 lvalue);
     cbase \<leftarrow> rd chrominance_quant_table i;
     let cvalue = quant_value cbase quality_factor;
     cq \<leftarrow> wr (Cqt q) index cvalue;
     icq \<leftarrow> wr (ICqt q) i (DSP_Division 0x8000 cvalue);
     Some \<lparr>Lqt = lq, Cqt = cq, ILqt = ilq, ICqt = icq\<rparr> }"

definition initialize_quantization_tables :: "int \<Rightarrow> quant_tables \<Rightarrow> quant_tables option" where
  "initialize_quantization_tables quality_factor q =
     forM [0..<BLOCK_SIZE] (init_quant_entry quality_factor) q"

text \<open>\<open>quantization\<close> reads a block of DCT coefficients and fills \<open>Temp\<close> in zigzag order.\<close>

definition quantize :: "int \<Rightarrow> int \<Rightarrow> int" where
  "quantize coeff q = to_i16 ((coeff * q + 0x4000) div 2 ^ 15)"

definition quantization :: "int list \<Rightarrow> int list \<Rightarrow> int list \<Rightarrow> int list option" where
  "quantization data quant_table Temp = forM (rev [0..<BLOCK_SIZE]) (\<lambda>i temp. do {
     d \<leftarrow> rd data i;
     q \<leftarrow> rd quant_table i;
     z \<leftarrow> rd zigzag_table i;
     wr temp z (quantize d q) }) Temp"

section \<open>The reciprocals\<close>

text \<open>
  After \<open>k\<close> steps from \<open>2\<^sup>1\<^sup>5\<close> the register holds \<open>r + q\<close>: the quotient \<open>q\<close> found so far in
  the low \<open>k\<close> bits and a remainder \<open>r\<close>, a multiple of \<open>2\<^sup>k\<close>. Because the comparison is strict
  the remainder never becomes 0, so the result is the largest number below the exact quotient.
\<close>

lemma odd_divides_pow2:
  assumes "d * (2 * q + 1) = (2::int) ^ k" and "0 \<le> q" shows "q = 0"
proof -
  have "coprime (2 * q + 1) ((2::int) ^ k)" by simp
  moreover have "2 * q + 1 dvd (2::int) ^ k" using assms(1) by (metis dvd_triv_right)
  ultimately have "is_unit (2 * q + 1)" by (metis coprime_absorb_left)
  then show ?thesis using assms(2) by simp
qed

lemma division_step_invariant:
  fixes d :: int
  assumes d: "0 < d" "d \<le> 255" and k: "k \<le> 16"
  defines "D \<equiv> d * 2 ^ 15"
  shows "\<exists>q r. (division_step D ^^ k) (2 ^ 15) = r + q \<and> 0 \<le> q \<and> q < 2 ^ k \<and>
           2 ^ k * 2 ^ 15 = q * (2 * D) + r \<and> 0 < r \<and> r \<le> 2 * D \<and> (2::int) ^ k dvd r"
  using k
proof (induction k)
  case 0
  show ?case using d by (intro exI [of _ 0] exI [of _ "2 ^ 15"]) (simp add: D_def)
next
  case (Suc k)
  then obtain q r where IH: "(division_step D ^^ k) (2 ^ 15) = r + q" "0 \<le> q" "q < 2 ^ k"
    "2 ^ k * 2 ^ 15 = q * (2 * D) + r" "0 < r" "r \<le> 2 * D" "(2::int) ^ k dvd r"
    by auto
  have "k \<le> 15" using Suc.prems by simp
  have pk: "(2::int) ^ k \<le> 2 ^ 15" using \<open>k \<le> 15\<close> by (rule power_increasing) simp
  have Dk: "(2::int) ^ k dvd D" unfolding D_def using \<open>k \<le> 15\<close> by (intro dvd_mult le_imp_power_dvd)
  have D: "2 ^ 15 \<le> D" "D \<le> 255 * 2 ^ 15" using d by (simp_all add: D_def)
  show ?case
  proof (cases "D < r")
    case True
    then have "division_step D (r + q) = 2 * (r - D) + (2 * q + 1)"
      using IH D pk by (simp add: division_step_def)
    moreover have "2 ^ Suc k dvd 2 * (r - D)" using IH(7) Dk by simp
    ultimately show ?thesis
      using IH True by (intro exI [of _ "2 * q + 1"] exI [of _ "2 * (r - D)"]) (simp add: algebra_simps)
  next
    case False
    have "r + q \<le> D"
    proof (cases "r = D")
      case True
      then have "(2 * q + 1) * D = 2 ^ k * 2 ^ 15" using IH(4) by (simp add: algebra_simps)
      then have "d * (2 * q + 1) = 2 ^ k" by (simp add: D_def mult.commute)
      from odd_divides_pow2 [OF this IH(2)] True show ?thesis by simp
    next
      case neq: False
      have "2 ^ k dvd D - r" using IH(7) Dk by simp
      then have "2 ^ k \<le> D - r" using False neq by (intro zdvd_imp_le) auto
      with IH(3) show ?thesis by simp
    qed
    then have "division_step D (r + q) = 2 * r + 2 * q"
      using IH D by (simp add: division_step_def)
    moreover have "2 ^ Suc k dvd 2 * r" using IH(7) by simp
    ultimately show ?thesis
      using IH False by (intro exI [of _ "2 * q"] exI [of _ "2 * r"]) (simp add: algebra_simps)
  qed
qed

lemma DSP_Division_eq:
  assumes "0 < d" and "d \<le> 255"
  shows "DSP_Division 0x8000 d = 32767 div d"
proof -
  obtain q r where qr: "(division_step (d * 2 ^ 15) ^^ 16) (2 ^ 15) = r + q" "0 \<le> q" "q < 2 ^ 16"
    "2 ^ 16 * 2 ^ 15 = q * (2 * (d * 2 ^ 15)) + r" "0 < r" "r \<le> 2 * (d * 2 ^ 15)" "(2::int) ^ 16 dvd r"
    using division_step_invariant [OF assms, of 16] by auto
  from qr(7) obtain m where m: "r = 2 ^ 16 * m" ..
  have eq: "2 ^ 15 = q * d + m" using qr(4) m by simp
  have "0 < m" "m \<le> d" using qr(5,6) m by simp_all
  then have "32767 div d = q" using eq assms
    by (intro int_div_pos_eq [of _ _ _ "m - 1"]) (auto simp: mult.commute)
  moreover have "to_u16 (r + q) = q" using qr(2,3) m by (simp add: to_u16_def)
  moreover have "to_u32 (d * 2 ^ 15) = d * 2 ^ 15" using assms by simp
  ultimately show ?thesis using qr(1) by (simp add: DSP_Division_def)
qed

section \<open>The tables\<close>

lemma zigzag_length [simp]: "length zigzag_table = BLOCK_SIZE"
  by (simp add: zigzag_table_def)

lemma zigzag_distinct: "distinct zigzag_table"
  by (simp add: zigzag_table_def)

lemma zigzag_less: "i < BLOCK_SIZE \<Longrightarrow> zigzag_table ! i < BLOCK_SIZE"
proof -
  assume "i < BLOCK_SIZE"
  then have "zigzag_table ! i \<in> set zigzag_table" by simp
  moreover have "set zigzag_table \<subseteq> {..<BLOCK_SIZE}" by (simp add: zigzag_table_def)
  ultimately show ?thesis by auto
qed

lemma zigzag_inj: "i < BLOCK_SIZE \<Longrightarrow> j < BLOCK_SIZE \<Longrightarrow> zigzag_table ! i = zigzag_table ! j \<longleftrightarrow> i = j"
  using zigzag_distinct by (simp add: nth_eq_iff_index_eq)

lemma zigzag_inj_on: "inj_on ((!) zigzag_table) {..<BLOCK_SIZE}"
  by (auto intro!: inj_onI simp: zigzag_inj)

lemma zigzag_surj: "(!) zigzag_table ` {..<BLOCK_SIZE} = {..<BLOCK_SIZE}"
  using zigzag_inj_on zigzag_less by (intro endo_inj_surj) auto

lemma quant_tables_lengths [simp]: "length luminance_quant_table = BLOCK_SIZE" "length chrominance_quant_table = BLOCK_SIZE"
  by (simp_all add: luminance_quant_table_def chrominance_quant_table_def)

lemma quant_value_range: "1 \<le> quant_value base qf \<and> quant_value base qf \<le> 255"
  using pos_mod_sign [of 4294967296 "to_u32 (base * qf) + 512"]
  by (auto simp: quant_value_def Let_def to_u32_def not_less pos_imp_zdiv_nonneg_iff intro: order_antisym)

definition quant_sized :: "quant_tables \<Rightarrow> bool" where
  "quant_sized q \<longleftrightarrow> length (Lqt q) = BLOCK_SIZE \<and> length (Cqt q) = BLOCK_SIZE \<and>
     length (ILqt q) = BLOCK_SIZE \<and> length (ICqt q) = BLOCK_SIZE"

text \<open>
  What the tables have to satisfy for a decoder to undo the quantisation: entry \<open>i\<close> of a
  reciprocal table belongs to the entry that is transmitted at the zigzag place of \<open>i\<close>.
\<close>

definition reciprocal_of :: "int list \<Rightarrow> int list \<Rightarrow> bool" where
  "reciprocal_of iqt qt \<longleftrightarrow> (\<forall>i < BLOCK_SIZE. let v = qt ! (zigzag_table ! i) in
     1 \<le> v \<and> v \<le> 255 \<and> iqt ! i = 32767 div v)"

lemma init_tables:
  assumes "quant_sized q"
  shows "\<exists>q'. initialize_quantization_tables qf q = Some q' \<and> quant_sized q' \<and>
     (\<forall>i < BLOCK_SIZE. Lqt q' ! (zigzag_table ! i) = quant_value (luminance_quant_table ! i) qf \<and>
        Cqt q' ! (zigzag_table ! i) = quant_value (chrominance_quant_table ! i) qf \<and>
        ILqt q' ! i = 32767 div quant_value (luminance_quant_table ! i) qf \<and>
        ICqt q' ! i = 32767 div quant_value (chrominance_quant_table ! i) qf)"
proof -
  define I where "I k q' \<longleftrightarrow> quant_sized q' \<and>
     (\<forall>i < k. Lqt q' ! (zigzag_table ! i) = quant_value (luminance_quant_table ! i) qf \<and>
        Cqt q' ! (zigzag_table ! i) = quant_value (chrominance_quant_table ! i) qf \<and>
        ILqt q' ! i = 32767 div quant_value (luminance_quant_table ! i) qf \<and>
        ICqt q' ! i = 32767 div quant_value (chrominance_quant_table ! i) qf)" for k q'
  have div: "DSP_Division 32768 (quant_value base qf) = 32767 div quant_value base qf" for base
    using DSP_Division_eq [of "quant_value base qf"] quant_value_range [of base qf] by simp
  have "\<exists>q'. initialize_quantization_tables qf q = Some q' \<and> I BLOCK_SIZE q'"
    unfolding initialize_quantization_tables_def
  proof (rule forM_upt_invariant [where I = I])
    show "I 0 q" using assms by (simp add: I_def)
  next
    fix k t assume k: "k < BLOCK_SIZE" and "I k t"
    then show "\<exists>t'. init_quant_entry qf k t = Some t' \<and> I (Suc k) t'"
      using zigzag_less [OF k] zigzag_inj [OF k]
      by (auto simp: init_quant_entry_def Let_def I_def quant_sized_def nth_list_update less_Suc_eq div)
  qed
  then show ?thesis by (simp add: I_def)
qed

section \<open>Quantising a block\<close>

text \<open>\<open>int\<close> arithmetic does not overflow for any coefficient and any table entry.\<close>

lemma quantize_no_overflow:
  "i16_range c \<Longrightarrow> 0 \<le> q \<Longrightarrow> q \<le> 65535 \<Longrightarrow> i32_range (c * q) \<and> i32_range (c * q + 0x4000)"
proof -
  assume c: "i16_range c" and q: "0 \<le> q" "q \<le> 65535"
  have "c * q \<le> 32767 * 65535" "- 32768 * 65535 \<le> c * q"
    using c q mult_mono [of c 32767 q 65535] mult_mono [of "- c" 32768 q 65535]
    by (auto simp: i16_range_def intro: order_trans [OF mult_right_mono])
  then show ?thesis by (simp add: i32_range_def)
qed

lemma quantization_spec:
  assumes "length data = BLOCK_SIZE" and "length qt = BLOCK_SIZE" and "length Temp = BLOCK_SIZE"
  shows "\<exists>temp. quantization data qt Temp = Some temp \<and> length temp = BLOCK_SIZE \<and>
     (\<forall>i < BLOCK_SIZE. temp ! (zigzag_table ! i) = quantize (data ! i) (qt ! i))"
proof -
  have "quantization data qt Temp =
      forM (rev [0..<BLOCK_SIZE]) (\<lambda>i temp. wr temp (zigzag_table ! i) (quantize (data ! i) (qt ! i))) Temp"
    unfolding quantization_def by (rule forM_cong) (use assms in \<open>auto simp: rd_def\<close>)
  moreover have "inj_on ((!) zigzag_table) (set (rev [0..<BLOCK_SIZE]))"
    using zigzag_inj_on by (simp add: atLeast0LessThan)
  ultimately show ?thesis
    using forM_scatter [of "rev [0..<BLOCK_SIZE]" "(!) zigzag_table" Temp "\<lambda>i. quantize (data ! i) (qt ! i)"]
      assms zigzag_less by auto
qed

text \<open>Multiplying with the reciprocal is division up to rounding; the error is explicit.\<close>

lemma quantize_error:
  assumes d: "i16_range d" and v: "1 \<le> v" "v \<le> 255"
  shows "\<bar>v * quantize d (32767 div v) - d\<bar> * 2 ^ 15 \<le> v * (2 ^ 14 + \<bar>d\<bar>)"
proof -
  define q where "q = 32767 div v"
  define t where "t = (d * q + 0x4000) div 2 ^ 15"
  have q: "0 \<le> q" "q \<le> 32767" "v * q \<le> 32767" "32767 < v * q + v"
  proof -
    have "0 \<le> 32767 mod v" "32767 mod v < v" using v by simp_all
    moreover have "v * q = 32767 - 32767 mod v" by (simp add: q_def minus_mod_eq_mult_div)
    ultimately show "v * q \<le> 32767" "32767 < v * q + v" by linarith+
    show "0 \<le> q" "q \<le> 32767" using v zdiv_mono2 [of 32767 1 v] by (simp_all add: q_def pos_imp_zdiv_nonneg_iff)
  qed
  have t: "2 ^ 15 * t \<le> d * q + 2 ^ 14" "d * q + 2 ^ 14 < 2 ^ 15 * t + 2 ^ 15"
    unfolding t_def by auto
  have dq: "\<bar>d * q\<bar> \<le> 32768 * 32767"
    using d q(1,2) mult_mono [of "\<bar>d\<bar>" 32768 "\<bar>q\<bar>" 32767] by (auto simp: abs_mult i16_range_def)
  have "i16_range t" using t dq by (auto simp: i16_range_def)
  then have tq: "quantize d q = t" by (simp add: quantize_def t_def)
  have e1: "\<bar>2 ^ 15 * t - d * q\<bar> \<le> 2 ^ 14" using t by auto
  have e2: "\<bar>v * q - 2 ^ 15\<bar> \<le> v" using q by auto
  have "(v * t - d) * 2 ^ 15 = v * (2 ^ 15 * t - d * q) + d * (v * q - 2 ^ 15)" by (simp add: algebra_simps)
  then have "\<bar>(v * t - d) * 2 ^ 15\<bar> = \<bar>v * (2 ^ 15 * t - d * q) + d * (v * q - 2 ^ 15)\<bar>" by (rule arg_cong)
  moreover have "\<bar>(v * t - d) * 2 ^ 15\<bar> = \<bar>v * t - d\<bar> * 2 ^ 15" by (simp only: abs_mult) simp
  ultimately have "\<bar>v * t - d\<bar> * 2 ^ 15 = \<bar>v * (2 ^ 15 * t - d * q) + d * (v * q - 2 ^ 15)\<bar>" by simp
  also have "\<dots> \<le> v * \<bar>2 ^ 15 * t - d * q\<bar> + \<bar>d\<bar> * \<bar>v * q - 2 ^ 15\<bar>"
    using v abs_triangle_ineq [of "v * (2 ^ 15 * t - d * q)" "d * (v * q - 2 ^ 15)"] by (simp add: abs_mult)
  also have "\<dots> \<le> v * 2 ^ 14 + \<bar>d\<bar> * v"
    using e1 e2 v by (intro add_mono mult_left_mono) auto
  finally show ?thesis by (simp add: tq q_def [symmetric] algebra_simps)
qed

section \<open>Properties\<close>

definition zero_tables :: quant_tables where
  "zero_tables = \<lparr>Lqt = replicate BLOCK_SIZE 0, Cqt = replicate BLOCK_SIZE 0,
     ILqt = replicate BLOCK_SIZE 0, ICqt = replicate BLOCK_SIZE 0\<rparr>"

lemma zero_tables_sized: "quant_sized zero_tables"
  by (simp add: quant_sized_def zero_tables_def)

lemma init_reciprocal:
  assumes "quant_sized q"
  obtains q' where "initialize_quantization_tables qf q = Some q'" "quant_sized q'"
    "reciprocal_of (ILqt q') (Lqt q')" "reciprocal_of (ICqt q') (Cqt q')"
  using init_tables [OF assms, of qf] quant_value_range by (auto simp: reciprocal_of_def Let_def)

text \<open>For every quality factor the table initialisation succeeds and fills all
  four tables, whatever they held: the transmitted entries lie between 1 and 255, and each
  reciprocal the encoder multiplies with is the one of the entry transmitted for it, that is
  \<open>(2\<^sup>1\<^sup>5 - 1) div v\<close>, the result of the bitwise division.\<close>

theorem quant_tables_consistent:
  assumes "quant_sized q"
  shows "\<exists>q'. initialize_quantization_tables qf q = Some q' \<and> quant_sized q' \<and>
     reciprocal_of (ILqt q') (Lqt q') \<and> reciprocal_of (ICqt q') (Cqt q')"
  using init_reciprocal [OF assms, of qf] by blast

theorem quant_tables_consistent_witness:
  "\<exists>q'. initialize_quantization_tables 1024 zero_tables = Some q' \<and> reciprocal_of (ILqt q') (Lqt q')"
  using quant_tables_consistent [OF zero_tables_sized, of 1024] by blast

text \<open>C32: quantising a block of 16-bit coefficients with a reciprocal table and multiplying
  back with the transmitted table gives each coefficient \<open>d\<close> up to half a quantisation step
  plus \<open>v |d| / 2\<^sup>1\<^sup>5\<close>; every place of the output block is written.\<close>

theorem quantization_accuracy:
  assumes "length data = BLOCK_SIZE" and "\<forall>d \<in> set data. i16_range d" and "reciprocal_of iqt qt"
    and "length iqt = BLOCK_SIZE" and "length Temp = BLOCK_SIZE"
  shows "\<exists>temp. quantization data iqt Temp = Some temp \<and> length temp = BLOCK_SIZE \<and>
     (\<forall>i < BLOCK_SIZE. \<bar>qt ! (zigzag_table ! i) * temp ! (zigzag_table ! i) - data ! i\<bar> * 2 ^ 15
        \<le> qt ! (zigzag_table ! i) * (2 ^ 14 + \<bar>data ! i\<bar>))"
proof -
  obtain temp where temp: "quantization data iqt Temp = Some temp" "length temp = BLOCK_SIZE"
    "\<forall>i < BLOCK_SIZE. temp ! (zigzag_table ! i) = quantize (data ! i) (iqt ! i)"
    using quantization_spec [OF assms(1,4,5)] by auto
  have "\<bar>qt ! (zigzag_table ! i) * quantize (data ! i) (iqt ! i) - data ! i\<bar> * 2 ^ 15
        \<le> qt ! (zigzag_table ! i) * (2 ^ 14 + \<bar>data ! i\<bar>)" if "i < BLOCK_SIZE" for i
    using that assms(1-3) quantize_error [of "data ! i" "qt ! (zigzag_table ! i)"]
    by (simp add: reciprocal_of_def Let_def)
  with temp show ?thesis by auto
qed

theorem quantization_accuracy_witness:
  "\<exists>temp. quantization (replicate BLOCK_SIZE 100) (replicate BLOCK_SIZE 2047) (replicate BLOCK_SIZE 0) = Some temp \<and>
     length temp = BLOCK_SIZE"
proof -
  have "\<forall>d \<in> set (replicate BLOCK_SIZE 100). i16_range d" by (simp add: i16_range_def)
  moreover have "reciprocal_of (replicate BLOCK_SIZE 2047) (replicate BLOCK_SIZE 16)"
    using zigzag_less by (simp add: reciprocal_of_def)
  ultimately show ?thesis
    using quantization_accuracy [of "replicate BLOCK_SIZE 100" "replicate BLOCK_SIZE 2047" "replicate BLOCK_SIZE 16"
        "replicate BLOCK_SIZE 0"] by auto
qed

end
