(* ===== verification/Jpeg_Marker.thy ===== *)
theory Jpeg_Marker
  imports Jpeg_Quant
begin

text \<open>
  \<open>input_gspcav1/marker.c\<close>: the header of a JPEG file. The function writes through
  \<open>output_ptr\<close>; its result is the list of bytes it writes. The quantisation tables are the
  globals that \<open>quant.c\<close> fills. \<open>UINT32\<close> arguments are non-negative integers.
\<close>

abbreviation (input) FOUR_ZERO_ZERO :: int where "FOUR_ZERO_ZERO \<equiv> 0"
abbreviation (input) FOUR_TWO_ZERO :: int where "FOUR_TWO_ZERO \<equiv> 1"
abbreviation (input) FOUR_TWO_TWO :: int where "FOUR_TWO_TWO \<equiv> 2"
abbreviation (input) FOUR_FOUR_FOUR :: int where "FOUR_FOUR_FOUR \<equiv> 3"

definition markerdata :: "int list" where
  "markerdata = [
    0xFFC4, 0x01A2, 0x0000, 0x0105, 0x0101, 0x0101, 0x0101, 0x0000, 0x0000, 0x0000, 0x0000, 0x0102,
    0x0304, 0x0506, 0x0708, 0x090A, 0x0B01, 0x0003, 0x0101, 0x0101, 0x0101, 0x0101, 0x0100, 0x0000,
    0x0000, 0x0001, 0x0203, 0x0405, 0x0607, 0x0809, 0x0A0B, 0x1000, 0x0201, 0x0303, 0x0204, 0x0305,
    0x0504, 0x0400, 0x0001, 0x7D01, 0x0203, 0x0004, 0x1105, 0x1221, 0x3141, 0x0613, 0x5161, 0x0722,
    0x7114, 0x3281, 0x91A1, 0x0823, 0x42B1, 0xC115, 0x52D1, 0xF024, 0x3362, 0x7282, 0x090A, 0x1617,
    0x1819, 0x1A25, 0x2627, 0x2829, 0x2A34, 0x3536, 0x3738, 0x393A, 0x4344, 0x4546, 0x4748, 0x494A,
    0x5354, 0x5556, 0x5758, 0x595A, 0x6364, 0x6566, 0x6768, 0x696A, 0x7374, 0x7576, 0x7778, 0x797A,
    0x8384, 0x8586, 0x8788, 0x898A, 0x9293, 0x9495, 0x9697, 0x9899, 0x9AA2, 0xA3A4, 0xA5A6, 0xA7A8,
    0xA9AA, 0xB2B3, 0xB4B5, 0xB6B7, 0xB8B9, 0xBAC2, 0xC3C4, 0xC5C6, 0xC7C8, 0xC9CA, 0xD2D3, 0xD4D5,
    0xD6D7, 0xD8D9, 0xDAE1, 0xE2E3, 0xE4E5, 0xE6E7, 0xE8E9, 0xEAF1, 0xF2F3, 0xF4F5, 0xF6F7, 0xF8F9,
    0xFA11, 0x0002, 0x0102, 0x0404, 0x0304, 0x0705, 0x0404, 0x0001, 0x0277, 0x0001, 0x0203, 0x1104,
    0x0521, 0x3106, 0x1241, 0x5107, 0x6171, 0x1322, 0x3281, 0x0814, 0x4291, 0xA1B1, 0xC109, 0x2333,
    0x52F0, 0x1562, 0x72D1, 0x0A16, 0x2434, 0xE125, 0xF117, 0x1819, 0x1A26, 0x2728, 0x292A, 0x3536,
    0x3738, 0x393A, 0x4344, 0x4546, 0x4748, 0x494A, 0x5354, 0x5556, 0x5758, 0x595A, 0x6364, 0x6566,
    0x6768, 0x696A, 0x7374, 0x7576, 0x7778, 0x797A, 0x8283, 0x8485, 0x8687, 0x8889, 0x8A92, 0x9394,
    0x9596, 0x9798, 0x999A, 0xA2A3, 0xA4A5, 0xA6A7, 0xA8A9, 0xAAB2, 0xB3B4, 0xB5B6, 0xB7B8, 0xB9BA,
    0xC2C3, 0xC4C5, 0xC6C7, 0xC8C9, 0xCAD2, 0xD3D4, 0xD5D6, 0xD7D8, 0xD9DA, 0xE2E3, 0xE4E5, 0xE6E7,
    0xE8E9, 0xEAF2, 0xF3F4, 0xF5F6, 0xF7F8, 0xF9FA]"

text \<open>\<open>*output_ptr++ = x\<close> keeps the low eight bits.\<close>

definition byte :: "int \<Rightarrow> u8" where
  "byte x = word_of_int x"

definition two_bytes :: "int \<Rightarrow> u8 list" where
  "two_bytes x = [byte (x div 2 ^ 8), byte x]"

definition number_of_components :: "int \<Rightarrow> int" where
  "number_of_components image_format = (if image_format = FOUR_ZERO_ZERO then 1 else 3)"

definition frame_components :: "int \<Rightarrow> u8 list" where
  "frame_components image_format =
     (if image_format = FOUR_ZERO_ZERO then [0x01, 0x11, 0x00]
      else [0x01] @
           (if image_format = FOUR_TWO_ZERO then [0x22]
            else if image_format = FOUR_TWO_TWO then [0x21] else [0x11]) @
           [0x00, 0x02, 0x11, 0x01, 0x03, 0x11, 0x01])"

definition scan_components :: "int \<Rightarrow> u8 list" where
  "scan_components image_format =
     (if image_format = FOUR_ZERO_ZERO then [0x01, 0x00] else [0x01, 0x00, 0x02, 0x11, 0x03, 0x11])"

definition write_markers :: "quant_tables \<Rightarrow> int \<Rightarrow> int \<Rightarrow> int \<Rightarrow> u8 list option" where
  "write_markers q image_format image_width image_height = do {
     lqt \<leftarrow> rd_seq (Lqt q) 0 64;
     cqt \<leftarrow> rd_seq (Cqt q) 0 64;
     dht \<leftarrow> rd_seq markerdata 0 210;
     let n = number_of_components image_format;
     Some ([0xFF, 0xD8] @ [0xFF, 0xDB] @ [0x00, 0x84] @
           [0x00] @ map byte lqt @ [0x01] @ map byte cqt @
           concat (map two_bytes dht) @
           [0xFF, 0xC0] @ two_bytes (to_u16 (8 + 3 * n)) @ [0x08] @
           two_bytes image_height @ two_bytes image_width @ [byte n] @ frame_components image_format @
           [0xFF, 0xDA] @ two_bytes (to_u16 (6 + 2 * n)) @ [byte n] @ scan_components image_format @
           [0x00, 0x3F, 0x00]) }"

section \<open>The structure of the header\<close>

text \<open>
  A reader of JPEG headers as the standard defines them: after the start-of-image marker,
  segments of a marker, a length that counts itself, and a payload, up to the start-of-scan segment,
  behind which the coded data begin.
\<close>

definition be16 :: "u8 \<Rightarrow> u8 \<Rightarrow> int" where
  "be16 h l = 256 * uint h + uint l"

fun read_segments :: "nat \<Rightarrow> u8 list \<Rightarrow> ((u8 \<times> u8 list) list \<times> u8 list) option" where
  "read_segments 0 bs = None"
| "read_segments (Suc fuel) (f # m # h # l # bs) =
     (if f \<noteq> 0xFF then None
      else let n = nat (be16 h l - 2) in
        if length bs < n then None
        else if m = 0xDA then Some ([(m, take n bs)], drop n bs)
        else do { (segs, rest) \<leftarrow> read_segments fuel (drop n bs); Some ((m, take n bs) # segs, rest) })"
| "read_segments (Suc fuel) bs = None"

definition read_header :: "u8 list \<Rightarrow> ((u8 \<times> u8 list) list \<times> u8 list) option" where
  "read_header bs = (if take 2 bs = [0xFF, 0xD8] then read_segments (length bs) (drop 2 bs) else None)"

lemma byte_be16: "0 \<le> x \<Longrightarrow> x < 2 ^ 16 \<Longrightarrow> be16 (byte (x div 2 ^ 8)) (byte x) = x"
  by (simp add: be16_def byte_def uint_word_of_int mod_pos_pos_trivial pos_imp_zdiv_nonneg_iff)

lemma length_markerdata [simp]: "length markerdata = 210"
  by (simp add: markerdata_def)

end
