(* ===== verification/Jpeg_Roundtrip.thy ===== *)
theory Jpeg_Roundtrip
  imports Jpeg_Prefix Jpeg_Marker
begin

text \<open>
  The entropy coder against a decoder written from the JPEG standard (ITU T.81, annexes C and F): the
  tables a file transmits, decoding of a block, and the round trip of a whole scan, from the
  blocks through \<open>huffman\<close> and \<open>close_bitstream\<close> to the stuffed bytes and back.
\<close>

section \<open>Transmitted tables\<close>

function parse_tables :: "u8 list \<Rightarrow> (u8 \<times> nat list \<times> nat list) list option" where
  "parse_tables [] = Some []"
| "parse_tables (t # bs) =
     (let counts = map unat (take 16 bs); n = sum_list counts in
      if length bs < 16 + n then None
      else do { ts \<leftarrow> parse_tables (drop (16 + n) bs); Some ((t, counts, map unat (take n (drop 16 bs))) # ts) })"
  by pat_completeness auto
termination
  by (relation "measure length") auto

text \<open>
  The place of a symbol (run of zeros, size) in the tables of \<open>huffman.c\<close>; the code for 16 zeros is
  the last one.
\<close>

definition index_of_symbol :: "nat \<Rightarrow> nat" where
  "index_of_symbol s = (if s = 0xF0 then 161 else if s = 0 then 0 else s div 16 * 10 + s mod 16)"

definition table_matches :: "int list \<Rightarrow> nat list \<Rightarrow> nat list \<times> nat list \<Rightarrow> bool" where
  "table_matches ct st = (\<lambda>(counts, vals).
     map (\<lambda>s. (st ! index_of_symbol s, ct ! index_of_symbol s)) vals = canonical_codes 1 0 counts \<and>
     sort (map index_of_symbol vals) = [0..<length ct])"

definition dht_payload :: "u8 list" where
  "dht_payload = drop 4 (concat (map two_bytes markerdata))"

text \<open>The four tables of the standard (annex K.3): the numbers of codes by length, and the symbols.\<close>

definition luminance_dc_spec :: "nat list \<times> nat list" where
  "luminance_dc_spec = (
     [0, 1, 5, 1, 1, 1, 1, 1, 1, 0, 0, 0, 0, 0, 0, 0],
     [0, 1, 2, 3, 4, 5, 6, 7, 8, 9, 10, 11])"

definition chrominance_dc_spec :: "nat list \<times> nat list" where
  "chrominance_dc_spec = (
     [0, 3, 1, 1, 1, 1, 1, 1, 1, 1, 1, 0, 0, 0, 0, 0],
     [0, 1, 2, 3, 4, 5, 6, 7, 8, 9, 10, 11])"

definition luminance_ac_spec :: "nat list \<times> nat list" where
  "luminance_ac_spec = (
     [0, 2, 1, 3, 3, 2, 4, 3, 5, 5, 4, 4, 0, 0, 1, 125],
     [1, 2, 3, 0, 4, 17, 5, 18, 33, 49, 65, 6, 19, 81, 97, 7, 34, 113, 20, 50, 129, 145, 161,
      8, 35, 66, 177, 193, 21, 82, 209, 240, 36, 51, 98, 114, 130, 9, 10, 22, 23, 24, 25, 26,
      37, 38, 39, 40, 41, 42, 52, 53, 54, 55, 56, 57, 58, 67, 68, 69, 70, 71, 72, 73, 74, 83,
      84, 85, 86, 87, 88, 89, 90, 99, 100, 101, 102, 103, 104, 105, 106, 115, 116, 117, 118,
      119, 120, 121, 122, 131, 132, 133, 134, 135, 136, 137, 138, 146, 147, 148, 149, 150, 151,
      152, 153, 154, 162, 163, 164, 165, 166, 167, 168, 169, 170, 178, 179, 180, 181, 182, 183,
      184, 185, 186, 194, 195, 196, 197, 198, 199, 200, 201, 202, 210, 211, 212, 213, 214, 215,
      216, 217, 218, 225, 226, 227, 228, 229, 230, 231, 232, 233, 234, 241, 242, 243, 244, 245,
      246, 247, 248, 249, 250])"

definition chrominance_ac_spec :: "nat list \<times> nat list" where
  "chrominance_ac_spec = (
     [0, 2, 1, 2, 4, 4, 3, 4, 7, 5, 4, 4, 0, 1, 2, 119],
     [0, 1, 2, 3, 17, 4, 5, 33, 49, 6, 18, 65, 81, 7, 97, 113, 19, 34, 50, 129, 8, 20, 66, 145,
      161, 177, 193, 9, 35, 51, 82, 240, 21, 98, 114, 209, 10, 22, 36, 52, 225, 37, 241, 23,
      24, 25, 26, 38, 39, 40, 41, 42, 53, 54, 55, 56, 57, 58, 67, 68, 69, 70, 71, 72, 73, 74,
      83, 84, 85, 86, 87, 88, 89, 90, 99, 100, 101, 102, 103, 104, 105, 106, 115, 116, 117,
      118, 119, 120, 121, 122, 130, 131, 132, 133, 134, 135, 136, 137, 138, 146, 147, 148, 149,
      150, 151, 152, 153, 154, 162, 163, 164, 165, 166, 167, 168, 169, 170, 178, 179, 180, 181,
      182, 183, 184, 185, 186, 194, 195, 196, 197, 198, 199, 200, 201, 202, 210, 211, 212, 213,
      214, 215, 216, 217, 218, 226, 227, 228, 229, 230, 231, 232, 233, 234, 242, 243, 244, 245,
      246, 247, 248, 249, 250])"

definition dht_tables :: "(u8 \<times> nat list \<times> nat list) list" where
  "dht_tables = [(0x00, luminance_dc_spec), (0x01, chrominance_dc_spec),
                 (0x10, luminance_ac_spec), (0x11, chrominance_ac_spec)]"

lemma parse_dht_payload: "parse_tables dht_payload = Some dht_tables"
  by code_simp

lemma dc_tables_match:
  "table_matches luminance_dc_code_table luminance_dc_size_table luminance_dc_spec"
  "table_matches chrominance_dc_code_table chrominance_dc_size_table chrominance_dc_spec"
  by code_simp+

lemma luminance_ac_matches: "table_matches luminance_ac_code_table luminance_ac_size_table luminance_ac_spec"
  by code_simp

lemma chrominance_ac_matches: "table_matches chrominance_ac_code_table chrominance_ac_size_table chrominance_ac_spec"
  by code_simp

text \<open>A code table that matches a transmitted one is a prefix code.\<close>

lemma matching_prefix_code:
  assumes ok: "table_ok ct st n" and m: "table_matches ct st (counts, vals)"
  shows "prefix_code (code_bits ct st) n"
proof
  fix i j assume ij: "i < n" "j < n" and p: "prefix (code_bits ct st i) (code_bits ct st j)"
  let ?cs = "canonical_codes 1 0 counts"
  have cs: "?cs = map (\<lambda>s. (st ! index_of_symbol s, ct ! index_of_symbol s)) vals"
    using m by (simp add: table_matches_def)
  have ex: "\<exists>k < length vals. index_of_symbol (vals ! k) = i'" if "i' < n" for i'
  proof -
    from m have "sort (map index_of_symbol vals) = [0..<length ct]" by (simp add: table_matches_def)
    from arg_cong [OF this, of set] have "set (map index_of_symbol vals) = {0..<length ct}" by simp
    then have "i' \<in> set (map index_of_symbol vals)" using ok that by (simp add: table_ok_def)
    then show ?thesis by (auto simp: in_set_conv_nth)
  qed
  from ex [OF ij(1)] ex [OF ij(2)] obtain k k' where
    k: "k < length vals" "index_of_symbol (vals ! k) = i" and k': "k' < length vals" "index_of_symbol (vals ! k') = j"
    by blast
  have len: "k < length ?cs" "k' < length ?cs" unfolding cs using k k' by simp_all
  have nth: "?cs ! k = (st ! i, ct ! i)" "?cs ! k' = (st ! j, ct ! j)" unfolding cs using k k' by simp_all
  note ti = table_ok_nth [OF ok ij(1)] and tj = table_ok_nth [OF ok ij(2)]
  from canonical_prefix_free [OF len refl nth] ti tj p have "k = k'" by (simp add: code_bits_def)
  with k k' show "i = j" by simp
qed

lemmas matching_prefix_code' = matching_prefix_code [where counts = "fst x" and vals = "snd x" for x, simplified]

interpretation ldc: prefix_code "code_bits luminance_dc_code_table luminance_dc_size_table" 12
  by (rule matching_prefix_code' [OF table_ok_dc(1) dc_tables_match(1)])

interpretation cdc: prefix_code "code_bits chrominance_dc_code_table chrominance_dc_size_table" 12
  by (rule matching_prefix_code' [OF table_ok_dc(2) dc_tables_match(2)])

interpretation lac: prefix_code "code_bits luminance_ac_code_table luminance_ac_size_table" 162
  by (rule matching_prefix_code' [OF table_ok_ac_luminance luminance_ac_matches])

interpretation cac: prefix_code "code_bits chrominance_ac_code_table chrominance_ac_size_table" 162
  by (rule matching_prefix_code' [OF table_ok_ac_chrominance chrominance_ac_matches])

section \<open>Decoding a block\<close>

definition bits_val :: "bool list \<Rightarrow> int" where
  "bits_val bs = foldl (\<lambda>a b. 2 * a + of_bool b) 0 bs"

text \<open>The \<open>EXTEND\<close> procedure of the standard.\<close>

definition jpeg_extend :: "nat \<Rightarrow> int \<Rightarrow> int" where
  "jpeg_extend k v = (if v < 2 ^ (k - 1) then v - 2 ^ k + 1 else v)"

definition decode_dc :: "(nat \<Rightarrow> bool list) \<Rightarrow> bool list \<Rightarrow> (int \<times> bool list) option" where
  "decode_dc code bits = do {
     (k, rest) \<leftarrow> decode_symbol code 12 bits;
     if length rest < k then None
     else Some (if k = 0 then 0 else jpeg_extend k (bits_val (take k rest)), drop k rest) }"

function decode_acs :: "(nat \<Rightarrow> bool list) \<Rightarrow> nat \<Rightarrow> bool list \<Rightarrow> (int list \<times> bool list) option" where
  "decode_acs code n bits =
     (if n = 0 then Some ([], bits)
      else case decode_symbol code 162 bits of
        None \<Rightarrow> None
      | Some (i, rest) \<Rightarrow>
          if i = 0 then Some (replicate n 0, rest)
          else if i = 161 then
            (if n < 16 then None
             else do { (cs, rest') \<leftarrow> decode_acs code (n - 16) rest; Some (replicate 16 0 @ cs, rest') })
          else let r = (i - 1) div 10; k = (i - 1) mod 10 + 1 in
            if n \<le> r \<or> length rest < k then None
            else do {
              (cs, rest') \<leftarrow> decode_acs code (n - r - 1) (drop k rest);
              Some (replicate r 0 @ jpeg_extend k (bits_val (take k rest)) # cs, rest') })"
  by pat_completeness auto
termination
  by (relation "measure (\<lambda>(_, n, _). n)") auto

declare decode_acs.simps [simp del]

definition decode_block :: "nat \<Rightarrow> int \<Rightarrow> bool list \<Rightarrow> (int list \<times> bool list) option" where
  "decode_block component prev bits =
     (let dc = (if component = 1 then code_bits luminance_dc_code_table luminance_dc_size_table
                else code_bits chrominance_dc_code_table chrominance_dc_size_table);
          ac = (if component = 1 then code_bits luminance_ac_code_table luminance_ac_size_table
                else code_bits chrominance_ac_code_table chrominance_ac_size_table)
      in do {
        (d, rest) \<leftarrow> decode_dc dc bits;
        (cs, rest') \<leftarrow> decode_acs ac 63 rest;
        Some ((prev + d) # cs, rest') })"

lemma bits_val_snoc: "bits_val (bs @ [b]) = 2 * bits_val bs + of_bool b"
  by (simp add: bits_val_def)

lemma bits_val_bits_of: "bits_val (bits_of n x) = take_bit n (x :: int)"
proof (induction n arbitrary: x)
  case 0
  then show ?case by (simp add: bits_val_def)
next
  case (Suc n)
  have "bits_of (Suc n) x = bits_of n (x div 2) @ [odd x]"
    using bits_of_append [of n "Suc 0" x] by (simp add: bits_of_def [of "Suc 0"] drop_bit_eq_div bit_0)
  with Suc show ?case by (simp add: bits_val_snoc take_bit_Suc add.commute mod_2_eq_odd)
qed

lemma extend_mag_bits:
  assumes "c \<noteq> 0" shows "jpeg_extend (coeff_size c) (bits_val (mag_bits (coeff_size c) c)) = c"
proof -
  let ?k = "coeff_size c"
  have k: "2 ^ (?k - 1) \<le> \<bar>c\<bar>" "\<bar>c\<bar> < 2 ^ ?k" "0 < ?k"
    using dc_size_ge [of "\<bar>c\<bar>"] dc_size_less [of "\<bar>c\<bar>"] assms by (simp_all add: coeff_size_def)
  then have p: "(2::int) ^ ?k = 2 * 2 ^ (?k - 1)" by (simp add: power_Suc [symmetric] del: power_Suc)
  show ?thesis
  proof (cases "c < 0")
    case True
    have "take_bit ?k (c - 1) = (c - 1 + 2 ^ ?k) mod 2 ^ ?k" by (simp add: take_bit_eq_mod)
    also have "\<dots> = c - 1 + 2 ^ ?k" using k True by (intro mod_pos_pos_trivial) auto
    finally show ?thesis using k True p by (simp add: jpeg_extend_def mag_bits_def bits_val_bits_of)
  next
    case False
    with k show ?thesis by (simp add: jpeg_extend_def mag_bits_def bits_val_bits_of take_bit_int_eq_self)
  qed
qed

lemma length_mag_bits [simp]: "length (mag_bits k c) = k"
  by (simp add: mag_bits_def)

lemma decode_dc_bits:
  assumes "prefix_code (code_bits ct st) 12" and "\<bar>d\<bar> < 2 ^ 11"
  shows "decode_dc (code_bits ct st) (dc_bits ct st d @ rest) = Some (d, rest)"
proof -
  have k: "coeff_size d < 12" using coeff_size_le [OF assms(2)] by simp
  have z: "coeff_size d = 0 \<longleftrightarrow> d = 0" using coeff_size_pos [of d] by (cases "d = 0") (simp_all add: coeff_size_def)
  show ?thesis
    using prefix_code.decode_code [OF assms(1) k] z extend_mag_bits [of d]
    by (auto simp: decode_dc_def dc_bits_def)
qed

section \<open>AC coefficients\<close>

lemma decode_acs_run:
  assumes "prefix_code (code_bits ct st) 162"
  shows "decode_acs (code_bits ct st) (16 + n) (code_bits ct st 161 @ bits) =
     do { (cs, rest) \<leftarrow> decode_acs (code_bits ct st) n bits; Some (replicate 16 0 @ cs, rest) }"
  using prefix_code.decode_code [OF assms, of 161] by (subst decode_acs.simps) simp

lemma decode_zero_runs:
  assumes pc: "prefix_code (code_bits ct st) 162" and m: "0 < m"
    and tail: "decode_acs (code_bits ct st) (q + m) bits = Some (ys, rest)"
  shows "decode_acs (code_bits ct st) (16 * k + q + m) (concat (replicate k (code_bits ct st 161)) @ bits) =
     Some (replicate (16 * k) 0 @ ys, rest)"
proof (induction k)
  case 0
  with tail show ?case by simp
next
  case (Suc k)
  let ?n = "16 * Suc k + q + m"
  have n: "16 * Suc k + q + m = 16 + (16 * k + q + m)" by simp
  have "replicate (16 * Suc k) (0::int) = replicate 16 0 @ replicate (16 * k) 0"
    using replicate_add [of 16 "16 * k" "0::int"] by simp
  with Suc show ?case unfolding n by (simp add: decode_acs_run [OF pc])
qed

lemma decode_ac_bits:
  assumes pc: "prefix_code (code_bits ct st) 162" and "\<forall>c \<in> set cs. \<bar>c\<bar> < 2 ^ 10"
  shows "decode_acs (code_bits ct st) (r + length cs) (ac_bits ct st r cs @ rest) = Some (replicate r 0 @ cs, rest)"
  using assms(2)
proof (induction cs arbitrary: r)
  case Nil
  then show ?case using prefix_code.decode_code [OF pc, of 0] by (simp add: decode_acs.simps [of _ r])
next
  case (Cons c cs)
  show ?case
  proof (cases "c = 0")
    case True
    with Cons.IH [of "Suc r"] Cons.prems show ?thesis by (simp add: replicate_append_same [symmetric])
  next
    case False
    define q k where "q = r mod 16" and "k = coeff_size c"
    have k: "1 \<le> k" "k \<le> 10" using coeff_size_pos [OF False] coeff_size_le [of c 10] Cons.prems by (simp_all add: k_def)
    have q: "q < 16" by (simp add: q_def)
    have i: "(q * 10 + k - 1) div 10 = q" "(q * 10 + k - 1) mod 10 + 1 = k" "q * 10 + k < 161" "0 < q * 10 + k"
    proof -
      have "q * 10 + k - 1 = (k - 1) + q * 10" "k - 1 < 10" using k by auto
      then show "(q * 10 + k - 1) div 10 = q" "(q * 10 + k - 1) mod 10 + 1 = k"
        using k by (simp_all only: div_mult_self3 mod_mult_self1 div_less mod_less)
    qed (use k q in auto)
    let ?tail = "code_bits ct st (q * 10 + k) @ mag_bits k c @ ac_bits ct st 0 cs @ rest"
    have "decode_acs (code_bits ct st) (q + Suc (length cs)) ?tail = Some (replicate q 0 @ c # cs, rest)"
      using prefix_code.decode_code [OF pc, of "q * 10 + k"] i Cons.IH [of 0] Cons.prems extend_mag_bits [OF False]
      by (subst decode_acs.simps) (simp add: Let_def k_def)
    from decode_zero_runs [OF pc _ this, of "r div 16"]
    have "decode_acs (code_bits ct st) (16 * (r div 16) + q + Suc (length cs))
        (concat (replicate (r div 16) (code_bits ct st 161)) @ ?tail) =
        Some (replicate (16 * (r div 16)) 0 @ replicate q 0 @ c # cs, rest)" by simp
    moreover have "r = 16 * (r div 16) + q" by (simp add: q_def)
    moreover from this have "replicate r (0::int) = replicate (16 * (r div 16)) 0 @ replicate q 0"
      by (metis replicate_add)
    ultimately show ?thesis using False by (simp add: q_def [symmetric] k_def [symmetric])
  qed
qed

lemma decode_block_bits:
  assumes "codable prev Temp"
  shows "decode_block component prev (block_bits component (hd Temp - prev) (tl Temp) @ rest) = Some (Temp, rest)"
proof -
  from assms have len: "length (tl Temp) = 63" "Temp \<noteq> []" and d: "\<bar>hd Temp - prev\<bar> < 2 ^ 11"
    and ac: "\<forall>c \<in> set (tl Temp). \<bar>c\<bar> < 2 ^ 10"
    by (auto simp: codable_def)
  show ?thesis
    using decode_dc_bits [OF ldc.prefix_code_axioms d] decode_dc_bits [OF cdc.prefix_code_axioms d]
      decode_ac_bits [OF lac.prefix_code_axioms ac, of 0] decode_ac_bits [OF cac.prefix_code_axioms ac, of 0] len
    by (simp add: decode_block_def block_bits_def)
qed

end
