(* ===== verification/Jpeg_Scan.thy ===== *)
theory Jpeg_Scan
  imports Jpeg_Roundtrip
begin

text \<open>
  The header and a whole scan, and the properties of the entropy coder.
\<close>

section \<open>The header\<close>

lemma read_segment:
  assumes "be16 h l = 2 + int (length payload)" and "m \<noteq> 0xDA"
  shows "read_segments (Suc fuel) ([0xFF, m, h, l] @ payload @ rest) =
    do { (segs, rest') \<leftarrow> read_segments fuel rest; Some ((m, payload) # segs, rest') }"
  using assms by (simp add: Let_def)

lemma read_last_segment:
  assumes "be16 h l = 2 + int (length payload)"
  shows "read_segments (Suc fuel) ([0xFF, 0xDA, h, l] @ payload @ rest) = Some ([(0xDA, payload)], rest)"
  using assms by (simp add: Let_def)

definition dqt_payload :: "quant_tables \<Rightarrow> u8 list" where
  "dqt_payload q = 0x00 # map byte (Lqt q) @ 0x01 # map byte (Cqt q)"

definition sof_payload :: "int \<Rightarrow> int \<Rightarrow> int \<Rightarrow> u8 list" where
  "sof_payload fmt width height =
     [0x08] @ two_bytes height @ two_bytes width @ [byte (number_of_components fmt)] @ frame_components fmt"

definition sos_payload :: "int \<Rightarrow> u8 list" where
  "sos_payload fmt = [byte (number_of_components fmt)] @ scan_components fmt @ [0x00, 0x3F, 0x00]"

lemma dht_split: "concat (map two_bytes markerdata) = [0xFF, 0xC4, 0x01, 0xA2] @ dht_payload"
  by code_simp

lemma length_dht_payload: "length dht_payload = 416"
  by code_simp

lemma write_markers_eq:
  assumes "quant_sized q"
  shows "write_markers q fmt w h = Some ([0xFF, 0xD8] @
     [0xFF, 0xDB, 0x00, 0x84] @ dqt_payload q @ [0xFF, 0xC4, 0x01, 0xA2] @ dht_payload @
     [0xFF, 0xC0, byte ((8 + 3 * number_of_components fmt) div 2 ^ 8), byte (8 + 3 * number_of_components fmt)] @ sof_payload fmt w h @
     [0xFF, 0xDA, byte ((6 + 2 * number_of_components fmt) div 2 ^ 8), byte (6 + 2 * number_of_components fmt)] @ sos_payload fmt)"
proof -
  have "rd_seq (Lqt q) 0 64 = Some (Lqt q)" "rd_seq (Cqt q) 0 64 = Some (Cqt q)" "rd_seq markerdata 0 210 = Some markerdata"
    using assms by (simp_all add: rd_seq_in quant_sized_def)
  then show ?thesis
    by (simp add: write_markers_def dqt_payload_def sof_payload_def sos_payload_def dht_split two_bytes_def
        number_of_components_def)
qed

lemma length_sof: "length (sof_payload fmt w h) = nat (6 + 3 * number_of_components fmt)"
  by (simp add: sof_payload_def frame_components_def number_of_components_def two_bytes_def)

lemma length_sos: "length (sos_payload fmt) = nat (4 + 2 * number_of_components fmt)"
  by (simp add: sos_payload_def scan_components_def number_of_components_def)

lemma be16_small: "be16 0x00 0x84 = 132" "be16 0x01 0xA2 = 418"
  by (simp_all add: be16_def)

lemma header_segments:
  assumes "quant_sized q" and "0 \<le> w" "w < 2 ^ 16" and "0 \<le> h" "h < 2 ^ 16"
  shows "\<exists>hdr. write_markers q fmt w h = Some hdr \<and>
     (\<forall>data. read_header (hdr @ data) =
       Some ([(0xDB, dqt_payload q), (0xC4, dht_payload), (0xC0, sof_payload fmt w h), (0xDA, sos_payload fmt)], data))"
proof -
  let ?n = "number_of_components fmt"
  let ?sof = "[0xFF, 0xC0, byte ((8 + 3 * ?n) div 2 ^ 8), byte (8 + 3 * ?n)] @ sof_payload fmt w h"
  let ?sos = "[0xFF, 0xDA, byte ((6 + 2 * ?n) div 2 ^ 8), byte (6 + 2 * ?n)] @ sos_payload fmt"
  have n: "1 \<le> ?n" "?n \<le> 3" by (simp_all add: number_of_components_def)
  have l1: "be16 0x00 0x84 = 2 + int (length (dqt_payload q))"
    using assms(1) by (simp add: be16_small dqt_payload_def quant_sized_def)
  have l2: "be16 0x01 0xA2 = 2 + int (length dht_payload)" by (simp add: be16_small length_dht_payload)
  have l3: "be16 (byte ((8 + 3 * ?n) div 2 ^ 8)) (byte (8 + 3 * ?n)) = 2 + int (length (sof_payload fmt w h))"
    using n by (subst byte_be16) (simp_all add: length_sof)
  have l4: "be16 (byte ((6 + 2 * ?n) div 2 ^ 8)) (byte (6 + 2 * ?n)) = 2 + int (length (sos_payload fmt))"
    using n by (subst byte_be16) (simp_all add: length_sos)
  have m: "(0xDB :: u8) \<noteq> 0xDA" "(0xC4 :: u8) \<noteq> 0xDA" "(0xC0 :: u8) \<noteq> 0xDA" by simp_all
  let ?hdr = "[0xFF, 0xDB, 0x00, 0x84] @ dqt_payload q @ [0xFF, 0xC4, 0x01, 0xA2] @ dht_payload @ ?sof @ ?sos"
  { fix data :: "u8 list"
  have "\<exists>f. length ([0xFF, 0xD8] @ ?hdr @ data) = Suc (Suc (Suc (Suc f)))"
    by (rule exI [of _ "length ([0xFF, 0xD8] @ ?hdr @ data) - 4"]) simp
  then obtain f where f: "length ([0xFF, 0xD8] @ ?hdr @ data) = Suc (Suc (Suc (Suc f)))" ..
  have "read_header ([0xFF, 0xD8] @ ?hdr @ data) =
      read_segments (Suc (Suc (Suc (Suc f)))) ([0xFF, 0xDB, 0x00, 0x84] @ dqt_payload q @
        [0xFF, 0xC4, 0x01, 0xA2] @ dht_payload @ [0xFF, 0xC0, byte ((8 + 3 * ?n) div 2 ^ 8), byte (8 + 3 * ?n)] @ sof_payload fmt w h @
        [0xFF, 0xDA, byte ((6 + 2 * ?n) div 2 ^ 8), byte (6 + 2 * ?n)] @ sos_payload fmt @ data)"
    unfolding read_header_def f by simp
  also have "\<dots> = Some ([(0xDB, dqt_payload q), (0xC4, dht_payload), (0xC0, sof_payload fmt w h), (0xDA, sos_payload fmt)], data)"
    by (simp only: read_segment [OF l1 m(1)] read_segment [OF l2 m(2)] read_segment [OF l3 m(3)] read_last_segment [OF l4]) simp
  finally have "read_header (([0xFF, 0xD8] @ ?hdr) @ data) =
      Some ([(0xDB, dqt_payload q), (0xC4, dht_payload), (0xC0, sof_payload fmt w h), (0xDA, sos_payload fmt)], data)"
    by simp
  } then show ?thesis
    using write_markers_eq [OF assms(1), of fmt w h] by (intro exI [of _ "[0xFF, 0xD8] @ ?hdr"]) simp
qed

text \<open>C30: the header that \<open>write_markers\<close> writes is read back by a reader of JPEG segments: the
  quantisation tables in use, the Huffman tables from which a decoder rebuilds exactly the codes of
  \<open>huffman.c\<close>, the frame with the image's height, width and components, and the scan, behind
  which the reader finds whatever data follows.\<close>

theorem header_roundtrip:
  assumes "quant_sized q" and "0 \<le> w" "w < 2 ^ 16" and "0 \<le> h" "h < 2 ^ 16"
  shows "\<exists>hdr. write_markers q fmt w h = Some hdr \<and>
     read_header (hdr @ data) =
       Some ([(0xDB, dqt_payload q), (0xC4, dht_payload), (0xC0, sof_payload fmt w h), (0xDA, sos_payload fmt)], data) \<and>
     parse_tables dht_payload = Some [(0x00, luminance_dc_spec), (0x01, chrominance_dc_spec),
                                      (0x10, luminance_ac_spec), (0x11, chrominance_ac_spec)] \<and>
     table_matches luminance_dc_code_table luminance_dc_size_table luminance_dc_spec \<and>
     table_matches chrominance_dc_code_table chrominance_dc_size_table chrominance_dc_spec \<and>
     table_matches luminance_ac_code_table luminance_ac_size_table luminance_ac_spec \<and>
     table_matches chrominance_ac_code_table chrominance_ac_size_table chrominance_ac_spec \<and>
     be16 (sof_payload fmt w h ! 1) (sof_payload fmt w h ! 2) = h \<and>
     be16 (sof_payload fmt w h ! 3) (sof_payload fmt w h ! 4) = w"
proof -
  have "be16 (sof_payload fmt w h ! 1) (sof_payload fmt w h ! 2) = h"
    "be16 (sof_payload fmt w h ! 3) (sof_payload fmt w h ! 4) = w"
    using byte_be16 [OF assms(4,5)] byte_be16 [OF assms(2,3)] by (simp_all add: sof_payload_def two_bytes_def)
  with header_segments [OF assms, of fmt] parse_dht_payload dc_tables_match luminance_ac_matches chrominance_ac_matches
  show ?thesis by (auto simp: dht_tables_def)
qed

theorem header_roundtrip_witness:
  "\<exists>hdr. write_markers zero_tables FOUR_TWO_TWO 640 480 = Some hdr \<and>
     (\<exists>segs. read_header (hdr @ [0x12]) = Some (segs, [0x12]))"
  using header_roundtrip [OF zero_tables_sized, of 640 480 FOUR_TWO_TWO "[0x12]"] by auto

section \<open>A scan\<close>

definition write_blocks :: "(nat \<times> int list) list \<Rightarrow> jpeg_encoder \<times> bitstream \<Rightarrow> (jpeg_encoder \<times> bitstream) option" where
  "write_blocks blocks = forM blocks (\<lambda>(component, Temp) (je, s). huffman je component Temp s)"

fun codable_scan :: "jpeg_encoder \<Rightarrow> (nat \<times> int list) list \<Rightarrow> bool" where
  "codable_scan je [] = True"
| "codable_scan je ((component, Temp) # blocks) =
     (codable (last_dc component je) Temp \<and> codable_scan (set_dc component (hd Temp) je) blocks)"

fun decode_scan :: "jpeg_encoder \<Rightarrow> nat list \<Rightarrow> bool list \<Rightarrow> (int list list \<times> bool list) option" where
  "decode_scan je [] bits = Some ([], bits)"
| "decode_scan je (component # cs) bits = do {
     (Temp, rest) \<leftarrow> decode_block component (last_dc component je) bits;
     (Temps, rest') \<leftarrow> decode_scan (set_dc component (hd Temp) je) cs rest;
     Some (Temp # Temps, rest') }"

lemma write_blocks_represents:
  assumes "codable_scan je blocks" and "represents before s bits"
  shows "\<exists>je' s' new. write_blocks blocks (je, s) = Some (je', s') \<and> represents before s' (bits @ new) \<and>
     (\<forall>rest. decode_scan je (map fst blocks) (new @ rest) = Some (map snd blocks, rest))"
  using assms
proof (induction blocks arbitrary: je s bits)
  case Nil
  then show ?case by (intro exI [of _ je] exI [of _ s] exI [of _ "[]"]) (simp add: write_blocks_def)
next
  case (Cons b blocks)
  obtain component Temp where b: "b = (component, Temp)" by fastforce
  let ?je = "set_dc component (hd Temp) je" and ?new = "block_bits component (hd Temp - last_dc component je) (tl Temp)"
  from Cons.prems(1) b have ok: "codable (last_dc component je) Temp" and rest: "codable_scan ?je blocks" by auto
  from huffman_represents [OF Cons.prems(2) ok] obtain s1 where
    s1: "huffman je component Temp s = Some (?je, s1)" "represents before s1 (bits @ ?new)" by blast
  from Cons.IH [OF rest s1(2)] obtain je' s' new where
    IH: "write_blocks blocks (?je, s1) = Some (je', s')" "represents before s' ((bits @ ?new) @ new)"
    "\<forall>r. decode_scan ?je (map fst blocks) (new @ r) = Some (map snd blocks, r)" by blast
  show ?case
  proof (intro exI conjI allI)
    show "write_blocks (b # blocks) (je, s) = Some (je', s')" using IH(1) s1(1) by (simp add: write_blocks_def b)
    show "represents before s' (bits @ ?new @ new)" using IH(2) by simp
    show "decode_scan je (map fst (b # blocks)) ((?new @ new) @ r) = Some (map snd (b # blocks), r)" for r
      using decode_block_bits [OF ok, of component "new @ r"] IH(3) by (simp add: b)
  qed
qed

section \<open>Properties\<close>

text \<open>C22: \<open>PUTBITS\<close> appends exactly its \<open>n\<close> bits to the bit string that the output so far
  represents: no bit is lost or duplicated when the register of 32 bits is flushed, and the bytes
  written stay correctly stuffed.\<close>

theorem putbits_appends:
  assumes "represents before s bits" and "n \<le> 32" and "fits n d"
  shows "represents before (putbits d n s) (bits @ bits_of n d)"
  using assms by (rule putbits_represents)

definition fresh :: bitstream where
  "fresh = \<lparr>lcode = 0, bitindex = 0, out = []\<rparr>"

lemma fresh_represents: "represents [] fresh []"
  unfolding represents_def by (auto simp: fresh_def intro!: exI [of _ "[]"])

theorem putbits_appends_witness:
  "represents [] (putbits 0x2B 6 fresh) [True, False, True, False, True, True]"
proof -
  have "fits 6 (0x2B :: u32)"
  proof -
    have "take_bit 6 (0x2B :: u32) = 0x2B" by simp
    then show ?thesis unfolding fits_def by (metis bit_take_bit_iff not_le)
  qed
  moreover have "bits_of 6 (0x2B :: u32) = [True, False, True, False, True, True]" by code_simp
  ultimately show ?thesis using putbits_appends [OF fresh_represents, of 6 "0x2B"] by simp
qed

text \<open>C31: \<open>huffman\<close> implements the block syntax of the standard: for a block whose AC coefficients have
  at most 10 bits and whose DC difference has at most 11, it stays inside its tables, appends
  exactly the prescribed bits, and remembers the DC value for the next block of the component.\<close>

theorem block_refinement:
  assumes "represents before s bits" and "codable (last_dc component je) Temp"
  shows "\<exists>s'. huffman je component Temp s = Some (set_dc component (hd Temp) je, s') \<and>
     represents before s' (bits @ block_bits component (hd Temp - last_dc component je) (tl Temp))"
  using assms by (rule huffman_represents)

definition zero_encoder :: jpeg_encoder where
  "zero_encoder = \<lparr>mcu_width = 0, mcu_height = 0, horizontal_mcus = 0, vertical_mcus = 0, rows_in_bottom_mcus = 0,
     cols_in_right_mcus = 0, length_minus_mcu_width = 0, length_minus_width = 0, mcu_width_size = 0, offset = 0,
     ldc1 = 0, ldc2 = 0, ldc3 = 0, rows = 0, cols = 0, incr = 0\<rparr>"

definition sample_block :: "int list" where
  "sample_block = [-37] @ replicate 20 0 @ [5, -1] @ replicate 41 0"

lemma sample_codable: "codable 0 sample_block"
  by (simp add: codable_def sample_block_def)

theorem block_refinement_witness:
  "\<exists>s'. huffman zero_encoder 1 sample_block fresh = Some (zero_encoder\<lparr>ldc1 := -37\<rparr>, s') \<and>
     represents [] s' (block_bits 1 (-37) (tl sample_block))"
  using block_refinement [OF fresh_represents, of 1 zero_encoder sample_block] sample_codable
  by (simp add: last_dc_def set_dc_def zero_encoder_def sample_block_def)

text \<open>C17: for every sequence of blocks that can be coded, the bytes that \<open>huffman\<close> and
  \<open>close_bitstream\<close> write are, once the stuffing is removed, decoded by a decoder written from the standard to exactly
  those blocks; at most seven padding bits are left before the end-of-image marker, which the
  stuffed data cannot contain.\<close>

theorem scan_roundtrip:
  assumes "codable_scan je blocks"
  shows "\<exists>je' s' bytes pad. write_blocks blocks (je, \<lparr>lcode = l, bitindex = 0, out = before\<rparr>) = Some (je', s') \<and>
     close_bitstream s' = before @ stuff bytes @ [0xFF, 0xD9] \<and>
     unstuff (stuff bytes @ [0xFF, 0xD9]) = bytes @ [0xFF, 0xD9] \<and>
     decode_scan je (map fst blocks) (bytes_bits bytes) = Some (map snd blocks, replicate pad False) \<and> pad < 8"
proof -
  have "represents before \<lparr>lcode = l, bitindex = 0, out = before\<rparr> []"
    unfolding represents_def by (auto intro!: exI [of _ "[]"])
  from write_blocks_represents [OF assms this] obtain je' s' new where
    w: "write_blocks blocks (je, \<lparr>lcode = l, bitindex = 0, out = before\<rparr>) = Some (je', s')" "represents before s' new"
    "\<And>rest. decode_scan je (map fst blocks) (new @ rest) = Some (map snd blocks, rest)"
    by auto
  from close_bitstream_represents [OF w(2)] obtain bs pad where
    "close_bitstream s' = before @ stuff bs @ [0xFF, 0xD9]" "bytes_bits bs = new @ replicate pad False" "pad < 8" by blast
  with w unstuff_stuff [of bs] show ?thesis by (intro exI [of _ je'] exI [of _ s'] exI [of _ bs] exI [of _ pad]) simp
qed

theorem scan_roundtrip_witness:
  "\<exists>je' s' bytes. write_blocks [(1, sample_block)] (zero_encoder, fresh) = Some (je', s') \<and>
     close_bitstream s' = stuff bytes @ [0xFF, 0xD9]"
proof -
  have "codable_scan zero_encoder [(1, sample_block)]" using sample_codable by (simp add: last_dc_def zero_encoder_def)
  from scan_roundtrip [OF this, of 0 "[]"] show ?thesis by (auto simp: fresh_def)
qed

text \<open>The table lookup that gives the size of an AC coefficient agrees with the shifting
  loop that gives the size of a DC difference, for every 16-bit magnitude.\<close>

theorem size_lookup_equals_loop: "\<forall>a. 0 \<le> a \<and> a < 65536 \<longrightarrow> ac_size a = Some (dc_size a)"
  using ac_size_eq by blast

theorem size_lookup_equals_loop_witness: "ac_size 1000 = Some (dc_size 1000)"
  using size_lookup_equals_loop by simp

end
