(* ===== verification/Jpeg_Dct.thy ===== *)
theory Jpeg_Dct
  imports Jpeg_Quant
begin

text \<open>
  The forward transform of \<open>input_gspcav1/encoder.c\<close>. \<open>DCT\<close> transforms a block of 64 samples in
  place, first the rows and then the columns, with integer butterflies whose constants are
  scaled by \<open>2\<^sup>1\<^sup>0\<close>. The sums of a butterfly are \<open>INT32\<close>; they are computed over the integers
  here, and \<open>dct_sums_range\<close> shows that no sum of \<open>INT16\<close> samples leaves that type.
  The second half of the theory shows that the butterflies compute the product with one constant matrix,
  and bounds the coefficients of a block of level-shifted samples.
\<close>

section \<open>The code\<close>

text \<open>
  The body that both loops share: the sums and differences of \<open>data[0]\<close>, \<dots>, \<open>data[7]\<close> (at the stride of the
  loop), and what is stored in place \<open>0\<close>, \<dots>, \<open>7\<close> before the shift.
\<close>

definition dct_sums :: "int list \<Rightarrow> int list" where
  "dct_sums data =
     (let c1 = 1420; c2 = 1338; c3 = 1204; c5 = 805; c6 = 554; c7 = 283;
          x8 = data ! 0 + data ! 7; x0 = data ! 0 - data ! 7;
          x7 = data ! 1 + data ! 6; x1 = data ! 1 - data ! 6;
          x6 = data ! 2 + data ! 5; x2 = data ! 2 - data ! 5;
          x5 = data ! 3 + data ! 4; x3 = data ! 3 - data ! 4;
          x4 = x8 + x5; x8' = x8 - x5;
          x5' = x7 + x6; x7' = x7 - x6
      in [x4 + x5',
          x0 * c1 + x1 * c3 + x2 * c5 + x3 * c7,
          x8' * c2 + x7' * c6,
          x0 * c3 - x1 * c7 - x2 * c1 - x3 * c5,
          x4 - x5',
          x0 * c5 - x1 * c1 + x2 * c7 + x3 * c3,
          x8' * c6 - x7' * c2,
          x0 * c7 - x1 * c5 + x2 * c3 - x3 * c1])"

text \<open>
  One iteration: eight samples at \<open>base\<close>, \<open>base + stride\<close>, \<dots>\ are replaced, in the order of the code, by the
  shifted sums: by \<open>sa\<close> for the places 0 and 4 (in the row loop these are not shifted) and by
  \<open>sb\<close> for the others.
\<close>

definition dct_step :: "nat \<Rightarrow> nat \<Rightarrow> nat \<Rightarrow> nat \<Rightarrow> int list \<Rightarrow> int list option" where
  "dct_step sa sb stride base data = do {
     d0 \<leftarrow> rd data base;
     d7 \<leftarrow> rd data (base + 7 * stride);
     d1 \<leftarrow> rd data (base + 1 * stride);
     d6 \<leftarrow> rd data (base + 6 * stride);
     d2 \<leftarrow> rd data (base + 2 * stride);
     d5 \<leftarrow> rd data (base + 5 * stride);
     d3 \<leftarrow> rd data (base + 3 * stride);
     d4 \<leftarrow> rd data (base + 4 * stride);
     let sums = dct_sums [d0, d1, d2, d3, d4, d5, d6, d7];
     forM [0, 4, 2, 6, 7, 5, 3, 1]
       (\<lambda>k data. wr data (base + k * stride)
          (to_i16 (sums ! k div 2 ^ (if k = 0 \<or> k = 4 then sa else sb)))) data }"

definition DCT :: "int list \<Rightarrow> int list option" where
  "DCT data = do {
     data' \<leftarrow> forM [0..<8] (\<lambda>i. dct_step 0 10 1 (8 * i)) data;
     forM [0..<8] (\<lambda>i. dct_step 3 13 8 i) data' }"

section \<open>The transform as a matrix\<close>

definition dct_matrix :: "int list list" where
  "dct_matrix =
    [[   1,     1,     1,     1,     1,     1,     1,     1],
     [1420,  1204,   805,   283,  -283,  -805, -1204, -1420],
     [1338,   554,  -554, -1338, -1338,  -554,   554,  1338],
     [1204,  -283, -1420,  -805,   805,  1420,   283, -1204],
     [   1,    -1,    -1,     1,     1,    -1,    -1,     1],
     [ 805, -1420,   283,  1204, -1204,  -283,  1420,  -805],
     [ 554, -1338,  1338,  -554,  -554,  1338, -1338,   554],
     [ 283,  -805,  1204, -1420,  1420, -1204,   805,  -283]]"

text \<open>Row \<open>k\<close> of the matrix applied to eight samples, with the rounding of the code.\<close>

definition dct_out :: "nat \<Rightarrow> nat \<Rightarrow> nat \<Rightarrow> (nat \<Rightarrow> int) \<Rightarrow> int" where
  "dct_out sa sb k x =
     to_i16 ((\<Sum>n<8. dct_matrix ! k ! n * x n) div 2 ^ (if k = 0 \<or> k = 4 then sa else sb))"

text \<open>Coefficient \<open>(v, u)\<close> of a block: row transforms, then a column transform.\<close>

definition dct_coeff :: "int list \<Rightarrow> nat \<Rightarrow> nat \<Rightarrow> int" where
  "dct_coeff data v u = dct_out 3 13 v (\<lambda>m. dct_out 0 10 u (\<lambda>n. data ! (8 * m + n)))"

lemma less_8_cases:
  "(k::nat) < 8 \<Longrightarrow> k = 0 \<or> k = 1 \<or> k = 2 \<or> k = 3 \<or> k = 4 \<or> k = 5 \<or> k = 6 \<or> k = 7"
  by arith

lemma sum_8: "(\<Sum>n<8. f n) = f 0 + f 1 + f 2 + f 3 + f 4 + f 5 + f 6 + f (7::nat)" for f :: "nat \<Rightarrow> int"
  by (simp add: eval_nat_numeral)

lemma dct_sums_matrix:
  assumes "k < 8"
  shows "dct_sums [x 0, x 1, x 2, x 3, x 4, x 5, x 6, x 7] ! k = (\<Sum>n<8. dct_matrix ! k ! n * x n)"
  using less_8_cases [OF assms]
  by (elim disjE) (simp_all add: sum_8 dct_matrix_def dct_sums_def Let_def algebra_simps)

text \<open>No sum of 16-bit samples leaves the 32-bit type it is computed in.\<close>

lemma dct_sums_range:
  fixes x :: "nat \<Rightarrow> int"
  assumes "\<forall>n<8. i16_range (x n)" and "k < 8"
  shows "i32_range (dct_sums [x 0, x 1, x 2, x 3, x 4, x 5, x 6, x 7] ! k)"
proof -
  have r: "i16_range (x 0)" "i16_range (x 1)" "i16_range (x 2)" "i16_range (x 3)"
    "i16_range (x 4)" "i16_range (x 5)" "i16_range (x 6)" "i16_range (x 7)" using assms(1) by simp_all
  show ?thesis using less_8_cases [OF assms(2)] r
    by (elim disjE) (simp_all add: i16_range_def i32_range_def dct_sums_def Let_def)
qed

lemma dct_step_eq:
  assumes "base + 7 * stride < length data" and "0 < stride"
  shows "\<exists>data'. dct_step sa sb stride base data = Some data' \<and> length data' = length data \<and>
     (\<forall>k<8. data' ! (base + k * stride) = dct_out sa sb k (\<lambda>n. data ! (base + n * stride))) \<and>
     (\<forall>j. j \<notin> (\<lambda>k. base + k * stride) ` {..<8} \<longrightarrow> data' ! j = data ! j)"
proof -
  let ?f = "\<lambda>k. base + k * stride"
  let ?x = "\<lambda>n. data ! ?f n"
  let ?is = "[0, 4, 2, 6, 7, 5, 3, 1] :: nat list"
  have in_range: "?f k < length data" if "k \<le> 7" for k
  proof -
    have "k * stride \<le> 7 * stride" using that by simp
    with assms show ?thesis by linarith
  qed
  have set: "set ?is = {..<8}" by auto
  have "distinct ?is" "inj_on ?f (set ?is)" "\<forall>k \<in> set ?is. ?f k < length data"
    using assms(2) in_range unfolding set by (auto simp: inj_on_def)
  from forM_scatter [OF this, of "\<lambda>k. to_i16 (dct_sums [?x 0, ?x 1, ?x 2, ?x 3, ?x 4, ?x 5, ?x 6, ?x 7] ! k div 2 ^ (if k = 0 \<or> k = 4 then sa else sb))"]
  obtain data' where d: "forM ?is (\<lambda>k data. wr data (?f k)
        (to_i16 (dct_sums [?x 0, ?x 1, ?x 2, ?x 3, ?x 4, ?x 5, ?x 6, ?x 7] ! k div 2 ^ (if k = 0 \<or> k = 4 then sa else sb)))) data = Some data'"
    "length data' = length data"
    "\<forall>k \<in> set ?is. data' ! ?f k = to_i16 (dct_sums [?x 0, ?x 1, ?x 2, ?x 3, ?x 4, ?x 5, ?x 6, ?x 7] ! k div 2 ^ (if k = 0 \<or> k = 4 then sa else sb))"
    "\<forall>j. j \<notin> ?f ` set ?is \<longrightarrow> data' ! j = data ! j" by auto
  have reads: "rd data (?f k) = Some (?x k)" if "k \<le> 7" for k using in_range [OF that] by simp
  have base: "rd data base = Some (?x 0)" "rd data (base + stride) = Some (?x 1)"
    using in_range [of 0] in_range [of 1] by simp_all
  have "dct_step sa sb stride base data = Some data'"
    unfolding dct_step_def using d(1) by (simp add: base reads del: forM.simps)
  moreover have "data' ! ?f k = dct_out sa sb k ?x" if "k < 8" for k
  proof -
    have "k \<in> set ?is" using that set by blast
    from bspec [OF d(3) this] show ?thesis by (simp only: dct_out_def dct_sums_matrix [OF that, of ?x])
  qed
  moreover have "\<forall>j. j \<notin> ?f ` {..<8} \<longrightarrow> data' ! j = data ! j" using d(4) unfolding set .
  ultimately show ?thesis using d(2) by blast
qed

lemma row_pass:
  assumes "length data = 64"
  shows "\<exists>data'. forM [0..<8] (\<lambda>i. dct_step 0 10 1 (8 * i)) data = Some data' \<and> length data' = 64 \<and>
     (\<forall>m<8. \<forall>u<8. data' ! (8 * m + u) = dct_out 0 10 u (\<lambda>n. data ! (8 * m + n)))"
proof -
  define I where "I i d \<longleftrightarrow> length d = 64 \<and>
     (\<forall>m<8. \<forall>u<8. d ! (8 * m + u) = (if m < i then dct_out 0 10 u (\<lambda>n. data ! (8 * m + n)) else data ! (8 * m + u)))"
    for i and d :: "int list"
  have "\<exists>d'. forM [0..<8] (\<lambda>i. dct_step 0 10 1 (8 * i)) data = Some d' \<and> I 8 d'"
  proof (rule forM_upt_invariant)
    show "I 0 data" using assms by (simp add: I_def)
  next
    fix i d assume i: "i < 8" and I: "I i d"
    from dct_step_eq [of "8 * i" 1 d 0 10] i I obtain d' where d': "dct_step 0 10 1 (8 * i) d = Some d'"
      "length d' = 64" "\<forall>k<8. d' ! (8 * i + k) = dct_out 0 10 k (\<lambda>n. d ! (8 * i + n))"
      "\<forall>j. j \<notin> (\<lambda>k. 8 * i + k) ` {..<8} \<longrightarrow> d' ! j = d ! j" by (auto simp: I_def)
    have row: "dct_out 0 10 k (\<lambda>n. d ! (8 * i + n)) = dct_out 0 10 k (\<lambda>n. data ! (8 * i + n))" for k
      using I i unfolding dct_out_def I_def by simp
    have "I (Suc i) d'"
      unfolding I_def
    proof (intro conjI allI impI)
      show "length d' = 64" by (rule d'(2))
    next
      fix m u :: nat assume mu: "m < 8" "u < 8"
      show "d' ! (8 * m + u) = (if m < Suc i then dct_out 0 10 u (\<lambda>n. data ! (8 * m + n)) else data ! (8 * m + u))"
      proof (cases "m = i")
        case True
        then show ?thesis using d'(3) mu row by simp
      next
        case False
        then have "8 * m + u \<notin> (\<lambda>k. 8 * i + k) ` {..<8}" using mu by auto
        then show ?thesis using d'(4) I mu False by (simp add: I_def)
      qed
    qed
    with d'(1) show "\<exists>d'. dct_step 0 10 1 (8 * i) d = Some d' \<and> I (Suc i) d'" by blast
  qed
  then show ?thesis unfolding I_def by auto
qed

lemma column_pass:
  assumes "length data = 64"
  shows "\<exists>data'. forM [0..<8] (\<lambda>i. dct_step 3 13 8 i) data = Some data' \<and> length data' = 64 \<and>
     (\<forall>v<8. \<forall>u<8. data' ! (8 * v + u) = dct_out 3 13 v (\<lambda>m. data ! (8 * m + u)))"
proof -
  define I where "I i d \<longleftrightarrow> length d = 64 \<and>
     (\<forall>v<8. \<forall>u<8. d ! (8 * v + u) = (if u < i then dct_out 3 13 v (\<lambda>m. data ! (8 * m + u)) else data ! (8 * v + u)))"
    for i and d :: "int list"
  have "\<exists>d'. forM [0..<8] (\<lambda>i. dct_step 3 13 8 i) data = Some d' \<and> I 8 d'"
  proof (rule forM_upt_invariant)
    show "I 0 data" using assms by (simp add: I_def)
  next
    fix i d assume i: "i < 8" and I: "I i d"
    from dct_step_eq [of i 8 d 3 13] i I obtain d' where d': "dct_step 3 13 8 i d = Some d'"
      "length d' = 64" "\<forall>k<8. d' ! (i + k * 8) = dct_out 3 13 k (\<lambda>n. d ! (i + n * 8))"
      "\<forall>j. j \<notin> (\<lambda>k. i + k * 8) ` {..<8} \<longrightarrow> d' ! j = d ! j" by (auto simp: I_def)
    have col: "dct_out 3 13 k (\<lambda>n. d ! (i + n * 8)) = dct_out 3 13 k (\<lambda>n. data ! (8 * n + i))" for k
    proof -
      have "d ! (i + n * 8) = data ! (8 * n + i)" if "n < 8" for n
        using I i that by (simp add: I_def add.commute mult.commute)
      then show ?thesis unfolding dct_out_def by simp
    qed
    have "I (Suc i) d'"
      unfolding I_def
    proof (intro conjI allI impI)
      show "length d' = 64" by (rule d'(2))
    next
      fix v u :: nat assume vu: "v < 8" "u < 8"
      show "d' ! (8 * v + u) = (if u < Suc i then dct_out 3 13 v (\<lambda>m. data ! (8 * m + u)) else data ! (8 * v + u))"
      proof (cases "u = i")
        case True
        then show ?thesis using d'(3) vu col by (simp add: add.commute mult.commute)
      next
        case False
        then have "8 * v + u \<notin> (\<lambda>k. i + k * 8) ` {..<8}" using vu i by (auto simp: image_iff) presburger
        then show ?thesis using d'(4) I vu False by (simp add: I_def)
      qed
    qed
    with d'(1) show "\<exists>d'. dct_step 3 13 8 i d = Some d' \<and> I (Suc i) d'" by blast
  qed
  then show ?thesis unfolding I_def by auto
qed

lemma DCT_eq:
  assumes "length data = 64"
  shows "\<exists>data'. DCT data = Some data' \<and> length data' = 64 \<and>
     (\<forall>v<8. \<forall>u<8. data' ! (8 * v + u) = dct_coeff data v u)"
proof -
  from row_pass [OF assms] obtain d where d: "forM [0..<8] (\<lambda>i. dct_step 0 10 1 (8 * i)) data = Some d" "length d = 64"
    "\<forall>m<8. \<forall>u<8. d ! (8 * m + u) = dct_out 0 10 u (\<lambda>n. data ! (8 * m + n))" by auto
  from column_pass [OF d(2)] obtain d' where d': "forM [0..<8] (\<lambda>i. dct_step 3 13 8 i) d = Some d'" "length d' = 64"
    "\<forall>v<8. \<forall>u<8. d' ! (8 * v + u) = dct_out 3 13 v (\<lambda>m. d ! (8 * m + u))" by auto
  have "dct_out 3 13 v (\<lambda>m. d ! (8 * m + u)) = dct_coeff data v u" if "u < 8" for v u
    using d(3) that unfolding dct_coeff_def by (simp add: dct_out_def [of 3])
  with d(1) d' show ?thesis by (simp add: DCT_def)
qed

section \<open>Bounds\<close>

text \<open>A sample after the level shift, and a block of 64 of them.\<close>

definition shifted :: "int \<Rightarrow> bool" where
  "shifted x \<longleftrightarrow> -128 \<le> x \<and> x \<le> 127"

definition shifted_block :: "int list \<Rightarrow> bool" where
  "shifted_block data \<longleftrightarrow> length data = 64 \<and> (\<forall>x \<in> set data. shifted x)"

lemma div_bounds:
  fixes y :: int
  assumes "0 < c" and "a * c \<le> y" and "y < (b + 1) * c"
  shows "a \<le> y div c" "y div c \<le> b"
proof -
  show "a \<le> y div c" using zdiv_mono1 [OF assms(2,1)] assms(1) by simp
  show "y div c \<le> b"
  proof (rule ccontr)
    assume "\<not> y div c \<le> b"
    then have "(b + 1) * c \<le> (y div c) * c" using assms(1) by (intro mult_right_mono) auto
    also have "\<dots> \<le> y" using assms(1) by (simp add: minus_mod_eq_div_mult [symmetric])
    finally show False using assms(3) by simp
  qed
qed

lemma dct_out_in:
  assumes "a * 2 ^ s \<le> (\<Sum>n<8. dct_matrix ! k ! n * x n)" and "(\<Sum>n<8. dct_matrix ! k ! n * x n) < (b + 1) * 2 ^ s"
    and "s = (if k = 0 \<or> k = 4 then sa else sb)" and "-32768 \<le> a" and "b \<le> 32767"
  shows "a \<le> dct_out sa sb k x \<and> dct_out sa sb k x \<le> b"
proof -
  have "a \<le> (\<Sum>n<8. dct_matrix ! k ! n * x n) div 2 ^ s" "(\<Sum>n<8. dct_matrix ! k ! n * x n) div 2 ^ s \<le> b"
    using assms(1,2) by (auto intro!: div_bounds)
  moreover from this have "i16_range ((\<Sum>n<8. dct_matrix ! k ! n * x n) div 2 ^ s)"
    using assms(4,5) by (simp add: i16_range_def)
  ultimately show ?thesis using assms(3) by (simp add: dct_out_def)
qed

lemma dct_row_bounds:
  assumes "\<forall>n<8. shifted (x n)" and "u < 8"
  shows "(if u = 0 then -1024 else -1020) \<le> dct_out 0 10 u x \<and> dct_out 0 10 u x \<le> (if u = 0 then 1016 else 1020)"
proof -
  have r: "shifted (x 0)" "shifted (x 1)" "shifted (x 2)" "shifted (x 3)" "shifted (x 4)" "shifted (x 5)" "shifted (x 6)" "shifted (x 7)"
    using assms(1) by simp_all
  show ?thesis
    using less_8_cases [OF assms(2)]
    by (elim disjE; hypsubst; intro dct_out_in [OF _ _ refl]; insert r; simp add: dct_matrix_def sum_8 shifted_def)
qed

lemma dct_column_bounds:
  assumes "\<forall>m<8. lo \<le> x m \<and> x m \<le> hi" and "lo = -1024 \<and> hi = 1016 \<or> lo = -1020 \<and> hi = 1020" and "v < 8"
  shows "(if v = 0 then lo else -1020) \<le> dct_out 3 13 v x \<and> dct_out 3 13 v x \<le> (if v = 0 then hi else 1020)"
proof -
  have r: "lo \<le> x 0" "lo \<le> x 1" "lo \<le> x 2" "lo \<le> x 3" "lo \<le> x 4" "lo \<le> x 5" "lo \<le> x 6" "lo \<le> x 7"
    "x 0 \<le> hi" "x 1 \<le> hi" "x 2 \<le> hi" "x 3 \<le> hi" "x 4 \<le> hi" "x 5 \<le> hi" "x 6 \<le> hi" "x 7 \<le> hi"
    using assms(1) by simp_all
  show ?thesis
    using less_8_cases [OF assms(3)] assms(2)
    by (elim disjE conjE; hypsubst; intro dct_out_in [OF _ _ refl]; insert r; simp add: dct_matrix_def sum_8)
qed

lemma dct_coeff_bounds:
  assumes "shifted_block data" and "v < 8" and "u < 8"
  shows "(if v = 0 \<and> u = 0 then -1024 else -1020) \<le> dct_coeff data v u \<and>
         dct_coeff data v u \<le> (if v = 0 \<and> u = 0 then 1016 else 1020)"
proof -
  have s: "shifted (data ! (8 * m + n))" if "m < 8" "n < 8" for m n
    using assms(1) that by (auto simp: shifted_block_def)
  have rows: "(if u = 0 then -1024 else -1020) \<le> dct_out 0 10 u (\<lambda>n. data ! (8 * m + n)) \<and>
      dct_out 0 10 u (\<lambda>n. data ! (8 * m + n)) \<le> (if u = 0 then 1016 else 1020)" if "m < 8" for m
    by (rule dct_row_bounds [OF _ assms(3)]) (use s that in simp)
  show ?thesis
    unfolding dct_coeff_def
    using dct_column_bounds [OF _ _ assms(2), of "if u = 0 then -1024 else -1020" "\<lambda>m. dct_out 0 10 u (\<lambda>n. data ! (8 * m + n))"
        "if u = 0 then 1016 else 1020"] rows
    by (cases "u = 0"; cases "v = 0"; simp)
qed

section \<open>Near-orthogonality\<close>

text \<open>The entries scaled to a common factor \<open>2\<^sup>1\<^sup>0\<close>: the rows 0 and 4 are applied without multiplication.\<close>

definition scaled_matrix :: "nat \<Rightarrow> nat \<Rightarrow> int" where
  "scaled_matrix k n = dct_matrix ! k ! n * (if k = 0 \<or> k = 4 then 1024 else 1)"

definition gram :: "nat \<Rightarrow> nat \<Rightarrow> int" where
  "gram j k = (\<Sum>n<8. scaled_matrix j n * scaled_matrix k n)"

lemma dct_nearly_orthogonal:
  assumes "j < 8" and "k < 8"
  shows "\<bar>gram j k - (if j = k then 8 * 2 ^ 20 else 0)\<bar> \<le> 3934"
  using less_8_cases [OF assms(1)] less_8_cases [OF assms(2)]
  by (elim disjE) (simp_all add: gram_def scaled_matrix_def sum_8 dct_matrix_def)

text \<open>C34: on every block of 64 values the in-place butterflies of \<open>DCT\<close> stay inside the block and compute
  the two-sided product with one constant matrix, each side rounded down as the shifts do;
  the rows of that matrix are orthogonal and of equal norm up to 0.05 percent.\<close>

theorem dct_is_matrix_product:
  assumes "length data = BLOCK_SIZE"
  shows "\<exists>data'. DCT data = Some data' \<and> length data' = BLOCK_SIZE \<and>
     (\<forall>v<8. \<forall>u<8. data' ! (8 * v + u) = dct_coeff data v u \<and>
        \<bar>gram v u - (if v = u then 8 * 2 ^ 20 else 0)\<bar> \<le> 3934)"
  using DCT_eq [OF assms] dct_nearly_orthogonal by blast

definition flat_block :: "int list" where
  "flat_block = replicate 64 100"

lemma flat_block_shifted: "shifted_block flat_block"
  by (simp add: shifted_block_def shifted_def flat_block_def)

theorem dct_is_matrix_product_witness:
  "\<exists>data'. DCT flat_block = Some data' \<and> data' ! (8 * 0 + 0) = dct_coeff flat_block 0 0"
proof -
  have "length flat_block = BLOCK_SIZE" by (simp add: flat_block_def)
  from dct_is_matrix_product [OF this] show ?thesis by fastforce
qed

text \<open>A block of samples after the level shift is transformed to coefficients that the entropy
  coder has codes for: AC coefficients of at most 10 bits, and a DC coefficient between \<open>-1024\<close> and
  \<open>1016\<close>, so that no difference of two of them has more than 11 bits.\<close>

theorem dct_output_codable:
  assumes "shifted_block data"
  shows "\<exists>data'. DCT data = Some data' \<and> -1024 \<le> data' ! 0 \<and> data' ! 0 \<le> 1016 \<and>
     (\<forall>i. 0 < i \<and> i < BLOCK_SIZE \<longrightarrow> \<bar>data' ! i\<bar> \<le> 1020)"
proof -
  from DCT_eq [of data] assms obtain d where d: "DCT data = Some d"
    "\<forall>v<8. \<forall>u<8. d ! (8 * v + u) = dct_coeff data v u" by (auto simp: shifted_block_def)
  have "\<bar>d ! i\<bar> \<le> 1020" if "0 < i" "i < BLOCK_SIZE" for i
  proof -
    have i: "i div 8 < 8" "i mod 8 < 8" "\<not> (i div 8 = 0 \<and> i mod 8 = 0)"
      using that by auto
    have "d ! i = dct_coeff data (i div 8) (i mod 8)"
      using d(2) [rule_format, OF i(1,2)] by simp
    then show ?thesis
      using dct_coeff_bounds [OF assms i(1,2)] by (simp only: i(3) if_False) linarith
  qed
  moreover have "d ! (8 * 0 + 0) = dct_coeff data 0 0" using d(2) [rule_format, of 0 0] by simp
  ultimately show ?thesis using d(1) dct_coeff_bounds [OF assms, of 0 0] by (intro exI [of _ d]) simp
qed

theorem dct_output_codable_witness: "\<exists>data'. DCT flat_block = Some data' \<and> \<bar>data' ! 1\<bar> \<le> 1020"
  using dct_output_codable [OF flat_block_shifted] by auto

end
