(* ===== verification/Jpeg_Read.thy ===== *)
theory Jpeg_Read
  imports Jpeg_Huffman
begin

text \<open>
  The readers of \<open>input_gspcav1/encoder.c\<close>: each takes one MCU (a square of 8 or 16 pixels) out of the packed image
  behind \<open>input_ptr\<close> and fills the global blocks of 64 samples, shifted to the range of a signed byte.
  MCUs at the right and bottom edges are meant to be completed by repeating the last column and row.

  The blocks are the type \<open>plane\<close>, the pointers a function uses the type \<open>pointer\<close>; \<open>array\<close>
  says which block a pointer points into. A statement of the code is one of the operations below; a statement list
  is run by \<open>seq\<close>. A store outside its block gives \<open>None\<close>.
\<close>

datatype plane = Y1 | Y2 | Y3 | Y4 | CB | CR

datatype pointer = Y1_Ptr | Y2_Ptr | Y3_Ptr | Y4_Ptr | CB_Ptr | CR_Ptr | Y1Ptr | Y2Ptr | Y3Ptr | Y4Ptr

fun array :: "pointer \<Rightarrow> plane" where
  "array Y1_Ptr = Y1" | "array Y1Ptr = Y1"
| "array Y2_Ptr = Y2" | "array Y2Ptr = Y2"
| "array Y3_Ptr = Y3" | "array Y3Ptr = Y3"
| "array Y4_Ptr = Y4" | "array Y4Ptr = Y4"
| "array CB_Ptr = CB" | "array CR_Ptr = CR"

record reader =
  planes :: "plane \<Rightarrow> int list"
  pos :: "pointer \<Rightarrow> nat"
  input_ptr :: nat

section \<open>Statements\<close>

text \<open>\<open>p += k\<close>, \<open>p -= k\<close> and \<open>input_ptr += k\<close>.\<close>

definition advance :: "pointer \<Rightarrow> nat \<Rightarrow> reader \<Rightarrow> reader option" where
  "advance p k s = Some (s\<lparr>pos := (pos s)(p := pos s p + k)\<rparr>)"

definition retreat :: "pointer \<Rightarrow> nat \<Rightarrow> reader \<Rightarrow> reader option" where
  "retreat p k s = (if k \<le> pos s p then Some (s\<lparr>pos := (pos s)(p := pos s p - k)\<rparr>) else None)"

definition skip_input :: "nat \<Rightarrow> reader \<Rightarrow> reader option" where
  "skip_input k s = Some (s\<lparr>input_ptr := input_ptr s + k\<rparr>)"

text \<open>\<open>*p = v\<close>\<close>

definition put :: "pointer \<Rightarrow> int \<Rightarrow> reader \<Rightarrow> reader option" where
  "put p v s = do { xs \<leftarrow> wr (planes s (array p)) (pos s p) v; Some (s\<lparr>planes := (planes s)(array p := xs)\<rparr>) }"

text \<open>\<open>*p = *(q - k)\<close>\<close>

definition assign :: "pointer \<Rightarrow> pointer \<Rightarrow> nat \<Rightarrow> reader \<Rightarrow> reader option" where
  "assign p q k s = (if k \<le> pos s q then do { v \<leftarrow> rd (planes s (array q)) (pos s q - k); put p v s } else None)"

text \<open>\<open>*p++ = *input_ptr++ - 128\<close>\<close>

definition read_to :: "int list \<Rightarrow> pointer \<Rightarrow> reader \<Rightarrow> reader option" where
  "read_to img p s = do { b \<leftarrow> rd img (input_ptr s); s1 \<leftarrow> skip_input 1 s; s2 \<leftarrow> put p (b - 128) s1; advance p 1 s2 }"

text \<open>\<open>*p++ = *(q - k)\<close>, for \<open>p = q\<close> the pair \<open>*p = *(p - k); p++\<close>\<close>

definition copy_to :: "pointer \<Rightarrow> pointer \<Rightarrow> nat \<Rightarrow> reader \<Rightarrow> reader option" where
  "copy_to p q k s = do { s' \<leftarrow> assign p q k s; advance p 1 s' }"

abbreviation seq :: "(reader \<Rightarrow> reader option) list \<Rightarrow> reader \<Rightarrow> reader option" where
  "seq cs \<equiv> forM cs (\<lambda>c s. c s)"

definition start :: "(plane \<Rightarrow> int list) \<Rightarrow> nat \<Rightarrow> reader" where
  "start blocks input = \<lparr>planes = blocks,
     pos = (\<lambda>p. if p = Y1Ptr \<or> p = Y2Ptr \<or> p = Y3Ptr \<or> p = Y4Ptr then 8 else 0), input_ptr = input\<rparr>"

section \<open>The readers\<close>

definition read_400_format :: "int list \<Rightarrow> jpeg_encoder \<Rightarrow> nat \<Rightarrow> (plane \<Rightarrow> int list) \<Rightarrow> (plane \<Rightarrow> int list) option" where
  "read_400_format img je input blocks = (let cols' = nat (cols je); rows' = nat (rows je) in do {
     s \<leftarrow> seq [
       repeatM rows' (seq [
         repeatM cols' (read_to img Y1_Ptr),
         repeatM (8 - cols') (assign Y1_Ptr Y1_Ptr 1),
         advance Y1_Ptr 1,
         skip_input (nat (incr je))]),
       repeatM (8 - rows') (seq [
         repeatM 8 (assign Y1_Ptr Y1_Ptr 8),
         advance Y1_Ptr 1])] (start blocks input);
     Some (planes s) })"

definition read_444_format :: "int list \<Rightarrow> jpeg_encoder \<Rightarrow> nat \<Rightarrow> (plane \<Rightarrow> int list) \<Rightarrow> (plane \<Rightarrow> int list) option" where
  "read_444_format img je input blocks = (let cols' = nat (cols je); rows' = nat (rows je) in do {
     s \<leftarrow> seq [
       repeatM rows' (seq [
         repeatM cols' (seq [read_to img Y1_Ptr, read_to img CB_Ptr, read_to img CR_Ptr]),
         repeatM (8 - cols') (seq [copy_to Y1_Ptr Y1_Ptr 1, copy_to CB_Ptr CB_Ptr 1, copy_to CR_Ptr CR_Ptr 1]),
         skip_input (nat (incr je))]),
       repeatM (8 - rows') (
         repeatM 8 (seq [copy_to Y1_Ptr Y1_Ptr 8, copy_to CB_Ptr CB_Ptr 8, copy_to CR_Ptr CR_Ptr 8]))]
       (start blocks input);
     Some (planes s) })"

definition read_422_format :: "int list \<Rightarrow> jpeg_encoder \<Rightarrow> nat \<Rightarrow> (plane \<Rightarrow> int list) \<Rightarrow> (plane \<Rightarrow> int list) option" where
  "read_422_format img je input blocks = (let cols' = nat (cols je); rows' = nat (rows je);
       Y1_cols = (if cols' \<le> 8 then cols' else 8);
       Y2_cols = (if cols' \<le> 8 then 0 else cols' - 8) in do {
     s \<leftarrow> seq [
       repeatM rows' (seq [
         repeatM (Y1_cols div 2) (seq [read_to img Y1_Ptr, read_to img CB_Ptr, read_to img Y1_Ptr, read_to img CR_Ptr]),
         repeatM (Y2_cols div 2) (seq [read_to img Y2_Ptr, read_to img CB_Ptr, read_to img Y2_Ptr, read_to img CR_Ptr]),
         (if cols' \<le> 8
          then seq [
            repeatM (8 - Y1_cols) (assign Y1_Ptr Y1_Ptr 1), advance Y1_Ptr 1,
            repeatM (8 - Y2_cols) (assign Y2_Ptr Y1_Ptr 1), advance Y2_Ptr 1]
          else seq [repeatM (8 - Y2_cols) (assign Y2_Ptr Y2_Ptr 1), advance Y2_Ptr 1]),
         repeatM ((16 - cols') div 2) (seq [copy_to CB_Ptr CB_Ptr 1, copy_to CR_Ptr CR_Ptr 1]),
         skip_input (nat (incr je))]),
       repeatM (8 - rows') (
         repeatM 8 (seq [copy_to Y1_Ptr Y1_Ptr 8, copy_to Y2_Ptr Y2_Ptr 8, copy_to CB_Ptr CB_Ptr 8, copy_to CR_Ptr CR_Ptr 8]))]
       (start blocks input);
     Some (planes s) })"

text \<open>
  The pointers \<open>Y1_Ptr\<close> and \<open>Y1Ptr\<close> run through the even and the odd rows of a block at the same time.
\<close>

definition read_pairs :: "int list \<Rightarrow> pointer \<Rightarrow> pointer \<Rightarrow> reader \<Rightarrow> reader option" where
  "read_pairs img p q = seq [read_to img p, read_to img p, read_to img q, read_to img q,
     read_to img CB_Ptr, read_to img CR_Ptr]"

text \<open>
  The upper rows of a 420 MCU. The completion of the right edge advances \<open>Y2_Ptr\<close> twice instead of
  \<open>Y2_Ptr\<close> and \<open>Y2Ptr\<close>, as the code does.
\<close>

definition read_420_upper :: "int list \<Rightarrow> nat \<Rightarrow> nat \<Rightarrow> nat \<Rightarrow> nat \<Rightarrow> reader \<Rightarrow> reader option" where
  "read_420_upper img cols' Y1_cols Y2_cols incr' = seq [
     repeatM (Y1_cols div 2) (read_pairs img Y1_Ptr Y1Ptr),
     repeatM (Y2_cols div 2) (read_pairs img Y2_Ptr Y2Ptr),
     (if cols' \<le> 8
      then seq [
        repeatM (8 - Y1_cols) (seq [copy_to Y1_Ptr Y1_Ptr 1, copy_to Y1Ptr Y1Ptr 1]),
        repeatM 8 (seq [copy_to Y2_Ptr Y1_Ptr 1, copy_to Y2Ptr Y1Ptr 1])]
      else repeatM (8 - Y2_cols) (seq [copy_to Y2_Ptr Y2_Ptr 1, assign Y2Ptr Y2Ptr 1, advance Y2_Ptr 1])),
     repeatM ((16 - cols') div 2) (seq [copy_to CB_Ptr CB_Ptr 1, copy_to CR_Ptr CR_Ptr 1]),
     advance Y1_Ptr 8, advance Y2_Ptr 8, advance Y1Ptr 8, advance Y2Ptr 8,
     skip_input incr']"

definition read_420_lower :: "int list \<Rightarrow> nat \<Rightarrow> nat \<Rightarrow> nat \<Rightarrow> nat \<Rightarrow> reader \<Rightarrow> reader option" where
  "read_420_lower img cols' Y1_cols Y2_cols incr' = seq [
     repeatM (Y1_cols div 2) (read_pairs img Y3_Ptr Y3Ptr),
     repeatM (Y2_cols div 2) (read_pairs img Y4_Ptr Y4Ptr),
     (if cols' \<le> 8
      then seq [
        repeatM (8 - Y1_cols) (seq [copy_to Y3_Ptr Y3_Ptr 1, copy_to Y3Ptr Y3Ptr 1]),
        repeatM 8 (seq [copy_to Y4_Ptr Y3_Ptr 1, copy_to Y4Ptr Y3Ptr 1])]
      else repeatM (8 - Y2_cols) (seq [copy_to Y4_Ptr Y4_Ptr 1, copy_to Y4Ptr Y4Ptr 1])),
     repeatM ((16 - cols') div 2) (seq [copy_to CB_Ptr CB_Ptr 1, copy_to CR_Ptr CR_Ptr 1]),
     advance Y3_Ptr 8, advance Y4_Ptr 8, advance Y3Ptr 8, advance Y4Ptr 8,
     skip_input incr']"

definition read_420_bottom :: "nat \<Rightarrow> reader \<Rightarrow> reader option" where
  "read_420_bottom rows' = seq [
     (if rows' \<le> 8
      then seq [
        repeatM (8 - rows') (repeatM 8 (seq [copy_to Y1_Ptr Y1_Ptr 8, copy_to Y2_Ptr Y2_Ptr 8])),
        repeatM 8 (seq [
          retreat Y1_Ptr 8, retreat Y2_Ptr 8,
          repeatM 8 (seq [copy_to Y3_Ptr Y1_Ptr 0, advance Y1_Ptr 1, copy_to Y4_Ptr Y2_Ptr 0, advance Y2_Ptr 1])])]
      else repeatM (16 - rows') (repeatM 8 (seq [copy_to Y3_Ptr Y3_Ptr 8, copy_to Y4_Ptr Y4_Ptr 8]))),
     repeatM ((16 - rows') div 2) (repeatM 8 (seq [copy_to CB_Ptr CB_Ptr 8, copy_to CR_Ptr CR_Ptr 8]))]"

definition read_420_format :: "int list \<Rightarrow> jpeg_encoder \<Rightarrow> nat \<Rightarrow> (plane \<Rightarrow> int list) \<Rightarrow> (plane \<Rightarrow> int list) option" where
  "read_420_format img je input blocks = (let cols' = nat (cols je); rows' = nat (rows je);
       Y1_rows = (if rows' \<le> 8 then rows' else 8);
       Y3_rows = (if rows' \<le> 8 then 0 else rows' - 8);
       Y1_cols = (if cols' \<le> 8 then cols' else 8);
       Y2_cols = (if cols' \<le> 8 then 0 else cols' - 8) in do {
     s \<leftarrow> seq [
       repeatM (Y1_rows div 2) (read_420_upper img cols' Y1_cols Y2_cols (nat (incr je))),
       repeatM (Y3_rows div 2) (read_420_lower img cols' Y1_cols Y2_cols (nat (incr je))),
       read_420_bottom rows'] (start blocks input);
     Some (planes s) })"

end
