(* ===== verification/Jpeg_Mcu.thy ===== *)
theory Jpeg_Mcu
  imports Jpeg_Read
begin

text \<open>
  What the readers of \<open>Jpeg_Read\<close> put into the blocks. The proofs are in the style of a Hoare logic:
  \<open>st f S P i\<close> describes the states in which the places \<open>S a\<close> of each block \<open>a\<close> already hold what
  the specification \<open>f\<close> demands, the pointers are at \<open>P\<close> and the input is at \<open>i\<close>; \<open>triple\<close> is
  total correctness, so a proved triple excludes loads and stores outside the blocks and the image.
  For the readers that run over their blocks it is enough to count how far a successful run moves the pointers.
\<close>

lemma div_mod_8: "c < 8 \<Longrightarrow> (8 * r + c) div 8 = r" "c < 8 \<Longrightarrow> (8 * r + c) mod 8 = c" for r c :: nat
  by simp_all

section \<open>Triples\<close>

definition st :: "(plane \<Rightarrow> nat \<Rightarrow> int) \<Rightarrow> (plane \<Rightarrow> nat set) \<Rightarrow> (pointer \<Rightarrow> nat) \<Rightarrow> nat \<Rightarrow> reader \<Rightarrow> bool" where
  "st f S P i s \<longleftrightarrow> (\<forall>a. length (planes s a) = 64 \<and> (\<forall>k \<in> S a. planes s a ! k = f a k)) \<and> pos s = P \<and> input_ptr s = i"

definition triple :: "(reader \<Rightarrow> bool) \<Rightarrow> (reader \<Rightarrow> reader option) \<Rightarrow> (reader \<Rightarrow> bool) \<Rightarrow> bool" where
  "triple A c B \<longleftrightarrow> (\<forall>s. A s \<longrightarrow> (\<exists>s'. c s = Some s' \<and> B s'))"

lemma st_weaken: "st f S P i s \<Longrightarrow> (\<And>a. S' a \<subseteq> S a) \<Longrightarrow> P = P' \<Longrightarrow> i = i' \<Longrightarrow> st f S' P' i' s"
  unfolding st_def by blast

lemma triple_weaken:
  "triple A c (st f S P i) \<Longrightarrow> (\<And>a. S' a \<subseteq> S a) \<Longrightarrow> P = P' \<Longrightarrow> i = i' \<Longrightarrow> triple A c (st f S' P' i')"
  unfolding triple_def using st_weaken [of f S P i _ S' P' i'] by meson

lemma triple_Nil: "triple A (seq []) A"
  by (simp add: triple_def)

lemma triple_Cons: "triple A c B \<Longrightarrow> triple B (seq cs) C \<Longrightarrow> triple A (seq (c # cs)) C"
  unfolding triple_def by fastforce

lemma triple_repeat:
  assumes "\<And>k. k < n \<Longrightarrow> triple (I k) c (I (Suc k))"
  shows "triple (I 0) (repeatM n c) (I n)"
  unfolding triple_def
proof (intro allI impI)
  fix s assume "I 0 s"
  then show "\<exists>s'. repeatM n c s = Some s' \<and> I n s'"
    by (rule repeatM_invariant) (use assms in \<open>unfold triple_def, blast\<close>)
qed

lemma triple_skip: "triple (st f S P i) (skip_input k) (st f S P (i + k))"
  by (simp add: triple_def st_def skip_input_def)

lemma triple_advance: "triple (st f S P i) (advance p k) (st f S (P(p := P p + k)) i)"
  by (simp add: triple_def st_def advance_def)

lemma triple_read:
  assumes "P p < 64" and "i < length img" and "f (array p) (P p) = img ! i - 128"
  shows "triple (st f S P i) (read_to img p) (st f (S(array p := insert (P p) (S (array p)))) (P(p := Suc (P p))) (Suc i))"
  unfolding triple_def
proof (intro allI impI)
  fix s assume s: "st f S P i s"
  have "read_to img p s = Some (s\<lparr>input_ptr := Suc i, planes := (planes s)(array p := (planes s (array p))[P p := img ! i - 128]),
     pos := P(p := Suc (P p))\<rparr>)"
    using s assms unfolding st_def by (simp add: read_to_def skip_input_def put_def advance_def)
  moreover have "st f (S(array p := insert (P p) (S (array p)))) (P(p := Suc (P p))) (Suc i)
      (s\<lparr>input_ptr := Suc i, planes := (planes s)(array p := (planes s (array p))[P p := img ! i - 128]), pos := P(p := Suc (P p))\<rparr>)"
    using s assms unfolding st_def by (auto simp: nth_list_update)
  ultimately show "\<exists>s'. read_to img p s = Some s' \<and> st f (S(array p := insert (P p) (S (array p)))) (P(p := Suc (P p))) (Suc i) s'"
    by blast
qed

lemma triple_copy:
  assumes "k \<le> P q" and "P q - k \<in> S (array q)" and "P q - k < 64" and "P p < 64"
    and "f (array p) (P p) = f (array q) (P q - k)"
  shows "triple (st f S P i) (copy_to p q k) (st f (S(array p := insert (P p) (S (array p)))) (P(p := Suc (P p))) i)"
  unfolding triple_def
proof (intro allI impI)
  fix s assume s: "st f S P i s"
  let ?v = "f (array p) (P p)"
  have "copy_to p q k s = Some (s\<lparr>planes := (planes s)(array p := (planes s (array p))[P p := ?v]), pos := P(p := Suc (P p))\<rparr>)"
    using s assms unfolding st_def by (simp add: copy_to_def assign_def put_def advance_def)
  moreover have "st f (S(array p := insert (P p) (S (array p)))) (P(p := Suc (P p))) i
      (s\<lparr>planes := (planes s)(array p := (planes s (array p))[P p := ?v]), pos := P(p := Suc (P p))\<rparr>)"
    using s assms unfolding st_def by (auto simp: nth_list_update)
  ultimately show "\<exists>s'. copy_to p q k s = Some s' \<and> st f (S(array p := insert (P p) (S (array p)))) (P(p := Suc (P p))) i s'"
    by blast
qed

section \<open>\<open>read_444_format\<close>\<close>

text \<open>
  What the blocks should hold: the sample at the same place of the MCU, or at the nearest place that the image has.
\<close>

fun component_444 :: "plane \<Rightarrow> nat" where
  "component_444 CB = 1" | "component_444 CR = 2" | "component_444 _ = 0"

definition block_444 :: "int list \<Rightarrow> nat \<Rightarrow> nat \<Rightarrow> nat \<Rightarrow> nat \<Rightarrow> plane \<Rightarrow> nat \<Rightarrow> int" where
  "block_444 img input row_len rows' cols' a k =
     img ! (input + min (k div 8) (rows' - 1) * row_len + 3 * min (k mod 8) (cols' - 1) + component_444 a) - 128"

definition done_444 :: "nat \<Rightarrow> plane \<Rightarrow> nat set" where
  "done_444 n a = (if a = Y1 \<or> a = CB \<or> a = CR then {..<n} else {})"

definition at_444 :: "nat \<Rightarrow> pointer \<Rightarrow> nat" where
  "at_444 n p = (if p = Y1_Ptr \<or> p = CB_Ptr \<or> p = CR_Ptr then n
     else if p = Y1Ptr \<or> p = Y2Ptr \<or> p = Y3Ptr \<or> p = Y4Ptr then 8 else 0)"

lemma triple_444_read:
  assumes "n < 64" and "i + 2 < length img" and "\<And>a. f a n = img ! (i + component_444 a) - 128"
  shows "triple (st f (done_444 n) (at_444 n) i) (seq [read_to img Y1_Ptr, read_to img CB_Ptr, read_to img CR_Ptr])
     (st f (done_444 (Suc n)) (at_444 (Suc n)) (i + 3))"
  apply (rule triple_weaken)
     apply (rule triple_Cons, rule triple_read)
        apply (use assms in \<open>simp_all add: at_444_def\<close>)[3]
     apply (rule triple_Cons, rule triple_read)
        apply (use assms in \<open>simp_all add: at_444_def\<close>)[3]
     apply (rule triple_Cons, rule triple_read)
        apply (use assms in \<open>simp_all add: at_444_def\<close>)[3]
     apply (rule triple_Nil)
    apply (auto simp: done_444_def at_444_def)
  done

lemma triple_444_copy:
  assumes "n < 64" and "0 < k" and "k \<le> n" and "\<And>a. f a n = f a (n - k)"
  shows "triple (st f (done_444 n) (at_444 n) i) (seq [copy_to Y1_Ptr Y1_Ptr k, copy_to CB_Ptr CB_Ptr k, copy_to CR_Ptr CR_Ptr k])
     (st f (done_444 (Suc n)) (at_444 (Suc n)) i)"
  apply (rule triple_weaken)
     apply (rule triple_Cons, rule triple_copy)
          apply (use assms in \<open>simp_all add: at_444_def done_444_def\<close>)[5]
     apply (rule triple_Cons, rule triple_copy)
          apply (use assms in \<open>simp_all add: at_444_def done_444_def\<close>)[5]
     apply (rule triple_Cons, rule triple_copy)
          apply (use assms in \<open>simp_all add: at_444_def done_444_def\<close>)[5]
     apply (rule triple_Nil)
    apply (auto simp: done_444_def at_444_def)
  done

lemma triple_444_row:
  assumes "r < rows'" and "rows' \<le> 8" and "0 < cols'" and "cols' \<le> 8" and "input + rows' * (3 * cols' + incr') \<le> length img + incr'"
  defines "f \<equiv> block_444 img input (3 * cols' + incr') rows' cols'"
  shows "triple (st f (done_444 (8 * r)) (at_444 (8 * r)) (input + r * (3 * cols' + incr')))
     (seq [repeatM cols' (seq [read_to img Y1_Ptr, read_to img CB_Ptr, read_to img CR_Ptr]),
           repeatM (8 - cols') (seq [copy_to Y1_Ptr Y1_Ptr 1, copy_to CB_Ptr CB_Ptr 1, copy_to CR_Ptr CR_Ptr 1]),
           skip_input incr'])
     (st f (done_444 (8 * Suc r)) (at_444 (8 * Suc r)) (input + Suc r * (3 * cols' + incr')))"
proof -
  let ?i = "input + r * (3 * cols' + incr')"
  have "Suc r * (3 * cols' + incr') \<le> rows' * (3 * cols' + incr')" using assms(1) by (intro mult_le_mono1) simp
  then have len: "?i + 3 * cols' \<le> length img" using assms(5) by simp
  have "triple (st f (done_444 (8 * r + j)) (at_444 (8 * r + j)) (?i + 3 * j))
      (seq [read_to img Y1_Ptr, read_to img CB_Ptr, read_to img CR_Ptr])
      (st f (done_444 (8 * r + Suc j)) (at_444 (8 * r + Suc j)) (?i + 3 * Suc j))" if "j < cols'" for j
  proof (rule triple_weaken [OF triple_444_read])
    have "min r (rows' - 1) = r" "min j (cols' - 1) = j" "(8 * r + j) div 8 = r" "(8 * r + j) mod 8 = j"
      using that assms(1,4) by auto
    then show "f a (8 * r + j) = img ! (?i + 3 * j + component_444 a) - 128" for a
      unfolding f_def block_444_def by simp
  qed (use that assms(1,2,4) len in auto)
  from triple_repeat [of cols' "\<lambda>j. st f (done_444 (8 * r + j)) (at_444 (8 * r + j)) (?i + 3 * j)", OF this]
  have reads: "triple (st f (done_444 (8 * r)) (at_444 (8 * r)) ?i)
      (repeatM cols' (seq [read_to img Y1_Ptr, read_to img CB_Ptr, read_to img CR_Ptr]))
      (st f (done_444 (8 * r + cols')) (at_444 (8 * r + cols')) (?i + 3 * cols'))" by simp
  have "triple (st f (done_444 (8 * r + cols' + j)) (at_444 (8 * r + cols' + j)) (?i + 3 * cols'))
      (seq [copy_to Y1_Ptr Y1_Ptr 1, copy_to CB_Ptr CB_Ptr 1, copy_to CR_Ptr CR_Ptr 1])
      (st f (done_444 (8 * r + cols' + Suc j)) (at_444 (8 * r + cols' + Suc j)) (?i + 3 * cols'))" if "j < 8 - cols'" for j
  proof -
    have "8 * r + cols' + j = 8 * r + (cols' + j)" "8 * r + cols' + j - 1 = 8 * r + (cols' + j - 1)"
      "cols' + j < 8" "cols' + j - 1 < 8" "min (cols' + j) (cols' - 1) = cols' - 1" "min (cols' + j - 1) (cols' - 1) = cols' - 1"
      using that assms(3,4) by auto
    then have "f a (8 * r + cols' + j) = f a (8 * r + cols' + j - 1)" for a
      unfolding f_def block_444_def by (simp only: div_mod_8)
    then show ?thesis
      using triple_444_copy [of "8 * r + cols' + j" 1 f "?i + 3 * cols'"] that assms by simp
  qed
  from triple_repeat [of "8 - cols'" "\<lambda>j. st f (done_444 (8 * r + cols' + j)) (at_444 (8 * r + cols' + j)) (?i + 3 * cols')", OF this]
  have copies: "triple (st f (done_444 (8 * r + cols')) (at_444 (8 * r + cols')) (?i + 3 * cols'))
      (repeatM (8 - cols') (seq [copy_to Y1_Ptr Y1_Ptr 1, copy_to CB_Ptr CB_Ptr 1, copy_to CR_Ptr CR_Ptr 1]))
      (st f (done_444 (8 * Suc r)) (at_444 (8 * Suc r)) (?i + 3 * cols'))" using assms(4) by (simp add: add.commute)
  show ?thesis
    by (rule triple_weaken [OF triple_Cons [OF reads triple_Cons [OF copies triple_Cons [OF triple_skip triple_Nil]]]])
       (auto simp: algebra_simps)
qed

lemma read_444_reads:
  assumes "rows je = int rows'" and "cols je = int cols'" and "incr je = int incr'"
    and "0 < rows'" and "rows' \<le> 8" and "0 < cols'" and "cols' \<le> 8"
    and "input + rows' * (3 * cols' + incr') \<le> length img + incr'"
    and "\<forall>a. length (blocks a) = 64"
  shows "\<exists>blocks'. read_444_format img je input blocks = Some blocks' \<and> (\<forall>a. length (blocks' a) = 64) \<and>
     (\<forall>a \<in> {Y1, CB, CR}. \<forall>k<64. blocks' a ! k = block_444 img input (3 * cols' + incr') rows' cols' a k)"
proof -
  let ?f = "block_444 img input (3 * cols' + incr') rows' cols'"
  let ?i = "\<lambda>r. input + r * (3 * cols' + incr')"
  have up: "triple (st ?f (done_444 0) (at_444 0) (?i 0))
     (repeatM rows' (seq [repeatM cols' (seq [read_to img Y1_Ptr, read_to img CB_Ptr, read_to img CR_Ptr]),
           repeatM (8 - cols') (seq [copy_to Y1_Ptr Y1_Ptr 1, copy_to CB_Ptr CB_Ptr 1, copy_to CR_Ptr CR_Ptr 1]),
           skip_input incr']))
     (st ?f (done_444 (8 * rows')) (at_444 (8 * rows')) (?i rows'))"
    using triple_repeat [of rows' "\<lambda>r. st ?f (done_444 (8 * r)) (at_444 (8 * r)) (?i r)", OF triple_444_row] assms by simp
  have row: "triple (st ?f (done_444 (8 * rows' + 8 * r)) (at_444 (8 * rows' + 8 * r)) (?i rows'))
     (repeatM 8 (seq [copy_to Y1_Ptr Y1_Ptr 8, copy_to CB_Ptr CB_Ptr 8, copy_to CR_Ptr CR_Ptr 8]))
     (st ?f (done_444 (8 * rows' + 8 * Suc r)) (at_444 (8 * rows' + 8 * Suc r)) (?i rows'))" if "r < 8 - rows'" for r
  proof -
    have "triple (st ?f (done_444 (8 * rows' + 8 * r + j)) (at_444 (8 * rows' + 8 * r + j)) (?i rows'))
      (seq [copy_to Y1_Ptr Y1_Ptr 8, copy_to CB_Ptr CB_Ptr 8, copy_to CR_Ptr CR_Ptr 8])
      (st ?f (done_444 (8 * rows' + 8 * r + Suc j)) (at_444 (8 * rows' + 8 * r + Suc j)) (?i rows'))" if "j < 8" for j
    proof -
      have "8 * rows' + 8 * r + j = 8 * (rows' + r) + j" "8 * rows' + 8 * r + j - 8 = 8 * (rows' + r - 1) + j"
        "min (rows' + r) (rows' - 1) = rows' - 1" "min (rows' + r - 1) (rows' - 1) = rows' - 1"
        using assms(4) by auto
      then have "?f a (8 * rows' + 8 * r + j) = ?f a (8 * rows' + 8 * r + j - 8)" for a
        using that unfolding block_444_def by (simp only: div_mod_8)
      then show ?thesis
        using triple_444_copy [of "8 * rows' + 8 * r + j" 8 ?f "?i rows'"] that assms \<open>r < 8 - rows'\<close> by simp
    qed
    from triple_repeat [of 8 "\<lambda>j. st ?f (done_444 (8 * rows' + 8 * r + j)) (at_444 (8 * rows' + 8 * r + j)) (?i rows')", OF this]
    show ?thesis by (simp add: algebra_simps)
  qed
  have down: "triple (st ?f (done_444 (8 * rows')) (at_444 (8 * rows')) (?i rows'))
     (repeatM (8 - rows') (repeatM 8 (seq [copy_to Y1_Ptr Y1_Ptr 8, copy_to CB_Ptr CB_Ptr 8, copy_to CR_Ptr CR_Ptr 8])))
     (st ?f (done_444 64) (at_444 64) (?i rows'))"
    using triple_repeat [of "8 - rows'" "\<lambda>r. st ?f (done_444 (8 * rows' + 8 * r)) (at_444 (8 * rows' + 8 * r)) (?i rows')", OF row]
      assms(5) by (simp add: algebra_simps)
  have "st ?f (done_444 0) (at_444 0) (?i 0) (start blocks input)"
    using assms(9) by (auto simp: st_def start_def done_444_def at_444_def)
  with triple_Cons [OF up triple_Cons [OF down triple_Nil]] obtain s where
    "seq [repeatM rows' (seq [repeatM cols' (seq [read_to img Y1_Ptr, read_to img CB_Ptr, read_to img CR_Ptr]),
           repeatM (8 - cols') (seq [copy_to Y1_Ptr Y1_Ptr 1, copy_to CB_Ptr CB_Ptr 1, copy_to CR_Ptr CR_Ptr 1]),
           skip_input incr']),
         repeatM (8 - rows') (repeatM 8 (seq [copy_to Y1_Ptr Y1_Ptr 8, copy_to CB_Ptr CB_Ptr 8, copy_to CR_Ptr CR_Ptr 8]))]
       (start blocks input) = Some s" and s: "st ?f (done_444 64) (at_444 64) (?i rows') s"
    unfolding triple_def by blast
  then have "read_444_format img je input blocks = Some (planes s)"
    using assms(1-3) unfolding read_444_format_def Let_def by simp
  with s show ?thesis by (intro exI [of _ "planes s"]) (auto simp: st_def done_444_def)
qed

section \<open>\<open>read_420_format\<close> on a full MCU\<close>

text \<open>
  In the packed 420 format a pair of rows is a sequence of groups of six bytes: two samples of the upper row, two of the
  lower row, and the two chrominance samples they share. An MCU takes eight groups of eight pairs of rows.
\<close>

definition luma_420 :: "int list \<Rightarrow> nat \<Rightarrow> nat \<Rightarrow> nat \<Rightarrow> nat \<Rightarrow> int" where
  "luma_420 img input row_len y x =
     img ! (input + (y div 2) * row_len + 6 * (x div 2) + 2 * (y mod 2) + x mod 2) - 128"

definition chroma_420 :: "int list \<Rightarrow> nat \<Rightarrow> nat \<Rightarrow> nat \<Rightarrow> nat \<Rightarrow> nat \<Rightarrow> int" where
  "chroma_420 img input row_len c y x = img ! (input + y * row_len + 6 * x + 4 + c) - 128"

fun block_420 :: "int list \<Rightarrow> nat \<Rightarrow> nat \<Rightarrow> plane \<Rightarrow> nat \<Rightarrow> int" where
  "block_420 img input row_len Y1 k = luma_420 img input row_len (k div 8) (k mod 8)"
| "block_420 img input row_len Y2 k = luma_420 img input row_len (k div 8) (8 + k mod 8)"
| "block_420 img input row_len Y3 k = luma_420 img input row_len (8 + k div 8) (k mod 8)"
| "block_420 img input row_len Y4 k = luma_420 img input row_len (8 + k div 8) (8 + k mod 8)"
| "block_420 img input row_len CB k = chroma_420 img input row_len 0 (k div 8) (k mod 8)"
| "block_420 img input row_len CR k = chroma_420 img input row_len 1 (k div 8) (k mod 8)"

text \<open>A group read through two pointers \<open>p\<close> and \<open>q\<close> into one block.\<close>

lemma triple_420_group:
  assumes ptr: "array p = a" "array q = a" "p \<noteq> q" "p \<noteq> CB_Ptr" "p \<noteq> CR_Ptr" "q \<noteq> CB_Ptr" "q \<noteq> CR_Ptr" "a \<noteq> CB" "a \<noteq> CR"
    and P: "P p = n" "P q = m" "P CB_Ptr = c" "P CR_Ptr = c"
    and bounds: "Suc n < 64" "Suc m < 64" "c < 64" "Suc (Suc (Suc (Suc (Suc i)))) < length img"
    and f: "f a n = img ! i - 128" "f a (Suc n) = img ! Suc i - 128"
      "f a m = img ! Suc (Suc i) - 128" "f a (Suc m) = img ! Suc (Suc (Suc i)) - 128"
      "f CB c = img ! Suc (Suc (Suc (Suc i))) - 128" "f CR c = img ! Suc (Suc (Suc (Suc (Suc i)))) - 128"
  shows "triple (st f S P i) (read_pairs img p q)
     (st f (S(a := {n, Suc n, m, Suc m} \<union> S a, CB := insert c (S CB), CR := insert c (S CR)))
        (P(p := Suc (Suc n), q := Suc (Suc m), CB_Ptr := Suc c, CR_Ptr := Suc c)) (i + 6))"
  unfolding read_pairs_def
  apply (rule triple_weaken)
     apply (rule triple_Cons, rule triple_read)
        apply (use ptr P bounds f in \<open>simp_all (no_asm_simp)\<close>)[3]
     apply (rule triple_Cons, rule triple_read)
        apply (use ptr P bounds f in \<open>simp_all (no_asm_simp)\<close>)[3]
     apply (rule triple_Cons, rule triple_read)
        apply (use ptr P bounds f in \<open>simp_all (no_asm_simp)\<close>)[3]
     apply (rule triple_Cons, rule triple_read)
        apply (use ptr P bounds f in \<open>simp_all (no_asm_simp)\<close>)[3]
     apply (rule triple_Cons, rule triple_read)
        apply (use ptr P bounds f in \<open>simp_all (no_asm_simp)\<close>)[3]
     apply (rule triple_Cons, rule triple_read)
        apply (use ptr P bounds f in \<open>simp_all (no_asm_simp)\<close>)[3]
     apply (rule triple_Nil)
    apply (use ptr P in \<open>auto simp: fun_eq_iff\<close>)
  done

lemma triple_420_groups:
  assumes ptr: "array p = a" "array q = a" "p \<noteq> q" "p \<noteq> CB_Ptr" "p \<noteq> CR_Ptr" "q \<noteq> CB_Ptr" "q \<noteq> CR_Ptr" "a \<noteq> CB" "a \<noteq> CR"
    and P: "P p = n" "P q = m" "P CB_Ptr = c" "P CR_Ptr = c"
    and bounds: "n + 8 \<le> 64" "m + 8 \<le> 64" "c + 4 \<le> 64" "i + 24 \<le> length img"
    and f: "\<And>j. j < 4 \<Longrightarrow> f a (n + 2 * j) = img ! (i + 6 * j) - 128"
      "\<And>j. j < 4 \<Longrightarrow> f a (n + 2 * j + 1) = img ! (i + 6 * j + 1) - 128"
      "\<And>j. j < 4 \<Longrightarrow> f a (m + 2 * j) = img ! (i + 6 * j + 2) - 128"
      "\<And>j. j < 4 \<Longrightarrow> f a (m + 2 * j + 1) = img ! (i + 6 * j + 3) - 128"
      "\<And>j. j < 4 \<Longrightarrow> f CB (c + j) = img ! (i + 6 * j + 4) - 128"
      "\<And>j. j < 4 \<Longrightarrow> f CR (c + j) = img ! (i + 6 * j + 5) - 128"
  shows "triple (st f S P i) (repeatM 4 (read_pairs img p q))
     (st f (S(a := {n..<n + 8} \<union> {m..<m + 8} \<union> S a, CB := {c..<c + 4} \<union> S CB, CR := {c..<c + 4} \<union> S CR))
        (P(p := n + 8, q := m + 8, CB_Ptr := c + 4, CR_Ptr := c + 4)) (i + 24))"
proof -
  let ?S = "\<lambda>j. S(a := {n..<n + 2 * j} \<union> {m..<m + 2 * j} \<union> S a, CB := {c..<c + j} \<union> S CB, CR := {c..<c + j} \<union> S CR)"
  let ?P = "\<lambda>j. P(p := n + 2 * j, q := m + 2 * j, CB_Ptr := c + j, CR_Ptr := c + j)"
  have step: "triple (st f (?S j) (?P j) (i + 6 * j)) (read_pairs img p q) (st f (?S (Suc j)) (?P (Suc j)) (i + 6 * Suc j))"
    if j: "j < 4" for j
  proof (rule triple_weaken [OF triple_420_group [OF ptr]])
    show "?P j p = n + 2 * j" "?P j q = m + 2 * j" "?P j CB_Ptr = c + j" "?P j CR_Ptr = c + j"
      using ptr by simp_all
    show "f a (n + 2 * j) = img ! (i + 6 * j) - 128" "f a (Suc (n + 2 * j)) = img ! Suc (i + 6 * j) - 128"
      "f a (m + 2 * j) = img ! Suc (Suc (i + 6 * j)) - 128" "f a (Suc (m + 2 * j)) = img ! Suc (Suc (Suc (i + 6 * j))) - 128"
      "f CB (c + j) = img ! Suc (Suc (Suc (Suc (i + 6 * j)))) - 128"
      "f CR (c + j) = img ! Suc (Suc (Suc (Suc (Suc (i + 6 * j))))) - 128"
      using f(1-6) [OF j] by (simp_all add: numeral_nat)
  qed (use j ptr bounds in \<open>auto simp: fun_eq_iff\<close>)
  have "?P 0 = P" "?S 0 = S" using P ptr by (auto simp: fun_eq_iff)
  with triple_repeat [of 4 "\<lambda>j. st f (?S j) (?P j) (i + 6 * j)", OF step] show ?thesis by simp
qed

lemma luma_420_at:
  "luma_420 img input row_len (2 * y + 0) (2 * x + 0) = img ! (input + y * row_len + 6 * x) - 128"
  "luma_420 img input row_len (2 * y + 0) (2 * x + 1) = img ! (input + y * row_len + 6 * x + 1) - 128"
  "luma_420 img input row_len (2 * y + 1) (2 * x + 0) = img ! (input + y * row_len + 6 * x + 2) - 128"
  "luma_420 img input row_len (2 * y + 1) (2 * x + 1) = img ! (input + y * row_len + 6 * x + 3) - 128"
  by (simp_all add: luma_420_def numeral_3_eq_3)

lemma pair_index:
  fixes r j :: nat
  assumes "j < 4"
  shows "(16 * r + 2 * j) div 8 = 2 * r + 0" "(16 * r + 2 * j) mod 8 = 2 * j + 0"
    "(16 * r + 2 * j + 1) div 8 = 2 * r + 0" "(16 * r + 2 * j + 1) mod 8 = 2 * j + 1"
    "(16 * r + 8 + 2 * j) div 8 = 2 * r + 1" "(16 * r + 8 + 2 * j) mod 8 = 2 * j + 0"
    "(16 * r + 8 + 2 * j + 1) div 8 = 2 * r + 1" "(16 * r + 8 + 2 * j + 1) mod 8 = 2 * j + 1"
    "(8 * r + j) div 8 = r" "(8 * r + j) mod 8 = j" "(8 * r + 4 + j) div 8 = r" "(8 * r + 4 + j) mod 8 = 4 + j"
  using assms by presburger+

lemma eight_more: "8 + (2 * j + e) = 2 * (4 + j) + (e :: nat)"
  by simp

lemma block_420_at:
  assumes "j < 4"
  shows "block_420 img input row_len Y1 (16 * r + 2 * j) = img ! (input + r * row_len + 6 * j) - 128"
    "block_420 img input row_len Y1 (16 * r + 2 * j + 1) = img ! (input + r * row_len + 6 * j + 1) - 128"
    "block_420 img input row_len Y1 (16 * r + 8 + 2 * j) = img ! (input + r * row_len + 6 * j + 2) - 128"
    "block_420 img input row_len Y1 (16 * r + 8 + 2 * j + 1) = img ! (input + r * row_len + 6 * j + 3) - 128"
    "block_420 img input row_len Y2 (16 * r + 2 * j) = img ! (input + r * row_len + 24 + 6 * j) - 128"
    "block_420 img input row_len Y2 (16 * r + 2 * j + 1) = img ! (input + r * row_len + 24 + 6 * j + 1) - 128"
    "block_420 img input row_len Y2 (16 * r + 8 + 2 * j) = img ! (input + r * row_len + 24 + 6 * j + 2) - 128"
    "block_420 img input row_len Y2 (16 * r + 8 + 2 * j + 1) = img ! (input + r * row_len + 24 + 6 * j + 3) - 128"
    "block_420 img input row_len Y3 (16 * r + 2 * j) = img ! (input + (4 + r) * row_len + 6 * j) - 128"
    "block_420 img input row_len Y3 (16 * r + 2 * j + 1) = img ! (input + (4 + r) * row_len + 6 * j + 1) - 128"
    "block_420 img input row_len Y3 (16 * r + 8 + 2 * j) = img ! (input + (4 + r) * row_len + 6 * j + 2) - 128"
    "block_420 img input row_len Y3 (16 * r + 8 + 2 * j + 1) = img ! (input + (4 + r) * row_len + 6 * j + 3) - 128"
    "block_420 img input row_len Y4 (16 * r + 2 * j) = img ! (input + (4 + r) * row_len + 24 + 6 * j) - 128"
    "block_420 img input row_len Y4 (16 * r + 2 * j + 1) = img ! (input + (4 + r) * row_len + 24 + 6 * j + 1) - 128"
    "block_420 img input row_len Y4 (16 * r + 8 + 2 * j) = img ! (input + (4 + r) * row_len + 24 + 6 * j + 2) - 128"
    "block_420 img input row_len Y4 (16 * r + 8 + 2 * j + 1) = img ! (input + (4 + r) * row_len + 24 + 6 * j + 3) - 128"
    "block_420 img input row_len CB (8 * r + j) = img ! (input + r * row_len + 6 * j + 4) - 128"
    "block_420 img input row_len CB (8 * r + 4 + j) = img ! (input + r * row_len + 24 + 6 * j + 4) - 128"
    "block_420 img input row_len CR (8 * r + j) = img ! (input + r * row_len + 6 * j + 5) - 128"
    "block_420 img input row_len CR (8 * r + 4 + j) = img ! (input + r * row_len + 24 + 6 * j + 5) - 128"
  unfolding block_420.simps pair_index [OF assms] eight_more luma_420_at
  by (simp_all add: chroma_420_def algebra_simps)

text \<open>The states between two pairs of rows: \<open>r\<close> pairs of the upper blocks and \<open>r'\<close> of the lower ones are done.\<close>

definition done_420 :: "nat \<Rightarrow> nat \<Rightarrow> plane \<Rightarrow> nat set" where
  "done_420 r r' a = (if a = Y1 \<or> a = Y2 then {..<16 * r} else if a = Y3 \<or> a = Y4 then {..<16 * r'} else {..<8 * (r + r')})"

definition at_420 :: "nat \<Rightarrow> nat \<Rightarrow> pointer \<Rightarrow> nat" where
  "at_420 r r' p = (if p = Y1_Ptr \<or> p = Y2_Ptr then 16 * r else if p = Y1Ptr \<or> p = Y2Ptr then 16 * r + 8
     else if p = Y3_Ptr \<or> p = Y4_Ptr then 16 * r' else if p = Y3Ptr \<or> p = Y4Ptr then 16 * r' + 8 else 8 * (r + r'))"

lemma triple_none: "triple A (repeatM 0 c) A"
  by (simp add: triple_def)

lemma triple_420_Y1:
  assumes "r < 4" and "P Y1_Ptr = 16 * r" and "P Y1Ptr = 16 * r + 8" and "P CB_Ptr = 8 * r" and "P CR_Ptr = 8 * r"
    and "input + r * row_len + 24 \<le> length img"
  shows "triple (st (block_420 img input row_len) S P (input + r * row_len)) (repeatM 4 (read_pairs img Y1_Ptr Y1Ptr))
     (st (block_420 img input row_len)
        (S(Y1 := {16 * r..<16 * r + 8} \<union> {16 * r + 8..<16 * r + 8 + 8} \<union> S Y1,
           CB := {8 * r..<8 * r + 4} \<union> S CB, CR := {8 * r..<8 * r + 4} \<union> S CR))
        (P(Y1_Ptr := 16 * r + 8, Y1Ptr := 16 * r + 8 + 8, CB_Ptr := 8 * r + 4, CR_Ptr := 8 * r + 4)) (input + r * row_len + 24))"
  by (rule triple_420_groups; (rule block_420_at, assumption | use assms in simp))

lemma triple_420_Y2:
  assumes "r < 4" and "P Y2_Ptr = 16 * r" and "P Y2Ptr = 16 * r + 8" and "P CB_Ptr = 8 * r + 4" and "P CR_Ptr = 8 * r + 4"
    and "input + r * row_len + 24 + 24 \<le> length img"
  shows "triple (st (block_420 img input row_len) S P (input + r * row_len + 24)) (repeatM 4 (read_pairs img Y2_Ptr Y2Ptr))
     (st (block_420 img input row_len)
        (S(Y2 := {16 * r..<16 * r + 8} \<union> {16 * r + 8..<16 * r + 8 + 8} \<union> S Y2,
           CB := {8 * r + 4..<8 * r + 4 + 4} \<union> S CB, CR := {8 * r + 4..<8 * r + 4 + 4} \<union> S CR))
        (P(Y2_Ptr := 16 * r + 8, Y2Ptr := 16 * r + 8 + 8, CB_Ptr := 8 * r + 4 + 4, CR_Ptr := 8 * r + 4 + 4)) (input + r * row_len + 24 + 24))"
  by (rule triple_420_groups; (rule block_420_at, assumption | use assms in simp))

lemma triple_420_Y3:
  assumes "r < 4" and "P Y3_Ptr = 16 * r" and "P Y3Ptr = 16 * r + 8" and "P CB_Ptr = 8 * (4 + r)" and "P CR_Ptr = 8 * (4 + r)"
    and "input + (4 + r) * row_len + 24 \<le> length img"
  shows "triple (st (block_420 img input row_len) S P (input + (4 + r) * row_len)) (repeatM 4 (read_pairs img Y3_Ptr Y3Ptr))
     (st (block_420 img input row_len)
        (S(Y3 := {16 * r..<16 * r + 8} \<union> {16 * r + 8..<16 * r + 8 + 8} \<union> S Y3,
           CB := {8 * (4 + r)..<8 * (4 + r) + 4} \<union> S CB, CR := {8 * (4 + r)..<8 * (4 + r) + 4} \<union> S CR))
        (P(Y3_Ptr := 16 * r + 8, Y3Ptr := 16 * r + 8 + 8, CB_Ptr := 8 * (4 + r) + 4, CR_Ptr := 8 * (4 + r) + 4)) (input + (4 + r) * row_len + 24))"
  by (rule triple_420_groups; (rule block_420_at, assumption | use assms in simp))

lemma triple_420_Y4:
  assumes "r < 4" and "P Y4_Ptr = 16 * r" and "P Y4Ptr = 16 * r + 8" and "P CB_Ptr = 8 * (4 + r) + 4" and "P CR_Ptr = 8 * (4 + r) + 4"
    and "input + (4 + r) * row_len + 24 + 24 \<le> length img"
  shows "triple (st (block_420 img input row_len) S P (input + (4 + r) * row_len + 24)) (repeatM 4 (read_pairs img Y4_Ptr Y4Ptr))
     (st (block_420 img input row_len)
        (S(Y4 := {16 * r..<16 * r + 8} \<union> {16 * r + 8..<16 * r + 8 + 8} \<union> S Y4,
           CB := {8 * (4 + r) + 4..<8 * (4 + r) + 4 + 4} \<union> S CB, CR := {8 * (4 + r) + 4..<8 * (4 + r) + 4 + 4} \<union> S CR))
        (P(Y4_Ptr := 16 * r + 8, Y4Ptr := 16 * r + 8 + 8, CB_Ptr := 8 * (4 + r) + 4 + 4, CR_Ptr := 8 * (4 + r) + 4 + 4)) (input + (4 + r) * row_len + 24 + 24))"
  by (rule triple_420_groups; (rule block_420_at, assumption | use assms in simp))

lemma numeral_div_8: "8 div 2 = (4::nat)" "8 - 8 = (0::nat)" "(16 - 16) div 2 = (0::nat)" "(16 \<le> (8::nat)) = False" "(if False then x else y) = y"
  by simp_all

lemma triple_420_upper:
  assumes "r < 4" and "input + r * (48 + incr') + 48 \<le> length img"
  shows "triple (st (block_420 img input (48 + incr')) (done_420 r 0) (at_420 r 0) (input + r * (48 + incr')))
     (read_420_upper img 16 8 8 incr')
     (st (block_420 img input (48 + incr')) (done_420 (Suc r) 0) (at_420 (Suc r) 0) (input + Suc r * (48 + incr')))"
  unfolding read_420_upper_def
  apply (rule triple_weaken)
     apply (rule triple_Cons, simp only: numeral_div_8, rule triple_420_Y1 [OF assms(1)])
         apply (use assms(2) in \<open>simp_all add: at_420_def\<close>)[5]
     apply (rule triple_Cons, simp only: numeral_div_8, rule triple_420_Y2 [OF assms(1)])
         apply (use assms(2) in \<open>simp_all add: at_420_def\<close>)[5]
     apply (rule triple_Cons, simp only: numeral_div_8, rule triple_none)
     apply (rule triple_Cons, simp only: numeral_div_8, rule triple_none)
     apply (rule triple_Cons, rule triple_advance)+
     apply (rule triple_Cons, rule triple_skip)
     apply (rule triple_Nil)
    subgoal for a by (cases a) (auto simp: done_420_def)
   apply (rule ext)
   subgoal for p by (cases p) (simp_all add: at_420_def)
  apply (simp add: algebra_simps)
  done

lemma triple_420_lower:
  assumes "r < 4" and "input + (4 + r) * (48 + incr') + 48 \<le> length img"
  shows "triple (st (block_420 img input (48 + incr')) (done_420 4 r) (at_420 4 r) (input + (4 + r) * (48 + incr')))
     (read_420_lower img 16 8 8 incr')
     (st (block_420 img input (48 + incr')) (done_420 4 (Suc r)) (at_420 4 (Suc r)) (input + (4 + Suc r) * (48 + incr')))"
  unfolding read_420_lower_def
  apply (rule triple_weaken)
     apply (rule triple_Cons, simp only: numeral_div_8, rule triple_420_Y3 [OF assms(1)])
         apply (use assms(2) in \<open>simp_all add: at_420_def\<close>)[5]
     apply (rule triple_Cons, simp only: numeral_div_8, rule triple_420_Y4 [OF assms(1)])
         apply (use assms(2) in \<open>simp_all add: at_420_def\<close>)[5]
     apply (rule triple_Cons, simp only: numeral_div_8, rule triple_none)
     apply (rule triple_Cons, simp only: numeral_div_8, rule triple_none)
     apply (rule triple_Cons, rule triple_advance)+
     apply (rule triple_Cons, rule triple_skip)
     apply (rule triple_Nil)
    subgoal for a by (cases a) (auto simp: done_420_def)
   apply (rule ext)
   subgoal for p by (cases p) (simp_all add: at_420_def)
  apply (simp add: algebra_simps)
  done

lemma read_420_reads:
  assumes "rows je = 16" and "cols je = 16" and "incr je = int incr'"
    and "input + 7 * (48 + incr') + 48 \<le> length img" and "\<forall>a. length (blocks a) = 64"
  shows "\<exists>blocks'. read_420_format img je input blocks = Some blocks' \<and> (\<forall>a. length (blocks' a) = 64) \<and>
     (\<forall>a. \<forall>k<64. blocks' a ! k = block_420 img input (48 + incr') a k)"
proof -
  let ?f = "block_420 img input (48 + incr')"
  have len: "input + r * (48 + incr') + 48 \<le> length img" if "r < 8" for r
  proof -
    have "r * (48 + incr') \<le> 7 * (48 + incr')" using that by (intro mult_le_mono1) simp
    with assms(4) show ?thesis by simp
  qed
  have up: "triple (st ?f (done_420 0 0) (at_420 0 0) (input + 0 * (48 + incr')))
     (repeatM 4 (read_420_upper img 16 8 8 incr')) (st ?f (done_420 4 0) (at_420 4 0) (input + 4 * (48 + incr')))"
    by (rule triple_repeat [of 4 "\<lambda>r. st ?f (done_420 r 0) (at_420 r 0) (input + r * (48 + incr'))"])
       (rule triple_420_upper, simp_all add: len)
  have low: "triple (st ?f (done_420 4 0) (at_420 4 0) (input + (4 + 0) * (48 + incr')))
     (repeatM 4 (read_420_lower img 16 8 8 incr')) (st ?f (done_420 4 4) (at_420 4 4) (input + (4 + 4) * (48 + incr')))"
    by (rule triple_repeat [of 4 "\<lambda>r. st ?f (done_420 4 r) (at_420 4 r) (input + (4 + r) * (48 + incr'))"])
       (rule triple_420_lower, simp_all add: len del: add_Suc_right)
  have bottom: "triple A (read_420_bottom 16) A" for A
    unfolding read_420_bottom_def by (simp add: triple_def)
  have "st ?f (done_420 0 0) (at_420 0 0) input (start blocks input)"
    using assms(5) by (auto simp: st_def start_def done_420_def at_420_def)
  moreover have "triple (st ?f (done_420 0 0) (at_420 0 0) input)
     (seq [repeatM 4 (read_420_upper img 16 8 8 incr'), repeatM 4 (read_420_lower img 16 8 8 incr'), read_420_bottom 16])
     (st ?f (done_420 4 4) (at_420 4 4) (input + 8 * (48 + incr')))"
    using triple_Cons [OF up [unfolded mult_0 add_0_right] triple_Cons [OF low [unfolded add_0_right] triple_Cons [OF bottom triple_Nil]]]
    by (simp only: numeral_plus_numeral semiring_norm)
  ultimately obtain s where s: "seq [repeatM 4 (read_420_upper img 16 8 8 incr'), repeatM 4 (read_420_lower img 16 8 8 incr'), read_420_bottom 16]
      (start blocks input) = Some s" "st ?f (done_420 4 4) (at_420 4 4) (input + 8 * (48 + incr')) s"
    unfolding triple_def by blast
  from s(1) have "read_420_format img je input blocks = Some (planes s)"
    using assms(1-3) unfolding read_420_format_def Let_def by (simp del: forM.simps)
  moreover have "planes s a ! k = ?f a k" if "k < 64" for a k
  proof -
    have "k \<in> done_420 4 4 a" using that by (cases a) (simp_all add: done_420_def)
    with s(2) show ?thesis by (simp add: st_def)
  qed
  ultimately show ?thesis using s(2) by (intro exI [of _ "planes s"]) (simp add: st_def)
qed

section \<open>Readers that run over their blocks\<close>

text \<open>
  \<open>moves p d m c\<close>: whenever \<open>c\<close> succeeds it moves \<open>p\<close> by \<open>d\<close>, and its stores through
  \<open>p\<close> fit only if \<open>m\<close> places are left in the block of \<open>p\<close> (no claim for \<open>m = 0\<close>).
\<close>

definition moves :: "pointer \<Rightarrow> nat \<Rightarrow> nat \<Rightarrow> (reader \<Rightarrow> reader option) \<Rightarrow> bool" where
  "moves p d m c \<longleftrightarrow> (\<forall>s s'. c s = Some s' \<longrightarrow> (\<forall>a. length (planes s' a) = length (planes s a)) \<and>
     pos s' p = pos s p + d \<and> (0 < m \<longrightarrow> pos s p + m \<le> length (planes s (array p))))"

lemma put_SomeD: "put p v s = Some s' \<Longrightarrow>
    pos s p < length (planes s (array p)) \<and> pos s' = pos s \<and> (\<forall>a. length (planes s' a) = length (planes s a))"
  by (auto simp: put_def wr_Some_iff split: bind_splits)

lemma moves_read: "moves p (if p = q then 1 else 0) (if p = q then 1 else 0) (read_to img q)"
  unfolding moves_def read_to_def skip_input_def advance_def
  by (auto split: bind_splits dest!: put_SomeD)

lemma moves_assign: "moves p 0 (if p = q then 1 else 0) (assign q q' k)"
  unfolding moves_def assign_def by (auto split: bind_splits if_splits dest!: put_SomeD)

lemma moves_copy: "moves p (if p = q then 1 else 0) (if p = q then 1 else 0) (copy_to q q' k)"
  unfolding moves_def copy_to_def assign_def advance_def
  by (auto split: bind_splits if_splits dest!: put_SomeD)

lemma moves_advance: "moves p (if p = q then k else 0) 0 (advance q k)"
  by (auto simp: moves_def advance_def)

lemma moves_skip: "moves p 0 0 (skip_input k)"
  by (auto simp: moves_def skip_input_def)

lemma moves_Nil: "moves p 0 0 (seq [])"
  by (simp add: moves_def)

lemma moves_Cons:
  assumes "moves p d m c" and "moves p d' m' (seq cs)"
  shows "moves p (d + d') (if m' = 0 then m else d + m') (seq (c # cs))"
  unfolding moves_def
proof (intro allI impI)
  fix s s'' assume "seq (c # cs) s = Some s''"
  then obtain s' where "c s = Some s'" "seq cs s' = Some s''" by (auto split: bind_splits)
  with assms show "(\<forall>a. length (planes s'' a) = length (planes s a)) \<and> pos s'' p = pos s p + (d + d') \<and>
      (0 < (if m' = 0 then m else d + m') \<longrightarrow> pos s p + (if m' = 0 then m else d + m') \<le> length (planes s (array p)))"
    unfolding moves_def by (fastforce simp: add.assoc)
qed

lemma moves_repeat:
  assumes "moves p d m c"
  shows "moves p (n * d) (if n = 0 \<or> m = 0 then 0 else (n - 1) * d + m) (repeatM n c)"
proof (induction n)
  case 0
  then show ?case by (simp add: moves_def)
next
  case (Suc n)
  show ?case
    unfolding moves_def
  proof (intro allI impI)
    fix s s'' assume "repeatM (Suc n) c s = Some s''"
    then obtain s' where s': "c s = Some s'" "repeatM n c s' = Some s''" by (auto split: bind_splits)
    have 1: "(\<forall>a. length (planes s' a) = length (planes s a)) \<and> pos s' p = pos s p + d \<and> (0 < m \<longrightarrow> pos s p + m \<le> length (planes s (array p)))"
      using assms s'(1) unfolding moves_def by blast
    have 2: "(\<forall>a. length (planes s'' a) = length (planes s' a)) \<and> pos s'' p = pos s' p + n * d \<and>
        (0 < (if n = 0 \<or> m = 0 then 0 else (n - 1) * d + m) \<longrightarrow>
           pos s' p + (if n = 0 \<or> m = 0 then 0 else (n - 1) * d + m) \<le> length (planes s' (array p)))"
      using Suc s'(2) unfolding moves_def by blast
    show "(\<forall>a. length (planes s'' a) = length (planes s a)) \<and> pos s'' p = pos s p + Suc n * d \<and>
        (0 < (if Suc n = 0 \<or> m = 0 then 0 else (Suc n - 1) * d + m) \<longrightarrow>
           pos s p + (if Suc n = 0 \<or> m = 0 then 0 else (Suc n - 1) * d + m) \<le> length (planes s (array p)))"
      using 1 2 by (cases n) (auto simp: algebra_simps)
  qed
qed

lemma moves_too_far:
  assumes "moves p d m c" and "0 < m" and "length (planes s (array p)) < pos s p + m"
  shows "c s = None"
proof (rule ccontr)
  assume "c s \<noteq> None"
  then obtain s' where "c s = Some s'" by blast
  then have "pos s p + m \<le> length (planes s (array p))" using assms(1,2) unfolding moves_def by blast
  with assms(3) show False by simp
qed

lemma moves_eqs: "moves p d m c \<Longrightarrow> d = d' \<Longrightarrow> m = m' \<Longrightarrow> moves p d' m' c"
  by simp

lemmas moves_intros = moves_Nil moves_Cons moves_repeat moves_read moves_copy moves_assign moves_advance moves_skip

lemma seq_None: "c s = None \<Longrightarrow> seq (c # cs) s = None"
  by simp

lemma read_400_overflow:
  assumes "rows je = 8" and "cols je = 8" and "length (blocks Y1) = 64"
  shows "read_400_format img je input blocks = None"
proof -
  have "moves Y1_Ptr 9 8 (seq [repeatM 8 (read_to img Y1_Ptr), repeatM (8 - 8) (assign Y1_Ptr Y1_Ptr 1),
      advance Y1_Ptr 1, skip_input (nat (incr je))])"
    by (rule moves_eqs, (rule moves_intros)+) simp_all
  from moves_repeat [OF this, of 8] have "moves Y1_Ptr 72 71 (repeatM 8 (seq [repeatM 8 (read_to img Y1_Ptr),
      repeatM (8 - 8) (assign Y1_Ptr Y1_Ptr 1), advance Y1_Ptr 1, skip_input (nat (incr je))]))"
    by (rule moves_eqs) simp_all
  from moves_too_far [OF this, of "start blocks input"] assms(3)
  show ?thesis unfolding read_400_format_def Let_def assms(1,2) by (simp add: start_def del: repeatM.simps)
qed

lemma read_422_overflow:
  assumes "rows je = 8" and "cols je = 16" and "length (blocks Y2) = 64"
  shows "read_422_format img je input blocks = None"
proof -
  let ?row = "seq [
    repeatM (8 div 2) (seq [read_to img Y1_Ptr, read_to img CB_Ptr, read_to img Y1_Ptr, read_to img CR_Ptr]),
    repeatM (8 div 2) (seq [read_to img Y2_Ptr, read_to img CB_Ptr, read_to img Y2_Ptr, read_to img CR_Ptr]),
    seq [repeatM (8 - 8) (assign Y2_Ptr Y2_Ptr 1), advance Y2_Ptr 1],
    repeatM ((16 - 16) div 2) (seq [copy_to CB_Ptr CB_Ptr 1, copy_to CR_Ptr CR_Ptr 1]),
    skip_input (nat (incr je))]"
  have "moves Y2_Ptr 9 8 ?row"
    by (rule moves_eqs, (rule moves_intros)+) simp_all
  from moves_repeat [OF this, of 8] have "moves Y2_Ptr 72 71 (repeatM 8 ?row)"
    by (rule moves_eqs) simp_all
  from moves_too_far [OF this, of "start blocks input"] assms(3)
  show ?thesis unfolding read_422_format_def Let_def assms(1,2) by (simp add: start_def del: repeatM.simps)
qed

lemma read_420_edge_overflow:
  assumes "rows je = 16" and "9 \<le> cols je" and "cols je \<le> 12" and "length (blocks Y2) = 64"
  shows "read_420_format img je input blocks = None"
proof -
  define c where "c = nat (cols je)"
  have c: "c = 9 \<or> c = 10 \<or> c = 11 \<or> c = 12" using assms(2,3) unfolding c_def by arith
  have no: "(9 \<le> (8::nat)) = False" "(10 \<le> (8::nat)) = False" "(11 \<le> (8::nat)) = False" "(12 \<le> (8::nat)) = False" by simp_all
  have m9: "moves Y2_Ptr 22 13 (read_420_upper img 9 8 1 i)" for i
    unfolding read_420_upper_def read_pairs_def no if_False by (rule moves_eqs, (rule moves_intros)+) simp_all
  have m10: "moves Y2_Ptr 22 13 (read_420_upper img 10 8 2 i)" for i
    unfolding read_420_upper_def read_pairs_def no if_False by (rule moves_eqs, (rule moves_intros)+) simp_all
  have m11: "moves Y2_Ptr 20 11 (read_420_upper img 11 8 3 i)" for i
    unfolding read_420_upper_def read_pairs_def no if_False by (rule moves_eqs, (rule moves_intros)+) simp_all
  have m12: "moves Y2_Ptr 20 11 (read_420_upper img 12 8 4 i)" for i
    unfolding read_420_upper_def read_pairs_def no if_False by (rule moves_eqs, (rule moves_intros)+) simp_all
  have "\<exists>d m. moves Y2_Ptr d m (read_420_upper img c 8 (c - 8) (nat (incr je))) \<and> 0 < m \<and> 64 < 3 * d + m"
    using c
  proof (elim disjE)
    assume "c = 9" with m9 show ?thesis by (intro exI [of _ 22] exI [of _ 13]) simp
  next
    assume "c = 10" with m10 show ?thesis by (intro exI [of _ 22] exI [of _ 13]) simp
  next
    assume "c = 11" with m11 show ?thesis by (intro exI [of _ 20] exI [of _ 11]) simp
  next
    assume "c = 12" with m12 show ?thesis by (intro exI [of _ 20] exI [of _ 11]) simp
  qed
  then obtain d m where dm: "moves Y2_Ptr d m (read_420_upper img c 8 (c - 8) (nat (incr je)))" "0 < m" "64 < 3 * d + m" by auto
  have "repeatM 4 (read_420_upper img c 8 (c - 8) (nat (incr je))) (start blocks input) = None"
    by (rule moves_too_far [OF moves_repeat [OF dm(1), of 4]]) (use dm assms(4) in \<open>auto simp: start_def\<close>)
  moreover have "\<not> c \<le> 8" using c by auto
  ultimately show ?thesis unfolding read_420_format_def Let_def assms(1) c_def [symmetric] by (simp del: repeatM.simps)
qed

section \<open>Properties\<close>

definition encoder_at :: "int \<Rightarrow> int \<Rightarrow> int \<Rightarrow> jpeg_encoder" where
  "encoder_at rows' cols' incr' = \<lparr>mcu_width = 0, mcu_height = 0, horizontal_mcus = 0, vertical_mcus = 0,
     rows_in_bottom_mcus = 0, cols_in_right_mcus = 0, length_minus_mcu_width = 0, length_minus_width = 0,
     mcu_width_size = 0, offset = 0, ldc1 = 0, ldc2 = 0, ldc3 = 0, rows = rows', cols = cols', incr = incr'\<rparr>"

text \<open>For an MCU of which the image has any number of rows and columns, \<open>read_444_format\<close> fills the three
  blocks with the samples of the image and completes them by repeating the last column and the last row; it reads only the image and
  writes only the blocks.\<close>

theorem read_444_replicates:
  assumes "rows je = int rows'" and "cols je = int cols'" and "incr je = int incr'"
    and "0 < rows'" and "rows' \<le> 8" and "0 < cols'" and "cols' \<le> 8"
    and "input + rows' * (3 * cols' + incr') \<le> length img + incr'" and "\<forall>a. length (blocks a) = 64"
  shows "\<exists>blocks'. read_444_format img je input blocks = Some blocks' \<and> (\<forall>a. length (blocks' a) = 64) \<and>
     (\<forall>a \<in> {Y1, CB, CR}. \<forall>k<64. blocks' a ! k = block_444 img input (3 * cols' + incr') rows' cols' a k)"
  using read_444_reads [OF assms] .

theorem read_444_replicates_witness:
  "\<exists>blocks'. read_444_format (replicate 14 200) (encoder_at 2 1 5) 0 (\<lambda>a. replicate 64 0) = Some blocks' \<and>
     blocks' CB ! 63 = block_444 (replicate 14 200) 0 8 2 1 CB 63"
  using read_444_replicates [of "encoder_at 2 1 5" 2 1 5 0 "replicate 14 200" "\<lambda>a. replicate 64 0"]
  by (auto simp: encoder_at_def)

text \<open>A full 420 MCU is distributed to the six blocks exactly as the packed format orders it: four luminance blocks by
  quadrant, and the two chrominance blocks.\<close>

theorem read_420_full:
  assumes "rows je = 16" and "cols je = 16" and "incr je = int incr'"
    and "input + 7 * (48 + incr') + 48 \<le> length img" and "\<forall>a. length (blocks a) = 64"
  shows "\<exists>blocks'. read_420_format img je input blocks = Some blocks' \<and> (\<forall>a. length (blocks' a) = 64) \<and>
     (\<forall>a. \<forall>k<64. blocks' a ! k = block_420 img input (48 + incr') a k)"
  using read_420_reads [OF assms] .

theorem read_420_full_witness:
  "\<exists>blocks'. read_420_format (replicate 384 7) (encoder_at 16 16 0) 0 (\<lambda>a. replicate 64 0) = Some blocks' \<and>
     blocks' Y4 ! 63 = block_420 (replicate 384 7) 0 48 Y4 63"
  using read_420_full [of "encoder_at 16 16 0" 0 0 "replicate 384 7" "\<lambda>a. replicate 64 0"]
  by (auto simp: encoder_at_def)

text \<open>Reading a full MCU of the grey-scale format or of the 422 format writes behind the block of 64 samples, for
  every image: the statement that was to complete a row advances the pointer once even when nothing is missing.\<close>

theorem full_mcu_overflow:
  assumes "rows je = 8" and "\<forall>a. length (blocks a) = 64"
  shows "(cols je = 8 \<longrightarrow> read_400_format img je input blocks = None) \<and>
     (cols je = 16 \<longrightarrow> read_422_format img je input blocks = None)"
  using read_400_overflow [of je blocks img input] read_422_overflow [of je blocks img input] assms by simp

theorem full_mcu_overflow_witness:
  "read_400_format (replicate 64 200) (encoder_at 8 8 0) 0 (\<lambda>a. replicate 64 0) = None"
  using full_mcu_overflow [of "encoder_at 8 8 0" "\<lambda>a. replicate 64 0" "replicate 64 200" 0]
  by (simp add: encoder_at_def)

text \<open>A 420 MCU at the right edge with 9 to 12 columns left makes \<open>read_420_format\<close> write behind the block
  \<open>Y2\<close>, for every image, because the completion of the odd rows advances the pointer of the even rows.\<close>

theorem right_edge_overflow:
  assumes "rows je = 16" and "9 \<le> cols je" and "cols je \<le> 12" and "\<forall>a. length (blocks a) = 64"
  shows "read_420_format img je input blocks = None"
  using read_420_edge_overflow [of je blocks img input] assms by simp

theorem right_edge_overflow_witness:
  "read_420_format (replicate 384 200) (encoder_at 16 12 0) 0 (\<lambda>a. replicate 64 0) = None"
  using right_edge_overflow [of "encoder_at 16 12 0" "\<lambda>a. replicate 64 0" "replicate 384 200" 0]
  by (simp add: encoder_at_def)

end
