(* ===== verification/Jpeg_Colour.thy ===== *)
theory Jpeg_Colour
  imports Clank_Prelude
begin

text \<open>
  The conversions of \<open>input_gspcav1/encoder.c\<close> from RGB and planar YUV images to the packed YUV formats that
  the encoder reads. They overwrite the input buffer: \<open>mem\<close> is that buffer (a list of bytes as integers), and the
  pointers are indices into it. Products of the image sizes are 32-bit and wrap (\<open>to_u32\<close>).
\<close>

section \<open>Pixels\<close>

definition CLIP :: "int \<Rightarrow> int" where
  "CLIP color = to_u8 (if 0xFF < color then 0xFF else if color < 0 then 0 else color)"

type_synonym rgb = "int \<times> int \<times> int"

fun luma :: "rgb \<Rightarrow> int" where
  "luma (R, G, B) = CLIP ((77 * R + 150 * G + 29 * B) div 2 ^ 8)"

fun chroma_b :: "rgb \<Rightarrow> int" where
  "chroma_b (R, G, B) = CLIP ((-43 * R - 85 * G + 128 * B) div 2 ^ 8 + 128)"

fun chroma_r :: "rgb \<Rightarrow> int" where
  "chroma_r (R, G, B) = CLIP ((128 * R - 107 * G - 21 * B) div 2 ^ 8 + 128)"

text \<open>\<open>B = p[0]; G = p[1]; R = p[2]\<close>\<close>

definition rd_rgb :: "int list \<Rightarrow> nat \<Rightarrow> rgb option" where
  "rd_rgb mem p = do { B \<leftarrow> rd mem p; G \<leftarrow> rd mem (p + 1); R \<leftarrow> rd mem (p + 2); Some (R, G, B) }"

text \<open>
  The bit fields of \<open>Myrgb16\<close> in the layout of the target (little endian, the first field in the low bits), scaled to
  eight bits as the conversion does.
\<close>

definition rd_rgb565 :: "int list \<Rightarrow> nat \<Rightarrow> rgb option" where
  "rd_rgb565 mem p = do {
     lo \<leftarrow> rd mem p;
     hi \<leftarrow> rd mem (p + 1);
     let v = lo + 256 * hi;
     let blue = v mod 2 ^ 5;
     let green = v div 2 ^ 5 mod 2 ^ 6;
     let red = v div 2 ^ 11 mod 2 ^ 5;
     Some (to_u8 (red * 2 ^ 3), to_u8 (green * 2 ^ 2), to_u8 (blue * 2 ^ 3)) }"

section \<open>RGB to packed YUV\<close>

definition RGB_2_444 :: "int \<Rightarrow> int \<Rightarrow> int list \<Rightarrow> int list option" where
  "RGB_2_444 image_width image_height img = do {
     (mem, p) \<leftarrow> repeatM (nat (to_u32 (image_width * image_height))) (\<lambda>(mem, p). do {
         c \<leftarrow> rd_rgb mem p;
         mem' \<leftarrow> wr_seq mem p [luma c, chroma_b c, chroma_r c];
         Some (mem', p + 3) }) (img, 0);
     Some mem }"

definition rgb_422_group :: "int list \<times> nat \<times> nat \<Rightarrow> (int list \<times> nat \<times> nat) option" where
  "rgb_422_group = (\<lambda>(mem, p, inbuf). do {
     c \<leftarrow> rd_rgb mem inbuf;
     c1 \<leftarrow> rd_rgb mem (inbuf + 3);
     mem' \<leftarrow> wr_seq mem p [luma c, chroma_b c, luma c1, chroma_r c];
     Some (mem', p + 4, inbuf + 6) })"

definition RGB_2_422 :: "int \<Rightarrow> int \<Rightarrow> int list \<Rightarrow> int list option" where
  "RGB_2_422 image_width image_height img = do {
     (mem, p, inbuf) \<leftarrow> repeatM (nat (to_u32 (image_width * image_height))) rgb_422_group (img, 0, 0);
     Some mem }"

text \<open>
  The three conversions to 420 differ in the pixel format: \<open>bpp\<close> bytes per pixel. \<open>inbuf\<close> and \<open>inbuf1\<close> walk through
  two rows, \<open>j\<close> counts the groups of a row. The next group starts a new pair of rows once \<open>j\<close> has
  reached half of the width.
\<close>

definition next_group :: "nat \<Rightarrow> int \<Rightarrow> nat \<times> nat \<times> int \<Rightarrow> nat \<times> nat \<times> int" where
  "next_group bpp image_width = (\<lambda>(inbuf, inbuf1, j).
     if image_width div 2 \<le> j + 1
     then (inbuf + 2 * bpp + nat (to_u32 (image_width * int bpp)), inbuf1 + 2 * bpp + nat (to_u32 (image_width * int bpp)), 0)
     else (inbuf + 2 * bpp, inbuf1 + 2 * bpp, j + 1))"

definition rgb_group :: "nat \<Rightarrow> int \<Rightarrow> int list \<times> nat \<times> nat \<times> nat \<times> int \<Rightarrow> (int list \<times> nat \<times> nat \<times> nat \<times> int) option" where
  "rgb_group bpp image_width = (\<lambda>(mem, p, inbuf, inbuf1, j). do {
     c \<leftarrow> rd_rgb mem inbuf;
     c1 \<leftarrow> rd_rgb mem (inbuf + bpp);
     d \<leftarrow> rd_rgb mem inbuf1;
     d1 \<leftarrow> rd_rgb mem (inbuf1 + bpp);
     mem' \<leftarrow> wr_seq mem p [luma c, luma c1, luma d, luma d1, chroma_b c, chroma_r c];
     Some (mem', p + 6, next_group bpp image_width (inbuf, inbuf1, j)) })"

definition RGB_2_420 :: "int \<Rightarrow> int \<Rightarrow> int list \<Rightarrow> int list option" where
  "RGB_2_420 image_width image_height img = do {
     (mem, rest) \<leftarrow> repeatM (nat (to_u32 (image_width * image_height) div 2 ^ 2)) (rgb_group 3 image_width)
       (img, 0, 0, nat (to_u32 (image_width * 3)), 0);
     Some mem }"

definition RGB32_2_420 :: "int \<Rightarrow> int \<Rightarrow> int list \<Rightarrow> int list option" where
  "RGB32_2_420 image_width image_height img = do {
     (mem, rest) \<leftarrow> repeatM (nat (to_u32 (image_width * image_height) div 2 ^ 2)) (rgb_group 4 image_width)
       (img, 0, 0, nat (to_u32 (image_width * 4)), 0);
     Some mem }"

text \<open>
  The last pixel takes its green and red from \<open>inbuf[1]\<close>, the row above, and only its blue from \<open>inbuf1[1]\<close>.
  An index of the \<open>Myrgb16\<close> pointers is two bytes.
\<close>

definition rgb565_group :: "int \<Rightarrow> int list \<times> nat \<times> nat \<times> nat \<times> int \<Rightarrow> (int list \<times> nat \<times> nat \<times> nat \<times> int) option" where
  "rgb565_group image_width = (\<lambda>(mem, p, inbuf, inbuf1, j). do {
     c \<leftarrow> rd_rgb565 mem inbuf;
     c1 \<leftarrow> rd_rgb565 mem (inbuf + 2);
     d \<leftarrow> rd_rgb565 mem inbuf1;
     (_, _, Bd1) \<leftarrow> rd_rgb565 mem (inbuf1 + 2);
     let (R1, G1, B1) = c1;
     let d1 = (R1, G1, Bd1);
     mem' \<leftarrow> wr_seq mem p [luma c, luma c1, luma d, luma d1, chroma_b c, chroma_r c];
     Some (mem', p + 6,
       if image_width div 2 \<le> j + 1
       then (inbuf + 4 + 2 * nat image_width, inbuf1 + 4 + 2 * nat image_width, 0)
       else (inbuf + 4, inbuf1 + 4, j + 1)) })"

definition RGB565_2_420 :: "int \<Rightarrow> int \<Rightarrow> int list \<Rightarrow> int list option" where
  "RGB565_2_420 image_width image_height img = do {
     (mem, rest) \<leftarrow> repeatM (nat (to_u32 (image_width * image_height) div 2 ^ 2)) (rgb565_group image_width)
       (img, 0, 0, 2 * nat image_width, 0);
     Some mem }"

definition RGB_2_400 :: "int \<Rightarrow> int \<Rightarrow> int list \<Rightarrow> int list option" where
  "RGB_2_400 image_width image_height img = do {
     (mem, p, inbuf) \<leftarrow> repeatM (nat (to_u32 (image_width * image_height))) (\<lambda>(mem, p, inbuf). do {
         c \<leftarrow> rd_rgb mem inbuf;
         mem' \<leftarrow> wr mem p (luma c);
         Some (mem', p + 1, inbuf + 3) }) (img, 0, 0);
     Some mem }"

section \<open>Planar YUV to packed YUV\<close>

text \<open>
  The planes are copied to a fresh buffer first. \<open>alloc n\<close> says whether \<open>realloc\<close> finds \<open>n\<close> bytes; if it does not, the
  image stays as it is.
\<close>

definition YUV_2_444 :: "(int \<Rightarrow> bool) \<Rightarrow> int \<Rightarrow> int \<Rightarrow> int list \<Rightarrow> int list option" where
  "YUV_2_444 alloc image_width image_height img =
     (let size = to_u32 (image_width * image_height); bytes = to_u32 (size * 3) in
      if alloc bytes then do {
        Buff \<leftarrow> rd_seq img 0 (nat bytes);
        (mem, rest) \<leftarrow> repeatM (nat size) (\<lambda>(mem, p, Ytmp, Cbtmp, Crtmp). do {
            y \<leftarrow> rd Buff Ytmp;
            cb \<leftarrow> rd Buff Cbtmp;
            cr \<leftarrow> rd Buff Crtmp;
            mem' \<leftarrow> wr_seq mem p [y, cb, cr];
            Some (mem', p + 3, Ytmp + 1, Cbtmp + 1, Crtmp + 1) })
          (img, 0, 0, nat size, nat (to_u32 (size * 2)));
        Some mem }
      else Some img)"

definition yuv_422_group :: "int list \<Rightarrow> int list \<times> nat \<times> nat \<times> nat \<times> nat \<Rightarrow> (int list \<times> nat \<times> nat \<times> nat \<times> nat) option" where
  "yuv_422_group Buff = (\<lambda>(mem, p, Ytmp, Cbtmp, Crtmp). do {
     y \<leftarrow> rd Buff Ytmp;
     cb \<leftarrow> rd Buff Cbtmp;
     y1 \<leftarrow> rd Buff (Ytmp + 1);
     cr \<leftarrow> rd Buff Crtmp;
     mem' \<leftarrow> wr_seq mem p [y, cb, y1, cr];
     Some (mem', p + 4, Ytmp + 2, Cbtmp + 1, Crtmp + 1) })"

definition YUV_2_422 :: "(int \<Rightarrow> bool) \<Rightarrow> int \<Rightarrow> int \<Rightarrow> int list \<Rightarrow> int list option" where
  "YUV_2_422 alloc image_width image_height img =
     (let size = to_u32 (image_width * image_height); bytes = to_u32 (size * 2) in
      if alloc bytes then do {
        Buff \<leftarrow> rd_seq img 0 (nat bytes);
        (mem, rest) \<leftarrow> repeatM (nat size) (yuv_422_group Buff)
          (img, 0, 0, nat size, nat size + nat (size div 2));
        Some mem }
      else Some img)"

text \<open>The loops count up to the sizes in steps of two.\<close>

definition yuv_group :: "int list \<Rightarrow> int list \<times> nat \<times> nat \<times> nat \<times> nat \<times> nat \<Rightarrow> (int list \<times> nat \<times> nat \<times> nat \<times> nat \<times> nat) option" where
  "yuv_group Buff = (\<lambda>(mem, p, Ytmp, Y2tmp, Cbtmp, Crtmp). do {
     y \<leftarrow> rd Buff Ytmp;
     y' \<leftarrow> rd Buff (Ytmp + 1);
     y2 \<leftarrow> rd Buff Y2tmp;
     y2' \<leftarrow> rd Buff (Y2tmp + 1);
     cb \<leftarrow> rd Buff Cbtmp;
     cr \<leftarrow> rd Buff Crtmp;
     mem' \<leftarrow> wr_seq mem p [y, y', y2, y2', cb, cr];
     Some (mem', p + 6, Ytmp + 2, Y2tmp + 2, Cbtmp + 1, Crtmp + 1) })"

definition YUV_2_420 :: "(int \<Rightarrow> bool) \<Rightarrow> int \<Rightarrow> int \<Rightarrow> int list \<Rightarrow> int list option" where
  "YUV_2_420 alloc image_width image_height img =
     (let size = to_u32 (image_width * image_height); bytes = to_u32 (size * 3) div 2 in
      if alloc bytes then do {
        Buff \<leftarrow> rd_seq img 0 (nat bytes);
        (mem, rest) \<leftarrow> repeatM (nat ((image_height + 1) div 2)) (\<lambda>s. do {
            (mem, p, Ytmp, Y2tmp, Cbtmp, Crtmp) \<leftarrow> repeatM (nat ((image_width + 1) div 2)) (yuv_group Buff) s;
            Some (mem, p, Ytmp + nat image_width, Y2tmp + nat image_width, Cbtmp, Crtmp) })
          (img, 0, 0, nat image_width, nat size, nat size + nat (size div 2 ^ 2));
        Some mem }
      else Some img)"

section \<open>Conversions in place\<close>

text \<open>
  A loop that writes \<open>w\<close> bytes per step and, at step \<open>t\<close>, reads nothing before place \<open>w * t\<close> works as if it wrote
  to another buffer.
\<close>

lemma in_place:
  assumes body: "\<And>t mem. t < n \<Longrightarrow> length mem = length img \<Longrightarrow> drop (w * t) mem = drop (w * t) img \<Longrightarrow>
      body (mem, aux t) = Some (take (w * t) mem @ G t @ drop (w * t + w) mem, aux (Suc t))"
    and G: "\<And>t. t < n \<Longrightarrow> length (G t) = w" and "w * n \<le> length img"
  shows "repeatM n body (img, aux 0) = Some (concat (map G [0..<n]) @ drop (w * n) img, aux n)"
proof -
  define I where "I t s \<longleftrightarrow> s = (concat (map G [0..<t]) @ drop (w * t) img, aux t)" for t s
  have len: "length (concat (map G [0..<t])) = w * t" if "t \<le> n" for t
    using that
  proof (induction t)
    case (Suc t)
    then show ?case using G [of t] by simp
  qed simp
  have "\<exists>s'. repeatM n body (img, aux 0) = Some s' \<and> I n s'"
  proof (rule repeatM_invariant)
    show "I 0 (img, aux 0)" by (simp add: I_def)
  next
    fix t s assume t: "t < n" and "I t s"
    then have s: "s = (concat (map G [0..<t]) @ drop (w * t) img, aux t)" by (simp add: I_def)
    have "w * Suc t \<le> w * n" using t by (intro mult_le_mono2) simp
    then have "w * t \<le> length img" using assms(3) by simp
    with t len [of t] have "body s = Some (concat (map G [0..<t]) @ G t @ drop (w * t + w) img, aux (Suc t))"
      unfolding s by (subst body) (simp_all add: add.commute [of w])
    then show "\<exists>s'. body s = Some s' \<and> I (Suc t) s'" by (simp add: I_def add.commute)
  qed
  then show ?thesis by (simp add: I_def)
qed

lemma nth_concat_blocks:
  assumes "\<And>t. t < n \<Longrightarrow> length (G t) = w" and "t < n"
  shows "take w (drop (w * t) (concat (map G [0..<n]) @ rest)) = G t"
proof -
  have len: "length (concat (map G [0..<k])) = w * k" if "k \<le> n" for k
    using that by (induction k) (simp_all add: assms(1))
  obtain k where "n = t + Suc k" using assms(2) less_imp_Suc_add by auto
  then have "[0..<n] = [0..<t] @ t # [Suc t..<n]" using upt_add_eq_append [of 0 t "Suc k"] by (simp add: upt_conv_Cons)
  then have "concat (map G [0..<n]) = concat (map G [0..<t]) @ G t @ concat (map G [Suc t..<n])" by simp
  with len [of t] assms show ?thesis by simp
qed

definition pixel :: "int list \<Rightarrow> nat \<Rightarrow> rgb" where
  "pixel img p = (img ! (p + 2), img ! (p + 1), img ! p)"

lemma rd_rgb_drop:
  assumes "drop k mem = drop k img" and "length mem = length img" and "k \<le> p" and "p + 2 < length img"
  shows "rd_rgb mem p = Some (pixel img p)"
proof -
  have "mem ! i = img ! i" if "k \<le> i" "i < length img" for i
  proof -
    have "mem ! i = drop k mem ! (i - k)" "img ! i = drop k img ! (i - k)" using that assms(2) by simp_all
    with assms(1) show ?thesis by simp
  qed
  then show ?thesis using assms by (simp add: rd_rgb_def pixel_def)
qed

text \<open>Group \<open>t\<close> of the packed 420 image: the pixels of a square of side two, in an image of \<open>2 * W\<close> columns.\<close>

definition group_pos :: "nat \<Rightarrow> nat \<Rightarrow> nat \<Rightarrow> nat" where
  "group_pos bpp W t = bpp * ((t div W) * (4 * W) + 2 * (t mod W))"

definition group_420 :: "nat \<Rightarrow> nat \<Rightarrow> int list \<Rightarrow> nat \<Rightarrow> int list" where
  "group_420 bpp W img t =
     (let a = group_pos bpp W t; b = a + bpp * (2 * W)
      in [luma (pixel img a), luma (pixel img (a + bpp)), luma (pixel img b), luma (pixel img (b + bpp)),
          chroma_b (pixel img a), chroma_r (pixel img a)])"

lemma next_group_pos:
  assumes "0 < W" and "int bpp * (2 * int W) < 2 ^ 32"
  shows "next_group bpp (2 * int W) (group_pos bpp W t, group_pos bpp W t + bpp * (2 * W), int (t mod W)) =
     (group_pos bpp W (Suc t), group_pos bpp W (Suc t) + bpp * (2 * W), int (Suc t mod W))"
proof -
  have w: "nat (to_u32 (2 * int W * int bpp)) = bpp * (2 * W)"
  proof -
    have "to_u32 (2 * int W * int bpp) = int (bpp * (2 * W))"
      using assms(2) by (subst to_u32_id) (simp_all add: mult.commute mult.left_commute)
    then show ?thesis by (simp only: nat_int)
  qed
  show ?thesis
  proof (cases "Suc (t mod W) = W")
    case True
    then have "Suc t mod W = 0" "Suc t div W = Suc (t div W)" using assms(1) by (simp_all add: mod_Suc div_Suc)
    then have g: "group_pos bpp W (Suc t) = group_pos bpp W t + 2 * bpp + bpp * (2 * W)"
    proof -
      have "4 * W + X = X + 2 * (t mod W) + 2 + 2 * W" for X using True by simp
      then have "bpp * (4 * W + X) = bpp * (X + 2 * (t mod W) + 2 + 2 * W)" for X by (rule arg_cong)
      from this [of "t div W * (4 * W)"] show ?thesis
        using \<open>Suc t mod W = 0\<close> \<open>Suc t div W = Suc (t div W)\<close> unfolding group_pos_def by (simp add: distrib_left)
    qed
    have "2 * int W div 2 \<le> int (t mod W) + 1" using True by linarith
    then show ?thesis using \<open>Suc t mod W = 0\<close> unfolding next_group_def w g by simp
  next
    case False
    then have "Suc t mod W = Suc (t mod W)" "Suc t div W = t div W" using assms(1) by (simp_all add: mod_Suc div_Suc)
    then have g: "group_pos bpp W (Suc t) = group_pos bpp W t + 2 * bpp"
      unfolding group_pos_def by (simp add: algebra_simps)
    have "Suc (t mod W) < W" using False assms(1) by (metis Suc_lessI mod_less_divisor)
    then have "\<not> 2 * int W div 2 \<le> int (t mod W) + 1" by linarith
    then show ?thesis using \<open>Suc t mod W = Suc (t mod W)\<close> unfolding next_group_def w g by simp
  qed
qed

lemma group_pos_ge: "6 * t \<le> group_pos bpp W t" if "3 \<le> bpp"
proof -
  have "t div W * W + t mod W = t" by simp
  moreover have "(t div W) * (4 * W) = 4 * (t div W * W)" by simp
  ultimately have "2 * t \<le> (t div W) * (4 * W) + 2 * (t mod W)" by linarith
  with that have "3 * (2 * t) \<le> bpp * ((t div W) * (4 * W) + 2 * (t mod W))" by (intro mult_le_mono)
  then show ?thesis by (simp add: group_pos_def)
qed

lemma group_pos_less:
  assumes "t < W * H"
  shows "group_pos bpp W t + bpp * (2 * W) + 2 * bpp \<le> bpp * (2 * W * (2 * H))"
proof -
  have W: "0 < W" using assms by (cases W) auto
  have "t div W < H" using assms by (simp add: less_mult_imp_div_less mult.commute)
  then have "(t div W + 1) * (4 * W) \<le> H * (4 * W)" by (intro mult_le_mono1) simp
  moreover have "Suc (t mod W) \<le> W" using W by (simp add: Suc_leI)
  ultimately have "(t div W) * (4 * W) + 2 * (t mod W) + 2 * W + 2 \<le> 2 * W * (2 * H)" by (simp add: algebra_simps)
  then have "bpp * ((t div W) * (4 * W) + 2 * (t mod W) + 2 * W + 2) \<le> bpp * (2 * W * (2 * H))" by (rule mult_le_mono2)
  then show ?thesis by (simp add: group_pos_def distrib_left mult.commute)
qed

lemma rgb_groups:
  assumes "3 \<le> bpp" and "bpp \<le> 4" and "bpp * (2 * W * (2 * H)) \<le> length img" and "int bpp * (2 * int W) < 2 ^ 32"
  shows "repeatM (W * H) (rgb_group bpp (2 * int W)) (img, 0, 0, bpp * (2 * W), 0) =
     Some (concat (map (group_420 bpp W img) [0..<W * H]) @ drop (6 * (W * H)) img,
       6 * (W * H), group_pos bpp W (W * H), group_pos bpp W (W * H) + bpp * (2 * W), int (W * H mod W))"
proof -
  let ?aux = "\<lambda>t. (6 * t, group_pos bpp W t, group_pos bpp W t + bpp * (2 * W), int (t mod W))"
  have "repeatM (W * H) (rgb_group bpp (2 * int W)) (img, ?aux 0) =
      Some (concat (map (group_420 bpp W img) [0..<W * H]) @ drop (6 * (W * H)) img, ?aux (W * H))"
  proof (rule in_place)
    fix t mem assume t: "t < W * H" and mem: "length mem = length img" "drop (6 * t) mem = drop (6 * t) img"
    have W: "0 < W" using t by (cases W) auto
    note le = group_pos_ge [OF assms(1), of t W] and lt = group_pos_less [OF t, of bpp]
    have fits: "group_pos bpp W t + bpp * (2 * W) + bpp + 2 < length img" using lt assms(1,3) by simp
    have p: "rd_rgb mem (group_pos bpp W t) = Some (pixel img (group_pos bpp W t))"
      "rd_rgb mem (group_pos bpp W t + bpp) = Some (pixel img (group_pos bpp W t + bpp))"
      "rd_rgb mem (group_pos bpp W t + bpp * (2 * W)) = Some (pixel img (group_pos bpp W t + bpp * (2 * W)))"
      "rd_rgb mem (group_pos bpp W t + bpp * (2 * W) + bpp) = Some (pixel img (group_pos bpp W t + bpp * (2 * W) + bpp))"
      by (rule rd_rgb_drop [OF mem(2,1)], use le fits in linarith, use fits in linarith)+
    have "2 * bpp \<le> bpp * (2 * W)" using W by (simp add: mult.commute [of 2 bpp])
    then have "6 * t + 6 \<le> length mem" using le fits assms(1) mem(1) by linarith
    then have "wr_seq mem (6 * t) (group_420 bpp W img t) = Some (take (6 * t) mem @ group_420 bpp W img t @ drop (6 * t + 6) mem)"
      by (subst wr_seq_in) (simp_all add: group_420_def Let_def numeral_eq_Suc)
    then show "rgb_group bpp (2 * int W) (mem, ?aux t) = Some (take (6 * t) mem @ group_420 bpp W img t @ drop (6 * t + 6) mem, ?aux (Suc t))"
      unfolding rgb_group_def using p next_group_pos [OF W assms(4), of t] by (simp add: group_420_def Let_def del: wr_seq.simps)
  next
    show "length (group_420 bpp W img t) = 6" for t by (simp add: group_420_def Let_def)
  next
    show "6 * (W * H) \<le> length img"
    proof -
      have "3 * (2 * W * (2 * H)) \<le> bpp * (2 * W * (2 * H))" using assms(1) by (rule mult_le_mono1)
      moreover have "2 * W * (2 * H) = 4 * (W * H)" by simp
      ultimately show ?thesis using assms(3) by linarith
    qed
  qed
  then show ?thesis by (simp add: group_pos_def)
qed

section \<open>Properties\<close>

lemma to_u32_times: "int a * int b < 2 ^ 32 \<Longrightarrow> nat (to_u32 (int a * int b)) = a * b"
  by (subst to_u32_id) (simp_all add: nat_mult_distrib)

lemma group_count: "int (2 * W) * int (2 * H) < 2 ^ 32 \<Longrightarrow> nat (to_u32 (int (2 * W) * int (2 * H)) div 2 ^ 2) = W * H"
  by (subst to_u32_id) (simp_all add: nat_mult_distrib)

lemma RGB_2_420_eq:
  assumes "int (2 * W) * int (2 * H) < 2 ^ 32" and "int (2 * W) * 3 < 2 ^ 32" and "3 * (2 * W * (2 * H)) \<le> length img"
  shows "RGB_2_420 (int (2 * W)) (int (2 * H)) img = Some (concat (map (group_420 3 W img) [0..<W * H]) @ drop (6 * (W * H)) img)"
proof -
  have w: "nat (to_u32 (int (2 * W) * 3)) = 3 * (2 * W)" using assms(2) by (subst to_u32_id) simp_all
  show ?thesis
    using rgb_groups [of 3 W H img] assms group_count [OF assms(1)] w by (simp add: RGB_2_420_def del: to_u32_id)
qed

lemma RGB32_2_420_eq:
  assumes "int (2 * W) * int (2 * H) < 2 ^ 32" and "int (2 * W) * 4 < 2 ^ 32" and "4 * (2 * W * (2 * H)) \<le> length img"
  shows "RGB32_2_420 (int (2 * W)) (int (2 * H)) img = Some (concat (map (group_420 4 W img) [0..<W * H]) @ drop (6 * (W * H)) img)"
proof -
  have w: "nat (to_u32 (int (2 * W) * 4)) = 4 * (2 * W)" using assms(2) by (subst to_u32_id) simp_all
  show ?thesis
    using rgb_groups [of 4 W H img] assms group_count [OF assms(1)] w by (simp add: RGB32_2_420_def del: to_u32_id)
qed

text \<open>C33: converting an RGB image of even size in place gives the packed 420 image of the
  original pixels, for three and for four bytes per pixel: no group is computed from bytes that were already overwritten, and nothing
  behind the image is touched.\<close>

theorem rgb_to_420_in_place:
  assumes "int (2 * W) * int (2 * H) < 2 ^ 32" and "int (2 * W) * 4 < 2 ^ 32"
    and "length img24 = 3 * (2 * W * (2 * H))" and "length img32 = 4 * (2 * W * (2 * H))"
  shows "RGB_2_420 (int (2 * W)) (int (2 * H)) img24 = Some (concat (map (group_420 3 W img24) [0..<W * H]) @ drop (6 * (W * H)) img24) \<and>
      RGB32_2_420 (int (2 * W)) (int (2 * H)) img32 = Some (concat (map (group_420 4 W img32) [0..<W * H]) @ drop (6 * (W * H)) img32)"
  using RGB_2_420_eq [of W H img24] RGB32_2_420_eq [of W H img32] assms by simp

theorem rgb_to_420_in_place_witness:
  "RGB_2_420 (int (2 * 1)) (int (2 * 1)) (replicate 12 200) =
     Some (concat (map (group_420 3 1 (replicate 12 200)) [0..<1 * 1]) @ drop (6 * (1 * 1)) (replicate 12 200))"
  using rgb_to_420_in_place [of 1 1 "replicate 12 200" "replicate 16 0"] by simp

text \<open>The conversion to 444 keeps the size of the image, the one to grey scale leaves a third of it.\<close>

lemma RGB_2_444_eq:
  assumes "int w * int h < 2 ^ 32" and "3 * (w * h) \<le> length img"
  defines "G \<equiv> \<lambda>t. [luma (pixel img (3 * t)), chroma_b (pixel img (3 * t)), chroma_r (pixel img (3 * t))]"
  shows "RGB_2_444 (int w) (int h) img = Some (concat (map G [0..<w * h]) @ drop (3 * (w * h)) img)"
proof -
  let ?body = "\<lambda>(mem, p). do { c \<leftarrow> rd_rgb mem p; mem' \<leftarrow> wr_seq mem p [luma c, chroma_b c, chroma_r c]; Some (mem', p + 3) }"
  have "repeatM (w * h) ?body (img, 3 * 0) = Some (concat (map G [0..<w * h]) @ drop (3 * (w * h)) img, 3 * (w * h))"
  proof (rule in_place [where aux = "\<lambda>t. 3 * t"])
    fix t mem assume t: "t < w * h" and mem: "length mem = length img" "drop (3 * t) mem = drop (3 * t) img"
    have len: "3 * t + 3 \<le> length img" using t assms(2) by linarith
    have "rd_rgb mem (3 * t) = Some (pixel img (3 * t))" by (rule rd_rgb_drop [OF mem(2,1)]) (use len in linarith)+
    moreover have "wr_seq mem (3 * t) (G t) = Some (take (3 * t) mem @ G t @ drop (3 * t + 3) mem)"
      using len mem(1) by (subst wr_seq_in) (simp_all add: G_def numeral_eq_Suc)
    ultimately show "?body (mem, 3 * t) = Some (take (3 * t) mem @ G t @ drop (3 * t + 3) mem, 3 * Suc t)"
      by (simp add: G_def del: wr_seq.simps)
  qed (use assms(2) in \<open>simp_all add: G_def\<close>)
  then show ?thesis using to_u32_times [OF assms(1)] by (simp add: RGB_2_444_def del: wr_seq.simps)
qed

lemma RGB_2_400_eq:
  assumes "int w * int h < 2 ^ 32" and "3 * (w * h) \<le> length img"
  shows "RGB_2_400 (int w) (int h) img = Some (map (\<lambda>t. luma (pixel img (3 * t))) [0..<w * h] @ drop (w * h) img)"
proof -
  let ?body = "\<lambda>(mem, p, inbuf). do { c \<leftarrow> rd_rgb mem inbuf; mem' \<leftarrow> wr mem p (luma c); Some (mem', p + 1, inbuf + 3) }"
  have "repeatM (w * h) ?body (img, 0, 3 * 0) =
      Some (concat (map (\<lambda>t. [luma (pixel img (3 * t))]) [0..<w * h]) @ drop (1 * (w * h)) img, w * h, 3 * (w * h))"
  proof (rule in_place [where aux = "\<lambda>t. (t, 3 * t)"])
    fix t mem assume t: "t < w * h" and mem: "length mem = length img" "drop (1 * t) mem = drop (1 * t) img"
    have len: "3 * t + 3 \<le> length img" using t assms(2) by linarith
    have "rd_rgb mem (3 * t) = Some (pixel img (3 * t))" by (rule rd_rgb_drop [OF mem(2,1)]) (use len in linarith)+
    moreover have "t < length mem" using len mem(1) by linarith
    ultimately show "?body (mem, t, 3 * t) = Some (take (1 * t) mem @ [luma (pixel img (3 * t))] @ drop (1 * t + 1) mem, Suc t, 3 * Suc t)"
      by (simp add: upd_conv_take_nth_drop)
  qed (use assms(2) in simp_all)
  then show ?thesis using to_u32_times [OF assms(1)] by (simp add: RGB_2_400_def concat_map_singleton)
qed

lemma rgb_422_moves:
  "repeatM n rgb_422_group (mem, p, inbuf) = Some s \<Longrightarrow> 0 < n \<Longrightarrow> inbuf + 6 * n \<le> length mem"
proof (induction n arbitrary: mem p inbuf)
  case (Suc n)
  then obtain c c1 mem' where *: "rd_rgb mem inbuf = Some c" "rd_rgb mem (inbuf + 3) = Some c1"
    "wr_seq mem p [luma c, chroma_b c, luma c1, chroma_r c] = Some mem'"
    and rest: "repeatM n rgb_422_group (mem', p + 4, inbuf + 6) = Some s"
    by (auto simp: rgb_422_group_def simp del: wr_seq.simps split: bind_splits)
  have "inbuf + 5 < length mem" using *(2) by (auto simp: rd_rgb_def rd_Some_iff split: bind_splits)
  moreover have "length mem' = length mem" using *(3) arr.fill_extent [of _ _ mem mem'] by (simp only: wr_seq_fill)
  ultimately show ?case using Suc.IH [OF rest] by (cases n) auto
qed simp

lemma yuv_422_moves:
  "repeatM n (yuv_422_group Buff) (mem, p, ytmp, cbtmp, crtmp) = Some s \<Longrightarrow>
   0 < n \<Longrightarrow> p + 4 * n \<le> length mem"
proof (induction n arbitrary: mem p ytmp cbtmp crtmp)
  case (Suc n)
  then obtain vs mem' where *: "wr_seq mem p vs = Some mem'" "length vs = 4"
    and rest: "repeatM n (yuv_422_group Buff) (mem', p + 4, ytmp + 2, cbtmp + 1, crtmp + 1) = Some s"
    by (auto simp: yuv_422_group_def simp del: wr_seq.simps split: bind_splits)
  have "p + 4 \<le> length mem" using *(1,2) by (auto simp: wr_seq_Some_iff)
  moreover have "length mem' = length mem" using *(1) arr.fill_extent [of _ _ mem mem'] by (simp only: wr_seq_fill)
  ultimately show ?case using Suc.IH [OF rest] by (cases n) auto
qed simp

text \<open>The 422 conversion runs once per pixel although each run takes two pixels, so every
  non-empty image makes it read and write behind the
  buffer that holds it; the conversion from planar YUV has the same fault.\<close>

theorem rgb_to_422_overruns:
  assumes "0 < w" and "0 < h" and "int w * int h < 2 ^ 32" and "length img = 3 * (w * h)"
    and "length planes = 2 * (w * h)" and "\<forall>n. alloc n"
  shows "RGB_2_422 (int w) (int h) img = None \<and> YUV_2_422 alloc (int w) (int h) planes = None"
proof
  note n = to_u32_times [OF assms(3)]
  have pos: "0 < w * h" using assms(1,2) by simp
  have "repeatM (w * h) rgb_422_group (img, 0, 0) = None"
    using rgb_422_moves [of "w * h" img 0 0] assms(4) pos by (cases "repeatM (w * h) rgb_422_group (img, 0, 0)") fastforce+
  then show "RGB_2_422 (int w) (int h) img = None" by (simp add: RGB_2_422_def n)
  have "repeatM (w * h) (yuv_422_group Buff) (planes, 0, a, b, c) = None" for Buff a b c
    using yuv_422_moves [of "w * h" Buff planes 0 a b c] assms(5) pos
    by (cases "repeatM (w * h) (yuv_422_group Buff) (planes, 0, a, b, c)") fastforce+
  then show "YUV_2_422 alloc (int w) (int h) planes = None"
    using assms(6) by (simp add: YUV_2_422_def Let_def n)
qed

theorem rgb_to_422_overruns_witness: "RGB_2_422 (int 2) (int 1) (replicate 6 7) = None"
  using rgb_to_422_overruns [of 2 1 "replicate 6 7" "replicate 4 7" "\<lambda>n. True"] by simp

text \<open>The conversion from RGB565 takes red and green of the fourth pixel of a group from the row above, so that
  a pure green pixel there is converted like a black one.\<close>

theorem rgb565_drops_pixel:
  "map_option (take 6) (RGB565_2_420 2 2 [0, 0, 0, 0, 0, 0, 0xE0, 0x07]) =
     map_option (take 6) (RGB565_2_420 2 2 [0, 0, 0, 0, 0, 0, 0, 0]) \<and>
   rd_rgb565 [0xE0, 0x07] 0 = Some (0, 252, 0)"
  by (simp add: RGB565_2_420_def rgb565_group_def rd_rgb565_def to_u32_def numeral_eq_Suc)

end
