(* ===== verification/Jpeg_Encoder.thy ===== *)
theory Jpeg_Encoder
  imports Jpeg_Scan Jpeg_Dct Jpeg_Mcu Jpeg_Colour
begin

text \<open>
  \<open>encode_image\<close> of \<open>input_gspcav1/encoder.c\<close> and the functions that compose the components of the encoder: the
  colour conversions, the control structure, the header, and the loop that reads, transforms, quantises and
  codes one MCU after the other. A \<open>coder\<close> holds the globals of the file that the loop changes: the blocks of samples, the
  block \<open>Temp\<close>, the control structure, and the output register with the bytes written so far. The function pointer
  \<open>read_format\<close> is a value of function type.
\<close>

record coder =
  samples :: "plane \<Rightarrow> int list"
  temp_block :: "int list"
  encoder :: jpeg_encoder
  stream :: bitstream

type_synonym reader_function = "int list \<Rightarrow> jpeg_encoder \<Rightarrow> nat \<Rightarrow> (plane \<Rightarrow> int list) \<Rightarrow> (plane \<Rightarrow> int list) option"

section \<open>The code\<close>

definition initialization :: "jpeg_encoder \<Rightarrow> int \<Rightarrow> int \<Rightarrow> int \<Rightarrow> jpeg_encoder \<times> reader_function" where
  "initialization je image_format image_width image_height =
     (let (mcuw, mcuh, hmcus, vmcus, bytes_per_pixel, read_format) =
        (if image_format = FOUR_ZERO_ZERO \<or> image_format = FOUR_FOUR_FOUR
         then (8, 8, to_u16 (to_u32 (image_width + 8 - 1) div 2 ^ 3), to_u16 (to_u32 (image_height + 8 - 1) div 2 ^ 3),
               if image_format = FOUR_ZERO_ZERO then 1 else 3,
               if image_format = FOUR_ZERO_ZERO then read_400_format else read_444_format)
         else if image_format = FOUR_TWO_ZERO
         then (16, 16, to_u16 (to_u32 (image_width + 16 - 1) div 2 ^ 4), to_u16 (to_u32 (image_height + 16 - 1) div 2 ^ 4),
               3, read_420_format)
         else (16, 8, to_u16 (to_u32 (image_width + 16 - 1) div 2 ^ 4), to_u16 (to_u32 (image_height + 8 - 1) div 2 ^ 3),
               2, read_422_format));
      right = to_u16 (image_width - (hmcus - 1) * mcuw)
      in (je\<lparr>mcu_width := mcuw, mcu_height := mcuh, horizontal_mcus := hmcus, vertical_mcus := vmcus,
            rows_in_bottom_mcus := to_u16 (image_height - (vmcus - 1) * mcuh),
            cols_in_right_mcus := right,
            length_minus_mcu_width := to_u16 ((image_width - mcuw) * bytes_per_pixel),
            length_minus_width := to_u16 ((image_width - right) * bytes_per_pixel),
            mcu_width_size := to_u16 (mcuw * bytes_per_pixel),
            offset := (if image_format \<noteq> FOUR_TWO_ZERO
              then to_u16 ((image_width * (mcuh - 1) - (mcuw - right)) * bytes_per_pixel)
              else to_u16 ((image_width * (mcuh div 2 - 1) - (mcuw - right)) * bytes_per_pixel)),
            ldc1 := 0, ldc2 := 0, ldc3 := 0\<rparr>, read_format))"

text \<open>\<open>DCT(Y); quantization(Y, table); output_ptr = huffman(\<dots>)\<close>\<close>

definition code_block :: "int list \<Rightarrow> nat \<Rightarrow> plane \<Rightarrow> coder \<Rightarrow> coder option" where
  "code_block quant_table component a s = do {
     data \<leftarrow> DCT (samples s a);
     t \<leftarrow> quantization data quant_table (temp_block s);
     (je, b) \<leftarrow> huffman (encoder s) component t (stream s);
     Some \<lparr>samples = (samples s)(a := data), temp_block = t, encoder = je, stream = b\<rparr> }"

definition encodeMCU :: "quant_tables \<Rightarrow> int \<Rightarrow> coder \<Rightarrow> coder option" where
  "encodeMCU q image_format s = do {
     s \<leftarrow> code_block (ILqt q) 1 Y1 s;
     if image_format = FOUR_ZERO_ZERO then Some s
     else do {
       s \<leftarrow> code_block (ILqt q) 1 Y2 s;
       s \<leftarrow> (if image_format = FOUR_TWO_TWO then Some s
            else do {
              s \<leftarrow> code_block (ILqt q) 1 Y3 s;
              code_block (ILqt q) 1 Y4 s });
       s \<leftarrow> code_block (ICqt q) 2 CB s;
       code_block (ICqt q) 3 CR s } }"

text \<open>
  The iterations of the two loops; both counters start at 1 and the last MCU of a row, or the last row, is
  treated apart.
\<close>

definition mcu_step :: "reader_function \<Rightarrow> int list \<Rightarrow> quant_tables \<Rightarrow> int \<Rightarrow> nat \<Rightarrow> nat \<times> coder \<Rightarrow> (nat \<times> coder) option" where
  "mcu_step read_format img q image_format j = (\<lambda>(input, s). do {
     let je = encoder s;
     let je = (if int j < horizontal_mcus je
       then je\<lparr>cols := mcu_width je, incr := length_minus_mcu_width je\<rparr>
       else je\<lparr>cols := cols_in_right_mcus je, incr := length_minus_width je\<rparr>);
     blocks \<leftarrow> read_format img je input (samples s);
     s' \<leftarrow> encodeMCU q image_format (s\<lparr>samples := blocks, encoder := je\<rparr>);
     Some (input + nat (mcu_width_size (encoder s')), s') })"

definition row_step :: "reader_function \<Rightarrow> int list \<Rightarrow> quant_tables \<Rightarrow> int \<Rightarrow> nat \<Rightarrow> nat \<times> coder \<Rightarrow> (nat \<times> coder) option" where
  "row_step read_format img q image_format i = (\<lambda>(input, s). do {
     let je = encoder s;
     let je = je\<lparr>rows := (if int i < vertical_mcus je then mcu_height je else rows_in_bottom_mcus je)\<rparr>;
     (input', s') \<leftarrow> forM [1..<nat (horizontal_mcus je) + 1] (mcu_step read_format img q image_format) (input, s\<lparr>encoder := je\<rparr>);
     Some (input' + nat (offset (encoder s')), s') })"

abbreviation (input) RGBto444 :: int where "RGBto444 \<equiv> 4"
abbreviation (input) RGBto422 :: int where "RGBto422 \<equiv> 5"
abbreviation (input) RGBto420 :: int where "RGBto420 \<equiv> 6"
abbreviation (input) RGBto400 :: int where "RGBto400 \<equiv> 7"
abbreviation (input) YUVto444 :: int where "YUVto444 \<equiv> 8"
abbreviation (input) YUVto422 :: int where "YUVto422 \<equiv> 9"
abbreviation (input) YUVto420 :: int where "YUVto420 \<equiv> 10"
abbreviation (input) RGB565to420 :: int where "RGB565to420 \<equiv> 11"
abbreviation (input) RGB32to420 :: int where "RGB32to420 \<equiv> 12"

text \<open>The \<open>switch\<close> that brings the image into one of the packed formats.\<close>

definition to_packed :: "(int \<Rightarrow> bool) \<Rightarrow> int \<Rightarrow> int \<Rightarrow> int \<Rightarrow> int list \<Rightarrow> (int \<times> int list) option" where
  "to_packed alloc image_format w h img =
     (if image_format = RGBto444 then map_option (Pair FOUR_FOUR_FOUR) (RGB_2_444 w h img)
      else if image_format = RGBto422 then map_option (Pair FOUR_TWO_TWO) (RGB_2_422 w h img)
      else if image_format = RGBto420 then map_option (Pair FOUR_TWO_ZERO) (RGB_2_420 w h img)
      else if image_format = RGB565to420 then map_option (Pair FOUR_TWO_ZERO) (RGB565_2_420 w h img)
      else if image_format = RGB32to420 then map_option (Pair FOUR_TWO_ZERO) (RGB32_2_420 w h img)
      else if image_format = RGBto400 then map_option (Pair FOUR_ZERO_ZERO) (RGB_2_400 w h img)
      else if image_format = YUVto444 then map_option (Pair FOUR_FOUR_FOUR) (YUV_2_444 alloc w h img)
      else if image_format = YUVto422 then map_option (Pair FOUR_TWO_TWO) (YUV_2_422 alloc w h img)
      else if image_format = YUVto420 then map_option (Pair FOUR_TWO_ZERO) (YUV_2_420 alloc w h img)
      else Some (image_format, img))"

text \<open>
  The globals on entry are arbitrary: \<open>q0\<close>, the blocks and \<open>Temp\<close> are what earlier calls left, and the control
  structure on the stack is not initialised. The result is the encoded image; the code returns its length. The
  counters of the loops are 16 bits wide: the code relies on fewer than 65535 MCUs per row and column.
\<close>

definition encode_image :: "(int \<Rightarrow> bool) \<Rightarrow> quant_tables \<Rightarrow> coder \<Rightarrow> int list \<Rightarrow> int \<Rightarrow> int \<Rightarrow> int \<Rightarrow> int \<Rightarrow> u8 list option" where
  "encode_image alloc q0 s0 img quality_factor image_format image_width image_height = do {
     (fmt, img') \<leftarrow> to_packed alloc image_format image_width image_height img;
     let (je, read_format) = initialization (encoder s0) fmt image_width image_height;
     q \<leftarrow> initialize_quantization_tables quality_factor q0;
     header \<leftarrow> write_markers q fmt image_width image_height;
     (input, s) \<leftarrow> forM [1..<nat (vertical_mcus je) + 1] (row_step read_format img' q fmt)
       (0, s0\<lparr>encoder := je, stream := \<lparr>lcode = 0, bitindex = 0, out = header\<rparr>\<rparr>);
     Some (close_bitstream (stream s)) }"

end
