(* ===== verification/Jpeg_Pipeline.thy ===== *)
theory Jpeg_Pipeline
  imports Jpeg_Encoder
begin

text \<open>
  The encoder end to end. For packed 420 images whose sizes are multiples of 16 (the sizes of the cameras the plugin
  drives) the theory follows \<open>encode_image\<close> through all its MCUs and shows that the result is a
  JPEG file whose decoding gives back the quantised coefficients of every block of the image.
\<close>

section \<open>Quantised blocks\<close>

definition recip_ok :: "int list \<Rightarrow> bool" where
  "recip_ok iqt \<longleftrightarrow> length iqt = 64 \<and> (\<forall>i<64. 1 \<le> iqt ! i \<and> iqt ! i \<le> 32767)"

definition coded_block :: "int list \<Rightarrow> int list \<Rightarrow> int list \<Rightarrow> bool" where
  "coded_block iqt data t \<longleftrightarrow> length t = 64 \<and>
     (\<forall>v<8. \<forall>u<8. t ! (zigzag_table ! (8 * v + u)) = quantize (dct_coeff data v u) (iqt ! (8 * v + u)))"

lemma reciprocal_recip_ok:
  assumes "reciprocal_of iqt qt" and "length iqt = 64"
  shows "recip_ok iqt"
proof -
  have "1 \<le> iqt ! i \<and> iqt ! i \<le> 32767" if "i < 64" for i
  proof -
    let ?v = "qt ! (zigzag_table ! i)"
    have v: "1 \<le> ?v" "?v \<le> 255" "iqt ! i = 32767 div ?v"
      using assms(1) that by (auto simp: reciprocal_of_def Let_def)
    have "32767 div 255 \<le> 32767 div ?v" using v by (intro zdiv_mono2) auto
    moreover have "32767 div ?v \<le> 32767 div 1" using v by (intro zdiv_mono2) auto
    ultimately show ?thesis using v(3) by simp
  qed
  with assms(2) show ?thesis by (simp add: recip_ok_def)
qed

text \<open>Quantising moves a coefficient towards zero.\<close>

lemma quantize_towards_zero:
  assumes "1 \<le> r" and "r \<le> 32767" and "\<bar>d\<bar> \<le> 1024"
  shows "(if 0 \<le> d then 0 else d) \<le> quantize d r" "quantize d r \<le> (if 0 \<le> d then d else 0)"
proof -
  let ?y = "d * r + 0x4000"
  have "(if 0 \<le> d then 0 else d) * 2 ^ 15 \<le> ?y"
  proof (cases "0 \<le> d")
    case False
    then have "0 \<le> (- d) * (32768 - r)" using assms(2) by (intro mult_nonneg_nonneg) simp_all
    then have "d * 32768 \<le> d * r" by (simp add: right_diff_distrib)
    moreover have "(2::int) ^ 15 = 32768" by simp
    ultimately show ?thesis using False by (simp only: if_False)
  qed (use assms(1) in simp)
  moreover have "?y < ((if 0 \<le> d then d else 0) + 1) * 2 ^ 15"
  proof (cases "0 \<le> d")
    case True
    then have "0 \<le> d * (32768 - r)" using assms(2) by simp
    with True show ?thesis by (simp add: algebra_simps)
  next
    case False
    then have "d * r \<le> 0" using assms(1) by (simp add: mult_nonpos_nonneg)
    with False show ?thesis by simp
  qed
  ultimately have b: "(if 0 \<le> d then 0 else d) \<le> ?y div 2 ^ 15" "?y div 2 ^ 15 \<le> (if 0 \<le> d then d else 0)"
    by (auto intro!: div_bounds)
  then have "i16_range (?y div 2 ^ 15)" using assms(3) by (auto simp: i16_range_def split: if_splits)
  then have "quantize d r = ?y div 2 ^ 15" by (simp add: quantize_def)
  with b show "(if 0 \<le> d then 0 else d) \<le> quantize d r" "quantize d r \<le> (if 0 \<le> d then d else 0)" by simp_all
qed

lemma quantize_range:
  assumes "1 \<le> r" "r \<le> 32767" and "lo \<le> d" "d \<le> hi" and "-1024 \<le> lo" "lo \<le> 0" "0 \<le> hi" "hi \<le> 1024"
  shows "lo \<le> quantize d r \<and> quantize d r \<le> hi"
proof -
  have "\<bar>d\<bar> \<le> 1024" using assms(3-) by linarith
  from quantize_towards_zero [OF assms(1,2) this] assms(3-) show ?thesis by (simp split: if_splits)
qed

lemma zigzag_0: "zigzag_table ! 0 = 0"
  by (simp add: zigzag_table_def)

lemma zigzag_pos: "0 < k \<Longrightarrow> k < 64 \<Longrightarrow> \<exists>i. 0 < i \<and> i < 64 \<and> zigzag_table ! i = k"
proof -
  assume k: "0 < k" "k < 64"
  then have "k \<in> (!) zigzag_table ` {..<64}" by (simp add: zigzag_surj)
  then obtain i where i: "i < 64" "zigzag_table ! i = k" by auto
  then have "0 < i" using k zigzag_0 by (cases i) auto
  with i show ?thesis by blast
qed

lemma coded_block_bounds:
  assumes t: "coded_block iqt data t" and "shifted_block data" and r: "recip_ok iqt"
  shows "-1024 \<le> hd t" "hd t \<le> 1016" "\<forall>c \<in> set (tl t). \<bar>c\<bar> < 2 ^ 10"
proof -
  have len: "length t = 64" using t by (simp add: coded_block_def)
  have at: "t ! (zigzag_table ! i) = quantize (dct_coeff data (i div 8) (i mod 8)) (iqt ! i)" if "i < 64" for i
  proof -
    have "i div 8 < 8" "i mod 8 < 8" "8 * (i div 8) + i mod 8 = i" using that by auto
    with t show ?thesis unfolding coded_block_def by metis
  qed
  have rr: "1 \<le> iqt ! i" "iqt ! i \<le> 32767" if "i < 64" for i using r that by (simp_all add: recip_ok_def)
  have 0: "t ! 0 = quantize (dct_coeff data 0 0) (iqt ! 0)" using at [of 0] zigzag_0 by simp
  have "-1024 \<le> dct_coeff data 0 0" "dct_coeff data 0 0 \<le> 1016" using dct_coeff_bounds [OF assms(2), of 0 0] by simp_all
  with quantize_range [OF rr [of 0], of "-1024" "dct_coeff data 0 0" 1016] 0 have "-1024 \<le> t ! 0" "t ! 0 \<le> 1016"
    by simp_all
  moreover have "hd t = t ! 0" using len by (cases t) auto
  ultimately show "-1024 \<le> hd t" "hd t \<le> 1016" by simp_all
  have ac: "\<bar>t ! k\<bar> < 2 ^ 10" if "0 < k" "k < 64" for k
  proof -
    from zigzag_pos [OF that] obtain i where i: "0 < i" "i < 64" "zigzag_table ! i = k" by blast
    have "i div 8 < 8" "i mod 8 < 8" "\<not> (i div 8 = 0 \<and> i mod 8 = 0)" using i by auto
    with dct_coeff_bounds [OF assms(2), of "i div 8" "i mod 8"]
    have "-1020 \<le> dct_coeff data (i div 8) (i mod 8)" "dct_coeff data (i div 8) (i mod 8) \<le> 1020" by (simp_all del: div_eq_0_iff)
    with quantize_range [OF rr [OF i(2)], of "-1020" "dct_coeff data (i div 8) (i mod 8)" 1020] at [OF i(2)] i(3)
    have "-1020 \<le> t ! k \<and> t ! k \<le> 1020" by simp
    then show ?thesis by (simp add: abs_less_iff)
  qed
  show "\<forall>c \<in> set (tl t). \<bar>c\<bar> < 2 ^ 10"
  proof
    fix c assume "c \<in> set (tl t)"
    then obtain k where "k < length (tl t)" "c = tl t ! k" by (metis in_set_conv_nth)
    then show "\<bar>c\<bar> < 2 ^ 10" using ac [of "Suc k"] len by (simp add: nth_tl)
  qed
qed

section \<open>One block\<close>

lemma last_dc_set: "last_dc c' (set_dc c v je) = (if (c' = 1) = (c = 1) \<and> (c' = 2) = (c = 2) then v else last_dc c' je)"
  by (simp add: last_dc_def set_dc_def)

text \<open>The encoder state after a list of blocks, as a decoder tracks it.\<close>

fun dc_after :: "jpeg_encoder \<Rightarrow> (nat \<times> int list) list \<Rightarrow> jpeg_encoder" where
  "dc_after je [] = je"
| "dc_after je ((c, t) # bl) = dc_after (set_dc c (hd t) je) bl"

lemma dc_after_snoc: "dc_after je (bl @ [(c, t)]) = set_dc c (hd t) (dc_after je bl)"
  by (induction je bl rule: dc_after.induct) simp_all

lemma decode_scan_append:
  "decode_scan je (cs @ cs') bits =
     do { (ts, rest) \<leftarrow> decode_scan je cs bits;
          (ts', rest') \<leftarrow> decode_scan (dc_after je (zip cs ts)) cs' rest;
          Some (ts @ ts', rest') }"
proof (induction cs arbitrary: je bits)
  case Nil
  show ?case by (cases "decode_scan je cs' bits") auto
next
  case (Cons c cs)
  show ?case
    by (cases "decode_block c (last_dc c je) bits") (auto simp: Cons.IH split: Option.bind_splits)
qed

lemma decode_scan_snoc:
  assumes "decode_scan je (map fst bl) bits = Some (map snd bl, rest)"
    and "decode_block c (last_dc c (dc_after je bl)) rest = Some (t, rest')"
  shows "decode_scan je (map fst (bl @ [(c, t)])) bits = Some (map snd (bl @ [(c, t)]), rest')"
  using assms by (simp add: decode_scan_append zip_map_fst_snd)

text \<open>
  \<open>progress\<close>: the blocks coded so far can be decoded from the bits that the output represents, whatever follows
  them, and the encoder remembers the DC values that a decoder knows.
\<close>

definition progress :: "u8 list \<Rightarrow> (nat \<times> int list) list \<Rightarrow> coder \<Rightarrow> bool" where
  "progress hdr bl s \<longleftrightarrow>
     (\<exists>bits. represents hdr (stream s) bits \<and>
        (\<forall>rest. decode_scan zero_encoder (map fst bl) (bits @ rest) = Some (map snd bl, rest))) \<and>
     (\<forall>c. last_dc c (encoder s) = last_dc c (dc_after zero_encoder bl)) \<and>
     (\<forall>c. -1024 \<le> last_dc c (encoder s) \<and> last_dc c (encoder s) \<le> 1016) \<and>
     (\<forall>a. length (samples s a) = 64) \<and> length (temp_block s) = 64"

lemma coded_block_exists:
  assumes "length data = 64" and "recip_ok iqt" and "length temp = 64"
  shows "\<exists>data' t. DCT data = Some data' \<and> length data' = 64 \<and> quantization data' iqt temp = Some t \<and> coded_block iqt data t"
proof -
  from DCT_eq [OF assms(1)] obtain d where d: "DCT data = Some d" "length d = 64"
    "\<forall>v<8. \<forall>u<8. d ! (8 * v + u) = dct_coeff data v u" by auto
  from quantization_spec [of d iqt temp] d(2) assms(2,3) obtain t where t: "quantization d iqt temp = Some t" "length t = 64"
    "\<forall>i<64. t ! (zigzag_table ! i) = quantize (d ! i) (iqt ! i)" by (auto simp: recip_ok_def)
  have "coded_block iqt data t"
    unfolding coded_block_def
  proof (intro conjI allI impI)
    fix v u :: nat assume "v < 8" "u < 8"
    then have "8 * v + u < 64" by simp
    with t(3) d(3) \<open>v < 8\<close> \<open>u < 8\<close> show "t ! (zigzag_table ! (8 * v + u)) = quantize (dct_coeff data v u) (iqt ! (8 * v + u))"
      by auto
  qed (rule t(2))
  with d(1,2) t(1) show ?thesis by blast
qed

lemma progress_block:
  assumes p: "progress hdr bl s" and sh: "shifted_block (samples s a)" and r: "recip_ok iqt"
  shows "\<exists>s' t. code_block iqt c a s = Some s' \<and> coded_block iqt (samples s a) t \<and> progress hdr (bl @ [(c, t)]) s' \<and>
     encoder s' = set_dc c (hd t) (encoder s) \<and> (\<forall>b. b \<noteq> a \<longrightarrow> samples s' b = samples s b)"
proof -
  from p obtain bits where bits: "represents hdr (stream s) bits"
      "\<And>rest. decode_scan zero_encoder (map fst bl) (bits @ rest) = Some (map snd bl, rest)"
    and dc: "\<And>c. last_dc c (encoder s) = last_dc c (dc_after zero_encoder bl)"
      "\<And>c. -1024 \<le> last_dc c (encoder s)" "\<And>c. last_dc c (encoder s) \<le> 1016"
    and len: "\<And>a. length (samples s a) = 64" "length (temp_block s) = 64"
    by (auto simp: progress_def)
  from coded_block_exists [OF len(1) r len(2), of a] obtain d t where
    d: "DCT (samples s a) = Some d" "length d = 64" "quantization d iqt (temp_block s) = Some t" "coded_block iqt (samples s a) t"
    by blast
  note b = coded_block_bounds [OF d(4) sh r]
  have t: "length t = 64" using d(4) by (simp add: coded_block_def)
  have "\<bar>hd t - last_dc c (encoder s)\<bar> < 2 ^ 11" using b(1,2) dc(2,3) [of c] by (simp add: abs_less_iff)
  then have cod: "codable (last_dc c (encoder s)) t" using b(3) t by (simp add: codable_def)
  from huffman_represents [OF bits(1) cod] obtain s1 where
    h: "huffman (encoder s) c t (stream s) = Some (set_dc c (hd t) (encoder s), s1)"
      "represents hdr s1 (bits @ block_bits c (hd t - last_dc c (encoder s)) (tl t))" by blast
  let ?s' = "\<lparr>samples = (samples s)(a := d), temp_block = t, encoder = set_dc c (hd t) (encoder s), stream = s1\<rparr>"
  have step: "code_block iqt c a s = Some ?s'" using d h by (simp add: code_block_def)
  have "decode_scan zero_encoder (map fst (bl @ [(c, t)])) ((bits @ block_bits c (hd t - last_dc c (encoder s)) (tl t)) @ rest) =
      Some (map snd (bl @ [(c, t)]), rest)" for rest
    by (rule decode_scan_snoc, simp add: bits(2), use decode_block_bits [OF cod, of c rest] dc(1) in simp)
  moreover have "last_dc c' (encoder ?s') = last_dc c' (dc_after zero_encoder (bl @ [(c, t)]))" for c'
    by (simp add: dc_after_snoc last_dc_set dc(1))
  moreover have "-1024 \<le> last_dc c' (encoder ?s') \<and> last_dc c' (encoder ?s') \<le> 1016" for c'
    using dc(2,3) b(1,2) by (simp add: last_dc_set)
  ultimately have "progress hdr (bl @ [(c, t)]) ?s'"
    unfolding progress_def using h(2) len t d(2) by (auto simp del: append_assoc)
  with step d(4) show ?thesis by (intro exI [of _ ?s'] exI [of _ t]) simp
qed

section \<open>One MCU\<close>

definition mcu_blocks :: "(plane \<Rightarrow> int list) \<Rightarrow> (nat \<times> int list) list" where
  "mcu_blocks T = [(1, T Y1), (1, T Y2), (1, T Y3), (1, T Y4), (2, T CB), (3, T CR)]"

definition quant_table_of :: "quant_tables \<Rightarrow> plane \<Rightarrow> int list" where
  "quant_table_of q a = (if a = CB \<or> a = CR then ICqt q else ILqt q)"

text \<open>The control structure without the DC values.\<close>

definition geometry :: "jpeg_encoder \<Rightarrow> jpeg_encoder" where
  "geometry je = je\<lparr>ldc1 := 0, ldc2 := 0, ldc3 := 0\<rparr>"

lemma geometry_set_dc [simp]: "geometry (set_dc c v je) = geometry je"
  by (simp add: geometry_def set_dc_def)

lemma encodeMCU_420:
  assumes p: "progress hdr bl s" and sh: "\<And>a. shifted_block (samples s a)"
    and q: "recip_ok (ILqt q)" "recip_ok (ICqt q)"
  shows "\<exists>s' T. encodeMCU q FOUR_TWO_ZERO s = Some s' \<and> progress hdr (bl @ mcu_blocks T) s' \<and>
     geometry (encoder s') = geometry (encoder s) \<and> (\<forall>a. coded_block (quant_table_of q a) (samples s a) (T a))"
proof -
  from progress_block [OF p sh q(1)] obtain s1 t1 where 1: "code_block (ILqt q) 1 Y1 s = Some s1"
    "coded_block (ILqt q) (samples s Y1) t1" "progress hdr (bl @ [(1, t1)]) s1"
    "encoder s1 = set_dc 1 (hd t1) (encoder s)" "\<forall>b. b \<noteq> Y1 \<longrightarrow> samples s1 b = samples s b" by blast
  from progress_block [OF 1(3) _ q(1), of Y2 1] 1(5) sh obtain s2 t2 where 2: "code_block (ILqt q) 1 Y2 s1 = Some s2"
    "coded_block (ILqt q) (samples s Y2) t2" "progress hdr (bl @ [(1, t1), (1, t2)]) s2"
    "encoder s2 = set_dc 1 (hd t2) (encoder s1)" "\<forall>b. b \<notin> {Y1, Y2} \<longrightarrow> samples s2 b = samples s b" by auto
  from progress_block [OF 2(3) _ q(1), of Y3 1] 2(5) sh obtain s3 t3 where 3: "code_block (ILqt q) 1 Y3 s2 = Some s3"
    "coded_block (ILqt q) (samples s Y3) t3" "progress hdr (bl @ [(1, t1), (1, t2), (1, t3)]) s3"
    "encoder s3 = set_dc 1 (hd t3) (encoder s2)" "\<forall>b. b \<notin> {Y1, Y2, Y3} \<longrightarrow> samples s3 b = samples s b" by auto
  from progress_block [OF 3(3) _ q(1), of Y4 1] 3(5) sh obtain s4 t4 where 4: "code_block (ILqt q) 1 Y4 s3 = Some s4"
    "coded_block (ILqt q) (samples s Y4) t4" "progress hdr (bl @ [(1, t1), (1, t2), (1, t3), (1, t4)]) s4"
    "encoder s4 = set_dc 1 (hd t4) (encoder s3)" "\<forall>b. b \<notin> {Y1, Y2, Y3, Y4} \<longrightarrow> samples s4 b = samples s b" by auto
  from progress_block [OF 4(3) _ q(2), of CB 2] 4(5) sh obtain s5 t5 where 5: "code_block (ICqt q) 2 CB s4 = Some s5"
    "coded_block (ICqt q) (samples s CB) t5" "progress hdr (bl @ [(1, t1), (1, t2), (1, t3), (1, t4), (2, t5)]) s5"
    "encoder s5 = set_dc 2 (hd t5) (encoder s4)" "\<forall>b. b \<notin> {Y1, Y2, Y3, Y4, CB} \<longrightarrow> samples s5 b = samples s b" by auto
  from progress_block [OF 5(3) _ q(2), of CR 3] 5(5) sh obtain s6 t6 where 6: "code_block (ICqt q) 3 CR s5 = Some s6"
    "coded_block (ICqt q) (samples s CR) t6" "progress hdr (bl @ [(1, t1), (1, t2), (1, t3), (1, t4), (2, t5), (3, t6)]) s6"
    "encoder s6 = set_dc 3 (hd t6) (encoder s5)" by auto
  define T where "T a = (case a of Y1 \<Rightarrow> t1 | Y2 \<Rightarrow> t2 | Y3 \<Rightarrow> t3 | Y4 \<Rightarrow> t4 | CB \<Rightarrow> t5 | CR \<Rightarrow> t6)" for a
  have "encodeMCU q FOUR_TWO_ZERO s = Some s6" unfolding encodeMCU_def using 1(1) 2(1) 3(1) 4(1) 5(1) 6(1) by simp
  moreover have "progress hdr (bl @ mcu_blocks T) s6" using 6(3) by (simp add: mcu_blocks_def T_def)
  moreover have "geometry (encoder s6) = geometry (encoder s)" using 1(4) 2(4) 3(4) 4(4) 5(4) 6(4) by simp
  moreover have "coded_block (quant_table_of q a) (samples s a) (T a)" for a
    using 1(2) 2(2) 3(2) 4(2) 5(2) 6(2) by (cases a) (simp_all add: quant_table_of_def T_def)
  ultimately show ?thesis by blast
qed

section \<open>The image\<close>

text \<open>
  Block \<open>a\<close> of the MCU \<open>(i, j)\<close> of a packed 420 image with \<open>16 * m\<close> columns: the MCU
  begins behind \<open>i\<close> rows of MCUs, of \<open>384 * m\<close> bytes each, and a pair of rows takes \<open>48 * m\<close> bytes.
\<close>

definition image_block :: "int list \<Rightarrow> nat \<Rightarrow> nat \<Rightarrow> nat \<Rightarrow> plane \<Rightarrow> int list" where
  "image_block img m i j a = map (block_420 img (384 * m * i + 48 * j) (48 * m) a) [0..<64]"

lemma block_420_shifted:
  assumes "\<forall>b \<in> set img. 0 \<le> b \<and> b < 256" and "input + 7 * row_len + 48 \<le> length img" and "k < 64"
  shows "shifted (block_420 img input row_len a k)"
proof -
  have at: "shifted (img ! n - 128)" if "n < length img" for n
    using assms(1) nth_mem [OF that] by (auto simp: shifted_def)
  have row: "y * row_len \<le> 7 * row_len" if "y \<le> 7" for y using that by (rule mult_le_mono1)
  have luma: "shifted (luma_420 img input row_len y x)" if "y < 16" "x < 16" for y x
  proof -
    have "y div 2 \<le> 7" "x div 2 \<le> 7" "y mod 2 \<le> 1" "x mod 2 \<le> 1" using that by auto
    with row [of "y div 2"] assms(2) show ?thesis unfolding luma_420_def by (intro at) linarith
  qed
  have chroma: "shifted (chroma_420 img input row_len c y x)" if "c \<le> 1" "y < 8" "x < 8" for c y x
    using row [of y] that assms(2) unfolding chroma_420_def by (intro at) linarith
  have "k div 8 < 8" "k mod 8 < 8" using assms(3) by auto
  then show ?thesis by (cases a) (auto intro!: luma chroma)
qed

lemma image_block_shifted:
  assumes "\<forall>b \<in> set img. 0 \<le> b \<and> b < 256" and "length img = 384 * m * n" and "i < n" and "j < m"
  shows "shifted_block (image_block img m i j a)"
proof -
  have "384 * m * Suc i \<le> 384 * m * n" using assms(3) by (intro mult_le_mono2) simp
  then have "384 * m * i + 48 * j + 7 * (48 * m) + 48 \<le> length img" using assms(2,4) by simp
  with assms(1) block_420_shifted show ?thesis by (auto simp: shifted_block_def image_block_def)
qed

definition geo_420 :: "nat \<Rightarrow> nat \<Rightarrow> jpeg_encoder \<Rightarrow> bool" where
  "geo_420 m n je \<longleftrightarrow> mcu_width je = 16 \<and> mcu_height je = 16 \<and> horizontal_mcus je = int m \<and> vertical_mcus je = int n \<and>
     rows_in_bottom_mcus je = 16 \<and> cols_in_right_mcus je = 16 \<and>
     length_minus_mcu_width je = int (48 * m - 48) \<and> length_minus_width je = int (48 * m - 48) \<and>
     mcu_width_size je = 48 \<and> offset je = int (336 * m)"

lemma geo_420_geometry: "geo_420 m n (geometry je) = geo_420 m n je"
  by (simp add: geo_420_def geometry_def)

lemma rows_geometry: "rows (geometry je) = rows je"
  by (simp add: geometry_def)

lemma initialization_420_eq:
  assumes "to_u16 (to_u32 (w + 16 - 1) div 2 ^ 4) = M" and "to_u16 (to_u32 (h + 16 - 1) div 2 ^ 4) = N"
    and "to_u16 (h - (N - 1) * 16) = 16" and "to_u16 (w - (M - 1) * 16) = 16"
    and "to_u16 ((w - 16) * 3) = L" and "to_u16 (w * 7 * 3) = F"
  shows "initialization je FOUR_TWO_ZERO w h =
     (je\<lparr>mcu_width := 16, mcu_height := 16, horizontal_mcus := M, vertical_mcus := N,
        rows_in_bottom_mcus := 16, cols_in_right_mcus := 16, length_minus_mcu_width := L, length_minus_width := L,
        mcu_width_size := 48, offset := F, ldc1 := 0, ldc2 := 0, ldc3 := 0\<rparr>, read_420_format)"
proof -
  have "to_u16 (16 * 3) = 48" by (simp add: to_u16_def)
  with assms show ?thesis unfolding initialization_def Let_def by simp
qed

lemma initialization_420:
  assumes "0 < m" "m \<le> 195" "0 < n" "n \<le> 4095"
  shows "\<exists>je'. initialization je FOUR_TWO_ZERO (int (16 * m)) (int (16 * n)) = (je', read_420_format) \<and>
     geo_420 m n je' \<and> (\<forall>c. last_dc c je' = 0)"
proof -
  have d: "to_u16 (to_u32 (int (16 * m) + 16 - 1) div 2 ^ 4) = int m" "to_u16 (to_u32 (int (16 * n) + 16 - 1) div 2 ^ 4) = int n"
    using assms by (simp_all add: to_u32_def to_u16_def)
  have e: "to_u16 (int (16 * n) - (int n - 1) * 16) = 16" "to_u16 (int (16 * m) - (int m - 1) * 16) = 16"
    by (simp_all add: left_diff_distrib to_u16_def)
  have f: "to_u16 ((int (16 * m) - 16) * 3) = int (48 * m - 48)" using assms by (simp add: to_u16_def of_nat_diff)
  have g: "to_u16 (int (16 * m) * 7 * 3) = int (336 * m)" using assms by (simp add: to_u16_def)
  show ?thesis
    unfolding initialization_420_eq [OF d e f g] by (simp add: geo_420_def last_dc_def)
qed

text \<open>The state after \<open>k\<close> MCUs, numbered row by row.\<close>

definition scan_blocks :: "(nat \<Rightarrow> plane \<Rightarrow> int list) \<Rightarrow> nat \<Rightarrow> (nat \<times> int list) list" where
  "scan_blocks T k = concat (map (\<lambda>k. mcu_blocks (T k)) [0..<k])"

definition coded_upto :: "quant_tables \<Rightarrow> int list \<Rightarrow> nat \<Rightarrow> nat \<Rightarrow> (nat \<Rightarrow> plane \<Rightarrow> int list) \<Rightarrow> bool" where
  "coded_upto q img m k T \<longleftrightarrow>
     (\<forall>k'<k. \<forall>a. coded_block (quant_table_of q a) (image_block img m (k' div m) (k' mod m) a) (T k' a))"

definition mcus_done :: "quant_tables \<Rightarrow> u8 list \<Rightarrow> int list \<Rightarrow> nat \<Rightarrow> nat \<Rightarrow> nat \<Rightarrow> coder \<Rightarrow> bool" where
  "mcus_done q hdr img m n k s \<longleftrightarrow> geo_420 m n (encoder s) \<and>
     (\<exists>T. progress hdr (scan_blocks T k) s \<and> coded_upto q img m k T)"

lemma scan_blocks_cong: "(\<And>k'. k' < k \<Longrightarrow> T k' = T' k') \<Longrightarrow> scan_blocks T k = scan_blocks T' k"
  unfolding scan_blocks_def by (rule arg_cong [where f = concat]) (auto intro: map_cong)

lemma progress_update:
  assumes "progress hdr bl s" and "\<forall>a. length (blocks a) = 64" and "\<forall>c. last_dc c je = last_dc c (encoder s)"
  shows "progress hdr bl (s\<lparr>samples := blocks, encoder := je\<rparr>)"
proof -
  have "\<forall>c. -1024 \<le> last_dc c (encoder s) \<and> last_dc c (encoder s) \<le> 1016"
    "\<forall>c. last_dc c (encoder s) = last_dc c (dc_after zero_encoder bl)" using assms(1) unfolding progress_def by blast+
  then have "\<forall>c. -1024 \<le> last_dc c je \<and> last_dc c je \<le> 1016" "\<forall>c. last_dc c je = last_dc c (dc_after zero_encoder bl)"
    using assms(3) by metis+
  with assms(1,2) show ?thesis unfolding progress_def by simp
qed

lemma mcu_step_420:
  assumes st: "mcus_done q hdr img m n (i * m + j) s" and "rows (encoder s) = 16" and ij: "i < n" "j < m"
    and q: "recip_ok (ILqt q)" "recip_ok (ICqt q)"
    and img: "\<forall>b \<in> set img. 0 \<le> b \<and> b < 256" "length img = 384 * m * n"
  shows "\<exists>s'. mcu_step read_420_format img q FOUR_TWO_ZERO (Suc j) (384 * m * i + 48 * j, s) = Some (384 * m * i + 48 * Suc j, s') \<and>
     mcus_done q hdr img m n (i * m + Suc j) s' \<and> rows (encoder s') = 16"
proof -
  from st obtain T where geo: "geo_420 m n (encoder s)" and T: "progress hdr (scan_blocks T (i * m + j)) s" "coded_upto q img m (i * m + j) T"
    by (auto simp: mcus_done_def)
  define je where "je = (if int (Suc j) < horizontal_mcus (encoder s)
      then encoder s\<lparr>cols := mcu_width (encoder s), incr := length_minus_mcu_width (encoder s)\<rparr>
      else encoder s\<lparr>cols := cols_in_right_mcus (encoder s), incr := length_minus_width (encoder s)\<rparr>)"
  have je: "rows je = 16" "cols je = 16" "incr je = int (48 * m - 48)" "geo_420 m n je" "mcu_width_size je = 48"
    "\<forall>c. last_dc c je = last_dc c (encoder s)"
    using geo assms(2) by (simp_all add: je_def geo_420_def last_dc_def)
  have w: "48 + (48 * m - 48) = 48 * m" using ij(2) by simp
  have "384 * m * Suc i \<le> 384 * m * n" using ij(1) by (intro mult_le_mono2) simp
  then have len: "384 * m * i + 48 * j + 7 * (48 + (48 * m - 48)) + 48 \<le> length img" using img(2) ij(2) unfolding w by simp
  have "\<forall>a. length (samples s a) = 64" using T(1) by (simp add: progress_def)
  from read_420_reads [OF je(1-3) len this] obtain bs where bs: "read_420_format img je (384 * m * i + 48 * j) (samples s) = Some bs"
    "\<forall>a. length (bs a) = 64" "\<forall>a. \<forall>k<64. bs a ! k = block_420 img (384 * m * i + 48 * j) (48 * m) a k" unfolding w by blast
  have eq: "bs a = image_block img m i j a" for a
    by (rule nth_equalityI) (use bs in \<open>auto simp: image_block_def\<close>)
  let ?s = "s\<lparr>samples := bs, encoder := je\<rparr>"
  have "shifted_block (samples ?s a)" for a using image_block_shifted [OF img ij, of a] by (simp add: eq)
  from encodeMCU_420 [OF progress_update [OF T(1) bs(2) je(6)] this q] obtain s' T' where
    s': "encodeMCU q FOUR_TWO_ZERO ?s = Some s'" "progress hdr (scan_blocks T (i * m + j) @ mcu_blocks T') s'"
    "geometry (encoder s') = geometry (encoder ?s)" "\<forall>a. coded_block (quant_table_of q a) (samples ?s a) (T' a)" by blast
  have geo': "geo_420 m n (encoder s')" "rows (encoder s') = 16"
    using s'(3) je geo_420_geometry [of m n "encoder s'"] geo_420_geometry [of m n je]
      rows_geometry [of "encoder s'"] rows_geometry [of je] by simp_all
  have "mcu_step read_420_format img q FOUR_TWO_ZERO (Suc j) (384 * m * i + 48 * j, s) = Some (384 * m * i + 48 * Suc j, s')"
    using bs(1) s'(1) geo'(1) unfolding mcu_step_def split_conv Let_def je_def [symmetric] by (simp add: geo_420_def)
  moreover have "mcus_done q hdr img m n (i * m + Suc j) s'"
  proof -
    let ?T = "T(i * m + j := T')"
    have "scan_blocks ?T (i * m + Suc j) = scan_blocks T (i * m + j) @ mcu_blocks T'"
      using scan_blocks_cong [of "i * m + j" ?T T] by (simp add: scan_blocks_def)
    moreover have "coded_upto q img m (i * m + Suc j) ?T"
      using T(2) s'(4) ij(2) by (auto simp: coded_upto_def less_Suc_eq eq)
    ultimately show ?thesis using s'(2) geo'(1) unfolding mcus_done_def by metis
  qed
  ultimately show ?thesis using geo'(2) by blast
qed

lemma forM_Suc: "forM [1..<n + 1] body s = forM [0..<n] (\<lambda>k. body (Suc k)) s"
proof -
  have "forM (map Suc is) body s = forM is (\<lambda>k. body (Suc k)) s" for "is"
    by (induction "is" arbitrary: s) (simp_all cong: Option.bind_cong)
  moreover have "[1..<n + 1] = map Suc [0..<n]" by (simp add: map_Suc_upt del: upt_Suc)
  ultimately show ?thesis by metis
qed

lemma row_step_420:
  assumes st: "mcus_done q hdr img m n (i * m) s" and i: "i < n"
    and q: "recip_ok (ILqt q)" "recip_ok (ICqt q)"
    and img: "\<forall>b \<in> set img. 0 \<le> b \<and> b < 256" "length img = 384 * m * n"
  shows "\<exists>s'. row_step read_420_format img q FOUR_TWO_ZERO (Suc i) (384 * m * i, s) = Some (384 * m * Suc i, s') \<and>
     mcus_done q hdr img m n (Suc i * m) s'"
proof -
  define je where "je = encoder s\<lparr>rows := (if int (Suc i) < vertical_mcus (encoder s) then mcu_height (encoder s)
      else rows_in_bottom_mcus (encoder s))\<rparr>"
  from st obtain T where geo: "geo_420 m n (encoder s)" and T: "progress hdr (scan_blocks T (i * m)) s" "coded_upto q img m (i * m) T"
    by (auto simp: mcus_done_def)
  have je: "rows je = 16" "geo_420 m n je" "\<forall>c. last_dc c je = last_dc c (encoder s)" "horizontal_mcus je = int m"
    using geo by (simp_all add: je_def geo_420_def last_dc_def)
  have "progress hdr (scan_blocks T (i * m)) (s\<lparr>encoder := je\<rparr>)"
  proof -
    have "\<forall>a. length (samples s a) = 64" using T(1) unfolding progress_def by blast
    from progress_update [OF T(1) this je(3)] show ?thesis by (cases s) simp
  qed
  with T(2) je(2) have start: "mcus_done q hdr img m n (i * m) (s\<lparr>encoder := je\<rparr>)" by (auto simp: mcus_done_def)
  define I where "I j x \<longleftrightarrow> fst x = 384 * m * i + 48 * j \<and> mcus_done q hdr img m n (i * m + j) (snd x) \<and> rows (encoder (snd x)) = 16"
    for j and x :: "nat \<times> coder"
  have "\<exists>x. forM [0..<m] (\<lambda>j. mcu_step read_420_format img q FOUR_TWO_ZERO (Suc j)) (384 * m * i, s\<lparr>encoder := je\<rparr>) = Some x \<and> I m x"
  proof (rule forM_upt_invariant)
    show "I 0 (384 * m * i, s\<lparr>encoder := je\<rparr>)" using start je(1) by (simp add: I_def)
  next
    fix j x assume j: "j < m" and x: "I j x"
    obtain s1 where s1: "x = (384 * m * i + 48 * j, s1)" using x by (cases x) (simp add: I_def)
    with x mcu_step_420 [OF _ _ i j q img, of hdr s1]
    show "\<exists>x'. mcu_step read_420_format img q FOUR_TWO_ZERO (Suc j) x = Some x' \<and> I (Suc j) x'" by (force simp: I_def)
  qed
  then obtain s' where s': "forM [1..<nat (horizontal_mcus je) + 1] (mcu_step read_420_format img q FOUR_TWO_ZERO) (384 * m * i, s\<lparr>encoder := je\<rparr>) =
      Some (384 * m * i + 48 * m, s')" "mcus_done q hdr img m n (i * m + m) s'"
    unfolding forM_Suc je(4) by (auto simp: I_def)
  have "offset (encoder s') = int (336 * m)" using s'(2) by (simp add: mcus_done_def geo_420_def)
  then have "row_step read_420_format img q FOUR_TWO_ZERO (Suc i) (384 * m * i, s) = Some (384 * m * Suc i, s')"
    using s'(1) unfolding row_step_def split_conv Let_def je_def [symmetric] by simp
  with s'(2) show ?thesis by (auto simp: add.commute)
qed

lemma encode_rows_420:
  assumes st: "mcus_done q hdr img m n 0 s"
    and q: "recip_ok (ILqt q)" "recip_ok (ICqt q)"
    and img: "\<forall>b \<in> set img. 0 \<le> b \<and> b < 256" "length img = 384 * m * n"
  shows "\<exists>s'. forM [1..<n + 1] (row_step read_420_format img q FOUR_TWO_ZERO) (0, s) = Some (384 * m * n, s') \<and>
     mcus_done q hdr img m n (n * m) s'"
proof -
  define I where "I i x \<longleftrightarrow> fst x = 384 * m * i \<and> mcus_done q hdr img m n (i * m) (snd x)" for i and x :: "nat \<times> coder"
  have "\<exists>x. forM [0..<n] (\<lambda>i. row_step read_420_format img q FOUR_TWO_ZERO (Suc i)) (0, s) = Some x \<and> I n x"
  proof (rule forM_upt_invariant)
    show "I 0 (0, s)" using st by (simp add: I_def)
  next
    fix i x assume i: "i < n" and x: "I i x"
    obtain s1 where s1: "x = (384 * m * i, s1)" using x by (cases x) (simp add: I_def)
    with x row_step_420 [OF _ i q img, of hdr s1]
    show "\<exists>x'. row_step read_420_format img q FOUR_TWO_ZERO (Suc i) x = Some x' \<and> I (Suc i) x'" by (force simp: I_def)
  qed
  then show ?thesis unfolding forM_Suc by (auto simp: I_def)
qed

section \<open>The file\<close>

lemma zero_encoder_dc: "last_dc c zero_encoder = 0"
  by (simp add: zero_encoder_def last_dc_def)

lemma scan_blocks_Suc: "scan_blocks T (Suc k) = scan_blocks T k @ mcu_blocks (T k)"
  by (simp add: scan_blocks_def)

lemma scan_blocks_components: "map fst (scan_blocks T k) = concat (replicate k [1, 1, 1, 1, 2, 3])"
  by (induction k) (simp_all add: scan_blocks_def mcu_blocks_def replicate_append_same [symmetric])

definition mcu_coeffs :: "(plane \<Rightarrow> int list) \<Rightarrow> int list list" where
  "mcu_coeffs T = [T Y1, T Y2, T Y3, T Y4, T CB, T CR]"

lemma scan_coeffs: "map snd (scan_blocks T k) = concat (map (\<lambda>k. mcu_coeffs (T k)) [0..<k])"
  by (induction k) (simp_all add: scan_blocks_def mcu_blocks_def mcu_coeffs_def)

lemma progress_start:
  assumes "\<forall>a. length (samples s a) = 64" and "length (temp_block s) = 64" and "\<forall>c. last_dc c je = 0"
  shows "progress hdr [] (s\<lparr>encoder := je, stream := \<lparr>lcode = 0, bitindex = 0, out = hdr\<rparr>\<rparr>)"
proof -
  have "represents hdr \<lparr>lcode = 0, bitindex = 0, out = hdr\<rparr> []"
    unfolding represents_def by (auto intro!: exI [of _ "[]"])
  then show ?thesis
    using assms unfolding progress_def by (auto simp: zero_encoder_dc intro!: exI [of _ "[]"])
qed

text \<open>C2: for a packed 420 image of \<open>16 m\<close> by \<open>16 n\<close> pixels, \<open>encode_image\<close> stays inside the image and
  all its tables and writes a JPEG file: a reader of the standard finds the quantisation tables, the Huffman
  tables and the size of the image in the header, and behind it a scan from which it decodes, MCU by MCU and block by block, exactly the
  quantised transform of the samples at that place of the image. What the globals held before makes no difference.\<close>

theorem encode_image_420:
  assumes "0 < m" "m \<le> 195" "0 < n" "n \<le> 4095"
    and "length img = 384 * m * n" and "\<forall>b \<in> set img. 0 \<le> b \<and> b < 256"
    and "quant_sized q0" and "\<forall>a. length (samples s0 a) = 64" and "length (temp_block s0) = 64"
  shows "\<exists>jpg q bytes T pad.
     encode_image alloc q0 s0 img quality FOUR_TWO_ZERO (int (16 * m)) (int (16 * n)) = Some jpg \<and>
     initialize_quantization_tables quality q0 = Some q \<and>
     read_header jpg = Some ([(0xDB, dqt_payload q), (0xC4, dht_payload), (0xC0, sof_payload FOUR_TWO_ZERO (int (16 * m)) (int (16 * n))),
        (0xDA, sos_payload FOUR_TWO_ZERO)], stuff bytes @ [0xFF, 0xD9]) \<and>
     unstuff (stuff bytes @ [0xFF, 0xD9]) = bytes @ [0xFF, 0xD9] \<and>
     decode_scan zero_encoder (concat (replicate (n * m) [1, 1, 1, 1, 2, 3])) (bytes_bits bytes) =
       Some (concat (map (\<lambda>k. mcu_coeffs (T k)) [0..<n * m]), replicate pad False) \<and> pad < 8 \<and>
     (\<forall>i<n. \<forall>j<m. \<forall>a. coded_block (quant_table_of q a) (image_block img m i j a) (T (i * m + j) a))"
proof -
  from init_reciprocal [OF assms(7), of quality] obtain q where
    q: "initialize_quantization_tables quality q0 = Some q" "quant_sized q" "reciprocal_of (ILqt q) (Lqt q)" "reciprocal_of (ICqt q) (Cqt q)"
    by blast
  then have r: "recip_ok (ILqt q)" "recip_ok (ICqt q)" by (auto intro!: reciprocal_recip_ok simp: quant_sized_def)
  obtain je where je: "initialization (encoder s0) FOUR_TWO_ZERO (int (16 * m)) (int (16 * n)) = (je, read_420_format)"
    "geo_420 m n je" "\<forall>c. last_dc c je = 0" using initialization_420 [OF assms(1-4)] by blast
  let ?w = "int (16 * m)" and ?h = "int (16 * n)"
  have size: "0 \<le> ?w" "?w < 2 ^ 16" "0 \<le> ?h" "?h < 2 ^ 16" using assms(2,4) by simp_all
  obtain hdr where hdr: "write_markers q FOUR_TWO_ZERO ?w ?h = Some hdr"
    "\<And>data. read_header (hdr @ data) = Some ([(0xDB, dqt_payload q), (0xC4, dht_payload), (0xC0, sof_payload FOUR_TWO_ZERO ?w ?h),
        (0xDA, sos_payload FOUR_TWO_ZERO)], data)"
    using header_segments [OF q(2) size, of FOUR_TWO_ZERO] by blast
  let ?s = "s0\<lparr>encoder := je, stream := \<lparr>lcode = 0, bitindex = 0, out = hdr\<rparr>\<rparr>"
  have "mcus_done q hdr img m n 0 ?s"
    using progress_start [OF assms(8,9) je(3), of hdr] je(2) by (auto simp: mcus_done_def scan_blocks_def coded_upto_def)
  from encode_rows_420 [OF this r assms(6,5)] obtain s' T where
    s': "forM [1..<n + 1] (row_step read_420_format img q FOUR_TWO_ZERO) (0, ?s) = Some (384 * m * n, s')"
      "progress hdr (scan_blocks T (n * m)) s'" "coded_upto q img m (n * m) T" by (auto simp: mcus_done_def)
  from s'(2) obtain bits where bits: "represents hdr (stream s') bits"
    "\<And>rest. decode_scan zero_encoder (map fst (scan_blocks T (n * m))) (bits @ rest) = Some (map snd (scan_blocks T (n * m)), rest)"
    by (auto simp: progress_def)
  from close_bitstream_represents [OF bits(1)] obtain bs pad where
    bs: "close_bitstream (stream s') = hdr @ stuff bs @ [0xFF, 0xD9]" "bytes_bits bs = bits @ replicate pad False" "pad < 8" by blast
  have "nat (vertical_mcus je) = n" using je(2) by (simp add: geo_420_def)
  then have "encode_image alloc q0 s0 img quality FOUR_TWO_ZERO ?w ?h = Some (hdr @ stuff bs @ [0xFF, 0xD9])"
    using je(1) q(1) hdr(1) s'(1) bs(1) by (simp add: encode_image_def to_packed_def del: upt_Suc)
  moreover have "coded_block (quant_table_of q a) (image_block img m i j a) (T (i * m + j) a)" if "i < n" "j < m" for i j a
  proof -
    have "i * m + j < n * m" using that by (metis add_less_cancel_left less_le_trans mult_Suc add.commute Suc_leI mult_le_mono1)
    with s'(3) that show ?thesis by (auto simp: coded_upto_def)
  qed
  ultimately show ?thesis
    using q(1) hdr(2) [of "stuff bs @ [0xFF, 0xD9]"] unstuff_stuff [of bs] bits(2) [of "replicate pad False"] bs(2,3)
    unfolding scan_blocks_components scan_coeffs
    by (intro exI [of _ "hdr @ stuff bs @ [0xFF, 0xD9]"] exI [of _ q] exI [of _ bs] exI [of _ T] exI [of _ pad]) simp
qed

definition blank_coder :: coder where
  "blank_coder = \<lparr>samples = (\<lambda>a. replicate 64 0), temp_block = replicate 64 0, encoder = zero_encoder, stream = fresh\<rparr>"

theorem encode_image_420_witness:
  "\<exists>jpg q bytes T. encode_image (\<lambda>n. True) zero_tables blank_coder (replicate 768 200) 1024 FOUR_TWO_ZERO 32 16 = Some jpg \<and>
     unstuff (stuff bytes @ [0xFF, 0xD9]) = bytes @ [0xFF, 0xD9] \<and>
     coded_block (quant_table_of q Y1) (image_block (replicate 768 200) 2 0 1 Y1) (T (1::nat) Y1)"
proof -
  have *: "length (replicate 768 (200::int)) = 384 * 2 * 1" "\<forall>b \<in> set (replicate 768 (200::int)). 0 \<le> b \<and> b < 256"
    "\<forall>a. length (samples blank_coder a) = 64" "length (temp_block blank_coder) = 64"
    by (simp_all add: blank_coder_def)
  from encode_image_420 [OF _ _ _ _ *(1,2) zero_tables_sized *(3,4), of "\<lambda>n. True" 1024]
  obtain jpg q bytes T pad where
    "encode_image (\<lambda>n. True) zero_tables blank_coder (replicate 768 200) 1024 FOUR_TWO_ZERO (int (16 * 2)) (int (16 * 1)) = Some jpg"
    "unstuff (stuff bytes @ [0xFF, 0xD9]) = bytes @ [0xFF, 0xD9]"
    "\<forall>i<1. \<forall>j<2. \<forall>a. coded_block (quant_table_of q a) (image_block (replicate 768 200) 2 i j a) (T (i * 2 + j) a)"
    by auto
  then have "encode_image (\<lambda>n. True) zero_tables blank_coder (replicate 768 200) 1024 FOUR_TWO_ZERO 32 16 = Some jpg \<and>
     unstuff (stuff bytes @ [0xFF, 0xD9]) = bytes @ [0xFF, 0xD9] \<and>
     coded_block (quant_table_of q Y1) (image_block (replicate 768 200) 2 0 1 Y1) (T (1::nat) Y1)" by force
  then show ?thesis by blast
qed

text \<open>For the 444 format \<open>encodeMCU\<close> codes the same six blocks as for 420, among them \<open>Y2\<close>, \<open>Y3\<close> and
  \<open>Y4\<close>, which \<open>read_444_format\<close> does not fill, while the frame header announces three components of one block each.\<close>

theorem mcu_444_has_six_blocks:
  "encodeMCU q FOUR_FOUR_FOUR s = encodeMCU q FOUR_TWO_ZERO s \<and>
   frame_components FOUR_FOUR_FOUR = [0x01, 0x11, 0x00, 0x02, 0x11, 0x01, 0x03, 0x11, 0x01]"
  by (simp add: encodeMCU_def frame_components_def)

end
