(* ===== verification/Host_Names.thy ===== *)
theory Host_Names
  imports Clank_Prelude
begin

text \<open>
  \<open>clank/lib/hardware/SamPeripheralExtentions\<close>: the names of the peripherals of the SAM
  coprocessor and their texts, which begin every message between the host and the firmware.

  An exception of the C++ code is a value of \<open>exn\<close>: the type of the object thrown, without the
  text of its message. A function that may throw returns a sum, \<open>Inl\<close> for the exception; one that
  changes an object before it throws returns the object with an \<open>exn option\<close>.
\<close>

datatype exn =
    Runtime_error
  | Invalid_argument
  | Out_of_range
  | Runtime_error_pointer \<comment> \<open>\<open>throw new runtime_error(\<dots>)\<close>, which no handler for \<open>runtime_error\<close> catches\<close>
  | Pure_virtual_call \<comment> \<open>not an exception: a virtual function called before the derived constructor has run\<close>
  | Process_exit \<comment> \<open>not an exception either: \<open>exit\<close>, which ends the process\<close>

section \<open>Names\<close>

datatype (plugins only: code size) SamPeripheralName =
    DUMMYFIRST | ADC0 | ADC1 | ADC2 | ADC3 | ADC4 | ADC5 | ADC6 | ADC7 | ADC8 | ADC9 | ADC10 | ADC11 |
    DAC0 | DAC1 | GPIO22 | GPIO23 | GPIO24 | GPIO25 | GPIO26 | GPIO27 | GPIO28 | GPIO29 | GPIO30 | GPIO31 |
    GPIO32 | GPIO33 | GPIO34 | GPIO35 | GPIO36 | GPIO37 | GPIO38 | GPIO39 | GPIO40 | GPIO41 | GPIO42 |
    GPIO43 | GPIO44 | GPIO45 | GPIO46 | GPIO47 | GPIO48 | GPIO49 | GPIO50 | GPIO51 | GPIO52 | GPIO53 |
    CAN0 | USART0 | USART1 | USART2 | USART3 | SPI0 | TWI0 | TWI1 | PWM2 | PWM3 | PWM4 | PWM5 | PWM6 |
    PWM7 | PWM8 | PWM9 | PWM10 | PWM11 | PWM12 | PWM13 | DUMMYLAST

text \<open>The enumeration in its order, the texts, and the comparisons of the reader in the order it makes them.\<close>

definition peripheral_names :: "SamPeripheralName list" where
  "peripheral_names = [
    DUMMYFIRST, ADC0, ADC1, ADC2, ADC3, ADC4, ADC5, ADC6, ADC7, ADC8, ADC9, ADC10, ADC11, DAC0, DAC1,
    GPIO22, GPIO23, GPIO24, GPIO25, GPIO26, GPIO27, GPIO28, GPIO29, GPIO30, GPIO31, GPIO32, GPIO33, GPIO34,
    GPIO35, GPIO36, GPIO37, GPIO38, GPIO39, GPIO40, GPIO41, GPIO42, GPIO43, GPIO44, GPIO45, GPIO46, GPIO47,
    GPIO48, GPIO49, GPIO50, GPIO51, GPIO52, GPIO53, CAN0, USART0, USART1, USART2, USART3, SPI0, TWI0, TWI1,
    PWM2, PWM3, PWM4, PWM5, PWM6, PWM7, PWM8, PWM9, PWM10, PWM11, PWM12, PWM13, DUMMYLAST]"

primrec PeripheralNameToString :: "SamPeripheralName \<Rightarrow> exn + string" where
  "PeripheralNameToString DUMMYFIRST = Inl Runtime_error"
| "PeripheralNameToString DUMMYLAST = Inl Runtime_error"
| "PeripheralNameToString GPIO22 = Inr ''GPIO22''"
| "PeripheralNameToString GPIO23 = Inr ''GPIO23''"
| "PeripheralNameToString GPIO24 = Inr ''GPIO24''"
| "PeripheralNameToString GPIO25 = Inr ''GPIO25''"
| "PeripheralNameToString GPIO26 = Inr ''GPIO26''"
| "PeripheralNameToString GPIO27 = Inr ''GPIO27''"
| "PeripheralNameToString GPIO28 = Inr ''GPIO28''"
| "PeripheralNameToString GPIO29 = Inr ''GPIO29''"
| "PeripheralNameToString GPIO30 = Inr ''GPIO30''"
| "PeripheralNameToString GPIO31 = Inr ''GPIO31''"
| "PeripheralNameToString GPIO32 = Inr ''GPIO32''"
| "PeripheralNameToString GPIO33 = Inr ''GPIO33''"
| "PeripheralNameToString GPIO34 = Inr ''GPIO34''"
| "PeripheralNameToString GPIO35 = Inr ''GPIO35''"
| "PeripheralNameToString GPIO36 = Inr ''GPIO36''"
| "PeripheralNameToString GPIO37 = Inr ''GPIO37''"
| "PeripheralNameToString GPIO38 = Inr ''GPIO38''"
| "PeripheralNameToString GPIO39 = Inr ''GPIO39''"
| "PeripheralNameToString GPIO40 = Inr ''GPIO40''"
| "PeripheralNameToString GPIO41 = Inr ''GPIO41''"
| "PeripheralNameToString GPIO42 = Inr ''GPIO42''"
| "PeripheralNameToString GPIO43 = Inr ''GPIO43''"
| "PeripheralNameToString GPIO44 = Inr ''GPIO44''"
| "PeripheralNameToString GPIO45 = Inr ''GPIO45''"
| "PeripheralNameToString GPIO46 = Inr ''GPIO46''"
| "PeripheralNameToString GPIO47 = Inr ''GPIO47''"
| "PeripheralNameToString GPIO48 = Inr ''GPIO48''"
| "PeripheralNameToString GPIO49 = Inr ''GPIO49''"
| "PeripheralNameToString GPIO50 = Inr ''GPIO50''"
| "PeripheralNameToString GPIO51 = Inr ''GPIO51''"
| "PeripheralNameToString GPIO52 = Inr ''GPIO52''"
| "PeripheralNameToString GPIO53 = Inr ''GPIO53''"
| "PeripheralNameToString PWM2 = Inr ''PWM2''"
| "PeripheralNameToString PWM3 = Inr ''PWM3''"
| "PeripheralNameToString PWM4 = Inr ''PWM4''"
| "PeripheralNameToString PWM5 = Inr ''PWM5''"
| "PeripheralNameToString PWM6 = Inr ''PWM6''"
| "PeripheralNameToString PWM7 = Inr ''PWM7''"
| "PeripheralNameToString PWM8 = Inr ''PWM8''"
| "PeripheralNameToString PWM9 = Inr ''PWM9''"
| "PeripheralNameToString PWM10 = Inr ''PWM10''"
| "PeripheralNameToString PWM11 = Inr ''PWM11''"
| "PeripheralNameToString PWM12 = Inr ''PWM12''"
| "PeripheralNameToString PWM13 = Inr ''PWM13''"
| "PeripheralNameToString ADC0 = Inr ''ADC0''"
| "PeripheralNameToString ADC1 = Inr ''ADC1''"
| "PeripheralNameToString ADC2 = Inr ''ADC2''"
| "PeripheralNameToString ADC3 = Inr ''ADC3''"
| "PeripheralNameToString ADC4 = Inr ''ADC4''"
| "PeripheralNameToString ADC5 = Inr ''ADC5''"
| "PeripheralNameToString ADC6 = Inr ''ADC6''"
| "PeripheralNameToString ADC7 = Inr ''ADC7''"
| "PeripheralNameToString ADC8 = Inr ''ADC8''"
| "PeripheralNameToString ADC9 = Inr ''ADC9''"
| "PeripheralNameToString ADC10 = Inr ''ADC10''"
| "PeripheralNameToString ADC11 = Inr ''ADC11''"
| "PeripheralNameToString DAC0 = Inr ''DAC0''"
| "PeripheralNameToString DAC1 = Inr ''DAC1''"
| "PeripheralNameToString TWI0 = Inr ''TWI0''"
| "PeripheralNameToString TWI1 = Inr ''TWI1''"
| "PeripheralNameToString SPI0 = Inr ''SPI0''"
| "PeripheralNameToString USART0 = Inr ''USART0''"
| "PeripheralNameToString USART1 = Inr ''USART1''"
| "PeripheralNameToString USART2 = Inr ''USART2''"
| "PeripheralNameToString USART3 = Inr ''USART3''"
| "PeripheralNameToString CAN0 = Inr ''CAN0''"

definition name_table :: "(string \<times> SamPeripheralName) list" where
  "name_table = [
    (''GPIO22'', GPIO22), (''GPIO23'', GPIO23), (''GPIO24'', GPIO24), (''GPIO25'', GPIO25),
    (''GPIO26'', GPIO26), (''GPIO27'', GPIO27), (''GPIO28'', GPIO28), (''GPIO29'', GPIO29),
    (''GPIO30'', GPIO30), (''GPIO31'', GPIO31), (''GPIO32'', GPIO32), (''GPIO33'', GPIO33),
    (''GPIO34'', GPIO34), (''GPIO35'', GPIO35), (''GPIO36'', GPIO36), (''GPIO37'', GPIO37),
    (''GPIO38'', GPIO38), (''GPIO39'', GPIO39), (''GPIO40'', GPIO40), (''GPIO41'', GPIO41),
    (''GPIO42'', GPIO42), (''GPIO43'', GPIO43), (''GPIO44'', GPIO44), (''GPIO45'', GPIO45),
    (''GPIO46'', GPIO46), (''GPIO47'', GPIO47), (''GPIO48'', GPIO48), (''GPIO49'', GPIO49),
    (''GPIO50'', GPIO50), (''GPIO51'', GPIO51), (''GPIO52'', GPIO52), (''GPIO53'', GPIO53),
    (''PWM2'', PWM2), (''PWM3'', PWM3), (''PWM4'', PWM4), (''PWM5'', PWM5), (''PWM6'', PWM6),
    (''PWM7'', PWM7), (''PWM8'', PWM8), (''PWM9'', PWM9), (''PWM10'', PWM10), (''PWM11'', PWM11),
    (''PWM12'', PWM12), (''PWM13'', PWM13), (''ADC0'', ADC0), (''ADC1'', ADC1), (''ADC2'', ADC2),
    (''ADC3'', ADC3), (''ADC4'', ADC4), (''ADC5'', ADC5), (''ADC6'', ADC6), (''ADC7'', ADC7),
    (''ADC8'', ADC8), (''ADC9'', ADC9), (''ADC10'', ADC10), (''ADC11'', ADC11), (''DAC0'', DAC0),
    (''DAC1'', DAC1), (''TWI0'', TWI0), (''TWI1'', TWI1), (''SPI0'', SPI0), (''USART0'', USART0),
    (''USART1'', USART1), (''USART2'', USART2), (''USART3'', USART3), (''CAN0'', CAN0)]"

definition StringToPeripheralName :: "string \<Rightarrow> exn + SamPeripheralName" where
  "StringToPeripheralName input =
     (if input = ''DUMMYFIRST'' then Inl Runtime_error
      else if input = ''DUMMYLAST'' then Inl Runtime_error
      else case map_of name_table input of
             Some p \<Rightarrow> Inr p
           | None \<Rightarrow> Inl Runtime_error)"

definition real_peripheral :: "SamPeripheralName \<Rightarrow> bool" where
  "real_peripheral p \<longleftrightarrow> p \<noteq> DUMMYFIRST \<and> p \<noteq> DUMMYLAST"

text \<open>The text of a peripheral, for the places where the name is known not to be a dummy.\<close>

definition name_text :: "SamPeripheralName \<Rightarrow> string" where
  "name_text p = (case PeripheralNameToString p of Inl _ \<Rightarrow> [] | Inr s \<Rightarrow> s)"

section \<open>Facts\<close>

lemma peripheral_names_all: "p \<in> set peripheral_names"
  by (cases p) (simp_all add: peripheral_names_def)

lemma peripheral_names_checked:
  "list_all (\<lambda>p. case PeripheralNameToString p of
       Inl e \<Rightarrow> p = DUMMYFIRST \<or> p = DUMMYLAST
     | Inr s \<Rightarrow> p \<noteq> DUMMYFIRST \<and> p \<noteq> DUMMYLAST \<and> StringToPeripheralName s = Inr p \<and> s \<noteq> [] \<and>
          CHR '':'' \<notin> set s \<and> CHR 0x00 \<notin> set s \<and> CHR 0x0A \<notin> set s \<and> length s \<le> 6) peripheral_names"
  by code_simp

lemma name_table_checked:
  "list_all (\<lambda>(s, p). PeripheralNameToString p = Inr s) name_table"
  by code_simp

text \<open>What a text of the table is: short, and free of the characters the protocol gives a meaning.\<close>

definition plain_text :: "string \<Rightarrow> bool" where
  "plain_text s \<longleftrightarrow> s \<noteq> [] \<and> CHR '':'' \<notin> set s \<and> CHR 0x00 \<notin> set s \<and> CHR 0x0A \<notin> set s"

lemma PeripheralNameToString_cases:
  "case PeripheralNameToString p of
     Inl e \<Rightarrow> \<not> real_peripheral p
   | Inr s \<Rightarrow> real_peripheral p \<and> StringToPeripheralName s = Inr p \<and> plain_text s \<and> length s \<le> 6"
proof -
  have "\<forall>p \<in> set peripheral_names. case PeripheralNameToString p of
       Inl e \<Rightarrow> p = DUMMYFIRST \<or> p = DUMMYLAST
     | Inr s \<Rightarrow> p \<noteq> DUMMYFIRST \<and> p \<noteq> DUMMYLAST \<and> StringToPeripheralName s = Inr p \<and> s \<noteq> [] \<and>
          CHR '':'' \<notin> set s \<and> CHR 0x00 \<notin> set s \<and> CHR 0x0A \<notin> set s \<and> length s \<le> 6"
    using peripheral_names_checked by (simp only: list_all_iff)
  with peripheral_names_all [of p] show ?thesis
    by (auto simp: real_peripheral_def plain_text_def split: sum.splits)
qed

lemma name_text_eq: "real_peripheral p \<Longrightarrow> PeripheralNameToString p = Inr (name_text p)"
  using PeripheralNameToString_cases [of p] by (auto simp: name_text_def split: sum.splits)

lemma name_text_plain: "real_peripheral p \<Longrightarrow> plain_text (name_text p)"
  using PeripheralNameToString_cases [of p] by (auto simp: name_text_def split: sum.splits)

lemma StringToPeripheralName_text: "real_peripheral p \<Longrightarrow> StringToPeripheralName (name_text p) = Inr p"
  using PeripheralNameToString_cases [of p] by (auto simp: name_text_def split: sum.splits)

lemma StringToPeripheralName_Inr:
  assumes "StringToPeripheralName s = Inr p"
  shows "PeripheralNameToString p = Inr s"
proof -
  have "map_of name_table s = Some p"
    using assms by (auto simp: StringToPeripheralName_def split: if_splits option.splits)
  from map_of_SomeD [OF this] name_table_checked show ?thesis
    by (auto simp: list_all_iff)
qed

text \<open>The enumeration is ordered by its ordinals; \<open>std::map\<close> compares its keys with this order.\<close>

definition ordinal :: "SamPeripheralName \<Rightarrow> nat" where
  "ordinal p = length (takeWhile (\<lambda>q. q \<noteq> p) peripheral_names)"

lemma ordinal_nth: "peripheral_names ! ordinal p = p"
proof -
  let ?xs = peripheral_names and ?P = "\<lambda>q. q \<noteq> p"
  have "takeWhile ?P ?xs \<noteq> ?xs"
    using peripheral_names_all [of p] by (metis set_takeWhileD)
  then have "length (takeWhile ?P ?xs) \<noteq> length ?xs"
    by (metis takeWhile_eq_take take_all_iff order_refl)
  then have "length (takeWhile ?P ?xs) < length ?xs"
    using length_takeWhile_le [of ?P ?xs] by linarith
  from nth_length_takeWhile [OF this] show ?thesis by (simp add: ordinal_def)
qed

lemma inj_ordinal: "inj ordinal"
  by (metis injI ordinal_nth)

instantiation SamPeripheralName :: linorder
begin

definition less_eq_SamPeripheralName :: "SamPeripheralName \<Rightarrow> SamPeripheralName \<Rightarrow> bool" where
  "p \<le> q \<longleftrightarrow> ordinal p \<le> ordinal q"

definition less_SamPeripheralName :: "SamPeripheralName \<Rightarrow> SamPeripheralName \<Rightarrow> bool" where
  "p < q \<longleftrightarrow> ordinal p < ordinal q"

instance
  by standard (auto simp: less_eq_SamPeripheralName_def less_SamPeripheralName_def dest: injD [OF inj_ordinal])

end

end
