(* ===== verification/Host_Stream.thy ===== *)
theory Host_Stream
  imports Host_Names Float_Text
begin

text \<open>
  The parts of the C++ standard library the host sources use: \<open>std::getline\<close> on a string or file
  stream, \<open>std::string\<close> searches and \<open>substr\<close>, \<open>std::stod\<close> and \<open>std::to_string(double)\<close>. \<open>size_t\<close>
  has 32 bits on the host's processor.

  A stream is the text that is left, or \<open>None\<close> once its end-of-file or failure bit is set. Then
  \<open>getline\<close> fails without touching its string argument, which several callers do not notice.
\<close>

section \<open>Streams\<close>

abbreviation newline :: char where "newline \<equiv> CHR 0x0A"

type_synonym in_stream = "string option"

text \<open>The result, the string argument afterwards and the stream.\<close>

definition getline :: "char \<Rightarrow> string \<Rightarrow> in_stream \<Rightarrow> bool \<times> string \<times> in_stream" where
  "getline d token s = (case s of
       None \<Rightarrow> (False, token, None)
     | Some r \<Rightarrow> (if r = [] then (False, [], None)
         else let t = takeWhile (\<lambda>c. c \<noteq> d) r in
              (True, t, if length t < length r then Some (drop (Suc (length t)) r) else None)))"

definition stream_size :: "in_stream \<Rightarrow> nat" where
  "stream_size s = (case s of None \<Rightarrow> 0 | Some r \<Rightarrow> Suc (length r))"

lemma getline_shrinks:
  "getline d token s = (ok, t, s') \<Longrightarrow> stream_size s' \<le> stream_size s \<and> (ok \<longrightarrow> stream_size s' < stream_size s)"
  by (auto simp: getline_def stream_size_def Let_def split: option.splits if_splits)

lemmas getline_shrinks_eq = getline_shrinks [OF sym]

lemma getline_field [simp]:
  assumes "d \<notin> set f"
  shows "getline d token (Some (f @ d # r)) = (True, f, Some r)"
proof -
  have "takeWhile (\<lambda>c. c \<noteq> d) (f @ d # r) = f" using assms by (subst takeWhile_append2) auto
  then show ?thesis by (simp add: getline_def)
qed

lemma getline_field0 [simp]: "getline d token (Some (d # r)) = (True, [], Some r)"
  using getline_field [of d "[]"] by simp

lemma getline_last: "d \<notin> set f \<Longrightarrow> f \<noteq> [] \<Longrightarrow> getline d token (Some f) = (True, f, None)"
proof -
  assume "d \<notin> set f" "f \<noteq> []"
  moreover from this(1) have "takeWhile (\<lambda>c. c \<noteq> d) f = f"
    using takeWhile_append2 [of f "\<lambda>c. c \<noteq> d" "[]"] by auto
  ultimately show ?thesis by (simp add: getline_def Let_def del: takeWhile_eq_all_conv)
qed

lemma getline_None [simp]: "getline d token None = (False, token, None)"
  by (simp add: getline_def)

lemma getline_empty [simp]: "getline d token (Some []) = (False, [], None)"
  by (simp add: getline_def)

section \<open>Strings\<close>

definition npos :: int where "npos = 4294967295"

definition find_first_of :: "char \<Rightarrow> string \<Rightarrow> int" where
  "find_first_of c s = (case strchr s c of Some i \<Rightarrow> int i | None \<Rightarrow> npos)"

lemma strchr_first: "c \<notin> set a \<Longrightarrow> strchr (a @ c # r) c = Some (length a)"
  by (induction a) auto

lemma find_first_of_first: "c \<notin> set a \<Longrightarrow> find_first_of c (a @ c # r) = int (length a)"
  by (simp add: find_first_of_def strchr_first)

definition substr :: "string \<Rightarrow> int \<Rightarrow> int \<Rightarrow> exn + string" where
  "substr s pos n = (if int (length s) < pos then Inl Out_of_range
     else Inr (take (nat n) (drop (nat pos) s)))"

definition contains :: "string \<Rightarrow> string \<Rightarrow> bool" where
  "contains s pat \<longleftrightarrow> strstr s pat \<noteq> None"

text \<open>\<open>find_first_not_of(" :\t\n\r") == npos\<close>\<close>

definition blank_token :: "string \<Rightarrow> bool" where
  "blank_token s \<longleftrightarrow> list_all (\<lambda>c. c \<in> {CHR '' '', CHR '':'', CHR 0x09, CHR 0x0A, CHR 0x0D}) s"

section \<open>Numbers\<close>

definition to_string :: "cfloat \<Rightarrow> string" where
  "to_string x = fmt_fixed 6 x"

text \<open>
  \<open>stod\<close> throws \<open>invalid_argument\<close> when nothing is converted and \<open>out_of_range\<close> when \<open>strtod\<close> sets
  \<open>ERANGE\<close>: the value overflows, or it is below the normal range and inexact.
\<close>

definition stod :: "string \<Rightarrow> exn + cfloat" where
  "stod s = (if \<not> converts s then Inl Invalid_argument
     else case exact_magnitude s of
            None \<Rightarrow> Inr (strtod s)
          | Some x \<Rightarrow> (if round64 x = PInf \<or> (0 < x \<and> x < pow2 (- 1022) \<and> round64 x \<noteq> Fin x)
                      then Inl Out_of_range else Inr (strtod s)))"

section \<open>Message parsers\<close>

text \<open>
  The three \<open>ParseMessage\<close> functions of the pins are the same loop: take the next field of the
  message up to a colon; some fields announce a value, which is the field behind; some
  are skipped; any other is an error. The functions differ in what they do with a field, which is
  \<open>token_action\<close>. The second \<open>getline\<close> is not checked, so a missing value is the announcing field itself.
\<close>

datatype 's token_action =
    Skip
  | Reject
  | Value "string \<Rightarrow> 's \<times> exn option"

function token_loop :: "('s \<Rightarrow> string \<Rightarrow> 's token_action) \<Rightarrow> 's \<Rightarrow> in_stream \<Rightarrow> 's \<times> exn option" where
  "token_loop act obj s = (case getline CHR '':'' [] s of (ok, token, s1) \<Rightarrow>
     if \<not> ok then (obj, None)
     else case act obj token of
            Skip \<Rightarrow> token_loop act obj s1
          | Reject \<Rightarrow> (obj, Some Runtime_error)
          | Value k \<Rightarrow> (case getline CHR '':'' token s1 of (_, v, s2) \<Rightarrow>
              (case k v of
                 (obj', Some e) \<Rightarrow> (obj', Some e)
               | (obj', None) \<Rightarrow> token_loop act obj' s2)))"
  by pat_completeness auto
termination
  by (relation "measure (\<lambda>(act, obj, s). stream_size s)")
    (auto dest!: getline_shrinks_eq)

declare token_loop.simps [simp del]

definition parse_tokens :: "('s \<Rightarrow> string \<Rightarrow> 's token_action) \<Rightarrow> 's \<Rightarrow> string \<Rightarrow> 's \<times> exn option" where
  "parse_tokens act obj message = (case getline CHR '':'' [] (Some message) of (_, _, s) \<Rightarrow> token_loop act obj s)"

lemma token_loop_end [simp]: "token_loop act obj (Some []) = (obj, None)" "token_loop act obj None = (obj, None)"
  by (simp_all add: token_loop.simps)

lemma token_loop_skip:
  "CHR '':'' \<notin> set t \<Longrightarrow> act obj t = Skip \<Longrightarrow> token_loop act obj (Some (t @ CHR '':'' # r)) = token_loop act obj (Some r)"
  by (subst token_loop.simps) simp

lemma token_loop_value:
  "CHR '':'' \<notin> set t \<Longrightarrow> CHR '':'' \<notin> set v \<Longrightarrow> act obj t = Value k \<Longrightarrow>
   token_loop act obj (Some (t @ CHR '':'' # v @ CHR '':'' # r)) =
     (case k v of (obj', Some e) \<Rightarrow> (obj', Some e) | (obj', None) \<Rightarrow> token_loop act obj' (Some r))"
  by (subst token_loop.simps) simp

text \<open>A message ends in a newline behind its last colon.\<close>

lemma token_loop_newline: "act obj [CHR 0x0A] = Skip \<Longrightarrow> token_loop act obj (Some [CHR 0x0A]) = (obj, None)"
  by (subst token_loop.simps) (simp add: getline_last)

lemma parse_tokens_named:
  "CHR '':'' \<notin> set n \<Longrightarrow> parse_tokens act obj (n @ CHR '':'' # r) = token_loop act obj (Some r)"
  by (simp add: parse_tokens_def)

lemma token_loop_keeps:
  "P obj \<Longrightarrow> (\<And>obj t k v. act obj t = Value k \<Longrightarrow> P obj \<Longrightarrow> P (fst (k v))) \<Longrightarrow> P (fst (token_loop act obj s))"
proof (induction act obj s rule: token_loop.induct)
  case (1 act obj s)
  note P = 1(3) and keeps = 1(4)
  obtain ok t s1 where g: "getline CHR '':'' [] s = (ok, t, s1)" by (metis prod_cases3)
  show ?case
  proof (cases "ok")
    case False
    with g P show ?thesis by (subst token_loop.simps) simp
  next
    case True
    then have ok: "\<not> \<not> ok" by simp
    show ?thesis
    proof (cases "act obj t")
      case Skip
      have "P (fst (token_loop act obj s1))"
        by (rule 1(1) [OF g [symmetric] refl ok Skip P]) (rule keeps)
      with g True Skip show ?thesis by (subst token_loop.simps) simp
    next
      case Reject
      with g P show ?thesis by (subst token_loop.simps) simp
    next
      case (Value k)
      obtain ok2 v s2 where g2: "getline CHR '':'' t s1 = (ok2, v, s2)" by (metis prod_cases3)
      obtain obj' e where k: "k v = (obj', e)" by fastforce
      have P': "P obj'" using keeps [OF Value P, of v] k by simp
      show ?thesis
      proof (cases e)
        case None
        have "P (fst (token_loop act obj' s2))"
          by (rule 1(2) [OF g [symmetric] refl ok Value g2 [symmetric] refl k [symmetric] None P']) (rule keeps)
        with g True Value g2 k None show ?thesis by (subst token_loop.simps) simp
      next
        case (Some x)
        with g True Value g2 k P' show ?thesis by (subst token_loop.simps) simp
      qed
    qed
  qed
qed

lemma blank_newline [simp]: "blank_token [CHR 0x0A]"
  by (simp add: blank_token_def)

section \<open>Reading printed numbers\<close>

lemma converts_fixed: "0 \<le> n \<Longrightarrow> converts (fixed_text k n)"
  by (simp add: converts_def exact_magnitude_fixed)

lemma stod_fixed:
  assumes "0 \<le> n" and "of_int n / 10 ^ k < (pow2 1000 :: rat)" and "n = 0 \<or> pow2 (- 1022) \<le> of_int n / 10 ^ k"
  shows "stod (fixed_text k n) = Inr (round64 (of_int n / 10 ^ k))"
proof -
  have "\<bar>of_int n / 10 ^ k :: rat\<bar> < pow2 1023"
    using assms(1,2) pow2_le [of 1000 1023] by simp
  then obtain r where "round64 (of_int n / 10 ^ k) = Fin r"
    using fround_error [of "of_int n / 10 ^ k" 1023 53 "- 1022"] by auto
  moreover have "\<not> (0 < (of_int n / 10 ^ k :: rat) \<and> of_int n / 10 ^ k < (pow2 (- 1022) :: rat))"
    using assms(3) by auto
  ultimately show ?thesis
    using assms(1) by (auto simp: stod_def converts_fixed exact_magnitude_fixed strtod_fixed)
qed

end
