(* ===== verification/Host_Port.thy ===== *)
theory Host_Port
  imports Host_Stream Sam_Protocol
begin

text \<open>
  \<open>clank/lib/hardware/SamSerialPort.cpp\<close>: the serial line to the SAM coprocessor. The kernel is a
  parameter: \<open>written m\<close> is what \<open>write\<close> returns for the characters \<open>m\<close>, a read gives the characters
  received or \<open>None\<close> when it fails, and the local arrays of the handshake start with arbitrary
  content. \<open>tx_line\<close> holds the characters the kernel has accepted.
\<close>

record serial_port =
  SerialPortFd :: int
  isListening :: bool
  tx_line :: string

type_synonym kernel_write = "string \<Rightarrow> int"

definition port_write :: "kernel_write \<Rightarrow> string \<Rightarrow> serial_port \<Rightarrow> serial_port" where
  "port_write written m p = p\<lparr>tx_line := tx_line p @ take (nat (written m)) m\<rparr>"

definition SendMessage :: "kernel_write \<Rightarrow> string \<Rightarrow> serial_port \<Rightarrow> serial_port \<times> exn option" where
  "SendMessage written message p =
     (if SerialPortFd p < 0 then (p, Some Runtime_error)
      else let result = to_u32 (written message); p' = port_write written message p in
        if result \<noteq> int (length message) then (p', Some Runtime_error) else (p', None))"

section \<open>The handshake\<close>

definition PING :: string where "PING = ''Ping'' @ [NL]"
definition RESET :: string where "RESET = ''Reset'' @ [NL]"

text \<open>\<open>read(fd, buffer, 256)\<close> into an array.\<close>

definition read_into :: "string \<Rightarrow> string option \<Rightarrow> string" where
  "read_into buffer received = (case received of
       None \<Rightarrow> buffer
     | Some d \<Rightarrow> take (length buffer) d @ drop (length d) buffer)"

text \<open>
  Attempts \<open>i\<close> to 29. The result is the number of the attempt that was answered, if one was; every
  attempt writes one \<open>Ping\<close>.
\<close>

primrec ping_loop :: "nat \<Rightarrow> nat \<Rightarrow> (nat \<Rightarrow> string) \<Rightarrow> (nat \<Rightarrow> string option) \<Rightarrow> kernel_write \<Rightarrow>
    serial_port \<Rightarrow> nat option \<times> serial_port" where
  "ping_loop 0 i garbage reply written p = (None, p)"
| "ping_loop (Suc n) i garbage reply written p =
     (let p' = port_write written PING p in
      if strncmp_eq (read_into (garbage i) (reply i)) ''Pong'' 4 then (Some i, p')
      else ping_loop n (Suc i) garbage reply written p')"

definition SamSerialPort_constructor ::
    "int \<Rightarrow> (nat \<Rightarrow> string) \<Rightarrow> (nat \<Rightarrow> string option) \<Rightarrow> kernel_write \<Rightarrow> exn + serial_port" where
  "SamSerialPort_constructor fd garbage reply written =
     (if fd < 0 then Inl Runtime_error
      else case ping_loop 30 0 garbage reply written \<lparr>SerialPortFd = fd, isListening = False, tx_line = []\<rparr> of
          (None, p) \<Rightarrow> Inl Runtime_error
        | (Some i, p) \<Rightarrow>
            (let p' = port_write written RESET p in
             if \<not> strncmp_eq (read_into (garbage (Suc i)) (reply (Suc i))) ''Reset'' 5 then Inl Runtime_error
             else Inr (p'\<lparr>isListening := True\<rparr>)))"

definition SamSerialPort_destructor :: "kernel_write \<Rightarrow> serial_port \<Rightarrow> serial_port" where
  "SamSerialPort_destructor written p = port_write written RESET (p\<lparr>isListening := False\<rparr>)"

section \<open>The receive thread\<close>

text \<open>
  One turn of the loop: what \<open>read\<close> delivered, cut to the buffer and to the first NUL, goes to
  \<open>RouteMessage\<close>, which is a parameter here. An exception leaves the thread function and ends
  the program.
\<close>

definition PORT_BUF_SIZE :: nat where "PORT_BUF_SIZE = 2048"

definition receive_step :: "(string \<Rightarrow> 's \<Rightarrow> 's \<times> exn option) \<Rightarrow> string option \<Rightarrow> 's \<Rightarrow> 's \<times> exn option" where
  "receive_step route received s = (case received of
       None \<Rightarrow> (s, None)
     | Some d \<Rightarrow> (let d' = take (PORT_BUF_SIZE - 1) d in
         if d' = [] then (s, None) else route (takeWhile (\<lambda>c. c \<noteq> NUL) d') s))"

primrec receive_loop :: "(string \<Rightarrow> 's \<Rightarrow> 's \<times> exn option) \<Rightarrow> string option list \<Rightarrow> 's \<Rightarrow> 's \<times> exn option" where
  "receive_loop route [] s = (s, None)"
| "receive_loop route (r # rs) s = (case receive_step route r s of
       (s', Some e) \<Rightarrow> (s', Some e)
     | (s', None) \<Rightarrow> receive_loop route rs s')"

section \<open>Facts\<close>

text \<open>A kernel that accepts everything.\<close>

definition accepts_all :: "kernel_write \<Rightarrow> bool" where
  "accepts_all written \<longleftrightarrow> (\<forall>m. written m = int (length m))"

lemma SendMessage_accepted:
  "accepts_all written \<Longrightarrow> 0 \<le> SerialPortFd p \<Longrightarrow> length m < 4294967296 \<Longrightarrow>
   SendMessage written m p = (p\<lparr>tx_line := tx_line p @ m\<rparr>, None)"
  by (simp add: SendMessage_def port_write_def accepts_all_def)

lemma SendMessage_ok_iff:
  assumes "0 \<le> SerialPortFd p" and "-1 \<le> written m" and "written m \<le> int (length m)" and "length m < 4294967295"
  shows "snd (SendMessage written m p) = None \<longleftrightarrow> written m = int (length m)"
proof -
  have "to_u32 (written m) = (if written m = -1 then 4294967295 else written m)"
    using assms(2-4) by (auto simp: to_u32_def)
  with assms show ?thesis by (auto simp: SendMessage_def Let_def split: if_splits)
qed

lemma length_read_into [simp]: "length (read_into buffer r) = length buffer"
  by (auto simp: read_into_def min_def split: option.split)

lemma take_read_into: "n \<le> length d \<Longrightarrow> n \<le> length buffer \<Longrightarrow> take n (read_into buffer (Some d)) = take n d"
  by (simp add: read_into_def min_def)

lemma ping_loop_answered:
  assumes "\<forall>j < k. \<not> strncmp_eq (read_into (garbage (i + j)) (reply (i + j))) ''Pong'' 4"
    and "strncmp_eq (read_into (garbage (i + k)) (reply (i + k))) ''Pong'' 4" and "k < n" and "accepts_all written"
  shows "ping_loop n i garbage reply written p =
    (Some (i + k), p\<lparr>tx_line := tx_line p @ concat (replicate (Suc k) PING)\<rparr>)"
  using assms
proof (induction k arbitrary: n i p)
  case 0
  then show ?case by (cases n) (simp_all add: port_write_def accepts_all_def)
next
  case (Suc k)
  obtain m where n: "n = Suc m" "k < m" using Suc.prems(3) by (cases n) auto
  have "\<not> strncmp_eq (read_into (garbage i) (reply i)) ''Pong'' 4" using Suc.prems(1) by (metis add_0_right zero_less_Suc)
  moreover have "\<forall>j < k. \<not> strncmp_eq (read_into (garbage (Suc i + j)) (reply (Suc i + j))) ''Pong'' 4"
    using Suc.prems(1) by (metis Suc_less_eq add_Suc_shift)
  moreover have "strncmp_eq (read_into (garbage (Suc i + k)) (reply (Suc i + k))) ''Pong'' 4"
    using Suc.prems(2) by simp
  ultimately show ?case
    using Suc.IH [of "Suc i" m] n Suc.prems(4) by (simp add: port_write_def accepts_all_def)
qed

lemma ping_loop_silent:
  assumes "\<forall>j < n. \<not> strncmp_eq (read_into (garbage (i + j)) (reply (i + j))) ''Pong'' 4"
  shows "fst (ping_loop n i garbage reply written p) = None"
  using assms
proof (induction n arbitrary: i p)
  case 0
  then show ?case by simp
next
  case (Suc n)
  have "\<not> strncmp_eq (read_into (garbage i) (reply i)) ''Pong'' 4" using Suc.prems by (metis add_0_right zero_less_Suc)
  moreover have "\<forall>j < n. \<not> strncmp_eq (read_into (garbage (Suc i + j)) (reply (Suc i + j))) ''Pong'' 4"
    using Suc.prems by (metis Suc_less_eq add_Suc_shift)
  ultimately show ?case using Suc.IH [of "Suc i"] by (simp add: Let_def)
qed

section \<open>The handshake with the firmware\<close>

lemma firmware_ping:
  assumes "daemon_inv b d" and "RxBufPtr d = 0"
  shows "\<exists>d'. forM PING (recv_char b ms) d = Some d' \<and> daemon_inv b d' \<and> RxBufPtr d' = 0 \<and>
     serial_out d' = serial_out d @ ''Pong'' @ [CR, NL]"
proof -
  let ?d = "d\<lparr>RxBufPtr := length ''Ping'', RxBuf := ''Ping'' @ NUL # drop (Suc (length ''Ping'')) (RxBuf d)\<rparr>"
  have "ProcessMessage b ms ?d = Some (Serial_println ''Pong'' ?d)"
    using c_str_0 [of "''Ping''" "drop (Suc (length ''Ping'')) (RxBuf d)"] by (simp add: ProcessMessage_def)
  moreover have "forM PING (recv_char b ms) d = map_option (\<lambda>d1. d1\<lparr>RxBufPtr := 0\<rparr>) (ProcessMessage b ms ?d)"
    unfolding PING_def by (rule recv_line [OF assms]) simp_all
  ultimately have r: "forM PING (recv_char b ms) d = Some ((Serial_println ''Pong'' ?d)\<lparr>RxBufPtr := 0\<rparr>)" by simp
  have "length (RxBuf d) = BUF_SIZE + 2" using assms(1) by (simp add: daemon_inv_def)
  with assms(1) have "daemon_inv b ((Serial_println ''Pong'' ?d)\<lparr>RxBufPtr := 0\<rparr>)"
    by (simp add: daemon_inv_def Serial_println_def Serial_write_def)
  with r show ?thesis by (simp add: Serial_println_def Serial_write_def)
qed

lemma firmware_reset:
  assumes "daemon_inv b d" and "RxBufPtr d = 0"
  shows "\<exists>d'. forM RESET (recv_char b ms) d = Some d' \<and> serial_out d' = serial_out d @ ''Reset'' @ [CR, NL] \<and>
     GpioPins d' = map (gpio_reset b) [0..<32] \<and> AdcPins d' = map adc_reset [0..<12] \<and> PwmPins d' = map pwm_reset [0..<12]"
proof -
  let ?d = "d\<lparr>RxBufPtr := length ''Reset'', RxBuf := ''Reset'' @ NUL # drop (Suc (length ''Reset'')) (RxBuf d)\<rparr>"
  have "length (RxBuf d) = BUF_SIZE + 2" using assms(1) by (simp add: daemon_inv_def)
  with assms(1) have "daemon_inv b ?d" by (simp add: daemon_inv_def)
  from ResetAll_eq [OF daemon_inv_sizes [OF this], of b ms] obtain ev where e:
    "ResetAll b ms ?d = Some (?d\<lparr>TxBuf := replicate (BUF_SIZE + 1) NUL @ drop (BUF_SIZE + 1) (TxBuf ?d),
     RxBuf := replicate (BUF_SIZE + 1) NUL @ drop (BUF_SIZE + 1) (RxBuf ?d),
     GpioPins := map (gpio_reset b) [0..<32], AdcPins := map adc_reset [0..<12],
     PwmPins := map pwm_reset [0..<12], hw := hw ?d @ ev, previousTime := ms, RxBufPtr := 0, TxBufPtr := 0\<rparr>)"
    (is "_ = Some ?d'") by blast
  have "ProcessMessage b ms ?d = Some (Serial_println ''Reset'' ?d')"
    using c_str_0 [of "''Reset''" "drop (Suc (length ''Reset'')) (RxBuf d)"] e by (simp add: ProcessMessage_def)
  moreover have "forM RESET (recv_char b ms) d = map_option (\<lambda>d1. d1\<lparr>RxBufPtr := 0\<rparr>) (ProcessMessage b ms ?d)"
    unfolding RESET_def by (rule recv_line [OF assms]) simp_all
  ultimately show ?thesis by (simp add: Serial_println_def Serial_write_def del: upt_rec_numeral)
qed

lemma constructor_answered:
  assumes "0 \<le> fd" and "k < 30" and "accepts_all written"
    and "\<forall>j < k. \<not> strncmp_eq (read_into (garbage j) (reply j)) ''Pong'' 4"
    and "reply k = Some (''Pong'' @ r1)" and "reply (Suc k) = Some (''Reset'' @ r2)"
    and "length (garbage k) = 256" and "length (garbage (Suc k)) = 256"
  shows "SamSerialPort_constructor fd garbage reply written =
      Inr \<lparr>SerialPortFd = fd, isListening = True, tx_line = concat (replicate (Suc k) PING) @ RESET\<rparr>"
proof -
  have "strncmp_eq (read_into (garbage k) (reply k)) ''Pong'' 4"
    using assms(5,7) by (simp add: strncmp_eq_def take_read_into)
  then have "ping_loop 30 0 garbage reply written \<lparr>SerialPortFd = fd, isListening = False, tx_line = []\<rparr> =
      (Some k, \<lparr>SerialPortFd = fd, isListening = False, tx_line = concat (replicate (Suc k) PING)\<rparr>)"
    using ping_loop_answered [of k garbage 0 reply 30 written] assms(2-4) by simp
  moreover have "strncmp_eq (read_into (garbage (Suc k)) (reply (Suc k))) ''Reset'' 5"
    using assms(6,8) by (simp add: strncmp_eq_def take_read_into)
  ultimately show ?thesis
    using assms(1,3) by (simp add: SamSerialPort_constructor_def port_write_def accepts_all_def del: replicate.simps)
qed

text \<open>C27: the constructor of the serial port succeeds against the firmware. Whatever the
  local arrays held and whatever the firmware's state (between two messages) and pins were, the answers the firmware
  writes to \<open>Ping\<close> and \<open>Reset\<close> are accepted, at any of the thirty attempts, and the
  firmware's pins are then in their reset state.\<close>

theorem handshake:
  assumes "daemon_inv b d" and "RxBufPtr d = 0" and "0 \<le> fd" and "k < 30" and "accepts_all written"
    and "\<And>i. length (garbage i) = 256"
  shows "\<exists>d1 d2 pong reset. forM PING (recv_char b ms) d = Some d1 \<and> serial_out d1 = serial_out d @ pong \<and>
     forM RESET (recv_char b ms) d1 = Some d2 \<and> serial_out d2 = serial_out d1 @ reset \<and>
     GpioPins d2 = map (gpio_reset b) [0..<32] \<and> AdcPins d2 = map adc_reset [0..<12] \<and> PwmPins d2 = map pwm_reset [0..<12] \<and>
     (\<forall>reply. (\<forall>j < k. \<not> strncmp_eq (read_into (garbage j) (reply j)) ''Pong'' 4) \<longrightarrow>
        reply k = Some pong \<longrightarrow> reply (Suc k) = Some reset \<longrightarrow>
        SamSerialPort_constructor fd garbage reply written =
          Inr \<lparr>SerialPortFd = fd, isListening = True, tx_line = concat (replicate (Suc k) PING) @ RESET\<rparr>)"
proof -
  obtain d1 where d1: "forM PING (recv_char b ms) d = Some d1" "daemon_inv b d1" "RxBufPtr d1 = 0"
    "serial_out d1 = serial_out d @ ''Pong'' @ [CR, NL]"
    using firmware_ping [OF assms(1,2)] by blast
  obtain d2 where d2: "forM RESET (recv_char b ms) d1 = Some d2" "serial_out d2 = serial_out d1 @ ''Reset'' @ [CR, NL]"
    "GpioPins d2 = map (gpio_reset b) [0..<32]" "AdcPins d2 = map adc_reset [0..<12]" "PwmPins d2 = map pwm_reset [0..<12]"
    using firmware_reset [OF d1(2,3)] by blast
  have "SamSerialPort_constructor fd garbage reply written =
      Inr \<lparr>SerialPortFd = fd, isListening = True, tx_line = concat (replicate (Suc k) PING) @ RESET\<rparr>"
    if "\<forall>j < k. \<not> strncmp_eq (read_into (garbage j) (reply j)) ''Pong'' 4"
      "reply k = Some (''Pong'' @ [CR, NL])" "reply (Suc k) = Some (''Reset'' @ [CR, NL])" for reply
    using that assms(3-6) by (intro constructor_answered [of _ _ _ _ _ "[CR, NL]" "[CR, NL]"]) simp_all
  with d1(1,4) d2 show ?thesis
    by (intro exI [of _ d1] exI [of _ d2] exI [of _ "''Pong'' @ [CR, NL]"] exI [of _ "''Reset'' @ [CR, NL]"]) simp
qed

theorem handshake_witness:
  "\<exists>d1 pong reset. forM PING (recv_char sam3x 0) start = Some d1 \<and> serial_out d1 = serial_out start @ pong \<and>
     SamSerialPort_constructor 3 (\<lambda>_. replicate 256 CHR ''x'')
       (\<lambda>i. if i = 1 then Some pong else if i = 2 then Some reset else None) (\<lambda>m. int (length m)) =
     Inr \<lparr>SerialPortFd = 3, isListening = True, tx_line = PING @ PING @ RESET\<rparr>"
proof -
  let ?g = "\<lambda>_::nat. replicate 256 CHR ''x''"
  have h: "accepts_all (\<lambda>m. int (length m))" "\<And>i. length (?g i) = 256" by (simp_all add: accepts_all_def)
  have n: "\<not> strncmp_eq (read_into (?g j) None) ''Pong'' 4" for j
    by (simp add: read_into_def strncmp_eq_def numeral_eq_Suc)
  obtain d1 pong reset where p: "forM PING (recv_char sam3x 0) start = Some d1" "serial_out d1 = serial_out start @ pong"
    "\<And>reply. (\<forall>j < 1. \<not> strncmp_eq (read_into (?g j) (reply j)) ''Pong'' 4) \<Longrightarrow> reply 1 = Some pong \<Longrightarrow>
        reply (Suc 1) = Some reset \<Longrightarrow> SamSerialPort_constructor 3 ?g reply (\<lambda>m. int (length m)) =
          Inr \<lparr>SerialPortFd = 3, isListening = True, tx_line = concat (replicate (Suc 1) PING) @ RESET\<rparr>"
    using handshake [OF start_inv start_facts(1) _ _ h, of 3 1 0] by auto
  have "SamSerialPort_constructor 3 ?g (\<lambda>i. if i = 1 then Some pong else if i = 2 then Some reset else None) (\<lambda>m. int (length m)) =
          Inr \<lparr>SerialPortFd = 3, isListening = True, tx_line = concat (replicate (Suc 1) PING) @ RESET\<rparr>"
    using n by (intro p(3)) simp_all
  with p(1,2) show ?thesis by auto
qed

end
