(* ===== verification/Host_Config.thy ===== *)
theory Host_Config
  imports Host_Stream
begin

text \<open>
  \<open>clank/lib/configuration\<close>: the tree of configurations (\<open>Configuration.cpp\<close>) and the reader of
  indented files (\<open>IndentedFileConfigurationReader.cpp\<close>).

  A configuration owns its children; the pointer to its parent is written and never read, and is
  left out. The reader keeps the line it has read ahead in a string that \<open>getline\<close> leaves alone once
  the stream has ended; whether its loop ends depends on that, so the two mutually recursive
  functions carry fuel, and \<open>None\<close> means that it ran out. The line number, which only appears in
  the text of exceptions, is left out.
\<close>

section \<open>Configurations\<close>

datatype configuration =
  Configuration (Tag: string) (ConfigurationValues: "string \<rightharpoonup> string") (ChildConfigurations: "configuration list")

text \<open>The configuration the out parameter is assigned, when there is one.\<close>

fun FindConfigurationByTag :: "string \<Rightarrow> configuration \<Rightarrow> configuration option"
  and find_in_children :: "string \<Rightarrow> configuration list \<Rightarrow> configuration option" where
  "FindConfigurationByTag tag (Configuration t v cs) =
     (if t = tag then Some (Configuration t v cs) else find_in_children tag cs)"
| "find_in_children tag [] = None"
| "find_in_children tag (c # cs) = (case FindConfigurationByTag tag c of
       Some r \<Rightarrow> Some r
     | None \<Rightarrow> find_in_children tag cs)"

definition AddChildConfiguration :: "configuration \<Rightarrow> configuration \<Rightarrow> configuration" where
  "AddChildConfiguration child c =
     Configuration (Tag c) (ConfigurationValues c) (ChildConfigurations c @ [child])"

definition AddConfigurationData :: "string \<Rightarrow> string \<Rightarrow> configuration \<Rightarrow> configuration" where
  "AddConfigurationData key value c =
     Configuration (Tag c) ((ConfigurationValues c)(key \<mapsto> value)) (ChildConfigurations c)"

definition GetConfigurationData :: "configuration \<Rightarrow> string \<Rightarrow> bool \<times> string" where
  "GetConfigurationData c key = (case ConfigurationValues c key of
       None \<Rightarrow> (False, [])
     | Some v \<Rightarrow> (True, v))"

definition SetTag :: "string \<Rightarrow> configuration \<Rightarrow> configuration" where
  "SetTag tag c = Configuration tag (ConfigurationValues c) (ChildConfigurations c)"

definition new_configuration :: configuration where
  "new_configuration = Configuration [] Map.empty []"

text \<open>
  \<open>FindConfigurationByTag\<close> copies the object it finds, and the copy shares the children. The
  destructor calls \<open>CleanUp\<close> on each child: it deletes the child's children and clears its data.
  \<open>end_of_copy tag c\<close> is the tree after the copy found under \<open>tag\<close> has been destroyed.
\<close>

definition CleanUp :: "configuration \<Rightarrow> configuration" where
  "CleanUp c = Configuration (Tag c) Map.empty []"

definition Configuration_destructor :: "configuration \<Rightarrow> configuration" where
  "Configuration_destructor c = Configuration (Tag c) (ConfigurationValues c) (map CleanUp (ChildConfigurations c))"

fun end_of_copy :: "string \<Rightarrow> configuration \<Rightarrow> configuration"
  and end_in_children :: "string \<Rightarrow> configuration list \<Rightarrow> configuration list" where
  "end_of_copy tag (Configuration t v cs) =
     (if t = tag then Configuration_destructor (Configuration t v cs) else Configuration t v (end_in_children tag cs))"
| "end_in_children tag [] = []"
| "end_in_children tag (c # cs) = (case FindConfigurationByTag tag c of
       Some r \<Rightarrow> end_of_copy tag c # cs
     | None \<Rightarrow> c # end_in_children tag cs)"

section \<open>Lines\<close>

definition GetLevel :: "string \<Rightarrow> nat" where
  "GetLevel s = length (takeWhile (\<lambda>c. c = CHR '' '') s) div 2"

text \<open>
  The result, and the strings assigned to the out parameters. The loops behind \<open>unsigned int i = x + 1\<close>
  start at 0 when \<open>x\<close> is \<open>npos\<close>.
\<close>

definition indented :: "nat \<Rightarrow> string \<Rightarrow> bool" where
  "indented level s \<longleftrightarrow> take (2 * level) s = replicate (2 * level) CHR '' ''"

definition rest_is_space :: "int \<Rightarrow> string \<Rightarrow> bool" where
  "rest_is_space i s \<longleftrightarrow> list_all is_space (drop (nat (to_u32 (i + 1))) s)"

definition FormatTag :: "string \<Rightarrow> nat \<Rightarrow> exn + (bool \<times> string)" where
  "FormatTag input level =
     (if \<not> indented level input then Inr (False, [])
      else let colonIndex = find_first_of CHR '':'' input in
        case substr input (2 * int level) (to_u32 (colonIndex - 2 * int level)) of
          Inl e \<Rightarrow> Inl e
        | Inr tag \<Rightarrow> Inr (rest_is_space colonIndex input, tag))"

definition FormatKeyValuePair :: "string \<Rightarrow> nat \<Rightarrow> exn + (bool \<times> string \<times> string)" where
  "FormatKeyValuePair input level =
     (if \<not> indented level input then Inr (False, [], [])
      else let colonIndex = find_first_of CHR '':'' input; endIndex = find_first_of CHR '';'' input in
        case substr input (int level * 2) (to_u32 (colonIndex - 2 * int level)) of
          Inl e \<Rightarrow> Inl e
        | Inr key \<Rightarrow>
            (case substr input (to_u32 (colonIndex + 1)) (to_u32 (endIndex - colonIndex - 1)) of
               Inl e \<Rightarrow> Inl e
             | Inr value \<Rightarrow> Inr (rest_is_space endIndex input, key, value)))"

section \<open>The reader\<close>

text \<open>The configuration, the stream and the line read ahead.\<close>

type_synonym read_result = "(exn + (configuration \<times> in_stream \<times> string)) option"

fun ReadConfigurationHelper :: "nat \<Rightarrow> in_stream \<Rightarrow> nat \<Rightarrow> string \<Rightarrow> string \<Rightarrow> read_result"
  and read_children :: "nat \<Rightarrow> in_stream \<Rightarrow> nat \<Rightarrow> string \<Rightarrow> configuration \<Rightarrow> read_result" where
  "ReadConfigurationHelper 0 stream level tag nextLine = None"
| "ReadConfigurationHelper (Suc fuel) stream level tag nextLine =
     (case getline newline nextLine stream of (_, nextLine, stream) \<Rightarrow>
        read_children fuel stream level nextLine (SetTag tag new_configuration))"
| "read_children 0 stream level nextLine c = None"
| "read_children (Suc fuel) stream level nextLine c =
     (let nextLevel = GetLevel nextLine in
      if nextLevel = level \<or> nextLine = [] then Some (Inr (c, stream, nextLine))
      else if nextLevel \<noteq> level + 1 then
        (if level < nextLevel then Some (Inl Runtime_error) else Some (Inr (c, stream, nextLine)))
      else case FormatTag nextLine nextLevel of
          Inl e \<Rightarrow> Some (Inl e)
        | Inr (True, str1) \<Rightarrow>
            (case ReadConfigurationHelper fuel stream (level + 1) str1 nextLine of
               None \<Rightarrow> None
             | Some (Inl e) \<Rightarrow> Some (Inl e)
             | Some (Inr (child, stream, nextLine)) \<Rightarrow>
                 read_children fuel stream level nextLine (AddChildConfiguration child c))
        | Inr (False, _) \<Rightarrow>
            (case FormatKeyValuePair nextLine nextLevel of
               Inl e \<Rightarrow> Some (Inl e)
             | Inr (True, str1, str2) \<Rightarrow>
                 (case getline newline nextLine stream of (_, nextLine, stream) \<Rightarrow>
                    read_children fuel stream level nextLine (AddConfigurationData str1 str2 c))
             | Inr (False, _) \<Rightarrow> Some (Inl Runtime_error)))"

text \<open>The content of the file, or \<open>None\<close> when it cannot be opened.\<close>

definition ReadFromFile :: "nat \<Rightarrow> string option \<Rightarrow> (exn + configuration) option" where
  "ReadFromFile fuel file_text = (case file_text of
       None \<Rightarrow> Some (Inl Runtime_error)
     | Some t \<Rightarrow> (case getline newline [] (Some t) of (_, nextLine, stream) \<Rightarrow>
         (case FormatTag nextLine 0 of
            Inl e \<Rightarrow> Some (Inl e)
          | Inr (False, _) \<Rightarrow> Some (Inl Runtime_error)
          | Inr (True, tag) \<Rightarrow> map_option (map_sum (\<lambda>e. e) fst) (ReadConfigurationHelper fuel stream 0 tag nextLine))))"

declare ReadConfigurationHelper.simps(2) [simp del] read_children.simps(2) [simp del]

end
