(* ===== verification/Host_Peripheral.thy ===== *)
theory Host_Peripheral
  imports Host_Port Host_Config
begin

text \<open>
  \<open>clank/lib/hardware/SamPeripheral\<close>: the base class of the pins. A pin offers its name, the message
  that states its settings, and a parser for the messages about it; the locale \<open>sam_peripheral\<close> says
  what the port and the manager of the peripherals rely on, and is interpreted on the three pins.
\<close>

text \<open>\<open>SamPeripheral::SetState\<close>, handed the result of the virtual \<open>StateToMessage\<close>.\<close>

definition SetState :: "kernel_write \<Rightarrow> exn + string \<Rightarrow> serial_port \<Rightarrow> serial_port \<times> exn option" where
  "SetState written state_message port = (case state_message of
       Inl e \<Rightarrow> (port, Some e)
     | Inr message \<Rightarrow> SendMessage written message port)"

text \<open>A constructor: the object, when neither its name nor its first message throws.\<close>

definition construct :: "kernel_write \<Rightarrow> ('s \<Rightarrow> exn + string) \<Rightarrow> 's \<Rightarrow> serial_port \<Rightarrow> (exn + 's) \<times> serial_port" where
  "construct written to_message obj port = (case SetState written (to_message obj) port of
       (port', None) \<Rightarrow> (Inr obj, port')
     | (port', Some e) \<Rightarrow> (Inl e, port'))"

text \<open>The constructors that take the name as a text delegate to those that take the enumeration.\<close>

definition from_name :: "(SamPeripheralName \<Rightarrow> serial_port \<Rightarrow> (exn + 's) \<times> serial_port) \<Rightarrow> string \<Rightarrow> serial_port \<Rightarrow>
    (exn + 's) \<times> serial_port" where
  "from_name constructor name port = (case StringToPeripheralName name of
       Inl e \<Rightarrow> (Inl e, port)
     | Inr p \<Rightarrow> constructor p port)"

text \<open>The fields every parser skips: the pin's own name and white space.\<close>

definition ignored_token :: "SamPeripheralName \<Rightarrow> string \<Rightarrow> bool" where
  "ignored_token name token = (case PeripheralNameToString name of
       Inl _ \<Rightarrow> False
     | Inr n \<Rightarrow> token = n \<or> blank_token token)"

text \<open>A message line: its text up to the newline, which is its only one.\<close>

definition message_line :: "string \<Rightarrow> bool" where
  "message_line m \<longleftrightarrow> (\<exists>t. m = t @ [newline] \<and> newline \<notin> set t \<and> NUL \<notin> set t)"

section \<open>The interface\<close>

locale sam_peripheral =
  fixes pin_name :: "'s \<Rightarrow> SamPeripheralName"
    and to_message :: "'s \<Rightarrow> exn + string"
    and parse_message :: "string \<Rightarrow> 's \<Rightarrow> 's \<times> exn option"
  assumes name_kept: "pin_name (fst (parse_message m s)) = pin_name s"
    and message_total: "real_peripheral (pin_name s) \<Longrightarrow> \<exists>r. to_message s = Inr (name_text (pin_name s) @ CHR '':'' # r)"
    and message_none: "\<not> real_peripheral (pin_name s) \<Longrightarrow> to_message s = Inl Runtime_error"
    and message_framed: "to_message s = Inr m \<Longrightarrow> message_line m"
begin

text \<open>A pin with a real name can always state its settings, in one line that begins with its name.\<close>

lemma state_sent:
  assumes "real_peripheral (pin_name s)" and "accepts_all written" and "0 \<le> SerialPortFd port"
    and "\<And>m. to_message s = Inr m \<Longrightarrow> length m < 4294967296"
  shows "\<exists>m. to_message s = Inr m \<and> message_line m \<and> SetState written (to_message s) port = (port\<lparr>tx_line := tx_line port @ m\<rparr>, None)"
proof -
  from message_total [OF assms(1)] obtain m where m: "to_message s = Inr m" by blast
  from SendMessage_accepted [OF assms(2,3) assms(4) [OF m]] message_framed [OF m] m show ?thesis
    by (simp add: SetState_def)
qed

lemma message_named:
  assumes "to_message s = Inr m"
  shows "StringToPeripheralName (takeWhile (\<lambda>c. c \<noteq> CHR '':'') m) = Inr (pin_name s)"
proof -
  have r: "real_peripheral (pin_name s)" using message_none [of s] assms by auto
  with message_total [OF r] assms obtain q where m: "m = name_text (pin_name s) @ CHR '':'' # q" by auto
  have "CHR '':'' \<notin> set (name_text (pin_name s))" using name_text_plain [OF r] by (simp add: plain_text_def)
  then have "takeWhile (\<lambda>c. c \<noteq> CHR '':'') m = name_text (pin_name s)"
    unfolding m by (subst takeWhile_append2) auto
  with StringToPeripheralName_text [OF r] show ?thesis by simp
qed

text \<open>No message changes the name, however many arrive and whatever they hold.\<close>

lemma names_kept: "pin_name (foldl (\<lambda>s m. fst (parse_message m s)) s ms) = pin_name s"
  by (induction ms arbitrary: s) (simp_all add: name_kept)

end

section \<open>Printed numbers in messages\<close>

lemma fixed_text_chars: "0 \<le> n \<Longrightarrow> c \<in> set (fixed_text k n) \<Longrightarrow> is_digit c \<or> c = CHR ''.''"
  using digits10_all_digits [OF div_pow10_nonneg [of n k]] frac_digits_digits [of c k n]
  by (auto simp: fixed_text_def)

lemma round_half_even_nonneg: "0 \<le> x \<Longrightarrow> 0 \<le> round_half_even x"
  by (auto simp: round_half_even_def Let_def)

lemma fmt_fixed_chars:
  "c \<in> set (fmt_fixed k x) \<Longrightarrow> is_digit c \<or> c \<in> set ''.-infa''"
proof (cases x)
  case (Fin v)
  assume "c \<in> set (fmt_fixed k x)"
  moreover have "0 \<le> round_half_even (\<bar>v\<bar> * 10 ^ k)" by (rule round_half_even_nonneg) simp
  ultimately show ?thesis using fixed_text_chars [of _ c k] by (auto simp: fmt_fixed_def Fin split: if_splits)
qed (auto simp: fmt_fixed_def)

lemma fmt_fixed_plain:
  "c \<in> {CHR '':'', newline, NUL} \<Longrightarrow> c \<notin> set (fmt_fixed k x)"
  using fmt_fixed_chars [of c k x] by (auto simp: is_digit_def)

lemma fmt_fixed_separators [simp]:
  "CHR '':'' \<notin> set (fmt_fixed k x)" "newline \<notin> set (fmt_fixed k x)" "NUL \<notin> set (fmt_fixed k x)"
  using fmt_fixed_plain [of "CHR '':''" k x] fmt_fixed_plain [of newline k x] fmt_fixed_plain [of NUL k x] by simp_all

lemma fmt_fixed_nonempty [simp]: "fmt_fixed k x \<noteq> []"
  by (auto simp: fmt_fixed_def fixed_text_def split: cfloat.split)

lemma name_text_no_sep:
  "real_peripheral p \<Longrightarrow> CHR '':'' \<notin> set (name_text p) \<and> newline \<notin> set (name_text p) \<and> NUL \<notin> set (name_text p)"
  using name_text_plain [of p] by (simp add: plain_text_def)

lemma name_of_dummy: "\<not> real_peripheral p \<Longrightarrow> PeripheralNameToString p = Inl Runtime_error"
  by (auto simp: real_peripheral_def)

lemma name_text_real: "name_text p \<noteq> [] \<Longrightarrow> real_peripheral p"
  by (auto simp: name_text_def real_peripheral_def)

section \<open>The trip of a number\<close>

text \<open>Double, then single precision: the relative error is below \<open>2\<^sup>-\<^sup>2\<^sup>3\<close>.\<close>

lemma double_to_single:
  assumes "pow2 (- 125) \<le> x" and "x < pow2 100"
  obtains r where "f_cast round32 (round64 x) = Fin r" and "\<bar>r - x\<bar> \<le> x * pow2 (- 23)"
proof -
  have x: "0 < x" using assms(1) pow2_pos [of "- 125"] by linarith
  have m: "max \<bar>x\<bar> (pow2 (- 1022)) = x" using assms(1) x pow2_le [of "- 1022" "- 125"] by simp
  have "\<bar>x\<bar> < pow2 1023" using assms(2) x pow2_le [of 100 1023] by simp
  then obtain s where s: "round64 x = Fin s" "\<bar>s - x\<bar> \<le> x * pow2 (- 53)"
    using fround_error [of x 1023 53 "- 1022"] m by auto
  have p: "pow2 (- 53) \<le> 1 / 2 ^ 53" "pow2 (- 24) = 1 / 2 ^ 24" "pow2 (- 23) = 1 / 2 ^ 23" by (simp_all add: pow2_def)
  have "x * pow2 (- 53) \<le> x * (1 / 2 ^ 53)" using x p(1) by (intro mult_left_mono) simp_all
  with s(2) have sx: "x * (1 - 1 / 2 ^ 53) \<le> s" "s \<le> x * (1 + 1 / 2 ^ 53)" by (simp_all add: algebra_simps abs_le_iff)
  have "x * (1 / 2) \<le> x * (1 - 1 / 2 ^ 53)" using x by (intro mult_left_mono) simp_all
  with sx(1) have half: "x / 2 \<le> s" by simp
  have "pow2 (- 126) = pow2 (- 125) / 2" by (simp add: pow2_def)
  with half assms(1) have s126: "pow2 (- 126) \<le> s" by linarith
  have s0: "0 < s" using half x by linarith
  have "s < pow2 127"
  proof -
    have "s \<le> x * 2" using sx(2) x mult_left_mono [of "1 + 1 / 2 ^ 53" 2 x] by simp
    also have "\<dots> < pow2 100 * 2" using assms(2) by simp
    also have "\<dots> = pow2 101" by (simp add: pow2_def)
    also have "\<dots> \<le> pow2 127" by (rule pow2_le) simp
    finally show ?thesis .
  qed
  then obtain r where r: "round32 s = Fin r" "\<bar>r - s\<bar> \<le> s * pow2 (- 24)"
    using fround_error [of s 127 24 "- 126"] s126 s0 by auto
  have "\<bar>r - x\<bar> \<le> \<bar>r - s\<bar> + \<bar>s - x\<bar>" by linarith
  also have "\<dots> \<le> s * (1 / 2 ^ 24) + x * (1 / 2 ^ 53)"
    using r(2) s(2) \<open>x * pow2 (- 53) \<le> x * (1 / 2 ^ 53)\<close> by (simp add: p(2))
  also have "\<dots> \<le> x * (1 + 1 / 2 ^ 53) * (1 / 2 ^ 24) + x * (1 / 2 ^ 53)"
    using sx(2) by (intro add_right_mono mult_right_mono) simp_all
  also have "\<dots> = x * ((1 + 1 / 2 ^ 53) * (1 / 2 ^ 24) + 1 / 2 ^ 53)" by (simp add: algebra_simps)
  also have "\<dots> \<le> x * (1 / 2 ^ 23)" using x by (intro mult_left_mono) simp_all
  finally show thesis using that r(1) s(1) by (simp add: f_cast_def p(3))
qed


lemma fmt_fixed_near:
  assumes "0 \<le> v" and "\<bar>v * 10 ^ k - of_int n\<bar> < 1 / 2"
  shows "fmt_fixed k (Fin v) = fixed_text k n"
  using assms round_half_even_near [of "v * 10 ^ k" n] by (simp add: fmt_fixed_def)

lemma length_fixed_text: "n < 10 ^ (k + 3) \<Longrightarrow> length (fixed_text k n) \<le> k + 4"
proof -
  assume "n < 10 ^ (k + 3)"
  then have "n < 10 ^ 3 * 10 ^ k" by (simp add: power_add)
  moreover have "n div 10 ^ k * 10 ^ k \<le> n"
  proof -
    have "0 \<le> n mod 10 ^ k" by simp
    then show ?thesis using minus_mod_eq_div_mult [of n "10 ^ k"] by linarith
  qed
  ultimately have "n div 10 ^ k * 10 ^ k < 10 ^ 3 * 10 ^ k" by linarith
  then have "n div 10 ^ k < 10 ^ 3" by (simp only: mult_less_cancel_right) auto
  then have "length (digits10 (n div 10 ^ k)) \<le> 3" using length_digits10_le [of "n div 10 ^ k" 2] by (simp add: numeral_eq_Suc)
  then show ?thesis by (simp add: fixed_text_def)
qed

lemma round64_hundredth:
  assumes "1 \<le> n" and "n \<le> (9999 :: int)"
  obtains \<tau> where "round64 (of_int n / 10 ^ 2) = Fin \<tau>" and "round_half_even (\<tau> * 10 ^ 6) = n * 10 ^ 4" and "0 < \<tau>" and "\<tau> < 100"
proof -
  define y :: rat where "y = of_int n / 10 ^ 2"
  have n: "(of_int 1 :: rat) \<le> of_int n" "of_int n \<le> (of_int 9999 :: rat)" using assms by (simp_all only: of_int_le_iff)
  then have y: "1 / 100 \<le> y" "y \<le> 9999 / 100" by (simp_all add: y_def)
  have "pow2 (- 1022) \<le> y" using y(1) pow2_le [of "- 1022" "- 10"] by (simp add: pow2_def [of "- 10"])
  then have m: "max \<bar>y\<bar> (pow2 (- 1022)) = y" using y by simp
  have "\<bar>y\<bar> < pow2 1023" using y pow2_le [of 10 1023] by (simp add: pow2_def [of 10])
  then obtain \<tau> where \<tau>: "round64 y = Fin \<tau>" "\<bar>\<tau> - y\<bar> \<le> y * pow2 (- 53)"
    using fround_error [of y 1023 53 "- 1022"] m by auto
  have "y * pow2 (- 53) \<le> 9999 / 100 * pow2 (- 53)" using y by (intro mult_right_mono) (simp_all add: less_imp_le)
  also have "\<dots> < 1 / 100000000" by (simp add: pow2_def)
  finally have e: "\<bar>\<tau> - y\<bar> < 1 / 100000000" using \<tau>(2) by simp
  have "of_int (n * 10 ^ 4) = y * 1000000" by (simp add: y_def)
  moreover have "\<bar>\<tau> * 1000000 - y * 1000000\<bar> < 1 / 2" using e by linarith
  then have "\<bar>\<tau> * 10 ^ 6 - y * 1000000\<bar> < 1 / 2" by simp
  ultimately have "\<bar>\<tau> * 10 ^ 6 - of_int (n * 10 ^ 4)\<bar> < 1 / 2" by (simp only:)
  then have "round_half_even (\<tau> * 10 ^ 6) = n * 10 ^ 4" by (rule round_half_even_near)
  moreover have "0 < \<tau>" "\<tau> < 100" using e y by linarith+
  ultimately show thesis using that \<tau>(1) by (simp add: y_def)
qed

end
