(* ===== verification/Host_Gpio.thy ===== *)
theory Host_Gpio
  imports Host_Peripheral
begin

text \<open>
  \<open>clank/lib/hardware/GpioPin.cpp\<close>: a digital pin seen from the host. The staging fields are what
  was asked for, the others what the coprocessor last reported.

  The constructors are modelled behind the base class constructor, which registers the object with
  the manager (Host_Manager); a constructor that throws has already registered it. In a message an
  unchecked second \<open>getline\<close> hands over the announcing field itself when its value is missing.
\<close>

datatype GpioDirection = Input | Output
datatype GpioValue = High | Low

record gpio_object =
  gp_Name :: SamPeripheralName
  gp_Direction :: GpioDirection
  gp_Value :: GpioValue
  gp_StagingDirection :: GpioDirection
  gp_StagingValue :: GpioValue

definition gpio_StateToMessage :: "gpio_object \<Rightarrow> exn + string" where
  "gpio_StateToMessage obj = (case PeripheralNameToString (gp_Name obj) of
       Inl e \<Rightarrow> Inl e
     | Inr n \<Rightarrow> Inr (n @ '':dir:'' @
         (case gp_StagingDirection obj of Input \<Rightarrow> ''In'' | Output \<Rightarrow> ''Out'') @ '':val:'' @
         (case gp_StagingValue obj of High \<Rightarrow> ''Hi:'' @ [newline] | Low \<Rightarrow> ''Low:'' @ [newline])))"

definition gpio_token :: "gpio_object \<Rightarrow> string \<Rightarrow> gpio_object token_action" where
  "gpio_token obj token =
     (if token = ''dir'' then Value (\<lambda>v.
        if v = ''In'' then (obj\<lparr>gp_Direction := Input\<rparr>, None)
        else if v = ''Out'' then (obj\<lparr>gp_Direction := Output\<rparr>, None)
        else (obj, Some Runtime_error))
      else if token = ''val'' then Value (\<lambda>v.
        if v = ''Hi'' then (obj\<lparr>gp_Value := High\<rparr>, None)
        else if v = ''Low'' then (obj\<lparr>gp_Value := Low\<rparr>, None)
        else (obj, Some Runtime_error))
      else if ignored_token (gp_Name obj) token then Skip
      else Reject)"

definition gpio_ParseMessage :: "string \<Rightarrow> gpio_object \<Rightarrow> gpio_object \<times> exn option" where
  "gpio_ParseMessage message obj = parse_tokens gpio_token obj message"

definition gpio_IsConsistant :: "gpio_object \<Rightarrow> bool" where
  "gpio_IsConsistant obj \<longleftrightarrow> gp_StagingDirection obj = gp_Direction obj \<and>
     (gp_StagingValue obj = gp_Value obj \<or> gp_Direction obj = Input)"

text \<open>The constructors: both start with a state that does not match the one asked for.\<close>

definition gpio_constructor ::
    "kernel_write \<Rightarrow> SamPeripheralName \<Rightarrow> GpioDirection \<Rightarrow> GpioValue \<Rightarrow> serial_port \<Rightarrow> (exn + gpio_object) \<times> serial_port" where
  "gpio_constructor written name startingDirection startingValue port =
     construct written gpio_StateToMessage
       \<lparr>gp_Name = name,
        gp_Direction = (if startingDirection = Input then Output else Input),
        gp_Value = (if startingValue = High then Low else High),
        gp_StagingDirection = startingDirection,
        gp_StagingValue = startingValue\<rparr> port"

definition gpio_config_constructor ::
    "kernel_write \<Rightarrow> SamPeripheralName \<Rightarrow> configuration \<Rightarrow> serial_port \<Rightarrow> (exn + gpio_object) \<times> serial_port" where
  "gpio_config_constructor written name config port =
     (let (direction_given, startingDirection) = GetConfigurationData config ''Direction'';
          (value_given, startingValue) = GetConfigurationData config ''Value'' in
      if \<not> direction_given \<or> \<not> value_given then (Inl Runtime_error, port)
      else if startingDirection \<noteq> ''In'' \<and> startingDirection \<noteq> ''Out'' then (Inl Runtime_error, port)
      else if startingValue \<noteq> ''High'' \<and> startingValue \<noteq> ''Low'' then (Inl Runtime_error, port)
      else gpio_constructor written name
        (if startingDirection = ''In'' then Input else Output) (if startingValue = ''High'' then High else Low) port)"

definition gpio_SetDirection ::
    "kernel_write \<Rightarrow> GpioDirection \<Rightarrow> gpio_object \<Rightarrow> serial_port \<Rightarrow> gpio_object \<times> serial_port \<times> exn option" where
  "gpio_SetDirection written direction obj port =
     (let obj' = obj\<lparr>gp_StagingDirection := direction\<rparr>
      in (obj', SetState written (gpio_StateToMessage obj') port))"

definition gpio_SetValue ::
    "kernel_write \<Rightarrow> GpioValue \<Rightarrow> gpio_object \<Rightarrow> serial_port \<Rightarrow> gpio_object \<times> serial_port \<times> exn option" where
  "gpio_SetValue written val obj port =
     (let obj' = obj\<lparr>gp_StagingValue := val\<rparr>
      in (obj', SetState written (gpio_StateToMessage obj') port))"

section \<open>The contract\<close>

lemma gpio_name_kept: "gp_Name (fst (gpio_ParseMessage m obj)) = gp_Name obj"
proof -
  have "gp_Name (fst (token_loop gpio_token obj s)) = gp_Name obj" for s
    by (rule token_loop_keeps [where P = "\<lambda>o'. gp_Name o' = gp_Name obj"])
      (auto simp: gpio_token_def split: if_splits)
  then show ?thesis by (simp add: gpio_ParseMessage_def parse_tokens_def split: prod.split)
qed

lemma gpio_message_eq:
  "real_peripheral (gp_Name obj) \<Longrightarrow> gpio_StateToMessage obj = Inr (name_text (gp_Name obj) @ CHR '':'' # ''dir:'' @
     (case gp_StagingDirection obj of Input \<Rightarrow> ''In'' | Output \<Rightarrow> ''Out'') @ '':val:'' @
     (case gp_StagingValue obj of High \<Rightarrow> ''Hi:'' | Low \<Rightarrow> ''Low:'') @ [newline])"
  by (simp add: gpio_StateToMessage_def name_text_eq split: GpioDirection.split GpioValue.split)

interpretation gpio_object: sam_peripheral gp_Name gpio_StateToMessage gpio_ParseMessage
proof unfold_locales
  fix obj m
  show "real_peripheral (gp_Name obj) \<Longrightarrow> \<exists>r. gpio_StateToMessage obj = Inr (name_text (gp_Name obj) @ CHR '':'' # r)"
    by (simp add: gpio_message_eq)
  show "\<not> real_peripheral (gp_Name obj) \<Longrightarrow> gpio_StateToMessage obj = Inl Runtime_error"
    by (simp add: gpio_StateToMessage_def name_of_dummy)
  assume m: "gpio_StateToMessage obj = Inr m"
  then have r: "real_peripheral (gp_Name obj)" by (cases "real_peripheral (gp_Name obj)") (simp_all add: gpio_StateToMessage_def name_of_dummy)
  from m [unfolded gpio_message_eq [OF r]] name_text_no_sep [OF r] show "message_line m"
    unfolding message_line_def
    by (intro exI [of _ "name_text (gp_Name obj) @ CHR '':'' # ''dir:'' @
       (case gp_StagingDirection obj of Input \<Rightarrow> ''In'' | Output \<Rightarrow> ''Out'') @ '':val:'' @
       (case gp_StagingValue obj of High \<Rightarrow> ''Hi:'' | Low \<Rightarrow> ''Low:'')"])
      (auto split: GpioDirection.splits GpioValue.splits)
qed (rule gpio_name_kept)

section \<open>Parsing a report\<close>

lemma gpio_parse_report:
  assumes "real_peripheral (gp_Name obj)"
    and "(D, dir) \<in> {(''In'', Input), (''Out'', Output)}" and "(V, v) \<in> {(''Hi'', High), (''Low'', Low)}"
  shows "gpio_ParseMessage (name_text (gp_Name obj) @ '':dir:'' @ D @ '':val:'' @ V @ '':'' @ [newline]) obj =
    (obj\<lparr>gp_Direction := dir, gp_Value := v\<rparr>, None)"
proof -
  let ?o = "obj\<lparr>gp_Direction := dir\<rparr>" and ?o2 = "obj\<lparr>gp_Direction := dir, gp_Value := v\<rparr>"
  have DV: "CHR '':'' \<notin> set D" "CHR '':'' \<notin> set V" using assms(2,3) by auto
  obtain kd where kd: "gpio_token obj ''dir'' = Value kd" "kd D = (?o, None)"
    using assms(2) by (auto simp: gpio_token_def)
  obtain kv where kv: "gpio_token ?o ''val'' = Value kv" "kv V = (?o2, None)"
    using assms(3) by (auto simp: gpio_token_def)
  have nl: "gpio_token ?o2 [newline] = Skip"
    using name_text_eq [OF assms(1)] by (simp add: gpio_token_def ignored_token_def)
  have "gpio_ParseMessage (name_text (gp_Name obj) @ '':dir:'' @ D @ '':val:'' @ V @ '':'' @ [newline]) obj =
      token_loop gpio_token obj (Some (''dir'' @ CHR '':'' # D @ CHR '':'' # (''val'' @ CHR '':'' # V @ CHR '':'' # [newline])))"
    using parse_tokens_named [of "name_text (gp_Name obj)" gpio_token obj "''dir:'' @ D @ '':val:'' @ V @ '':'' @ [newline]"]
      name_text_no_sep [OF assms(1)] by (simp add: gpio_ParseMessage_def)
  also have "\<dots> = token_loop gpio_token ?o (Some (''val'' @ CHR '':'' # V @ CHR '':'' # [newline]))"
    using token_loop_value [of "''dir''" D gpio_token obj kd "''val'' @ CHR '':'' # V @ CHR '':'' # [newline]"] DV kd by simp
  also have "\<dots> = token_loop gpio_token ?o2 (Some [newline])"
    using token_loop_value [of "''val''" V gpio_token ?o kv "[newline]"] DV kv by simp
  also have "\<dots> = (?o2, None)" using nl by (rule token_loop_newline)
  finally show ?thesis .
qed


section \<open>From the host to the pin and back\<close>

text \<open>What the firmware reports of a pin that was enabled before.\<close>

lemma gpio_report_state:
  fixes pin :: gpio_pin and b :: board and lv :: pin_levels
  defines "v' \<equiv> (if g_Direction pin = OUTPUT b then g_Value pin else digitalRead lv (g_Id pin))"
  assumes "board_ok b" and "g_Direction pin \<in> {INPUT b, OUTPUT b}"
    and "g_Enabled pin = 1" and "g_LastReportedEnabled pin = 1" and "0 \<le> g_Id pin" "g_Id pin < 100" and "24 \<le> space"
  shows "GpioPin_Report b lv pin space =
    (if g_LastReportedDirection pin = g_Direction pin \<and> g_LastReportedValue pin = v'
     then Some (0, [], pin\<lparr>g_Value := v'\<rparr>)
     else (let pin' = pin\<lparr>g_Value := v', g_LastReportedDirection := g_Direction pin, g_LastReportedValue := v'\<rparr>
           in Some (int (length (gpio_state_msg b pin')), gpio_state_msg b pin', pin')))"
proof -
  have l: "length (gpio_state_msg b p) \<le> 24" if "g_Id p = g_Id pin" for p
    using length_gpio_state_msg [of p b] that assms(6,7) by simp
  note msg = l [of "pin\<lparr>g_Value := v', g_LastReportedDirection := g_Direction pin, g_LastReportedValue := v'\<rparr>"]
  show ?thesis
  proof (cases "g_Direction pin = OUTPUT b")
    case True
    with assms(2) have "g_Direction pin \<noteq> INPUT b" "g_Direction pin \<noteq> INPUT_PULLUP b" "pin\<lparr>g_Value := v'\<rparr> = pin" "v' = g_Value pin"
      by (auto simp: v'_def board_ok_def)
    with msg assms(4,5,8) show ?thesis
      by (simp add: GpioPin_Report_def Let_def sprintf_buf_def report_result_def)
  next
    case False
    with assms(2,3) have "g_Direction pin = INPUT b" "snd (GpioPin_Read b lv pin) = pin\<lparr>g_Value := v'\<rparr>"
      by (auto simp: v'_def GpioPin_Read_def)
    with msg assms(4,5,8) show ?thesis
      by (simp add: GpioPin_Report_def Let_def sprintf_buf_def report_result_def)
  qed
qed

text \<open>C8: a setting travels from a host object to the pin of that number and back. The
  object's message, received by the firmware character by character, sets the pin; if the pin was enabled, its
  next report either is empty, because it would repeat the last one, or is parsed by the host
  without an exception and leaves the object consistent with what was asked for.\<close>

theorem gpio_end_to_end:
  assumes inv: "daemon_inv b d" and ptr: "RxBufPtr d = 0" and b: "board_ok b"
    and i: "22 \<le> i" "i \<le> 53" and name: "name_text (gp_Name obj) = ''GPIO'' @ fmt_d i"
    and en: "g_Enabled (GpioPins d ! nat (i - 22)) = 1" "g_LastReportedEnabled (GpioPins d ! nat (i - 22)) = 1"
    and space: "24 \<le> space"
  shows "\<exists>m d' r report pin'. gpio_StateToMessage obj = Inr m \<and> forM m (recv_char b ms) d = Some d' \<and>
     g_Direction (GpioPins d' ! nat (i - 22)) = (case gp_StagingDirection obj of Input \<Rightarrow> INPUT b | Output \<Rightarrow> OUTPUT b) \<and>
     g_Value (GpioPins d' ! nat (i - 22)) = (case gp_StagingValue obj of High \<Rightarrow> HIGH b | Low \<Rightarrow> LOW b) \<and>
     GpioPin_Report b lv (GpioPins d' ! nat (i - 22)) space = Some (r, report, pin') \<and>
     (if report = [] then g_LastReportedDirection pin' = g_Direction pin' \<and> g_LastReportedValue pin' = g_Value pin'
      else \<exists>obj'. gpio_ParseMessage report obj = (obj', None) \<and> gpio_IsConsistant obj' \<and>
        gp_StagingDirection obj' = gp_StagingDirection obj \<and> gp_StagingValue obj' = gp_StagingValue obj)"
proof -
  let ?k = "nat (i - 22)"
  define D where "D = (case gp_StagingDirection obj of Input \<Rightarrow> ''In'' | Output \<Rightarrow> ''Out'')"
  define V where "V = (case gp_StagingValue obj of High \<Rightarrow> ''Hi'' | Low \<Rightarrow> ''Low'')"
  define dir where "dir = (case gp_StagingDirection obj of Input \<Rightarrow> INPUT b | Output \<Rightarrow> OUTPUT b)"
  define v where "v = (case gp_StagingValue obj of High \<Rightarrow> HIGH b | Low \<Rightarrow> LOW b)"
  have D: "(D, dir) \<in> {(''In'', INPUT b), (''Out'', OUTPUT b)}" and V: "(V, v) \<in> {(''Hi'', HIGH b), (''Low'', LOW b)}"
    by (simp_all add: D_def dir_def V_def v_def split: GpioDirection.split GpioValue.split)
  have real: "real_peripheral (gp_Name obj)" using name by (intro name_text_real) simp
  have m: "gpio_StateToMessage obj = Inr (gpio_command i D V @ [NL])"
    unfolding gpio_message_eq [OF real] name D_def V_def by (simp add: gpio_command_def split: GpioValue.split)
  obtain r pin ev where set: "GpioPin_Set b (GpioPins d ! ?k) dir v = (r, pin, ev)" by (metis prod_cases3)
  then have pin: "pin = (GpioPins d ! ?k)\<lparr>g_Direction := dir, g_Value := v\<rparr>" by (simp add: GpioPin_Set_def)
  obtain rx where d': "forM (gpio_command i D V @ [NL]) (recv_char b ms) d =
      Some ((drive ev (d\<lparr>RxBuf := rx, GpioPins := (GpioPins d)[?k := pin]\<rparr>))\<lparr>RxBufPtr := 0\<rparr>)" (is "_ = Some ?d'")
    using recv_gpio_line [OF inv ptr i D V set, of ms] by blast
  have ok: "pins_ok g_Id (gpio_inv b) 32 22 (GpioPins d)" using inv by (simp add: daemon_inv_def)
  have k: "?k < length (GpioPins d)" using pins_ok_length [OF ok] i by simp
  have g: "GpioPins ?d' ! ?k = pin" using k by (simp add: drive_def)
  have id: "g_Id pin = i" using ok i by (simp add: pin pins_ok_def)
  define v' where "v' = (if dir = OUTPUT b then v else digitalRead lv i)"
  have rep: "GpioPin_Report b lv pin space =
    (if g_LastReportedDirection pin = dir \<and> g_LastReportedValue pin = v'
     then Some (0, [], pin\<lparr>g_Value := v'\<rparr>)
     else (let pin' = pin\<lparr>g_Value := v', g_LastReportedDirection := dir, g_LastReportedValue := v'\<rparr>
           in Some (int (length (gpio_state_msg b pin')), gpio_state_msg b pin', pin')))"
    using gpio_report_state [OF b, of pin space lv] D en space i id by (auto simp: pin v'_def)
  have parse: "\<exists>obj'. gpio_ParseMessage (gpio_state_msg b p) obj = (obj', None) \<and> gpio_IsConsistant obj' \<and>
      gp_StagingDirection obj' = gp_StagingDirection obj \<and> gp_StagingValue obj' = gp_StagingValue obj"
    if "g_Id p = i" "g_Direction p = dir" "dir = OUTPUT b \<longrightarrow> g_Value p = v" for p
  proof -
    have D': "(D, gp_StagingDirection obj) \<in> {(''In'', Input), (''Out'', Output)}"
      by (simp add: D_def split: GpioDirection.split)
    define W where "W = (if g_Value p = HIGH b then (''Hi'', High) else (''Low'', Low))"
    have W: "(fst W, snd W) \<in> {(''Hi'', High), (''Low'', Low)}" by (simp add: W_def)
    have "gpio_state_msg b p = name_text (gp_Name obj) @ '':dir:'' @ D @ '':val:'' @ fst W @ '':'' @ [newline]"
      using b that by (auto simp: gpio_state_msg_def name D_def W_def dir_def board_ok_def split: GpioDirection.splits)
    moreover have "gp_StagingDirection obj = Output \<Longrightarrow> snd W = gp_StagingValue obj"
      using b that(3) by (auto simp: W_def v_def dir_def board_ok_def split: GpioValue.splits)
    ultimately show ?thesis
      using gpio_parse_report [OF real D' W] by (cases "gp_StagingDirection obj") (auto simp: gpio_IsConsistant_def)
  qed
  have pgv: "g_Direction pin = dir" "g_Value pin = v" by (simp_all add: pin)
  show ?thesis
  proof (cases "g_LastReportedDirection pin = dir \<and> g_LastReportedValue pin = v'")
    case True
    with rep have "GpioPin_Report b lv pin space = Some (0, [], pin\<lparr>g_Value := v'\<rparr>)" by simp
    with m d' g pgv True show ?thesis
      by (intro exI [of _ "gpio_command i D V @ [NL]"] exI [of _ ?d'] exI [of _ 0] exI [of _ "[]"] exI [of _ "pin\<lparr>g_Value := v'\<rparr>"])
        (simp add: dir_def v_def)
  next
    case False
    define p where "p = pin\<lparr>g_Value := v', g_LastReportedDirection := dir, g_LastReportedValue := v'\<rparr>"
    have "GpioPin_Report b lv pin space = Some (int (length (gpio_state_msg b p)), gpio_state_msg b p, p)"
      using rep [unfolded if_not_P [OF False] Let_def] unfolding p_def .
    moreover have "gpio_state_msg b p \<noteq> []" by (simp add: gpio_state_msg_def)
    moreover note parse [of p]
    moreover have "g_Id p = i" "g_Direction p = dir" "dir = OUTPUT b \<longrightarrow> g_Value p = v"
      by (simp_all add: p_def id pgv v'_def)
    ultimately show ?thesis using m d' g pgv
      by (intro exI [of _ "gpio_command i D V @ [NL]"] exI [of _ ?d'] exI [of _ "int (length (gpio_state_msg b p))"]
          exI [of _ "gpio_state_msg b p"] exI [of _ p]) (simp add: dir_def v_def)
  qed
qed


text \<open>A run: pin 22 was enabled and is asked to drive a high level.\<close>

definition enabled_start :: daemon where
  "enabled_start = start\<lparr>GpioPins := (GpioPins start)[0 := (gpio_reset sam3x 0)\<lparr>g_Enabled := 1, g_LastReportedEnabled := 1\<rparr>]\<rparr>"

lemma enabled_start_inv: "daemon_inv sam3x enabled_start"
proof -
  have "pins_ok g_Id (gpio_inv sam3x) 32 22 (GpioPins start)" using start_inv by (simp add: daemon_inv_def)
  then have "pins_ok g_Id (gpio_inv sam3x) 32 22 (GpioPins enabled_start)"
    unfolding enabled_start_def by (auto simp: pins_ok_def nth_list_update gpio_reset_def gpio_inv_def)
  with start_inv show ?thesis by (simp add: daemon_inv_def enabled_start_def)
qed

definition pin22_object :: gpio_object where
  "pin22_object = \<lparr>gp_Name = GPIO22, gp_Direction = Input, gp_Value = Low, gp_StagingDirection = Output, gp_StagingValue = High\<rparr>"

theorem gpio_end_to_end_witness:
  "\<exists>m d' r report pin'. gpio_StateToMessage pin22_object = Inr m \<and> forM m (recv_char sam3x 5) enabled_start = Some d' \<and>
     GpioPin_Report sam3x levels512 (GpioPins d' ! 0) 1024 = Some (r, report, pin') \<and> g_Direction (GpioPins d' ! 0) = 1"
proof -
  have l: "0 < length (GpioPins start)" using daemon_inv_sizes [OF start_inv] by (simp add: daemon_sizes_def)
  have "name_text (gp_Name pin22_object) = ''GPIO'' @ fmt_d 22"
    by (simp add: name_text_def pin22_object_def digits10.simps [of 22] digits10.simps [of 2] digit_char_def)
  from gpio_end_to_end [OF enabled_start_inv _ board_ok_sam3x _ _ this, of 1024 5 levels512] l show ?thesis
    by (simp add: enabled_start_def start_facts pin22_object_def sam3x_def) blast
qed

end
