(* ===== verification/Host_Adc.thy ===== *)
theory Host_Adc
  imports Host_Peripheral
begin

text \<open>
  \<open>clank/lib/hardware/AdcPin.cpp\<close>: an analogue input seen from the host, and the trip of a threshold
  to the firmware and back. The host prints six decimals, the firmware keeps single precision and
  reports two decimals, and the host compares what it reads with what it asked for.

  The members a constructor does not assign keep the arbitrary content of the new object, \<open>memory\<close>.
\<close>

record adc_object =
  ao_Name :: SamPeripheralName
  ao_LastReportedValue :: cfloat
  ao_LastReportedDeltaThreshold :: cfloat
  ao_DeltaThresholdSetPoint :: cfloat

definition adc_StateToMessage :: "adc_object \<Rightarrow> exn + string" where
  "adc_StateToMessage obj = (case PeripheralNameToString (ao_Name obj) of
       Inl e \<Rightarrow> Inl e
     | Inr n \<Rightarrow> Inr (n @ '':thresh:'' @ to_string (ao_DeltaThresholdSetPoint obj) @ '':'' @ [newline]))"

definition adc_token :: "adc_object \<Rightarrow> string \<Rightarrow> adc_object token_action" where
  "adc_token obj token =
     (if token = ''thresh'' then Value (\<lambda>v. case stod v of
          Inl e \<Rightarrow> (obj, Some e)
        | Inr receivedDelta \<Rightarrow>
            (if f_le receivedDelta (Fin 0) \<or> f_le (Fin 100) receivedDelta then (obj, Some Runtime_error)
             else (obj\<lparr>ao_LastReportedDeltaThreshold := receivedDelta\<rparr>, None)))
      else if token = ''val'' then Value (\<lambda>v. case stod v of
          Inl e \<Rightarrow> (obj, Some e)
        | Inr receivedVal \<Rightarrow>
            (if f_less receivedVal (Fin 0) \<or> f_less (Fin 100) receivedVal then (obj, Some Runtime_error)
             else (obj\<lparr>ao_LastReportedValue := receivedVal\<rparr>, None)))
      else if ignored_token (ao_Name obj) token then Skip
      else Reject)"

definition adc_ParseMessage :: "string \<Rightarrow> adc_object \<Rightarrow> adc_object \<times> exn option" where
  "adc_ParseMessage message obj = parse_tokens adc_token obj message"

definition adc_IsConsistant :: "adc_object \<Rightarrow> bool" where
  "adc_IsConsistant obj \<longleftrightarrow> f_eq (ao_DeltaThresholdSetPoint obj) (ao_LastReportedDeltaThreshold obj)"

text \<open>
  The constructor from a configuration composes the text of an error for a threshold outside the
  range and does not throw it; the constructor from a number does the same and does not store
  the number.
\<close>

definition adc_config_constructor ::
    "kernel_write \<Rightarrow> adc_object \<Rightarrow> SamPeripheralName \<Rightarrow> configuration \<Rightarrow> serial_port \<Rightarrow> (exn + adc_object) \<times> serial_port" where
  "adc_config_constructor written memory name config port =
     (let (given, startingDelta) = GetConfigurationData config ''Threshold'' in
      if \<not> given then (Inl Runtime_error, port)
      else case stod startingDelta of
          Inl e \<Rightarrow> (Inl e, port)
        | Inr t \<Rightarrow> construct written adc_StateToMessage
            (memory\<lparr>ao_Name := name, ao_DeltaThresholdSetPoint := t, ao_LastReportedDeltaThreshold := Fin 0\<rparr>) port)"

definition adc_constructor ::
    "kernel_write \<Rightarrow> adc_object \<Rightarrow> SamPeripheralName \<Rightarrow> cfloat \<Rightarrow> serial_port \<Rightarrow> (exn + adc_object) \<times> serial_port" where
  "adc_constructor written memory name threshold port =
     construct written adc_StateToMessage (memory\<lparr>ao_Name := name, ao_LastReportedDeltaThreshold := Fin 0\<rparr>) port"

definition adc_SetDeltaThreshold ::
    "kernel_write \<Rightarrow> cfloat \<Rightarrow> adc_object \<Rightarrow> serial_port \<Rightarrow> adc_object \<times> serial_port \<times> exn option" where
  "adc_SetDeltaThreshold written threshold obj port =
     (if f_le threshold (Fin 0) \<or> f_le (Fin 100) threshold then (obj, port, Some Runtime_error)
      else let obj' = obj\<lparr>ao_DeltaThresholdSetPoint := threshold\<rparr>
           in (obj', SetState written (adc_StateToMessage obj') port))"

section \<open>The contract\<close>

lemma adc_name_kept: "ao_Name (fst (adc_ParseMessage m obj)) = ao_Name obj"
proof -
  have "ao_Name (fst (token_loop adc_token obj s)) = ao_Name obj" for s
    by (rule token_loop_keeps [where P = "\<lambda>o'. ao_Name o' = ao_Name obj"])
      (auto simp: adc_token_def split: if_splits sum.splits)
  then show ?thesis by (simp add: adc_ParseMessage_def parse_tokens_def split: prod.split)
qed

lemma adc_message_eq:
  "real_peripheral (ao_Name obj) \<Longrightarrow> adc_StateToMessage obj =
     Inr (name_text (ao_Name obj) @ CHR '':'' # ''thresh:'' @ to_string (ao_DeltaThresholdSetPoint obj) @ '':'' @ [newline])"
  by (simp add: adc_StateToMessage_def name_text_eq)

interpretation adc_object: sam_peripheral ao_Name adc_StateToMessage adc_ParseMessage
proof unfold_locales
  fix obj m
  show "real_peripheral (ao_Name obj) \<Longrightarrow> \<exists>r. adc_StateToMessage obj = Inr (name_text (ao_Name obj) @ CHR '':'' # r)"
    by (simp add: adc_message_eq)
  show "\<not> real_peripheral (ao_Name obj) \<Longrightarrow> adc_StateToMessage obj = Inl Runtime_error"
    by (simp add: adc_StateToMessage_def name_of_dummy)
  assume m: "adc_StateToMessage obj = Inr m"
  then have r: "real_peripheral (ao_Name obj)"
    by (cases "real_peripheral (ao_Name obj)") (simp_all add: adc_StateToMessage_def name_of_dummy)
  from m [unfolded adc_message_eq [OF r]] name_text_no_sep [OF r] show "message_line m"
    unfolding message_line_def
    by (intro exI [of _ "name_text (ao_Name obj) @ CHR '':'' # ''thresh:'' @ to_string (ao_DeltaThresholdSetPoint obj) @ '':''"])
      (auto simp: to_string_def)
qed (rule adc_name_kept)

text \<open>A report with both fields.\<close>

lemma adc_parse_thresh:
  assumes "real_peripheral (ao_Name obj)" and "CHR '':'' \<notin> set T" and "CHR '':'' \<notin> set W"
    and T: "stod T = Inr t"
  shows "adc_ParseMessage (name_text (ao_Name obj) @ '':thresh:'' @ T @ '':val:'' @ W @ '':'' @ [newline]) obj =
    (if f_le t (Fin 0) \<or> f_le (Fin 100) t then (obj, Some Runtime_error)
     else token_loop adc_token (obj\<lparr>ao_LastReportedDeltaThreshold := t\<rparr>) (Some (''val'' @ CHR '':'' # W @ CHR '':'' # [newline])))"
proof -
  let ?r = "''val'' @ CHR '':'' # W @ CHR '':'' # [newline]"
  have "adc_ParseMessage (name_text (ao_Name obj) @ '':thresh:'' @ T @ '':val:'' @ W @ '':'' @ [newline]) obj =
      token_loop adc_token obj (Some (''thresh'' @ CHR '':'' # T @ CHR '':'' # ?r))"
    using parse_tokens_named [of "name_text (ao_Name obj)" adc_token obj "''thresh:'' @ T @ '':val:'' @ W @ '':'' @ [newline]"]
      name_text_no_sep [OF assms(1)] by (simp add: adc_ParseMessage_def)
  moreover obtain k where k: "adc_token obj ''thresh'' = Value k" "k T = (if f_le t (Fin 0) \<or> f_le (Fin 100) t then (obj, Some Runtime_error)
       else (obj\<lparr>ao_LastReportedDeltaThreshold := t\<rparr>, None))"
    using T by (simp add: adc_token_def)
  ultimately show ?thesis using token_loop_value [of "''thresh''" T adc_token obj k ?r] assms(2) by simp
qed

lemma adc_parse_val:
  assumes "real_peripheral (ao_Name obj)" and "CHR '':'' \<notin> set W" and "stod W = Inr w"
    and "\<not> f_less w (Fin 0)" and "\<not> f_less (Fin 100) w"
  shows "token_loop adc_token obj (Some (''val'' @ CHR '':'' # W @ CHR '':'' # [newline])) = (obj\<lparr>ao_LastReportedValue := w\<rparr>, None)"
proof -
  let ?o = "obj\<lparr>ao_LastReportedValue := w\<rparr>"
  obtain k where k: "adc_token obj ''val'' = Value k" "k W = (?o, None)" using assms(3-5) by (simp add: adc_token_def)
  have "adc_token ?o [newline] = Skip"
    using name_text_eq [OF assms(1)] by (simp add: adc_token_def ignored_token_def)
  then have "token_loop adc_token ?o (Some [newline]) = (?o, None)" by (rule token_loop_newline)
  with token_loop_value [of "''val''" W adc_token obj k "[newline]"] k assms(2) show ?thesis by simp
qed

section \<open>The trip of a number\<close>

text \<open>What the firmware reports of an input that was enabled before and whose threshold changed.\<close>

lemma adc_report_state:
  assumes "AdcPin_Report b lv pin space = Some (r, report, pin')"
    and "a_Enabled pin = 1" and "a_LastReportedEnabled pin = 1" and "f_ne (a_Threshold pin) (a_LastReportedThreshold pin)"
    and "64 \<le> space"
  shows "report = ''ADC'' @ fmt_d (a_Id pin) @ '':thresh:'' @ fmt_f2 (a_Threshold pin) @
     '':val:'' @ fmt_f2 (adc_percent (analogRead lv (a_Id pin))) @ '':'' @ [CHR 0x0A]"
  using assms
  by (auto simp: AdcPin_Report_def Let_def sprintf_buf_Some report_result_def adc_state_msg_def split: bind_splits if_splits)

text \<open>The value field of a report is one the host accepts.\<close>

lemma adc_value_accepted:
  assumes "levels_ok lv"
  shows "\<exists>w. stod (fmt_f2 (adc_percent (analogRead lv i))) = Inr w \<and> \<not> f_less w (Fin 0) \<and> \<not> f_less (Fin 100) w"
proof -
  let ?n = "analogRead lv i"
  have n: "0 \<le> ?n" "?n < 1024" using assms by (simp_all add: levels_ok_def)
  define x :: rat where "x = of_int (?n * 100) / 1024"
  define q where "q = round_half_even (x * 10 ^ 2)"
  have "of_int ?n \<le> (of_int 1023 :: rat)" using n(2) by (simp only: of_int_le_iff)
  then have x: "0 \<le> x" "x \<le> 9991 / 100" using n(1) by (simp_all add: x_def)
  have q0: "0 \<le> q" unfolding q_def using x(1) by (intro round_half_even_nonneg) simp
  have q1: "q \<le> 9991" unfolding q_def using x(2) by (intro round_half_even_mono_int) simp
  have "adc_percent ?n = Fin x" unfolding x_def by (rule adc_percent_exact [OF n])
  then have t: "fmt_f2 (adc_percent ?n) = fixed_text 2 q"
    using x(1) by (simp add: fmt_f2_fixed fmt_fixed_def q_def)
  let ?y = "of_int q / 10 ^ 2 :: rat"
  have qr: "of_int q \<le> (of_int 9991 :: rat)" using q1 by (simp only: of_int_le_iff)
  have y1: "?y < pow2 1000" using qr pow2_le [of 7 1000] by (simp add: pow2_def [of 7])
  have y2: "q = 0 \<or> pow2 (- 1022) \<le> ?y"
  proof (cases "q = 0")
    case False
    then have "(of_int 1 :: rat) \<le> of_int q" using q0 by (simp only: of_int_le_iff)
    then show ?thesis using pow2_le [of "- 1022" "- 10"] by (simp add: pow2_def [of "- 10"])
  qed simp
  have "\<bar>?y\<bar> < pow2 1023" using y1 q0 pow2_le [of 1000 1023] by simp
  then obtain s where s: "round64 ?y = Fin s" "\<bar>s - ?y\<bar> \<le> max \<bar>?y\<bar> (pow2 (- 1022)) * pow2 (- 53)"
    using fround_error [of ?y 1023 53 "- 1022"] by auto
  have "0 \<le> s \<and> s \<le> 100"
  proof (cases "q = 0")
    case True
    then have "round64 ?y = Fin 0" by (simp add: fround_def)
    with s(1) show ?thesis by simp
  next
    case False
    with y2 have m: "max \<bar>?y\<bar> (pow2 (- 1022)) = ?y" using q0 by simp
    have "?y * pow2 (- 53) \<le> ?y * (1 / 2 ^ 53)" using q0 by (intro mult_left_mono) (simp_all add: pow2_def)
    also have "\<dots> \<le> (9991 / 100) * (1 / 2 ^ 53)" using qr by (intro mult_right_mono) simp_all
    finally have e: "?y * pow2 (- 53) \<le> 9991 / 100 / 2 ^ 53" by simp
    have "?y * pow2 (- 53) \<le> ?y * 1" using q0 by (intro mult_left_mono) (simp_all add: pow2_def)
    with s(2) m e qr show ?thesis by (simp add: abs_le_iff)
  qed
  moreover have "stod (fixed_text 2 q) = Inr (Fin s)" using stod_fixed [OF q0 y1 y2] s(1) by simp
  ultimately show ?thesis by (simp add: t)
qed

text \<open>
  A positive set point below 100 that does not print as zero: what the firmware makes of it and the report it sends.
\<close>

lemma adc_trip:
  assumes inv: "daemon_inv b d" and ptr: "RxBufPtr d = 0" and i: "0 \<le> i" "i \<le> 11"
    and name: "name_text (ao_Name obj) = ''ADC'' @ fmt_d i"
    and sp: "ao_DeltaThresholdSetPoint obj = Fin \<tau>" "0 \<le> \<tau>" "round_half_even (\<tau> * 10 ^ 6) = k" "0 < k" "k < 10 ^ 8"
    and en: "a_Enabled (AdcPins d ! nat i) = 1" "a_LastReportedEnabled (AdcPins d ! nat i) = 1"
    and last: "a_LastReportedThreshold (AdcPins d ! nat i) \<noteq> f_cast round32 (round64 (of_int k / 10 ^ 6))"
    and lv: "levels_ok lv" and space: "64 \<le> space"
  shows "\<exists>\<rho> m d' r pin'. adc_StateToMessage obj = Inr m \<and> forM m (recv_char b ms) d = Some d' \<and>
     a_Threshold (AdcPins d' ! nat i) = Fin \<rho> \<and> \<bar>\<rho> - of_int k / 10 ^ 6\<bar> \<le> of_int k / 10 ^ 6 * pow2 (- 23) \<and>
     AdcPin_Report b lv (AdcPins d' ! nat i) space = Some (r, name_text (ao_Name obj) @ '':thresh:'' @ fmt_f2 (Fin \<rho>) @
       '':val:'' @ fmt_f2 (adc_percent (analogRead lv i)) @ '':'' @ [newline], pin')"
proof -
  let ?x = "of_int k / 10 ^ 6 :: rat" and ?T = "fixed_text 6 k"
  have k: "(of_int 1 :: rat) \<le> of_int k" "of_int k \<le> (of_int (10 ^ 8) :: rat)" using sp(4,5) by (simp_all only: of_int_le_iff)
  have "pow2 (- 125) \<le> ?x" using k(1) pow2_le [of "- 125" "- 20"] by (simp add: pow2_def [of "- 20"])
  moreover have "?x < pow2 100" using k(2) pow2_le [of 10 100] by (simp add: pow2_def [of 10])
  ultimately obtain \<rho> where \<rho>: "f_cast round32 (round64 ?x) = Fin \<rho>" "\<bar>\<rho> - ?x\<bar> \<le> ?x * pow2 (- 23)"
    by (rule double_to_single)
  define y where "y = ?x"
  have y: "0 < y" "y \<le> 100" using k by (simp_all add: y_def)
  have "y * pow2 (- 23) < y * 1" using y(1) by (intro mult_strict_left_mono) (simp_all add: pow2_def)
  with \<rho>(2) [folded y_def] y(2) have pos: "0 < \<rho>" "\<rho> < 10 ^ Suc 2" by (simp_all add: abs_le_iff)
  have real: "real_peripheral (ao_Name obj)" using name by (intro name_text_real) simp
  have T: "to_string (Fin \<tau>) = ?T" using sp(2,3) by (simp add: to_string_def fmt_fixed_def)
  have Tc: "c \<in> set ?T \<Longrightarrow> is_digit c \<or> c = CHR ''.''" for c using sp(4) by (intro fixed_text_chars) simp_all
  have T': "field ?T" "NL \<notin> set ?T" "length ?T \<le> 64"
    using Tc [of "CHR '':''"] Tc [of NUL] Tc [of NL] length_fixed_text [of k 6] sp(5)
    by (auto simp: field_def is_digit_def fixed_text_def [of 6 k])
  have m: "adc_StateToMessage obj = Inr (adc_command i ?T @ [NL])"
    by (simp add: adc_message_eq [OF real] name sp(1) T adc_command_def)
  have v: "Fin \<rho> = f_cast round32 (strtod ?T)" using \<rho>(1) sp(4) by (simp add: strtod_fixed)
  have "\<not> f_le (Fin \<rho>) (Fin 0)" using pos by (simp add: f_le_def f_eq_def)
  from recv_adc_line [OF inv ptr i T' v this, of ms] obtain rx where
    d': "forM (adc_command i ?T @ [NL]) (recv_char b ms) d =
     Some (d\<lparr>RxBuf := rx, AdcPins := (AdcPins d)[nat i := (AdcPins d ! nat i)\<lparr>a_Threshold := Fin \<rho>\<rparr>], RxBufPtr := 0\<rparr>)"
    (is "_ = Some ?d'") by blast
  have ok: "pins_ok a_Id adc_inv 12 0 (AdcPins d)" using inv by (simp add: daemon_inv_def)
  have nk: "nat i < length (AdcPins d)" using pins_ok_length [OF ok] i by simp
  let ?pin = "(AdcPins d ! nat i)\<lparr>a_Threshold := Fin \<rho>\<rparr>"
  have g: "AdcPins ?d' ! nat i = ?pin" using nk by simp
  have id: "a_Id ?pin = i" and ai: "adc_inv (AdcPins d ! nat i)" using ok i by (simp_all add: pins_ok_def)
  have "adc_inv ?pin" using ai pos by (simp add: adc_inv_def f_le_def f_eq_def)
  moreover have "adc_printable ?pin"
    using short_text_Fin [of \<rho> 2] pos by (simp add: adc_printable_def short_text_def)
  ultimately obtain r report pin' where rep: "AdcPin_Report b lv ?pin space = Some (r, report, pin')"
    using adc_Report_defined [OF _ _ lv] by blast
  have "f_ne (a_Threshold ?pin) (a_LastReportedThreshold ?pin)"
    using last \<rho>(1) by (auto simp: f_ne_def f_eq_def)
  from adc_report_state [OF rep _ _ this space] en have
    "report = name_text (ao_Name obj) @ '':thresh:'' @ fmt_f2 (Fin \<rho>) @ '':val:'' @ fmt_f2 (adc_percent (analogRead lv i)) @ '':'' @ [newline]"
    using id by (simp add: name)
  with m d' g rep \<rho>(2) show ?thesis
    by (intro exI [of _ \<rho>] exI [of _ "adc_command i ?T @ [NL]"] exI [of _ ?d'] exI [of _ r] exI [of _ pin']) simp
qed


section \<open>Properties\<close>

text \<open>A run: input 3 was enabled with its reset threshold 5.\<close>

definition enabled_adc_start :: daemon where
  "enabled_adc_start = start\<lparr>AdcPins := (AdcPins start)[3 := (adc_reset 3)\<lparr>a_Enabled := 1, a_LastReportedEnabled := 1\<rparr>]\<rparr>"

definition adc3_object :: adc_object where
  "adc3_object = \<lparr>ao_Name = ADC3, ao_LastReportedValue = Fin 0, ao_LastReportedDeltaThreshold = Fin 0, ao_DeltaThresholdSetPoint = Fin (5 / 2)\<rparr>"

lemma enabled_adc_start_inv: "daemon_inv sam3x enabled_adc_start"
proof -
  have "pins_ok a_Id adc_inv 12 0 (AdcPins start)" using start_inv by (simp add: daemon_inv_def)
  then have "pins_ok a_Id adc_inv 12 0 (AdcPins enabled_adc_start)"
    unfolding enabled_adc_start_def by (auto simp: pins_ok_def nth_list_update adc_reset_def adc_inv_def f_le_def f_eq_def)
  with start_inv show ?thesis by (simp add: daemon_inv_def enabled_adc_start_def)
qed

lemma enabled_adc_pin: "AdcPins enabled_adc_start ! 3 = (adc_reset 3)\<lparr>a_Enabled := 1, a_LastReportedEnabled := 1\<rparr>"
  using daemon_inv_sizes [OF start_inv] by (simp add: enabled_adc_start_def daemon_sizes_def)

lemma adc3_name: "name_text (ao_Name (adc3_object\<lparr>ao_DeltaThresholdSetPoint := t\<rparr>)) = ''ADC'' @ fmt_d 3"
  by (simp add: name_text_def adc3_object_def digits10.simps [of 3] digit_char_def)

lemma levels512_ok: "levels_ok levels512"
  by (simp add: levels_ok_def levels512_def)

text \<open>C16: a threshold with two decimals survives the trip. For every set point
  from 0.01 to 99.99 in steps of 0.01 the object's message makes the firmware (between two messages, the input enabled and its last
  reported threshold a different one) report a text that the host parses without an exception, and
  the value read is exactly the set point: the object is consistent.\<close>

theorem adc_threshold_end_to_end:
  assumes "daemon_inv b d" and "RxBufPtr d = 0" and "0 \<le> i" "i \<le> 11" and "1 \<le> n" "n \<le> 9999"
    and "name_text (ao_Name obj) = ''ADC'' @ fmt_d i" and "ao_DeltaThresholdSetPoint obj = round64 (of_int n / 10 ^ 2)"
    and "a_Enabled (AdcPins d ! nat i) = 1" "a_LastReportedEnabled (AdcPins d ! nat i) = 1"
    and "a_LastReportedThreshold (AdcPins d ! nat i) \<noteq> f_cast round32 (ao_DeltaThresholdSetPoint obj)"
    and "levels_ok lv" and "64 \<le> space"
  shows "\<exists>m d' r report pin' obj'. adc_StateToMessage obj = Inr m \<and> forM m (recv_char b ms) d = Some d' \<and>
     AdcPin_Report b lv (AdcPins d' ! nat i) space = Some (r, report, pin') \<and>
     adc_ParseMessage report obj = (obj', None) \<and> adc_IsConsistant obj' \<and>
     ao_DeltaThresholdSetPoint obj' = ao_DeltaThresholdSetPoint obj"
proof -
  obtain \<tau> where \<tau>: "round64 (of_int n / 10 ^ 2) = Fin \<tau>" "round_half_even (\<tau> * 10 ^ 6) = n * 10 ^ 4" "0 < \<tau>" "\<tau> < 100"
    using round64_hundredth [OF assms(5,6)] by blast
  define y :: rat where "y = of_int n / 10 ^ 2"
  have n: "(of_int 1 :: rat) \<le> of_int n" "of_int n \<le> (of_int 9999 :: rat)" using assms(5,6) by (simp_all only: of_int_le_iff)
  then have y: "1 / 100 \<le> y" "y \<le> 9999 / 100" by (simp_all add: y_def)
  have x: "of_int (n * 10 ^ 4) / 10 ^ 6 = (of_int n / 10 ^ 2 :: rat)" by simp
  obtain \<rho> m d' r pin' where t: "adc_StateToMessage obj = Inr m" "forM m (recv_char b ms) d = Some d'"
    "\<bar>\<rho> - y\<bar> \<le> y * pow2 (- 23)"
    "AdcPin_Report b lv (AdcPins d' ! nat i) space = Some (r, name_text (ao_Name obj) @ '':thresh:'' @ fmt_f2 (Fin \<rho>) @
       '':val:'' @ fmt_f2 (adc_percent (analogRead lv i)) @ '':'' @ [newline], pin')"
    using adc_trip [OF assms(1-4,7), of \<tau> "n * 10 ^ 4" lv space ms] assms(5,6,8-13) \<tau> unfolding x y_def by auto
  have "y * pow2 (- 23) \<le> 9999 / 100 * pow2 (- 23)" using y by (intro mult_right_mono) (simp_all add: less_imp_le)
  also have "\<dots> < 1 / 1000" by (simp add: pow2_def)
  finally have e: "\<bar>\<rho> - y\<bar> < 1 / 1000" using t(3) by simp
  have "0 \<le> \<rho>" "\<bar>\<rho> * 100 - y * 100\<bar> < 1 / 2" using e y by linarith+
  then have "fmt_f2 (Fin \<rho>) = fixed_text 2 n"
    unfolding fmt_f2_fixed by (intro fmt_fixed_near) (simp_all add: y_def)
  moreover have "stod (fixed_text 2 n) = Inr (Fin \<tau>)"
    using stod_fixed [of n 2] \<tau>(1) assms(5) y pow2_le [of 10 1000] pow2_le [of "- 1022" "- 10"]
    by (simp add: y_def pow2_def [of 10] pow2_def [of "- 10"])
  ultimately have T: "stod (fmt_f2 (Fin \<rho>)) = Inr (Fin \<tau>)" by simp
  obtain w where w: "stod (fmt_f2 (adc_percent (analogRead lv i))) = Inr w" "\<not> f_less w (Fin 0)" "\<not> f_less (Fin 100) w"
    using adc_value_accepted [OF assms(12)] by blast
  have real: "real_peripheral (ao_Name obj)" using assms(7) by (intro name_text_real) simp
  let ?o = "obj\<lparr>ao_LastReportedDeltaThreshold := Fin \<tau>, ao_LastReportedValue := w\<rparr>"
  have "\<not> (f_le (Fin \<tau>) (Fin 0) \<or> f_le (Fin 100) (Fin \<tau>))" using \<tau>(3,4) by (simp add: f_le_def f_eq_def)
  then have "adc_ParseMessage (name_text (ao_Name obj) @ '':thresh:'' @ fmt_f2 (Fin \<rho>) @
       '':val:'' @ fmt_f2 (adc_percent (analogRead lv i)) @ '':'' @ [newline]) obj = (?o, None)"
    using adc_parse_thresh [OF real _ _ T, of "fmt_f2 (adc_percent (analogRead lv i))"]
      adc_parse_val [of "obj\<lparr>ao_LastReportedDeltaThreshold := Fin \<tau>\<rparr>" "fmt_f2 (adc_percent (analogRead lv i))" w] w real
    by (simp add: fmt_f2_fixed)
  moreover have "adc_IsConsistant ?o" using assms(8) \<tau>(1) by (simp add: adc_IsConsistant_def f_eq_def)
  ultimately show ?thesis using t(1,2,4) by (intro exI conjI) (assumption | rule refl | simp)+
qed

theorem adc_threshold_end_to_end_witness:
  "\<exists>m d' r report pin' obj'. adc_StateToMessage adc3_object = Inr m \<and> forM m (recv_char sam3x 5) enabled_adc_start = Some d' \<and>
     AdcPin_Report sam3x levels512 (AdcPins d' ! 3) 1024 = Some (r, report, pin') \<and>
     adc_ParseMessage report adc3_object = (obj', None) \<and> adc_IsConsistant obj' \<and> ao_DeltaThresholdSetPoint obj' = Fin (5 / 2)"
proof -
  have n: "name_text (ao_Name adc3_object) = ''ADC'' @ fmt_d 3" using adc3_name [of "Fin 0"] by simp
  have sp: "ao_DeltaThresholdSetPoint adc3_object = Fin (5 / 2)" by (simp add: adc3_object_def)
  have r: "round64 (of_int 250 / 10 ^ 2) = Fin (5 / 2)" "f_cast round32 (Fin (5 / 2)) = Fin (5 / 2)" by (simp_all add: float_eval)
  show ?thesis
    using adc_threshold_end_to_end [OF enabled_adc_start_inv, of 3 250 adc3_object levels512 1024 5] n sp r levels512_ok
    by (simp add: enabled_adc_pin adc_reset_def) (simp add: enabled_adc_start_def start_facts)
qed

text \<open>A threshold between 0.000001 and 0.0049, which \<open>SetDeltaThreshold\<close> accepts, is
  reported by the firmware as \<open>0.00\<close>, and the host's parser throws on that report.\<close>

theorem adc_small_threshold_throws:
  assumes "daemon_inv b d" and "RxBufPtr d = 0" and "0 \<le> i" "i \<le> 11" and "1 / 10 ^ 6 \<le> \<tau>" "\<tau> \<le> 49 / 10 ^ 4"
    and "name_text (ao_Name obj) = ''ADC'' @ fmt_d i"
    and "a_Enabled (AdcPins d ! nat i) = 1" "a_LastReportedEnabled (AdcPins d ! nat i) = 1"
    and "f_less (Fin (1 / 100)) (a_LastReportedThreshold (AdcPins d ! nat i))"
    and "levels_ok lv" and "64 \<le> space"
  shows "\<exists>m d' r report pin'.
     adc_SetDeltaThreshold written (Fin \<tau>) obj port = (obj\<lparr>ao_DeltaThresholdSetPoint := Fin \<tau>\<rparr>, SetState written (Inr m) port) \<and>
     forM m (recv_char b ms) d = Some d' \<and> AdcPin_Report b lv (AdcPins d' ! nat i) space = Some (r, report, pin') \<and>
     snd (adc_ParseMessage report (obj\<lparr>ao_DeltaThresholdSetPoint := Fin \<tau>\<rparr>)) = Some Runtime_error"
proof -
  let ?o = "obj\<lparr>ao_DeltaThresholdSetPoint := Fin \<tau>\<rparr>"
  define k where "k = round_half_even (\<tau> * 1000000)"
  define y :: rat where "y = of_int k / 1000000"
  have kb: "\<tau> * 1000000 - 1 / 2 \<le> of_int k" "of_int k \<le> \<tau> * 1000000 + 1 / 2"
    using round_half_even_bounds [of "\<tau> * 1000000"] by (simp_all only: k_def)
  have "(of_int 0 :: rat) < of_int k" using kb(1) assms(5) by simp
  then have k0: "0 < k" by (simp only: of_int_less_iff)
  have k1: "k \<le> 4900" unfolding k_def using assms(6) by (intro round_half_even_mono_int) simp
  have k: "(of_int 1 :: rat) \<le> of_int k" "of_int k \<le> (of_int 4900 :: rat)" using k0 k1 by (simp_all only: of_int_le_iff)
  then have y: "1 / 1000000 \<le> y" "y \<le> 4900 / 1000000" by (simp_all add: y_def)
  have yk: "of_int k / 10 ^ 6 = y" by (simp add: y_def)
  have "pow2 (- 125) \<le> y" using y(1) pow2_le [of "- 125" "- 20"] by (simp add: pow2_def [of "- 20"])
  moreover have "y < pow2 100" using y(2) pow2_le [of 10 100] by (simp add: pow2_def [of 10])
  ultimately obtain \<rho>' where \<rho>': "f_cast round32 (round64 y) = Fin \<rho>'" "\<bar>\<rho>' - y\<bar> \<le> y * pow2 (- 23)"
    by (rule double_to_single)
  have "y * pow2 (- 23) \<le> y * (1 / 100)" using y(1) by (intro mult_left_mono) (simp_all add: pow2_def)
  then have e: "y * pow2 (- 23) \<le> y / 100" by simp
  have "\<rho>' < 1 / 100" using \<rho>'(2) e y by linarith
  then have last: "a_LastReportedThreshold (AdcPins d ! nat i) \<noteq> f_cast round32 (round64 (of_int k / 10 ^ 6))"
    using assms(10) \<rho>'(1) unfolding yk by auto
  have sp: "ao_DeltaThresholdSetPoint ?o = Fin \<tau>" "0 \<le> \<tau>" "round_half_even (\<tau> * 10 ^ 6) = k" "k < 10 ^ 8"
    using assms(5) k1 by (simp_all add: k_def)
  have nm: "name_text (ao_Name ?o) = ''ADC'' @ fmt_d i" using assms(7) by simp
  obtain \<rho> m d' r pin' where t: "adc_StateToMessage ?o = Inr m" "forM m (recv_char b ms) d = Some d'"
    "\<bar>\<rho> - y\<bar> \<le> y * pow2 (- 23)"
    "AdcPin_Report b lv (AdcPins d' ! nat i) space = Some (r, name_text (ao_Name ?o) @ '':thresh:'' @ fmt_f2 (Fin \<rho>) @
       '':val:'' @ fmt_f2 (adc_percent (analogRead lv i)) @ '':'' @ [newline], pin')"
    using adc_trip [OF assms(1-4) nm sp(1-3) k0 sp(4) assms(8,9) last assms(11,12), of ms] unfolding yk
    by (elim exE conjE) (rule that, assumption+)
  have "0 \<le> \<rho>" "\<bar>\<rho> * 10 ^ 2 - of_int 0\<bar> < 1 / 2" using t(3) e y by (simp_all, linarith+)
  then have "fmt_f2 (Fin \<rho>) = fixed_text 2 0" unfolding fmt_f2_fixed by (rule fmt_fixed_near)
  moreover have "stod (fixed_text 2 0) = Inr (Fin 0)" using stod_fixed [of 0 2] by (simp add: fround_def)
  ultimately have T: "stod (fmt_f2 (Fin \<rho>)) = Inr (Fin 0)" by simp
  have real: "real_peripheral (ao_Name ?o)" using nm by (intro name_text_real) simp
  have "snd (adc_ParseMessage (name_text (ao_Name ?o) @ '':thresh:'' @ fmt_f2 (Fin \<rho>) @
       '':val:'' @ fmt_f2 (adc_percent (analogRead lv i)) @ '':'' @ [newline]) ?o) = Some Runtime_error"
    using adc_parse_thresh [OF real _ _ T, of "fmt_f2 (adc_percent (analogRead lv i))"]
    by (simp add: fmt_f2_fixed f_le_def f_eq_def)
  moreover have "adc_SetDeltaThreshold written (Fin \<tau>) obj port = (?o, SetState written (Inr m) port)"
    using assms(5,6) t(1) by (simp add: adc_SetDeltaThreshold_def f_le_def f_eq_def)
  ultimately show ?thesis using t(2,4) by (intro exI conjI) (assumption | rule refl)+
qed

theorem adc_small_threshold_throws_witness:
  "\<exists>m d' r report pin'. forM m (recv_char sam3x 5) enabled_adc_start = Some d' \<and>
     AdcPin_Report sam3x levels512 (AdcPins d' ! 3) 1024 = Some (r, report, pin') \<and>
     snd (adc_ParseMessage report (adc3_object\<lparr>ao_DeltaThresholdSetPoint := Fin (1 / 1000)\<rparr>)) = Some Runtime_error"
proof -
  have n: "name_text (ao_Name adc3_object) = ''ADC'' @ fmt_d 3" using adc3_name [of "Fin 0"] by simp
  have p: "RxBufPtr enabled_adc_start = 0" by (simp add: enabled_adc_start_def start_facts)
  have "\<exists>m d' r report pin'.
     adc_SetDeltaThreshold (\<lambda>m. int (length m)) (Fin (1 / 1000)) adc3_object \<lparr>SerialPortFd = 3, isListening = True, tx_line = []\<rparr> =
       (adc3_object\<lparr>ao_DeltaThresholdSetPoint := Fin (1 / 1000)\<rparr>,
        SetState (\<lambda>m. int (length m)) (Inr m) \<lparr>SerialPortFd = 3, isListening = True, tx_line = []\<rparr>) \<and>
     forM m (recv_char sam3x 5) enabled_adc_start = Some d' \<and>
     AdcPin_Report sam3x levels512 (AdcPins d' ! nat 3) 1024 = Some (r, report, pin') \<and>
     snd (adc_ParseMessage report (adc3_object\<lparr>ao_DeltaThresholdSetPoint := Fin (1 / 1000)\<rparr>)) = Some Runtime_error"
    by (rule adc_small_threshold_throws [OF enabled_adc_start_inv p _ _ _ _ n _ _ _ levels512_ok])
      (simp_all add: enabled_adc_pin adc_reset_def)
  then show ?thesis by simp blast
qed

end
