(* ===== verification/Host_Pwm.thy ===== *)
theory Host_Pwm
  imports Host_Peripheral
begin

text \<open>
  \<open>clank/lib/hardware/PwmPin.cpp\<close>: a pulse-width output seen from the host.
\<close>

record pwm_object =
  po_Name :: SamPeripheralName
  po_StagingRampSpeed :: cfloat
  po_StagingValue :: cfloat
  po_LastReportedRampSpeed :: cfloat
  po_LastReportedValue :: cfloat

definition pwm_StateToMessage :: "pwm_object \<Rightarrow> exn + string" where
  "pwm_StateToMessage obj = (case PeripheralNameToString (po_Name obj) of
       Inl e \<Rightarrow> Inl e
     | Inr n \<Rightarrow> Inr (n @ '':val:'' @ to_string (po_StagingValue obj) @
         '':ramp:'' @ to_string (po_StagingRampSpeed obj) @ '':'' @ [newline]))"

text \<open>\<open>!x\<close> and \<open>x == 0\<close> for a double.\<close>

definition f_zero :: "cfloat \<Rightarrow> bool" where
  "f_zero x \<longleftrightarrow> f_eq x (Fin 0)"

definition outside_percent :: "cfloat \<Rightarrow> bool" where
  "outside_percent x \<longleftrightarrow> f_less x (Fin 0) \<or> f_less (Fin 100) x"

definition pwm_token :: "pwm_object \<Rightarrow> string \<Rightarrow> pwm_object token_action" where
  "pwm_token obj token =
     (if token = ''val'' then Value (\<lambda>v. case stod v of
          Inl e \<Rightarrow> (obj, Some e)
        | Inr receivedVal \<Rightarrow>
            (if outside_percent receivedVal then (obj, Some Runtime_error)
             else (obj\<lparr>po_LastReportedValue := receivedVal\<rparr>, None)))
      else if token = ''ramp'' then Value (\<lambda>v. case stod v of
          Inl e \<Rightarrow> (obj, Some e)
        | Inr receivedVal \<Rightarrow>
            (if f_zero receivedVal then (obj, Some Runtime_error)
             else (obj\<lparr>po_LastReportedRampSpeed := receivedVal\<rparr>, None)))
      else if token = ''set'' then Value (\<lambda>v. (obj, None))
      else if ignored_token (po_Name obj) token then Skip
      else Reject)"

definition pwm_ParseMessage :: "string \<Rightarrow> pwm_object \<Rightarrow> pwm_object \<times> exn option" where
  "pwm_ParseMessage message obj = parse_tokens pwm_token obj message"

definition pwm_IsConsistant :: "pwm_object \<Rightarrow> bool" where
  "pwm_IsConsistant obj \<longleftrightarrow> f_eq (po_LastReportedRampSpeed obj) (po_StagingRampSpeed obj) \<and>
     f_eq (po_LastReportedValue obj) (po_StagingValue obj)"

definition pwm_config_constructor ::
    "kernel_write \<Rightarrow> SamPeripheralName \<Rightarrow> configuration \<Rightarrow> serial_port \<Rightarrow> (exn + pwm_object) \<times> serial_port" where
  "pwm_config_constructor written name config port =
     (let (ramp_given, startingRampSpeed) = GetConfigurationData config ''RampSpeed'';
          (value_given, startingValue) = GetConfigurationData config ''Value'' in
      if \<not> ramp_given \<or> \<not> value_given then (Inl Runtime_error, port)
      else case stod startingRampSpeed of
          Inl e \<Rightarrow> (Inl e, port)
        | Inr ramp \<Rightarrow>
            (if f_zero ramp then (Inl Runtime_error, port)
             else case stod startingValue of
                 Inl e \<Rightarrow> (Inl e, port)
               | Inr v \<Rightarrow>
                   (if (f_zero v \<and> \<not> list_all (\<lambda>c. c \<in> {CHR ''0'', CHR ''.'', newline}) startingValue) \<or>
                       outside_percent v then (Inl Runtime_error, port)
                    else construct written pwm_StateToMessage
                      \<lparr>po_Name = name, po_StagingRampSpeed = ramp, po_StagingValue = v,
                       po_LastReportedRampSpeed = Fin (-1), po_LastReportedValue = Fin (-1)\<rparr> port)))"

definition pwm_constructor ::
    "kernel_write \<Rightarrow> SamPeripheralName \<Rightarrow> cfloat \<Rightarrow> cfloat \<Rightarrow> serial_port \<Rightarrow> (exn + pwm_object) \<times> serial_port" where
  "pwm_constructor written name startingRampSpeed startingValue port =
     (if outside_percent startingValue then (Inl Runtime_error, port)
      else construct written pwm_StateToMessage
        \<lparr>po_Name = name, po_StagingRampSpeed = startingRampSpeed, po_StagingValue = startingValue,
         po_LastReportedRampSpeed = Fin (-1), po_LastReportedValue = Fin (-1)\<rparr> port)"

definition pwm_SetRampSpeed ::
    "kernel_write \<Rightarrow> cfloat \<Rightarrow> pwm_object \<Rightarrow> serial_port \<Rightarrow> pwm_object \<times> serial_port \<times> exn option" where
  "pwm_SetRampSpeed written speed obj port =
     (if f_zero speed then (obj, port, Some Runtime_error)
      else let obj' = obj\<lparr>po_StagingRampSpeed := speed\<rparr>
           in (obj', SetState written (pwm_StateToMessage obj') port))"

definition pwm_SetValue ::
    "kernel_write \<Rightarrow> cfloat \<Rightarrow> pwm_object \<Rightarrow> serial_port \<Rightarrow> pwm_object \<times> serial_port \<times> exn option" where
  "pwm_SetValue written val obj port =
     (if outside_percent val then (obj, port, Some Runtime_error)
      else let obj' = obj\<lparr>po_StagingValue := val\<rparr>
           in (obj', SetState written (pwm_StateToMessage obj') port))"

section \<open>The contract\<close>

lemma pwm_name_kept: "po_Name (fst (pwm_ParseMessage m obj)) = po_Name obj"
proof -
  have "po_Name (fst (token_loop pwm_token obj s)) = po_Name obj" for s
    by (rule token_loop_keeps [where P = "\<lambda>o'. po_Name o' = po_Name obj"])
      (auto simp: pwm_token_def split: if_splits sum.splits)
  then show ?thesis by (simp add: pwm_ParseMessage_def parse_tokens_def split: prod.split)
qed

lemma pwm_message_eq:
  "real_peripheral (po_Name obj) \<Longrightarrow> pwm_StateToMessage obj =
     Inr (name_text (po_Name obj) @ CHR '':'' # ''val:'' @ to_string (po_StagingValue obj) @
       '':ramp:'' @ to_string (po_StagingRampSpeed obj) @ '':'' @ [newline])"
  by (simp add: pwm_StateToMessage_def name_text_eq)

interpretation pwm_object: sam_peripheral po_Name pwm_StateToMessage pwm_ParseMessage
proof unfold_locales
  fix obj m
  show "real_peripheral (po_Name obj) \<Longrightarrow> \<exists>r. pwm_StateToMessage obj = Inr (name_text (po_Name obj) @ CHR '':'' # r)"
    by (simp add: pwm_message_eq)
  show "\<not> real_peripheral (po_Name obj) \<Longrightarrow> pwm_StateToMessage obj = Inl Runtime_error"
    by (simp add: pwm_StateToMessage_def name_of_dummy)
  assume m: "pwm_StateToMessage obj = Inr m"
  then have r: "real_peripheral (po_Name obj)"
    by (cases "real_peripheral (po_Name obj)") (simp_all add: pwm_StateToMessage_def name_of_dummy)
  from m [unfolded pwm_message_eq [OF r]] name_text_no_sep [OF r] show "message_line m"
    unfolding message_line_def
    by (intro exI [of _ "name_text (po_Name obj) @ CHR '':'' # ''val:'' @ to_string (po_StagingValue obj) @
       '':ramp:'' @ to_string (po_StagingRampSpeed obj) @ '':''"]) (auto simp: to_string_def)
qed (rule pwm_name_kept)

section \<open>The firmware receives a setting\<close>

definition pwm_command :: "int \<Rightarrow> string \<Rightarrow> string \<Rightarrow> string" where
  "pwm_command i V R = ''PWM'' @ fmt_d i @ '':val:'' @ V @ '':ramp:'' @ R @ '':''"

text \<open>The texts the firmware accepts: not longer than its buffer allows, of the characters it tests for.\<close>

definition number_fields :: "string \<Rightarrow> string \<Rightarrow> bool" where
  "number_fields V R \<longleftrightarrow> V \<noteq> [] \<and> set V \<subseteq> set ''0123456789.'' \<and> length V \<le> 64 \<and>
     R \<noteq> [] \<and> set R \<subseteq> set ''0123456789.-'' \<and> length R \<le> 64"

definition moderate :: "cfloat \<Rightarrow> bool" where
  "moderate r \<longleftrightarrow> (\<exists>x. r = Fin x \<and> \<bar>x\<bar> \<le> 100)"

lemma digit_or_point: "is_digit c \<or> c = CHR ''.'' \<Longrightarrow> c \<in> set ''0123456789.''"
  by (auto simp: is_digit_def)

lemma point_or_sign: "set ''0123456789.'' \<subseteq> set ''0123456789.-''"
  by simp

lemma to_string_chars:
  assumes "\<bar>x\<bar> \<le> 100"
  shows "to_string (Fin x) \<noteq> []" and "set (to_string (Fin x)) \<subseteq> set ''0123456789.-''" and "length (to_string (Fin x)) \<le> 64"
    and "0 \<le> x \<Longrightarrow> set (to_string (Fin x)) \<subseteq> set ''0123456789.''"
proof -
  define k where "k = round_half_even (\<bar>x\<bar> * 10 ^ 6)"
  have k: "0 \<le> k" unfolding k_def by (intro round_half_even_nonneg) simp
  have "k \<le> 100000000" unfolding k_def using assms by (intro round_half_even_mono_int) simp
  then have l: "length (fixed_text 6 k) \<le> 10" using length_fixed_text [of k 6] by simp
  have c: "set (fixed_text 6 k) \<subseteq> set ''0123456789.''"
    by (rule subsetI, rule digit_or_point, rule fixed_text_chars [OF k])
  then have c': "set (fixed_text 6 k) \<subseteq> set ''0123456789.-''" using point_or_sign by (rule subset_trans)
  have t: "to_string (Fin x) = (if x < 0 then ''-'' else []) @ fixed_text 6 k"
    by (simp add: to_string_def fmt_fixed_def k_def)
  show "to_string (Fin x) \<noteq> []" by (simp add: to_string_def)
  show "set (to_string (Fin x)) \<subseteq> set ''0123456789.-''" unfolding t using c' by (cases "x < 0") simp_all
  show "length (to_string (Fin x)) \<le> 64" using l by (simp add: t)
  show "0 \<le> x \<Longrightarrow> set (to_string (Fin x)) \<subseteq> set ''0123456789.''" unfolding t using c by (simp only: not_less [symmetric] if_False append_Nil)
qed

lemma number_fields_to_string:
  assumes "0 \<le> x" and "x \<le> 100" and "moderate r"
  shows "number_fields (to_string (Fin x)) (to_string r)"
proof -
  from assms(3) obtain y where y: "r = Fin y" "\<bar>y\<bar> \<le> 100" by (auto simp: moderate_def)
  from assms have "\<bar>x\<bar> \<le> 100" by simp
  note x = to_string_chars [OF this]
  show ?thesis
    unfolding number_fields_def y(1) using x(1,3) x(4) [OF assms(1)] to_string_chars(1-3) [OF y(2)] by (intro conjI)
qed

lemma number_fields_field:
  assumes "number_fields V R"
  shows "field V" "field R" "NUL \<notin> set V" "NUL \<notin> set R" "NL \<notin> set V" "NL \<notin> set R"
  using assms by (auto simp: number_fields_def field_def)

lemma pwm_Process_val_ramp:
  assumes "number_fields V R"
  shows "PwmPin_Process b pin (pre @ ''val:'' @ V @ '':ramp:'' @ R @ '':'' @ NUL # post) (length pre) =
    Some (let (r, pin', ev) = PwmPin_Set (pin\<lparr>p_SetPoint := f_cast round32 (strtod V), p_RampSpeed := f_cast round32 (strtod R)\<rparr>)
          in (Some r, pin', ev))"
proof -
  note VR = number_fields_field [OF assms]
  obtain t1 where t1: "first_field (pre @ ''val'' @ CHR '':'' # (V @ CHR '':'' # ''ramp'' @ CHR '':'' # R @ CHR '':'' # []) @ NUL # post) (length pre) =
      Some (''val'', t1)" "at_rest t1 (V @ CHR '':'' # (''ramp'' @ CHR '':'' # R @ CHR '':'' # []))"
    using first_field_cut [of "''val''" "V @ CHR '':'' # ''ramp'' @ CHR '':'' # R @ CHR '':'' # []" pre post] VR
    by (auto simp: field_simps_cmd)
  obtain t2 where t2: "next_field t1 = Some (V, t2)" "at_rest t2 (''ramp'' @ CHR '':'' # (R @ CHR '':'' # []))"
    using next_field_cut [OF t1(2) VR(1)] by auto
  obtain t3 where t3: "next_field t2 = Some (''ramp'', t3)" "at_rest t3 (R @ CHR '':'' # [])"
    using next_field_cut [OF t2(2)] by (auto simp: field_simps_cmd)
  obtain t4 where t4: "next_field t3 = Some (R, t4)" using next_field_cut [OF t3(2) VR(2)] by auto
  have "strspn V ''0123456789.'' = length V" "strspn R ''0123456789.-'' = length R"
    using assms by (simp_all only: strspn_full number_fields_def)
  with t1(1) t2(1) t3(1) t4 show ?thesis
    by (simp add: PwmPin_Process_def strncmp_eq_def Let_def split: prod.split)
qed

lemma process_pwm_command:
  assumes inv: "daemon_inv b d" and i: "2 \<le> i" "i \<le> 13" and VR: "number_fields V R"
    and rx: "RxBuf d = pwm_command i V R @ NUL # post"
    and set: "PwmPin_Set ((PwmPins d ! nat (i - 2))\<lparr>p_SetPoint := f_cast round32 (strtod V),
      p_RampSpeed := f_cast round32 (strtod R)\<rparr>) = (r, pin', ev)"
  shows "\<exists>rx'. ProcessMessage b ms d = Some (drive ev (d\<lparr>RxBuf := rx', PwmPins := (PwmPins d)[nat (i - 2) := pin']\<rparr>))"
proof -
  let ?n = "''PWM'' @ digits10 i" and ?rest = "''val:'' @ V @ '':ramp:'' @ R @ '':''"
  note f = number_fields_field [OF VR]
  have cmd: "pwm_command i V R = ?n @ CHR '':'' # ?rest" using i by (simp add: pwm_command_def)
  have len: "length ?n \<le> 5" using length_digits10_le [of i 1] i by simp
  have fn: "field ?n" using i by (intro field_simps_cmd) simp
  obtain t where t: "first_field (RxBuf d) 0 = Some (?n, t)" "tk_buf t = ?n @ NUL # ?rest @ NUL # post"
    using first_field_cut [OF fn, of ?rest "[]" post] f by (auto simp: rx cmd)
  have l: "length (tk_buf t) = length (RxBuf d)" by (simp add: t(2) rx cmd)
  have "NUL \<notin> set (pwm_command i V R)" using f i by (auto simp: cmd)
  then have msg: "c_str (RxBuf d) 0 = Some (pwm_command i V R)" by (simp add: rx c_str_0)
  have short: "\<not> BUF_SIZE < length (pwm_command i V R)" using VR len by (simp add: cmd number_fields_def)
  have id: "strtol10 32 (drop 3 ?n) = i" using strtol10_digits10 [of i 32 "[]"] i by simp
  have k: "nat (i - 2) < length (PwmPins d)" using inv i by (auto simp: daemon_inv_def dest!: pins_ok_length)
  obtain rx' where rx': "clear_buf (tk_buf t) = Some rx'" using inv l by (simp add: daemon_inv_def clear_buf_eq)
  have proc: "PwmPin_Process b (PwmPins d ! nat (i - 2)) (pwm_command i V R @ [NUL]) (length ?n + 1) = Some (Some r, pin', ev)"
    using pwm_Process_val_ramp [OF VR, of b "PwmPins d ! nat (i - 2)" "?n @ [CHR '':'']" "[]"] set by (simp add: cmd)
  have "process_pwm b (pwm_command i V R @ [NUL]) ?n (d\<lparr>RxBuf := tk_buf t\<rparr>) =
      Some (drive ev (d\<lparr>RxBuf := rx', PwmPins := (PwmPins d)[nat (i - 2) := pin']\<rparr>))"
    unfolding process_pwm_def Let_def id using i k proc rx'
    by (cases d) (simp add: Let_def clear_rx_def drive_def)
  moreover have "\<not> strncmp_eq ?n ''GPIO'' 4" "\<not> strncmp_eq ?n ''ADC'' 3" "strncmp_eq ?n ''PWM'' 3" by (simp_all add: strncmp_eq_def)
  moreover have "pwm_command i V R \<noteq> ''Ping''" "pwm_command i V R \<noteq> ''Reset''" by (simp_all add: pwm_command_def)
  ultimately show ?thesis using msg short t(1) by (auto simp: ProcessMessage_def Let_def)
qed

lemma recv_pwm_line:
  assumes inv: "daemon_inv b d" and ptr: "RxBufPtr d = 0" and i: "2 \<le> i" "i \<le> 13" and VR: "number_fields V R"
    and set: "PwmPin_Set ((PwmPins d ! nat (i - 2))\<lparr>p_SetPoint := f_cast round32 (strtod V),
      p_RampSpeed := f_cast round32 (strtod R)\<rparr>) = (r, pin', ev)"
  shows "\<exists>rx. forM (pwm_command i V R @ [NL]) (recv_char b ms) d =
           Some ((drive ev (d\<lparr>RxBuf := rx, PwmPins := (PwmPins d)[nat (i - 2) := pin']\<rparr>))\<lparr>RxBufPtr := 0\<rparr>)"
proof -
  let ?m = "pwm_command i V R"
  have m: "NL \<notin> set ?m" "length ?m < BUF_SIZE"
    using number_fields_field [OF VR] VR i length_digits10_le [of i 1]
    by (auto simp: pwm_command_def is_digit_def number_fields_def)
  let ?d = "d\<lparr>RxBufPtr := length ?m, RxBuf := ?m @ NUL # drop (Suc (length ?m)) (RxBuf d)\<rparr>"
  have "daemon_inv b ?d" using inv m(2) by (simp add: daemon_inv_def)
  from process_pwm_command [OF this i VR, of _ r pin' ev ms] set
  obtain rx where "ProcessMessage b ms ?d = Some (drive ev (?d\<lparr>RxBuf := rx, PwmPins := (PwmPins d)[nat (i - 2) := pin']\<rparr>))"
    by auto
  then show ?thesis using recv_line [OF inv ptr m, of ms] by (auto simp: drive_def)
qed

section \<open>The trip of a power\<close>

lemma percent_hundredths:
  assumes "0 \<le> n" and "n \<le> (10000 :: int)"
  obtains \<tau> where "round64 (of_int n / 10 ^ 2) = Fin \<tau>" and "round_half_even (\<tau> * 10 ^ 6) = n * 10 ^ 4" and "0 \<le> \<tau>" and "\<tau> \<le> 100"
proof -
  consider "n = 0" | "n = 10000" | "1 \<le> n" "n \<le> 9999" using assms by linarith
  then show thesis
  proof cases
    case 3
    from round64_hundredth [OF this] that show ?thesis by (metis less_imp_le)
  qed (use that [of 0] that [of 100] in \<open>simp_all add: float_eval\<close>)
qed

lemma percent_printed:
  assumes "0 \<le> n" and "n \<le> (10000 :: int)" and "round64 (of_int n / 10 ^ 2) = Fin \<tau>" and "round_half_even (\<tau> * 10 ^ 6) = n * 10 ^ 4" and "0 \<le> \<tau>"
  shows "strtod (to_string (Fin \<tau>)) = Fin \<tau>" and "\<exists>\<rho>. f_cast round32 (Fin \<tau>) = Fin \<rho> \<and> 0 \<le> \<rho> \<and> \<rho> < 1000 \<and> fmt_f2 (Fin \<rho>) = fixed_text 2 n"
    and "stod (fixed_text 2 n) = Inr (Fin \<tau>)"
proof -
  define y :: rat where "y = of_int n / 10 ^ 2"
  have r: "round64 y = Fin \<tau>" using assms(3) by (simp add: y_def)
  have "to_string (Fin \<tau>) = fixed_text 6 (n * 10 ^ 4)" using assms(4,5) by (simp add: to_string_def fmt_fixed_def)
  moreover have "of_int (n * 10 ^ 4) / 10 ^ 6 = y" by (simp add: y_def)
  ultimately show "strtod (to_string (Fin \<tau>)) = Fin \<tau>" using strtod_fixed [of "n * 10 ^ 4" 6] assms(1) r by simp
  have "n = 0 \<or> (of_int 1 :: rat) \<le> of_int n" "of_int n \<le> (of_int 10000 :: rat)" using assms(1,2) by (auto simp only: of_int_le_iff)
  then have y: "n = 0 \<or> 1 / 100 \<le> y" "y \<le> 100" by (auto simp: y_def)
  show "stod (fixed_text 2 n) = Inr (Fin \<tau>)"
    using stod_fixed [of n 2] assms(1,3) y pow2_le [of 10 1000] pow2_le [of "- 1022" "- 10"]
    by (auto simp: y_def pow2_def [of 10] pow2_def [of "- 10"])
  show "\<exists>\<rho>. f_cast round32 (Fin \<tau>) = Fin \<rho> \<and> 0 \<le> \<rho> \<and> \<rho> < 1000 \<and> fmt_f2 (Fin \<rho>) = fixed_text 2 n"
  proof (cases "n = 0")
    case True
    with r have "\<tau> = 0" by (simp add: y_def fround_def)
    with True show ?thesis by (intro exI [of _ 0]) (simp add: f_cast_def fround_def fmt_f2_fixed fmt_fixed_near [of 0 2 0])
  next
    case False
    with y(1) have y1: "1 / 100 \<le> y" by simp
    have "pow2 (- 125) \<le> y" using y1 pow2_le [of "- 125" "- 20"] by (simp add: pow2_def [of "- 20"])
    moreover have "y < pow2 100" using y(2) pow2_le [of 7 100] by (simp add: pow2_def [of 7])
    ultimately obtain \<rho> where \<rho>: "f_cast round32 (round64 y) = Fin \<rho>" "\<bar>\<rho> - y\<bar> \<le> y * pow2 (- 23)"
      by (rule double_to_single)
    have "y * pow2 (- 23) \<le> 100 * pow2 (- 23)" using y by (intro mult_right_mono) (simp_all add: less_imp_le)
    also have "\<dots> < 1 / 1000" by (simp add: pow2_def)
    finally have e: "\<bar>\<rho> - y\<bar> < 1 / 1000" using \<rho>(2) by simp
    have b: "0 \<le> \<rho>" "\<bar>\<rho> * 100 - y * 100\<bar> < 1 / 2" "\<rho> < 1000" using e y1 y(2) by linarith+
    then have "fmt_f2 (Fin \<rho>) = fixed_text 2 n"
      unfolding fmt_f2_fixed by (intro fmt_fixed_near) (simp_all add: y_def)
    with b \<rho>(1) r show ?thesis by (intro exI [of _ \<rho>]) simp
  qed
qed

lemma minus_one:
  "to_string (Fin (- 1)) = ''-1.000000''" "f_cast round32 (strtod ''-1.000000'') = Fin (- 1)"
  "fmt_f2 (Fin (- 1)) = ''-1.00''" "stod ''-1.00'' = Inr (Fin (- 1))"
proof -
  show "to_string (Fin (- 1)) = ''-1.000000''"
    by (simp add: to_string_def fmt_fixed_def fixed_text_def numeral_eq_Suc digits10.simps digit_char_def float_eval)
  show "f_cast round32 (strtod ''-1.000000'') = Fin (- 1)" by (simp add: float_eval)
  show "fmt_f2 (Fin (- 1)) = ''-1.00''" by (simp add: fmt_f2_def float_eval digits10.simps digit_char_def)
  have "fixed_text 2 100 = ''1.00''" by (simp add: fixed_text_def numeral_eq_Suc digits10.simps digit_char_def)
  then have "exact_magnitude ''-1.00'' = Some 1" using exact_magnitude_fixed(2) [of 100 2] by simp
  moreover have "round64 1 = Fin 1" "strtod ''-1.00'' = Fin (- 1)" by (simp_all add: float_eval)
  moreover have "\<not> 1 < pow2 (- 1022)" using pow2_le [of "- 1022" 0] by (simp add: pow2_def [of 0])
  ultimately show "stod ''-1.00'' = Inr (Fin (- 1))" by (simp add: stod_def converts_def)
qed

text \<open>The host reads a report.\<close>

lemma pwm_parse_report:
  assumes "real_peripheral (po_Name obj)" and "CHR '':'' \<notin> set V" "CHR '':'' \<notin> set S" "CHR '':'' \<notin> set R"
    and "stod V = Inr v" "\<not> outside_percent v" and "stod R = Inr r" "\<not> f_zero r"
  shows "pwm_ParseMessage (name_text (po_Name obj) @ '':val:'' @ V @ '':set:'' @ S @ '':ramp:'' @ R @ '':'' @ [newline]) obj =
    (obj\<lparr>po_LastReportedValue := v, po_LastReportedRampSpeed := r\<rparr>, None)"
proof -
  let ?o = "obj\<lparr>po_LastReportedValue := v\<rparr>" and ?o2 = "obj\<lparr>po_LastReportedValue := v, po_LastReportedRampSpeed := r\<rparr>"
  obtain kv where kv: "pwm_token obj ''val'' = Value kv" "kv V = (?o, None)" using assms(5,6) by (simp add: pwm_token_def)
  obtain ks where ks: "pwm_token ?o ''set'' = Value ks" "ks S = (?o, None)" by (simp add: pwm_token_def)
  obtain kr where kr: "pwm_token ?o ''ramp'' = Value kr" "kr R = (?o2, None)" using assms(7,8) by (simp add: pwm_token_def)
  have nl: "pwm_token ?o2 [newline] = Skip"
    using name_text_eq [OF assms(1)] by (simp add: pwm_token_def ignored_token_def)
  let ?t2 = "''ramp'' @ CHR '':'' # R @ CHR '':'' # [newline]"
  have "pwm_ParseMessage (name_text (po_Name obj) @ '':val:'' @ V @ '':set:'' @ S @ '':ramp:'' @ R @ '':'' @ [newline]) obj =
      token_loop pwm_token obj (Some (''val'' @ CHR '':'' # V @ CHR '':'' # (''set'' @ CHR '':'' # S @ CHR '':'' # ?t2)))"
    using parse_tokens_named [of "name_text (po_Name obj)" pwm_token obj "''val:'' @ V @ '':set:'' @ S @ '':ramp:'' @ R @ '':'' @ [newline]"]
      name_text_no_sep [OF assms(1)] by (simp add: pwm_ParseMessage_def)
  also have "\<dots> = token_loop pwm_token ?o (Some (''set'' @ CHR '':'' # S @ CHR '':'' # ?t2))"
    using token_loop_value [of "''val''" V pwm_token obj kv "''set'' @ CHR '':'' # S @ CHR '':'' # ?t2"] assms(2) kv by simp
  also have "\<dots> = token_loop pwm_token ?o (Some ?t2)"
    using token_loop_value [of "''set''" S pwm_token ?o ks ?t2] assms(3) ks by simp
  also have "\<dots> = token_loop pwm_token ?o2 (Some [newline])"
    using token_loop_value [of "''ramp''" R pwm_token ?o kr "[newline]"] assms(4) kr by simp
  also have "\<dots> = (?o2, None)" using nl by (rule token_loop_newline)
  finally show ?thesis .
qed

text \<open>What the firmware reports of an output without a ramp, after a setting.\<close>

definition jumped :: "pwm_pin \<Rightarrow> rat \<Rightarrow> pwm_pin" where
  "jumped pin \<rho> = pin\<lparr>p_SetPoint := Fin \<rho>, p_RampSpeed := Fin (- 1), p_PwmValue := Fin \<rho>\<rparr>"

lemma PwmPin_Set_jump:
  "0 \<le> \<rho> \<Longrightarrow> \<exists>r ev. PwmPin_Set (pin\<lparr>p_SetPoint := Fin \<rho>, p_RampSpeed := Fin (- 1)\<rparr>) = (r, jumped pin \<rho>, ev)"
  by (cases "p_PwmValue pin") (auto simp: PwmPin_Set_def Let_def jumped_def pwm_next_def f_ne_def f_eq_def f_le_def)

lemma PwmPin_Set_jumped: "PwmPin_Set (jumped pin \<rho>) = (True, jumped pin \<rho>, []) \<or> PwmPin_Set (jumped pin \<rho>) = (False, jumped pin \<rho>, [])"
  by (simp add: PwmPin_Set_def jumped_def f_ne_def f_eq_def)

lemma pwm_report_jumped:
  assumes "pwm_inv pin" and "p_Enabled pin = 1" "p_LastReportedEnabled pin = 1" and "0 \<le> \<rho>" "\<rho> < 1000" and "64 \<le> space"
  shows "\<exists>r pin' ev. PwmPin_Report (jumped pin \<rho>) space = Some (r,
     if f_eq (p_LastReportedPwmValue pin) (Fin \<rho>) \<and> f_eq (p_LastReportedRampSpeed pin) (Fin (- 1)) then []
     else ''PWM'' @ fmt_d (p_Id pin) @ '':val:'' @ fmt_f2 (Fin \<rho>) @ '':set:'' @ fmt_f2 (Fin \<rho>) @ '':ramp:'' @ fmt_f2 (Fin (- 1)) @ '':'' @ [newline],
     pin', ev)"
proof -
  have inv: "pwm_inv (jumped pin \<rho>)" using assms(1) by (simp add: pwm_inv_def jumped_def)
  have "short_text 13 (Fin \<rho>)" "short_text 13 (Fin (- 1))"
    using short_text_Fin [of \<rho> 7] short_text_Fin [of "- 1" 7] assms(4,5) by simp_all
  then have "pwm_printable (jumped pin \<rho>)"
    by (simp add: pwm_printable_def jumped_def pwm_next_def)
  with pwm_Report_defined [OF inv] obtain r msg pin' ev where rep: "PwmPin_Report (jumped pin \<rho>) space = Some (r, msg, pin', ev)" by blast
  have "f_eq (Fin \<rho>) x = f_eq x (Fin \<rho>)" "f_eq (Fin (- 1)) x = f_eq x (Fin (- 1))" for x by (auto simp: f_eq_def)
  with rep show ?thesis using PwmPin_Set_jumped [of pin \<rho>] assms(2,3,6)
    by (auto simp: PwmPin_Report_def Let_def sprintf_buf_Some report_result_def pwm_state_msg_def jumped_def f_ne_def
        split: bind_splits if_splits)
qed

section \<open>From the host to the pin and back\<close>

text \<open>C10: a power with two decimals survives the trip. For every value from 0.00 to 100.00 and
  the default ramp of -1 the object's message makes the firmware's output take the value at once;
  if the output was enabled, its next report either is empty, because it would repeat the last
  one, or is parsed by the host without an exception and leaves the object consistent, with \<open>GetValue\<close> the value asked for.\<close>

theorem pwm_end_to_end:
  assumes inv: "daemon_inv b d" and ptr: "RxBufPtr d = 0" and j: "2 \<le> j" "j \<le> 13" and n: "0 \<le> n" "n \<le> 10000"
    and name: "name_text (po_Name obj) = ''PWM'' @ fmt_d j" and val: "po_StagingValue obj = round64 (of_int n / 10 ^ 2)"
    and ramp: "po_StagingRampSpeed obj = Fin (- 1)"
    and en: "p_Enabled (PwmPins d ! nat (j - 2)) = 1" "p_LastReportedEnabled (PwmPins d ! nat (j - 2)) = 1" and space: "64 \<le> space"
  shows "\<exists>m d' pin r report pin' ev. pwm_StateToMessage obj = Inr m \<and> forM m (recv_char b ms) d = Some d' \<and>
     pin = PwmPins d' ! nat (j - 2) \<and> p_PwmValue pin = f_cast round32 (po_StagingValue obj) \<and>
     PwmPin_Report pin space = Some (r, report, pin', ev) \<and>
     (if report = [] then f_eq (p_LastReportedPwmValue pin) (p_PwmValue pin) \<and> f_eq (p_LastReportedRampSpeed pin) (p_RampSpeed pin)
      else \<exists>obj'. pwm_ParseMessage report obj = (obj', None) \<and> pwm_IsConsistant obj' \<and>
        po_LastReportedValue obj' = po_StagingValue obj)"
proof -
  obtain \<tau> where \<tau>: "round64 (of_int n / 10 ^ 2) = Fin \<tau>" "round_half_even (\<tau> * 10 ^ 6) = n * 10 ^ 4" "0 \<le> \<tau>" "\<tau> \<le> 100"
    by (rule percent_hundredths [OF n])
  note printed = percent_printed [OF n \<tau>(1-3)]
  obtain \<rho> where \<rho>: "f_cast round32 (Fin \<tau>) = Fin \<rho>" "0 \<le> \<rho>" "\<rho> < 1000" "fmt_f2 (Fin \<rho>) = fixed_text 2 n" using printed(2) by blast
  have real: "real_peripheral (po_Name obj)" using name by (intro name_text_real) simp
  let ?pin = "PwmPins d ! nat (j - 2)" and ?V = "to_string (Fin \<tau>)" and ?R = "''-1.000000''"
  have m: "pwm_StateToMessage obj = Inr (pwm_command j ?V ?R @ [NL])"
    using val \<tau>(1) ramp name minus_one(1) by (simp add: pwm_message_eq [OF real] pwm_command_def)
  have "moderate (Fin (- 1))" by (simp add: moderate_def)
  then have VR: "number_fields ?V ?R" using number_fields_to_string [OF \<tau>(3,4), of "Fin (- 1)"] minus_one(1) by simp
  obtain r0 ev0 where "PwmPin_Set (?pin\<lparr>p_SetPoint := Fin \<rho>, p_RampSpeed := Fin (- 1)\<rparr>) = (r0, jumped ?pin \<rho>, ev0)"
    using PwmPin_Set_jump [OF \<rho>(2)] by blast
  then have set: "PwmPin_Set (?pin\<lparr>p_SetPoint := f_cast round32 (strtod ?V), p_RampSpeed := f_cast round32 (strtod ?R)\<rparr>) = (r0, jumped ?pin \<rho>, ev0)"
    by (simp only: printed(1) \<rho>(1) minus_one(2))
  obtain rx where d': "forM (pwm_command j ?V ?R @ [NL]) (recv_char b ms) d =
      Some ((drive ev0 (d\<lparr>RxBuf := rx, PwmPins := (PwmPins d)[nat (j - 2) := jumped ?pin \<rho>]\<rparr>))\<lparr>RxBufPtr := 0\<rparr>)" (is "_ = Some ?d'")
    using recv_pwm_line [OF inv ptr j VR set, where ms = ms] by blast
  have ok: "pins_ok p_Id pwm_inv 12 2 (PwmPins d)" using inv by (simp add: daemon_inv_def)
  have g: "PwmPins ?d' ! nat (j - 2) = jumped ?pin \<rho>" using pins_ok_length [OF ok] j by (simp add: drive_def)
  have id: "p_Id ?pin = j" "pwm_inv ?pin" using ok j by (simp_all add: pins_ok_def)
  let ?rep = "name_text (po_Name obj) @ '':val:'' @ fixed_text 2 n @ '':set:'' @ fixed_text 2 n @ '':ramp:'' @ ''-1.00'' @ '':'' @ [newline]"
  obtain r pin' ev where rep: "PwmPin_Report (jumped ?pin \<rho>) space = Some (r,
      if f_eq (p_LastReportedPwmValue ?pin) (Fin \<rho>) \<and> f_eq (p_LastReportedRampSpeed ?pin) (Fin (- 1)) then [] else ?rep, pin', ev)"
    using pwm_report_jumped [OF id(2) en \<rho>(2,3) space] by (auto simp: id(1) name \<rho>(4) minus_one(3))
  let ?o = "obj\<lparr>po_LastReportedValue := Fin \<tau>, po_LastReportedRampSpeed := Fin (- 1)\<rparr>"
  have "CHR '':'' \<notin> set (fixed_text 2 n)" by (metis \<rho>(4) fmt_f2_fixed fmt_fixed_separators(1))
  then have parse: "pwm_ParseMessage ?rep obj = (?o, None)"
    using \<tau>(3,4) printed(3) minus_one(4) by (intro pwm_parse_report [OF real]) (simp_all add: outside_percent_def f_zero_def f_eq_def)
  have cons: "pwm_IsConsistant ?o" using val \<tau>(1) ramp by (simp add: pwm_IsConsistant_def f_eq_def)
  have jp: "p_PwmValue (jumped ?pin \<rho>) = Fin \<rho>" "p_RampSpeed (jumped ?pin \<rho>) = Fin (- 1)"
    "p_LastReportedPwmValue (jumped ?pin \<rho>) = p_LastReportedPwmValue ?pin" "p_LastReportedRampSpeed (jumped ?pin \<rho>) = p_LastReportedRampSpeed ?pin"
    by (simp_all add: jumped_def)
  show ?thesis
    using m d' g rep parse cons val \<tau>(1) \<rho>(1) jp
    by (intro exI [of _ "pwm_command j ?V ?R @ [NL]"] exI [of _ ?d'] exI [of _ "jumped ?pin \<rho>"] exI [of _ r] exI conjI)
      (assumption | rule refl | simp split: if_split)+
qed

text \<open>A run: output 2 was enabled and is asked for 37.5 percent.\<close>

definition enabled_pwm_start :: daemon where
  "enabled_pwm_start = start\<lparr>PwmPins := (PwmPins start)[0 := (pwm_reset 0)\<lparr>p_Enabled := 1, p_LastReportedEnabled := 1\<rparr>]\<rparr>"

lemma enabled_pwm_start_inv: "daemon_inv sam3x enabled_pwm_start"
proof -
  have "pins_ok p_Id pwm_inv 12 2 (PwmPins start)" using start_inv by (simp add: daemon_inv_def)
  then have "pins_ok p_Id pwm_inv 12 2 (PwmPins enabled_pwm_start)"
    unfolding enabled_pwm_start_def by (auto simp: pins_ok_def nth_list_update pwm_reset_def pwm_inv_def)
  with start_inv show ?thesis by (simp add: daemon_inv_def enabled_pwm_start_def)
qed

definition pwm2_object :: pwm_object where
  "pwm2_object = \<lparr>po_Name = PWM2, po_StagingRampSpeed = Fin (- 1), po_StagingValue = Fin (75 / 2),
     po_LastReportedRampSpeed = Fin (- 1), po_LastReportedValue = Fin (- 1)\<rparr>"

theorem pwm_end_to_end_witness:
  "\<exists>m d' r report pin' ev obj'. pwm_StateToMessage pwm2_object = Inr m \<and> forM m (recv_char sam3x 5) enabled_pwm_start = Some d' \<and>
     PwmPin_Report (PwmPins d' ! 0) 1024 = Some (r, report, pin', ev) \<and>
     (report = [] \<or> pwm_ParseMessage report pwm2_object = (obj', None) \<and> po_LastReportedValue obj' = Fin (75 / 2))"
proof -
  have l: "0 < length (PwmPins start)" using daemon_inv_sizes [OF start_inv] by (simp add: daemon_sizes_def)
  have nm: "name_text (po_Name pwm2_object) = ''PWM'' @ fmt_d 2"
    by (simp add: name_text_def pwm2_object_def digits10.simps [of 2] digit_char_def)
  have v: "po_StagingValue pwm2_object = round64 (of_int 3750 / 10 ^ 2)" by (simp add: pwm2_object_def float_eval)
  have e: "PwmPins enabled_pwm_start ! nat (2 - 2) = (pwm_reset 0)\<lparr>p_Enabled := 1, p_LastReportedEnabled := 1\<rparr>"
    using l by (simp add: enabled_pwm_start_def)
  have p: "RxBufPtr enabled_pwm_start = 0" by (simp add: enabled_pwm_start_def start_facts)
  have sv: "po_StagingValue pwm2_object = Fin (75 / 2)" "po_StagingRampSpeed pwm2_object = Fin (- 1)" by (simp_all add: pwm2_object_def)
  from pwm_end_to_end [OF enabled_pwm_start_inv p _ _ _ _ nm v sv(2), of 1024 5] e show ?thesis
    unfolding sv(1) by simp metis
qed

end
