(* ===== verification/Host_Manager.thy ===== *)
theory Host_Manager
  imports Host_Gpio Host_Adc Host_Pwm
begin

text \<open>
  \<open>clank/lib/hardware/SamPeripheralManager.cpp\<close> and the constructor and destructor of
  \<open>SamPeripheral\<close>: peripherals are checked out (\<open>Get\<close>) and returned (\<open>Return\<close>) by a client thread,
  while the receive thread of the serial port routes every line of the firmware (\<open>RouteMessage\<close>).
  Nothing synchronises the two threads.

  \<open>RouteMessage\<close> and the pieces of \<open>Get\<close> and \<open>Return\<close> between two accesses to the shared maps are
  functions; \<open>sam_step\<close> interleaves them with the firmware and the two directions of the serial line.
\<close>

section \<open>Peripherals of any kind\<close>

datatype peripheral = Gpio_pin gpio_object | Adc_pin adc_object | Pwm_pin pwm_object

primrec peripheral_name :: "peripheral \<Rightarrow> SamPeripheralName" where
  "peripheral_name (Gpio_pin g) = gp_Name g"
| "peripheral_name (Adc_pin a) = ao_Name a"
| "peripheral_name (Pwm_pin p) = po_Name p"

primrec peripheral_StateToMessage :: "peripheral \<Rightarrow> exn + string" where
  "peripheral_StateToMessage (Gpio_pin g) = gpio_StateToMessage g"
| "peripheral_StateToMessage (Adc_pin a) = adc_StateToMessage a"
| "peripheral_StateToMessage (Pwm_pin p) = pwm_StateToMessage p"

primrec peripheral_ParseMessage :: "string \<Rightarrow> peripheral \<Rightarrow> peripheral \<times> exn option" where
  "peripheral_ParseMessage m (Gpio_pin g) = map_prod Gpio_pin (\<lambda>e. e) (gpio_ParseMessage m g)"
| "peripheral_ParseMessage m (Adc_pin a) = map_prod Adc_pin (\<lambda>e. e) (adc_ParseMessage m a)"
| "peripheral_ParseMessage m (Pwm_pin p) = map_prod Pwm_pin (\<lambda>e. e) (pwm_ParseMessage m p)"

interpretation any_peripheral: sam_peripheral peripheral_name peripheral_StateToMessage peripheral_ParseMessage
proof unfold_locales
  fix s m
  show "peripheral_name (fst (peripheral_ParseMessage m s)) = peripheral_name s"
    by (cases s) (simp_all add: gpio_object.name_kept adc_object.name_kept pwm_object.name_kept)
  show "real_peripheral (peripheral_name s) \<Longrightarrow>
      \<exists>r. peripheral_StateToMessage s = Inr (name_text (peripheral_name s) @ CHR '':'' # r)"
    by (cases s) (simp_all add: gpio_object.message_total adc_object.message_total pwm_object.message_total)
  show "\<not> real_peripheral (peripheral_name s) \<Longrightarrow> peripheral_StateToMessage s = Inl Runtime_error"
    by (cases s) (simp_all add: gpio_object.message_none adc_object.message_none pwm_object.message_none)
  show "peripheral_StateToMessage s = Inr m \<Longrightarrow> message_line m"
    by (cases s) (simp_all add: gpio_object.message_framed adc_object.message_framed pwm_object.message_framed)
qed

section \<open>The manager\<close>

record request =
  rq_RequestState :: bool
  rq_ActualState :: bool
  rq_UpdatedByHardware :: bool

text \<open>
  A registered pointer: the object is registered by its base class constructor, before the
  derived constructor has run.
\<close>

datatype handle = Under_construction | Object peripheral

record manager =
  EnabledStates :: "SamPeripheralName \<rightharpoonup> request"
  PeripheralMap :: "SamPeripheralName \<rightharpoonup> handle"

definition RouteMessage :: "string \<Rightarrow> manager \<Rightarrow> manager \<times> exn option" where
  "RouteMessage message m = (case substr message 0 (find_first_of CHR '':'' message) of
       Inl e \<Rightarrow> (m, Some e)
     | Inr name \<Rightarrow> (case StringToPeripheralName name of
         Inl e \<Rightarrow> (m, Some e)
       | Inr target \<Rightarrow> (case EnabledStates m target of
           Some r \<Rightarrow>
             (if contains message ''Enabled''
              then (m\<lparr>EnabledStates := (EnabledStates m)(target \<mapsto> r\<lparr>rq_ActualState := True, rq_UpdatedByHardware := True\<rparr>)\<rparr>, None)
              else if contains message ''Disabled''
              then (m\<lparr>EnabledStates := (EnabledStates m)(target \<mapsto> r\<lparr>rq_ActualState := False, rq_UpdatedByHardware := True\<rparr>)\<rparr>, None)
              else (m, Some Runtime_error_pointer))
         | None \<Rightarrow> (case PeripheralMap m target of
               None \<Rightarrow> (m, Some Runtime_error)
             | Some Under_construction \<Rightarrow> (m, Some Pure_virtual_call)
             | Some (Object p) \<Rightarrow> (case peripheral_ParseMessage message p of (p', e) \<Rightarrow>
                 (m\<lparr>PeripheralMap := (PeripheralMap m)(target \<mapsto> Object p')\<rparr>, e))))))"

text \<open>
  The pieces of \<open>Get\<close> (\<open>True\<close>) and \<open>Return\<close> (\<open>False\<close>). The answered request is erased by \<open>finish_request\<close>, and
  the pointer is entered or cleared by \<open>enter_peripheral\<close> behind it. A single access to one of the maps is
  taken as atomic, although \<open>std::map\<close> is not made for two threads.
\<close>

definition request_command :: "bool \<Rightarrow> SamPeripheralName \<Rightarrow> string" where
  "request_command get name = name_text name @ (if get then '':enable:'' else '':disable:'') @ [newline]"

definition register_request :: "bool \<Rightarrow> SamPeripheralName \<Rightarrow> manager \<Rightarrow> manager" where
  "register_request get name m = m\<lparr>EnabledStates := (EnabledStates m)(name \<mapsto>
     \<lparr>rq_RequestState = get, rq_ActualState = False, rq_UpdatedByHardware = False\<rparr>)\<rparr>"

datatype poll_result = Poll_again nat | Poll_timeout | Poll_answered

text \<open>One turn of the loop \<open>while (\<not> UpdatedByHardware)\<close>, with the next value of \<open>waitCount\<close>.\<close>

definition poll_request :: "SamPeripheralName \<Rightarrow> nat \<Rightarrow> manager \<Rightarrow> poll_result" where
  "poll_request name waitCount m =
     (if (case EnabledStates m name of Some r \<Rightarrow> rq_UpdatedByHardware r | None \<Rightarrow> False) then Poll_answered
      else if 10 < waitCount then Poll_timeout
      else Poll_again waitCount)"

definition finish_request :: "bool \<Rightarrow> SamPeripheralName \<Rightarrow> manager \<Rightarrow> manager \<times> exn option" where
  "finish_request get name m =
     (if (case EnabledStates m name of Some r \<Rightarrow> rq_ActualState r | None \<Rightarrow> False) \<noteq> get
      then (m, Some Runtime_error)
      else (m\<lparr>EnabledStates := (EnabledStates m)(name := None)\<rparr>, None))"

definition enter_peripheral :: "bool \<Rightarrow> SamPeripheralName \<Rightarrow> manager \<Rightarrow> manager" where
  "enter_peripheral get name m =
     m\<lparr>PeripheralMap := (PeripheralMap m)(name := (if get then Some Under_construction else None))\<rparr>"

section \<open>The threads, the line and the firmware\<close>

datatype client =
    Ready
  | Sent bool SamPeripheralName
  | Waiting bool SamPeripheralName nat
  | Entering bool SamPeripheralName
  | Constructing SamPeripheralName
  | Thrown exn

text \<open>
  \<open>host_lines\<close> and \<open>sam_lines\<close> are the lines on their way to the firmware and to the host.
  \<open>sam_text\<close> is what the firmware has written since its last newline: an error is written without one and
  becomes the beginning of the next line.
  \<open>sam_enabled\<close> is the flag \<open>Enabled\<close> of the firmware's pin, \<open>sam_reported\<close> its \<open>LastReportedEnabled\<close>.
  \<open>crashed\<close> is what ended the receive thread and with it the program.
\<close>

record sam_system =
  mgr :: manager
  client :: client
  host_lines :: "string list"
  sam_lines :: "string list"
  sam_text :: string
  sam_enabled :: "SamPeripheralName \<Rightarrow> bool"
  sam_reported :: "SamPeripheralName \<Rightarrow> bool"
  crashed :: "exn option"

definition sam_start :: sam_system where
  "sam_start = \<lparr>mgr = \<lparr>EnabledStates = Map.empty, PeripheralMap = Map.empty\<rparr>, client = Ready, host_lines = [], sam_lines = [],
     sam_text = [], sam_enabled = (\<lambda>_. False), sam_reported = (\<lambda>_. False), crashed = None\<rparr>"

definition enabled_report :: "SamPeripheralName \<Rightarrow> bool \<Rightarrow> string" where
  "enabled_report name e = name_text name @ (if e then '':Enabled:'' else '':Disabled:'') @ [newline]"

text \<open>To a line for any other peripheral the firmware answers with an error (\<open>ProcessMessage\<close> in Sam_Daemon).\<close>

definition supported :: "SamPeripheralName \<Rightarrow> bool" where
  "supported name \<longleftrightarrow> strncmp_eq (name_text name) ''GPIO'' 4 \<or> strncmp_eq (name_text name) ''ADC'' 3 \<or>
     strncmp_eq (name_text name) ''PWM'' 3"

text \<open>A report of a pin's state: neither of the words \<open>RouteMessage\<close> looks for occurs in it.\<close>

definition state_report :: "SamPeripheralName \<Rightarrow> string \<Rightarrow> bool" where
  "state_report name text \<longleftrightarrow> (\<exists>r. text = name_text name @ CHR '':'' # r) \<and>
     \<not> contains text ''Enabled'' \<and> \<not> contains text ''Disabled''"

definition unsupported_error :: string where
  "unsupported_error = ''Error: Unsupported peripheral.''"

inductive sam_step :: "sam_system \<Rightarrow> sam_system \<Rightarrow> bool" where
  get_twice: "\<lbrakk>crashed s = None; client s = Ready; PeripheralMap (mgr s) name \<noteq> None\<rbrakk> \<Longrightarrow>
    sam_step s (s\<lparr>client := Thrown Runtime_error\<rparr>)"
| get_dummy: "\<lbrakk>crashed s = None; client s = Ready; \<not> real_peripheral name\<rbrakk> \<Longrightarrow>
    sam_step s (s\<lparr>client := Thrown Runtime_error\<rparr>)"
| send_fails: "\<lbrakk>crashed s = None; client s = Ready; real_peripheral name\<rbrakk> \<Longrightarrow>
    sam_step s (s\<lparr>client := Thrown Runtime_error\<rparr>)"
| get_sends: "\<lbrakk>crashed s = None; client s = Ready; PeripheralMap (mgr s) name = None; real_peripheral name\<rbrakk> \<Longrightarrow>
    sam_step s (s\<lparr>client := Sent True name, host_lines := host_lines s @ [request_command True name]\<rparr>)"
| return_sends: "\<lbrakk>crashed s = None; client s = Ready; PeripheralMap (mgr s) name = Some (Object obj); real_peripheral name\<rbrakk> \<Longrightarrow>
    sam_step s (s\<lparr>client := Sent False name, host_lines := host_lines s @ [request_command False name]\<rparr>)"
| construct_fails: "\<lbrakk>crashed s = None; client s = Constructing name\<rbrakk> \<Longrightarrow>
    sam_step s (s\<lparr>client := Sent False name, host_lines := host_lines s @ [request_command False name]\<rparr>)"
| registers: "\<lbrakk>crashed s = None; client s = Sent get name\<rbrakk> \<Longrightarrow>
    sam_step s (s\<lparr>client := Waiting get name 0, mgr := register_request get name (mgr s)\<rparr>)"
| polls: "\<lbrakk>crashed s = None; client s = Waiting get name w; poll_request name w (mgr s) = Poll_again w'\<rbrakk> \<Longrightarrow>
    sam_step s (s\<lparr>client := Waiting get name w'\<rparr>)"
| times_out: "\<lbrakk>crashed s = None; client s = Waiting get name w; poll_request name w (mgr s) = Poll_timeout\<rbrakk> \<Longrightarrow>
    sam_step s (s\<lparr>client := Thrown Runtime_error\<rparr>)"
| refused: "\<lbrakk>crashed s = None; client s = Waiting get name w; poll_request name w (mgr s) = Poll_answered;
      finish_request get name (mgr s) = (m', Some e)\<rbrakk> \<Longrightarrow>
    sam_step s (s\<lparr>client := Thrown e\<rparr>)"
| finishes: "\<lbrakk>crashed s = None; client s = Waiting get name w; poll_request name w (mgr s) = Poll_answered;
      finish_request get name (mgr s) = (m', None)\<rbrakk> \<Longrightarrow>
    sam_step s (s\<lparr>client := Entering get name, mgr := m'\<rparr>)"
| enters: "\<lbrakk>crashed s = None; client s = Entering get name\<rbrakk> \<Longrightarrow>
    sam_step s (s\<lparr>client := (if get then Constructing name else Ready), mgr := enter_peripheral get name (mgr s)\<rparr>)"
| constructed: "\<lbrakk>crashed s = None; client s = Constructing name; peripheral_name obj = name\<rbrakk> \<Longrightarrow>
    sam_step s (s\<lparr>client := Ready, mgr := (mgr s)\<lparr>PeripheralMap := (PeripheralMap (mgr s))(name \<mapsto> Object obj)\<rparr>\<rparr>)"
| receives: "\<lbrakk>crashed s = None; sam_lines s = text # rest; RouteMessage text (mgr s) = (m', e)\<rbrakk> \<Longrightarrow>
    sam_step s (s\<lparr>sam_lines := rest, mgr := m', crashed := e\<rparr>)"
| sam_command: "\<lbrakk>crashed s = None; host_lines s = request_command get name # rest; supported name\<rbrakk> \<Longrightarrow>
    sam_step s (s\<lparr>host_lines := rest, sam_enabled := (sam_enabled s)(name := get)\<rparr>)"
| sam_refuses: "\<lbrakk>crashed s = None; host_lines s = request_command get name # rest; \<not> supported name\<rbrakk> \<Longrightarrow>
    sam_step s (s\<lparr>host_lines := rest, sam_text := sam_text s @ unsupported_error\<rparr>)"
| sam_reports_enabled: "\<lbrakk>crashed s = None; real_peripheral name; sam_enabled s name \<noteq> sam_reported s name\<rbrakk> \<Longrightarrow>
    sam_step s (s\<lparr>sam_lines := sam_lines s @ [sam_text s @ enabled_report name (sam_enabled s name)], sam_text := [],
                  sam_reported := (sam_reported s)(name := sam_enabled s name)\<rparr>)"
| sam_reports_state: "\<lbrakk>crashed s = None; sam_enabled s name; sam_reported s name; real_peripheral name; state_report name text\<rbrakk> \<Longrightarrow>
    sam_step s (s\<lparr>sam_lines := sam_lines s @ [sam_text s @ text], sam_text := []\<rparr>)"

inductive reachable :: "sam_system \<Rightarrow> bool" where
  initially: "reachable sam_start"
| after_step: "reachable s \<Longrightarrow> sam_step s s' \<Longrightarrow> reachable s'"


inductive_cases sam_stepE: "sam_step s s'"

section \<open>Routing\<close>

lemma no_E: "CHR ''E'' \<notin> set (name_text p)"
proof -
  have "list_all (\<lambda>p. CHR ''E'' \<notin> set (name_text p)) peripheral_names" by code_simp
  then show ?thesis using peripheral_names_all [of p] by (auto simp: list_all_iff)
qed

lemma is_prefix_append: "is_prefix p (p @ r)"
  by (induction p) auto

lemma contains_append: "contains (a @ p @ b) p"
proof -
  have "strstr (a @ p @ b) p \<noteq> None"
  proof (induction a)
    case Nil
    then show ?case by (cases "p @ b") (use is_prefix_append [of p b] in auto)
  qed auto
  then show ?thesis by (simp add: contains_def)
qed

lemma not_contains: "c \<notin> set s \<Longrightarrow> c \<in> set p \<Longrightarrow> \<not> contains s p"
proof
  assume a: "c \<notin> set s" "c \<in> set p" "contains s p"
  then obtain i where "strstr s p = Some i" by (auto simp: contains_def)
  from strstr_Some [OF this] a(1,2) show False by (metis in_set_takeD in_set_dropD)
qed

lemma report_words:
  "contains (enabled_report n True) ''Enabled''" "\<not> contains (enabled_report n False) ''Enabled''"
  "contains (enabled_report n False) ''Disabled''"
  using contains_append [of "name_text n @ '':''" "''Enabled''" "'':'' @ [newline]"]
    contains_append [of "name_text n @ '':''" "''Disabled''" "'':'' @ [newline]"]
    not_contains [of "CHR ''E''" "enabled_report n False" "''Enabled''"] no_E [of n]
  by (simp_all add: enabled_report_def)

lemma state_report_not_ack: "state_report n t \<Longrightarrow> t \<noteq> enabled_report k e"
  using report_words(1,3) [of k] by (cases e) (auto simp: state_report_def)

text \<open>A line that begins with a name and a colon is routed to that name.\<close>

lemma route_target:
  assumes "real_peripheral n" and "t = name_text n @ CHR '':'' # r"
  shows "\<exists>x. substr t 0 (find_first_of CHR '':'' t) = Inr x \<and> StringToPeripheralName x = Inr n"
proof -
  have "find_first_of CHR '':'' t = int (length (name_text n))"
    unfolding assms(2) using name_text_no_sep [OF assms(1)] by (intro find_first_of_first) simp
  then have "substr t 0 (find_first_of CHR '':'' t) = Inr (name_text n)"
    by (simp add: substr_def assms(2))
  with StringToPeripheralName_text [OF assms(1)] show ?thesis by blast
qed

lemma route_ack_requested:
  assumes "real_peripheral n" and "EnabledStates m n = Some r"
  shows "RouteMessage (enabled_report n e) m =
    (m\<lparr>EnabledStates := (EnabledStates m)(n \<mapsto> r\<lparr>rq_ActualState := e, rq_UpdatedByHardware := True\<rparr>)\<rparr>, None)"
proof -
  obtain x where "substr (enabled_report n e) 0 (find_first_of CHR '':'' (enabled_report n e)) = Inr x" "StringToPeripheralName x = Inr n"
    using route_target [OF assms(1), of "enabled_report n e"] by (cases e) (auto simp: enabled_report_def)
  with assms(2) report_words [of n] show ?thesis by (cases e) (simp_all add: RouteMessage_def)
qed

lemma route_state:
  assumes "real_peripheral n" and "state_report n t"
  shows "RouteMessage t m = (case EnabledStates m n of
       Some r \<Rightarrow> (m, Some Runtime_error_pointer)
     | None \<Rightarrow> (case PeripheralMap m n of
           None \<Rightarrow> (m, Some Runtime_error)
         | Some Under_construction \<Rightarrow> (m, Some Pure_virtual_call)
         | Some (Object p) \<Rightarrow> (case peripheral_ParseMessage t p of (p', e) \<Rightarrow>
             (m\<lparr>PeripheralMap := (PeripheralMap m)(n \<mapsto> Object p')\<rparr>, e))))"
proof -
  obtain r where "t = name_text n @ CHR '':'' # r" using assms(2) by (auto simp: state_report_def)
  from route_target [OF assms(1) this] assms(2) show ?thesis
    by (auto simp: RouteMessage_def state_report_def split: option.split)
qed


text \<open>The answer to a request that is not registered (yet) ends the receive thread.\<close>

lemma not_ignored_ack: "\<not> ignored_token n ''Enabled''" "\<not> ignored_token n ''Disabled''"
proof -
  have "length (name_text n) \<le> 6" using PeripheralNameToString_cases [of n]
    by (auto simp: name_text_def split: sum.splits)
  then have "name_text n \<noteq> ''Enabled''" "name_text n \<noteq> ''Disabled''" by auto
  then show "\<not> ignored_token n ''Enabled''" "\<not> ignored_token n ''Disabled''"
    by (auto simp: ignored_token_def name_text_def blank_token_def split: sum.splits)
qed

lemma token_loop_rejects:
  "CHR '':'' \<notin> set t \<Longrightarrow> act obj t = Reject \<Longrightarrow> token_loop act obj (Some (t @ CHR '':'' # r)) = (obj, Some Runtime_error)"
  by (subst token_loop.simps) simp

lemma parse_ack_throws:
  assumes "real_peripheral n" and "peripheral_name p = n"
  shows "snd (peripheral_ParseMessage (enabled_report n e) p) = Some Runtime_error"
proof -
  define w where "w = (if e then ''Enabled'' else ''Disabled'')"
  have t: "enabled_report n e = name_text n @ CHR '':'' # (w @ CHR '':'' # [newline])"
    by (simp add: enabled_report_def w_def)
  have w: "w \<noteq> ''dir''" "w \<noteq> ''val''" "w \<noteq> ''thresh''" "w \<noteq> ''ramp''" "w \<noteq> ''set''" "CHR '':'' \<notin> set w" "\<not> ignored_token n w"
    using not_ignored_ack [of n] by (auto simp: w_def)
  have "token_loop act obj (Some (w @ CHR '':'' # [newline])) = (obj, Some Runtime_error)" if "act obj w = Reject"
    for act :: "'a \<Rightarrow> string \<Rightarrow> 'a token_action" and obj
    using that w(6) by (intro token_loop_rejects) auto
  moreover have "gpio_token g w = Reject" if "gp_Name g = n" for g using that w by (simp add: gpio_token_def)
  moreover have "adc_token a w = Reject" if "ao_Name a = n" for a using that w by (simp add: adc_token_def)
  moreover have "pwm_token u w = Reject" if "po_Name u = n" for u using that w by (simp add: pwm_token_def)
  moreover have "CHR '':'' \<notin> set (name_text n)" using name_text_no_sep [OF assms(1)] by simp
  ultimately show ?thesis
    unfolding t using assms(2)
    by (cases p) (simp_all add: gpio_ParseMessage_def adc_ParseMessage_def pwm_ParseMessage_def parse_tokens_named
        token_loop_rejects w(6) split: prod.split)
qed

definition handles_named :: "manager \<Rightarrow> bool" where
  "handles_named m \<longleftrightarrow> (\<forall>n p. PeripheralMap m n = Some (Object p) \<longrightarrow> peripheral_name p = n)"

lemma route_ack_unrequested:
  assumes "real_peripheral n" and "EnabledStates m n = None" and "handles_named m"
  shows "\<exists>e'. snd (RouteMessage (enabled_report n e) m) = Some e'"
proof -
  obtain x where "substr (enabled_report n e) 0 (find_first_of CHR '':'' (enabled_report n e)) = Inr x" "StringToPeripheralName x = Inr n"
    using route_target [OF assms(1), of "enabled_report n e"] by (cases e) (auto simp: enabled_report_def)
  moreover have "PeripheralMap m n = Some (Object p) \<Longrightarrow> snd (peripheral_ParseMessage (enabled_report n e) p) = Some Runtime_error" for p
    using assms(1,3) by (intro parse_ack_throws) (simp_all add: handles_named_def)
  ultimately show ?thesis
    using assms(2) by (auto simp: RouteMessage_def split: option.split handle.split prod.split)
qed

text \<open>A line that begins with an error ends the receive thread as well.\<close>

definition error_line :: "string \<Rightarrow> bool" where
  "error_line t \<longleftrightarrow> (\<exists>r. t = ''Error:'' @ r)"

lemma error_line_append: "error_line t \<Longrightarrow> error_line (t @ u)"
  by (auto simp: error_line_def)

lemma unsupported_error_begins: "error_line unsupported_error"
  by (simp add: error_line_def unsupported_error_def)

lemma error_not_report: "error_line t \<Longrightarrow> t \<noteq> enabled_report n e"
proof
  assume t: "error_line t" "t = enabled_report n e"
  have "name_text n \<noteq> CHR ''E'' # r" for r using no_E [of n] by auto
  with t show False by (cases "name_text n"; cases e) (auto simp: error_line_def enabled_report_def)
qed

lemma route_error:
  assumes "error_line t"
  shows "snd (RouteMessage t m) \<noteq> None"
proof -
  obtain r where t: "t = ''Error'' @ CHR '':'' # r" using assms by (auto simp: error_line_def)
  have "find_first_of CHR '':'' t = int (length ''Error'')" unfolding t by (intro find_first_of_first) simp
  then have "substr t 0 (find_first_of CHR '':'' t) = Inr ''Error''" by (simp add: substr_def t)
  moreover have "StringToPeripheralName ''Error'' = Inl Runtime_error" by code_simp
  ultimately show ?thesis by (auto simp: RouteMessage_def)
qed

section \<open>The protocol invariant\<close>

definition held :: "manager \<Rightarrow> SamPeripheralName \<Rightarrow> bool" where
  "held m x \<longleftrightarrow> PeripheralMap m x \<noteq> None"

definition acks :: "sam_system \<Rightarrow> string list" where
  "acks s = filter (\<lambda>t. \<exists>n e. t = enabled_report n e) (sam_lines s)"

text \<open>A line of the firmware, and the stages of a request between sending it and routing its answer.\<close>

definition sam_line :: "string \<Rightarrow> bool" where
  "sam_line t \<longleftrightarrow> error_line t \<or> (\<exists>n. real_peripheral n \<and> (state_report n t \<or> (\<exists>e. t = enabled_report n e)))"

definition in_progress :: "bool \<Rightarrow> SamPeripheralName \<Rightarrow> sam_system \<Rightarrow> bool" where
  "in_progress g n s \<longleftrightarrow>
     host_lines s = [request_command g n] \<and> acks s = [] \<and> sam_text s = [] \<and> sam_enabled s = held (mgr s) \<and> sam_reported s = held (mgr s) \<or>
     host_lines s = [] \<and> acks s = [] \<and> sam_text s = [] \<and> supported n \<and> sam_enabled s = (held (mgr s))(n := g) \<and> sam_reported s = held (mgr s) \<or>
     host_lines s = [] \<and> acks s = [enabled_report n g] \<and> sam_text s = [] \<and> supported n \<and> sam_enabled s = (held (mgr s))(n := g) \<and> sam_reported s = (held (mgr s))(n := g) \<or>
     host_lines s = [] \<and> acks s = [] \<and> \<not> supported n \<and> sam_enabled s = held (mgr s) \<and> sam_reported s = held (mgr s)"

definition at_rest_with :: "(SamPeripheralName \<Rightarrow> bool) \<Rightarrow> sam_system \<Rightarrow> bool" where
  "at_rest_with h s \<longleftrightarrow> host_lines s = [] \<and> acks s = [] \<and> sam_text s = [] \<and> sam_enabled s = h \<and> sam_reported s = h"

definition client_inv :: "sam_system \<Rightarrow> bool" where
  "client_inv s \<longleftrightarrow> (case client s of
       Ready \<Rightarrow> EnabledStates (mgr s) = Map.empty \<and> at_rest_with (held (mgr s)) s
     | Constructing n \<Rightarrow> real_peripheral n \<and> EnabledStates (mgr s) = Map.empty \<and> held (mgr s) n \<and> at_rest_with (held (mgr s)) s
     | Sent g n \<Rightarrow> real_peripheral n \<and> EnabledStates (mgr s) = Map.empty \<and> held (mgr s) n = (\<not> g) \<and> in_progress g n s
     | Waiting g n w \<Rightarrow> real_peripheral n \<and> w = 0 \<and> held (mgr s) n = (\<not> g) \<and>
         (\<exists>r. EnabledStates (mgr s) = [n \<mapsto> r] \<and>
            (if rq_UpdatedByHardware r then supported n \<and> rq_ActualState r = g \<and> at_rest_with ((held (mgr s))(n := g)) s
             else in_progress g n s))
     | Entering g n \<Rightarrow> real_peripheral n \<and> EnabledStates (mgr s) = Map.empty \<and> at_rest_with ((held (mgr s))(n := g)) s
     | Thrown e \<Rightarrow> True)"

definition protocol_inv :: "sam_system \<Rightarrow> bool" where
  "protocol_inv s \<longleftrightarrow> list_all sam_line (sam_lines s) \<and> (sam_text s = [] \<or> error_line (sam_text s)) \<and> handles_named (mgr s) \<and> (crashed s = None \<longrightarrow> client_inv s)"

lemma request_command_inj:
  assumes "real_peripheral n" and "request_command g' n' = request_command g n"
  shows "g' = g \<and> n' = n"
proof -
  have t: "name_text k = []" if "\<not> real_peripheral k" for k
    using that PeripheralNameToString_cases [of k] by (auto simp: name_text_def split: sum.splits)
  have "takeWhile (\<lambda>c. c \<noteq> CHR '':'') (request_command x k) = name_text k" for x k
    using name_text_no_sep [of k] t [of k] by (cases x; cases "real_peripheral k") (simp_all add: request_command_def takeWhile_append)
  with assms have e: "name_text n' = name_text n" by metis
  moreover have "name_text n \<noteq> []" using name_text_plain [OF assms(1)] by (simp add: plain_text_def)
  ultimately have "real_peripheral n'" using t by metis
  with e have "n' = n" using StringToPeripheralName_text assms(1) by (metis sum.inject(2))
  with assms(2) show ?thesis by (cases g; cases g') (simp_all add: request_command_def)
qed

lemma supported_real: "supported n \<Longrightarrow> real_peripheral n"
  using PeripheralNameToString_cases [of n]
  by (auto simp: supported_def name_text_def strncmp_eq_def split: sum.splits)

lemma held_EnabledStates [simp]: "held (m\<lparr>EnabledStates := x\<rparr>) = held m"
  by (simp add: held_def fun_eq_iff)

lemma client_inv_cong:
  assumes "client s' = client s" and "EnabledStates (mgr s') = EnabledStates (mgr s)" and "held (mgr s') = held (mgr s)"
    and "host_lines s' = host_lines s" and "acks s' = acks s" and "sam_text s' = sam_text s" and "sam_enabled s' = sam_enabled s"
    and "sam_reported s' = sam_reported s"
  shows "client_inv s' = client_inv s"
  using assms by (simp add: client_inv_def at_rest_with_def in_progress_def split: client.split)

lemma protocol_inv_start: "protocol_inv sam_start"
  by (simp add: protocol_inv_def sam_start_def handles_named_def client_inv_def at_rest_with_def acks_def held_def fun_eq_iff)

text \<open>The receive thread.\<close>

lemma handles_named_route:
  assumes "handles_named m"
  shows "handles_named (fst (RouteMessage t m))"
  using assms any_peripheral.name_kept
  by (auto simp: handles_named_def RouteMessage_def split: sum.split option.split handle.split prod.split) (metis fst_conv)+

lemma route_ack:
  assumes "client_inv s" and "\<forall>e. client s \<noteq> Thrown e" and "handles_named (mgr s)"
    and "sam_lines s = enabled_report k e # rest" and "RouteMessage (enabled_report k e) (mgr s) = (m', None)"
  shows "client_inv (s\<lparr>sam_lines := rest, mgr := m'\<rparr>)"
proof -
  have a: "acks s = enabled_report k e # acks (s\<lparr>sam_lines := rest\<rparr>)" using assms(4) by (auto simp: acks_def)
  have no_ack: False if "in_progress g n s" "EnabledStates (mgr s) n = None" "real_peripheral n" for g n
  proof -
    have "enabled_report k e = enabled_report n g" using a that(1) by (auto simp: in_progress_def)
    with route_ack_unrequested [OF that(3,2) assms(3), of g] assms(5) show False by auto
  qed
  show ?thesis
  proof (cases "client s")
    case (Waiting g n w)
    with assms(1) obtain r where c: "real_peripheral n" "w = 0" "held (mgr s) n = (\<not> g)" "EnabledStates (mgr s) = [n \<mapsto> r]"
      and p: "if rq_UpdatedByHardware r then supported n \<and> rq_ActualState r = g \<and> at_rest_with ((held (mgr s))(n := g)) s else in_progress g n s"
      by (auto simp: client_inv_def)
    with a have "in_progress g n s" and "\<not> rq_UpdatedByHardware r" by (auto simp: at_rest_with_def split: if_splits)
    with a have t: "enabled_report k e = enabled_report n g" "acks (s\<lparr>sam_lines := rest\<rparr>) = []" "sam_text s = []"
      and f: "supported n" "host_lines s = []" "sam_enabled s = (held (mgr s))(n := g)" "sam_reported s = (held (mgr s))(n := g)"
      by (auto simp: in_progress_def)
    from assms(5) c(4) have "m' = (mgr s)\<lparr>EnabledStates := [n \<mapsto> r\<lparr>rq_ActualState := g, rq_UpdatedByHardware := True\<rparr>]\<rparr>"
      using route_ack_requested [OF c(1), of "mgr s" r g] by (simp add: t(1))
    with Waiting c t(2,3) f show ?thesis
      by (auto simp: client_inv_def at_rest_with_def acks_def intro!: exI [of _ "r\<lparr>rq_ActualState := g, rq_UpdatedByHardware := True\<rparr>"])
  qed (use assms(1,2) a no_ack in \<open>auto simp: client_inv_def at_rest_with_def\<close>)
qed

lemma route_report:
  assumes "client_inv s" and "handles_named (mgr s)" and "real_peripheral k" and "state_report k t"
    and "sam_lines s = t # rest" and "RouteMessage t (mgr s) = (m', None)"
  shows "client_inv (s\<lparr>sam_lines := rest, mgr := m'\<rparr>)"
proof -
  have "EnabledStates m' = EnabledStates (mgr s) \<and> held m' = held (mgr s)"
    using assms(6) by (auto simp: route_state [OF assms(3,4)] held_def fun_eq_iff split: option.splits handle.splits prod.splits if_splits)
  moreover have "acks (s\<lparr>sam_lines := rest, mgr := m'\<rparr>) = acks s"
    using assms(5) state_report_not_ack [OF assms(4)] by (auto simp: acks_def)
  ultimately show ?thesis
    using assms(1) client_inv_cong [of "s\<lparr>sam_lines := rest, mgr := m'\<rparr>" s] by simp
qed

lemma receive_inv:
  assumes "protocol_inv s" and "crashed s = None" and "sam_lines s = t # rest" and "RouteMessage t (mgr s) = (m', e)"
  shows "protocol_inv (s\<lparr>sam_lines := rest, mgr := m', crashed := e\<rparr>)"
proof -
  have lines: "sam_line t" "list_all sam_line rest" and n: "handles_named (mgr s)" and c: "client_inv s"
    using assms(1-3) by (auto simp: protocol_inv_def)
  have "handles_named m'" using handles_named_route [OF n, of t] assms(4) by simp
  moreover have "client_inv (s\<lparr>sam_lines := rest, mgr := m', crashed := e\<rparr>)" if "e = None"
  proof -
    have "client_inv (s\<lparr>sam_lines := rest, mgr := m'\<rparr>)"
    proof (cases "\<exists>x. client s = Thrown x")
      case False
      have "\<not> error_line t" using route_error [of t "mgr s"] assms(4) that by auto
      with False lines(1) route_ack [OF c _ n] route_report [OF c n] assms(3,4) that show ?thesis
        unfolding sam_line_def by metis
    qed (auto simp: client_inv_def)
    moreover have "client_inv (s\<lparr>sam_lines := rest, mgr := m', crashed := e\<rparr>) = client_inv (s\<lparr>sam_lines := rest, mgr := m'\<rparr>)"
      by (rule client_inv_cong) (simp_all add: acks_def)
    ultimately show ?thesis by simp
  qed
  ultimately show ?thesis using lines(2) assms(1) by (simp add: protocol_inv_def)
qed

text \<open>The client and the firmware.\<close>

lemma inv_thrown: "protocol_inv s \<Longrightarrow> protocol_inv (s\<lparr>client := Thrown e\<rparr>)"
  by (simp add: protocol_inv_def client_inv_def)

lemma protocol_invI:
  "protocol_inv s \<Longrightarrow> sam_lines s' = sam_lines s \<Longrightarrow> sam_text s' = sam_text s \<Longrightarrow> handles_named (mgr s') \<Longrightarrow> client_inv s' \<Longrightarrow> protocol_inv s'"
  by (simp add: protocol_inv_def)

lemma handles_named_update:
  assumes "handles_named m"
  shows "handles_named (m\<lparr>EnabledStates := x\<rparr>)" and "handles_named (m\<lparr>PeripheralMap := (PeripheralMap m)(n := None)\<rparr>)"
    and "handles_named (m\<lparr>PeripheralMap := (PeripheralMap m)(n \<mapsto> Under_construction)\<rparr>)"
    and "peripheral_name obj = n \<Longrightarrow> handles_named (m\<lparr>PeripheralMap := (PeripheralMap m)(n \<mapsto> Object obj)\<rparr>)"
  using assms by (auto simp: handles_named_def)

lemma acks_frame [simp]:
  "acks (s\<lparr>client := c\<rparr>) = acks s" "acks (s\<lparr>mgr := m\<rparr>) = acks s" "acks (s\<lparr>host_lines := h\<rparr>) = acks s"
  "acks (s\<lparr>sam_text := u\<rparr>) = acks s" "acks (s\<lparr>sam_enabled := f\<rparr>) = acks s" "acks (s\<lparr>sam_reported := f\<rparr>) = acks s"
  by (simp_all add: acks_def)

lemma send_inv:
  assumes "protocol_inv s" and "crashed s = None" and "client s = Ready \<or> client s = Constructing n \<and> \<not> g"
    and "real_peripheral n" and "held (mgr s) n = (\<not> g)"
  shows "protocol_inv (s\<lparr>client := Sent g n, host_lines := host_lines s @ [request_command g n]\<rparr>)"
proof (rule protocol_invI [OF assms(1)])
  from assms(1,2) have c: "client_inv s" and h: "handles_named (mgr s)" by (simp_all add: protocol_inv_def)
  from h show "handles_named (mgr (s\<lparr>client := Sent g n, host_lines := host_lines s @ [request_command g n]\<rparr>))" by simp
  from c assms(3-5) show "client_inv (s\<lparr>client := Sent g n, host_lines := host_lines s @ [request_command g n]\<rparr>)"
    by (auto simp: client_inv_def at_rest_with_def in_progress_def)
qed simp_all

lemma register_inv:
  assumes "protocol_inv s" and "crashed s = None" and "client s = Sent g n"
  shows "protocol_inv (s\<lparr>client := Waiting g n 0, mgr := register_request g n (mgr s)\<rparr>)"
proof (rule protocol_invI [OF assms(1)])
  from assms(1,2) have c: "client_inv s" and h: "handles_named (mgr s)" by (simp_all add: protocol_inv_def)
  from h show "handles_named (mgr (s\<lparr>client := Waiting g n 0, mgr := register_request g n (mgr s)\<rparr>))"
    by (simp add: register_request_def handles_named_update)
  from c assms(3) show "client_inv (s\<lparr>client := Waiting g n 0, mgr := register_request g n (mgr s)\<rparr>)"
    by (auto simp: client_inv_def register_request_def in_progress_def intro!: exI [of _ "\<lparr>rq_RequestState = g, rq_ActualState = False, rq_UpdatedByHardware = False\<rparr>"])
qed simp_all

lemma poll_keeps: "poll_request n w m = Poll_again w' \<Longrightarrow> w' = w"
  by (simp add: poll_request_def split: if_splits)

lemma finish_inv:
  assumes "protocol_inv s" and "crashed s = None" and "client s = Waiting g n w"
    and "poll_request n w (mgr s) = Poll_answered" and "finish_request g n (mgr s) = (m', None)"
  shows "protocol_inv (s\<lparr>client := Entering g n, mgr := m'\<rparr>)"
proof (rule protocol_invI [OF assms(1)])
  from assms(1,2) have c: "client_inv s" and h: "handles_named (mgr s)" by (simp_all add: protocol_inv_def)
  from assms(5) have m': "m' = (mgr s)\<lparr>EnabledStates := (EnabledStates (mgr s))(n := None)\<rparr>"
    by (simp add: finish_request_def split: if_splits)
  with handles_named_update(1) [OF h] show "handles_named (mgr (s\<lparr>client := Entering g n, mgr := m'\<rparr>))" by simp
  from c assms(3,4) obtain r where r: "EnabledStates (mgr s) = [n \<mapsto> r]" "real_peripheral n" "at_rest_with ((held (mgr s))(n := g)) s"
    by (auto simp: client_inv_def poll_request_def split: if_splits)
  then have "EnabledStates m' = Map.empty" and "held m' = held (mgr s)" by (auto simp: m')
  with r(2,3) show "client_inv (s\<lparr>client := Entering g n, mgr := m'\<rparr>)"
    by (simp add: client_inv_def at_rest_with_def)
qed simp_all

lemma enter_inv:
  assumes "protocol_inv s" and "crashed s = None" and "client s = Entering g n"
  shows "protocol_inv (s\<lparr>client := (if g then Constructing n else Ready), mgr := enter_peripheral g n (mgr s)\<rparr>)"
proof (rule protocol_invI [OF assms(1)])
  from assms(1,2) have c: "client_inv s" and h: "handles_named (mgr s)" by (simp_all add: protocol_inv_def)
  from handles_named_update(2,3) [OF h, of n]
  show "handles_named (mgr (s\<lparr>client := (if g then Constructing n else Ready), mgr := enter_peripheral g n (mgr s)\<rparr>))"
    by (simp add: enter_peripheral_def)
  have "EnabledStates (enter_peripheral g n (mgr s)) = EnabledStates (mgr s)"
    and "held (enter_peripheral g n (mgr s)) = (held (mgr s))(n := g)"
    by (auto simp: enter_peripheral_def held_def fun_eq_iff)
  with c assms(3) show "client_inv (s\<lparr>client := (if g then Constructing n else Ready), mgr := enter_peripheral g n (mgr s)\<rparr>)"
    by (cases g) (simp_all add: client_inv_def at_rest_with_def)
qed simp_all

lemma construct_inv:
  assumes "protocol_inv s" and "crashed s = None" and "client s = Constructing n" and "peripheral_name obj = n"
  shows "protocol_inv (s\<lparr>client := Ready, mgr := (mgr s)\<lparr>PeripheralMap := (PeripheralMap (mgr s))(n \<mapsto> Object obj)\<rparr>\<rparr>)"
    (is "protocol_inv ?s")
proof (rule protocol_invI [OF assms(1)])
  from assms(1,2) have c: "client_inv s" and h: "handles_named (mgr s)" by (simp_all add: protocol_inv_def)
  from handles_named_update(4) [OF h assms(4)] show "handles_named (mgr ?s)" by simp
  from c assms(3) have "held (mgr ?s) = held (mgr s)" by (auto simp: client_inv_def held_def fun_eq_iff)
  with c assms(3) show "client_inv ?s" by (simp add: client_inv_def at_rest_with_def)
qed simp_all

lemma in_progress_command:
  assumes "in_progress g n s" and "real_peripheral n" and "host_lines s = request_command g' n' # rest"
  shows "supported n' \<Longrightarrow> in_progress g n (s\<lparr>host_lines := rest, sam_enabled := (sam_enabled s)(n' := g')\<rparr>)"
    and "\<not> supported n' \<Longrightarrow> in_progress g n (s\<lparr>host_lines := rest, sam_text := sam_text s @ unsupported_error\<rparr>)"
  using assms(1,3) request_command_inj [OF assms(2), of g' n' g] by (auto simp: in_progress_def)

lemma client_inv_progress:
  assumes "client_inv s" and "\<And>h. \<not> at_rest_with h s" and "client s' = client s" and "mgr s' = mgr s"
    and "\<And>g n. real_peripheral n \<Longrightarrow> in_progress g n s \<Longrightarrow> in_progress g n s'"
  shows "client_inv s'"
proof (cases "client s")
  case (Waiting g n w)
  with assms(1,2) obtain r where "real_peripheral n" "w = 0" "held (mgr s) n = (\<not> g)" "EnabledStates (mgr s) = [n \<mapsto> r]"
    "\<not> rq_UpdatedByHardware r" "in_progress g n s"
    by (auto simp: client_inv_def split: if_splits)
  with Waiting assms(3-5) show ?thesis by (auto simp: client_inv_def)
qed (use assms in \<open>auto simp: client_inv_def\<close>)

lemma command_inv:
  assumes "protocol_inv s" and "crashed s = None" and "host_lines s = request_command g' n' # rest"
  shows "supported n' \<Longrightarrow> protocol_inv (s\<lparr>host_lines := rest, sam_enabled := (sam_enabled s)(n' := g')\<rparr>)"
    and "\<not> supported n' \<Longrightarrow> protocol_inv (s\<lparr>host_lines := rest, sam_text := sam_text s @ unsupported_error\<rparr>)"
proof -
  from assms(1,2) have c: "client_inv s" and h: "handles_named (mgr s)" "list_all sam_line (sam_lines s)"
    and t: "sam_text s = [] \<or> error_line (sam_text s)" by (simp_all add: protocol_inv_def)
  note p = in_progress_command [OF _ _ assms(3)]
  have b: "\<not> at_rest_with f s" for f using assms(3) by (simp add: at_rest_with_def)
  from p(1) have "supported n' \<Longrightarrow> client_inv (s\<lparr>host_lines := rest, sam_enabled := (sam_enabled s)(n' := g')\<rparr>)"
    by (intro client_inv_progress [OF c b]) simp_all
  with h t show "supported n' \<Longrightarrow> protocol_inv (s\<lparr>host_lines := rest, sam_enabled := (sam_enabled s)(n' := g')\<rparr>)"
    by (simp add: protocol_inv_def)
  from p(2) have "\<not> supported n' \<Longrightarrow> client_inv (s\<lparr>host_lines := rest, sam_text := sam_text s @ unsupported_error\<rparr>)"
    by (intro client_inv_progress [OF c b]) simp_all
  moreover have "error_line (sam_text s @ unsupported_error)" using t unsupported_error_begins error_line_append by fastforce
  ultimately show "\<not> supported n' \<Longrightarrow> protocol_inv (s\<lparr>host_lines := rest, sam_text := sam_text s @ unsupported_error\<rparr>)"
    using h by (simp add: protocol_inv_def)
qed

lemma in_progress_report:
  assumes "in_progress g n s" and "sam_enabled s k \<noteq> sam_reported s k"
  shows "in_progress g n (s\<lparr>sam_lines := sam_lines s @ [sam_text s @ enabled_report k (sam_enabled s k)], sam_text := [],
      sam_reported := (sam_reported s)(k := sam_enabled s k)\<rparr>)"
    (is "in_progress g n ?s")
proof -
  from assms have f: "host_lines s = []" "acks s = []" "sam_text s = []" "sam_enabled s = (held (mgr s))(n := g)" "sam_reported s = held (mgr s)"
    and k': "supported n"
    unfolding in_progress_def by metis+
  with assms(2) have k: "k = n" by (metis fun_upd_other)
  have "acks ?s = [enabled_report n g]" using f(2-4) by (auto simp: acks_def k)
  with f k' show ?thesis by (simp add: in_progress_def k)
qed

lemma sent_line: "sam_text s = [] \<or> error_line (sam_text s) \<Longrightarrow> sam_line t \<Longrightarrow> sam_line (sam_text s @ t)"
  using error_line_append [of "sam_text s" t] by (cases "sam_text s = []") (simp_all, simp add: sam_line_def)

lemma report_inv:
  assumes "protocol_inv s" and "crashed s = None" and "real_peripheral k" and "sam_enabled s k \<noteq> sam_reported s k"
  shows "protocol_inv (s\<lparr>sam_lines := sam_lines s @ [sam_text s @ enabled_report k (sam_enabled s k)], sam_text := [],
      sam_reported := (sam_reported s)(k := sam_enabled s k)\<rparr>)"
    (is "protocol_inv ?s")
proof -
  from assms(1,2) have c: "client_inv s" and h: "handles_named (mgr s)" "list_all sam_line (sam_lines s)"
    and t: "sam_text s = [] \<or> error_line (sam_text s)"
    by (simp_all add: protocol_inv_def)
  have "sam_line (enabled_report k (sam_enabled s k))" using assms(3) by (auto simp: sam_line_def)
  with t have "sam_line (sam_text s @ enabled_report k (sam_enabled s k))" by (rule sent_line)
  moreover have "\<not> at_rest_with f s" for f using assms(4) by (auto simp: at_rest_with_def)
  then have "client_inv ?s" using in_progress_report [OF _ assms(4)] by (intro client_inv_progress [OF c]) simp_all
  ultimately show ?thesis using h by (simp add: protocol_inv_def)
qed

text \<open>A state report leaves nothing behind the last newline; before it there was something only while a request is refused.\<close>

lemma in_progress_state:
  "in_progress g n s \<Longrightarrow> acks s' = acks s \<Longrightarrow> sam_text s' = [] \<Longrightarrow> host_lines s' = host_lines s \<Longrightarrow> mgr s' = mgr s \<Longrightarrow>
   sam_enabled s' = sam_enabled s \<Longrightarrow> sam_reported s' = sam_reported s \<Longrightarrow> in_progress g n s'"
  unfolding in_progress_def by presburger

lemma state_inv:
  assumes "protocol_inv s" and "real_peripheral k" and "state_report k t"
  shows "protocol_inv (s\<lparr>sam_lines := sam_lines s @ [sam_text s @ t], sam_text := []\<rparr>)" (is "protocol_inv ?s")
proof -
  have tx: "sam_text s = [] \<or> error_line (sam_text s)" using assms(1) by (simp add: protocol_inv_def)
  have "sam_text s @ t \<noteq> enabled_report k' e" for k' e
    using tx state_report_not_ack [OF assms(3)] error_not_report [OF error_line_append] by auto
  then have a: "acks ?s = acks s" by (auto simp: acks_def)
  have "at_rest_with f s \<Longrightarrow> at_rest_with f ?s" for f using a by (simp add: at_rest_with_def)
  moreover have "in_progress g n ?s" if "in_progress g n s" for g n using that a by (rule in_progress_state) simp_all
  ultimately have "client_inv s \<Longrightarrow> client_inv ?s" by (auto simp: client_inv_def split: client.splits if_splits)
  moreover have "sam_line (sam_text s @ t)" using tx assms(2,3) by (intro sent_line) (auto simp: sam_line_def)
  ultimately show ?thesis using assms(1) by (auto simp: protocol_inv_def)
qed

lemma protocol_inv_step:
  assumes "protocol_inv s" and "sam_step s s'"
  shows "protocol_inv s'"
  using assms(2)
proof cases
  case (get_sends name)
  with assms(1) show ?thesis using send_inv [of s name True] by (simp add: held_def)
next
  case (return_sends name obj)
  with assms(1) show ?thesis using send_inv [of s name False] by (simp add: held_def)
next
  case (construct_fails name)
  with assms(1) have "real_peripheral name" "held (mgr s) name" by (auto simp: protocol_inv_def client_inv_def)
  with construct_fails assms(1) show ?thesis using send_inv [of s name False] by simp
next
  case (polls get name w w')
  then have "s' = s" using poll_keeps [OF polls(4)] by (cases s) simp
  with assms(1) show ?thesis by simp
next
  case (registers get name)
  then show ?thesis using register_inv [OF assms(1)] by simp
next
  case (finishes get name w m')
  then show ?thesis using finish_inv [OF assms(1)] by simp
next
  case (enters get name)
  then show ?thesis using enter_inv [OF assms(1)] by simp
next
  case (constructed name obj)
  then show ?thesis using construct_inv [OF assms(1)] by simp
next
  case (receives t rest m' e)
  then show ?thesis using receive_inv [OF assms(1)] by simp
next
  case (sam_command get name rest)
  then show ?thesis using command_inv(1) [OF assms(1)] by simp
next
  case (sam_refuses get name rest)
  then show ?thesis using command_inv(2) [OF assms(1)] by simp
next
  case (sam_reports_enabled name)
  then show ?thesis using report_inv [OF assms(1)] by simp
next
  case (sam_reports_state name t)
  then show ?thesis using state_inv [OF assms(1)] by simp
qed (use inv_thrown [OF assms(1)] in \<open>simp_all\<close>)

lemma reachable_inv: "reachable s \<Longrightarrow> protocol_inv s"
  by (induction rule: reachable.induct) (auto intro: protocol_inv_start protocol_inv_step)

section \<open>Runs\<close>

text \<open>A \<open>Get\<close> that goes well: sent, registered, obeyed, reported, routed, answered, constructed.\<close>

lemma get_run:
  assumes r: "reachable s" and "crashed s = None" and "client s = Ready" and "sam_lines s = []"
    and "supported n" and "PeripheralMap (mgr s) n = None" and "peripheral_name obj = n"
  shows "\<exists>s'. reachable s' \<and> crashed s' = None \<and> client s' = Ready \<and> sam_lines s' = [] \<and>
    PeripheralMap (mgr s') = (PeripheralMap (mgr s))(n \<mapsto> Object obj)"
proof -
  have n: "real_peripheral n" by (rule supported_real [OF assms(5)])
  have inv: "EnabledStates (mgr s) = Map.empty" "host_lines s = []" "sam_enabled s = held (mgr s)" "sam_reported s = held (mgr s)" "sam_text s = []"
    using reachable_inv [OF r] assms(2,3) by (auto simp: protocol_inv_def client_inv_def at_rest_with_def)
  let ?r = "\<lparr>rq_RequestState = True, rq_ActualState = False, rq_UpdatedByHardware = False\<rparr>"
  define s1 where "s1 = s\<lparr>client := Sent True n, host_lines := [request_command True n]\<rparr>"
  have "sam_step s s1" using get_sends [of s n] assms n inv(2) by (simp add: s1_def)
  with r have r1: "reachable s1" by (rule after_step)
  define s2 where "s2 = s1\<lparr>client := Waiting True n 0, mgr := register_request True n (mgr s)\<rparr>"
  have "sam_step s1 s2" using registers [of s1 True n] assms(2) by (simp add: s1_def s2_def)
  with r1 have r2: "reachable s2" by (rule after_step)
  define s3 where "s3 = s2\<lparr>host_lines := [], sam_enabled := (sam_enabled s)(n := True)\<rparr>"
  have "sam_step s2 s3" using sam_command [of s2 True n "[]"] assms(2,5) by (simp add: s1_def s2_def s3_def)
  with r2 have r3: "reachable s3" by (rule after_step)
  define s4 where "s4 = s3\<lparr>sam_lines := [enabled_report n True], sam_text := [], sam_reported := (sam_reported s)(n := True)\<rparr>"
  have "\<not> sam_reported s n" using inv(4) assms(6) by (simp add: held_def)
  then have "sam_step s3 s4" using sam_reports_enabled [of s3 n] assms(2,4) n inv(5) by (simp add: s1_def s2_def s3_def s4_def)
  with r3 have r4: "reachable s4" by (rule after_step)
  define m where "m = (mgr s2)\<lparr>EnabledStates := [n \<mapsto> ?r\<lparr>rq_ActualState := True, rq_UpdatedByHardware := True\<rparr>]\<rparr>"
  have "EnabledStates (mgr s2) = [n \<mapsto> ?r]" by (simp add: s2_def register_request_def inv(1))
  then have "RouteMessage (enabled_report n True) (mgr s2) = (m, None)"
    using route_ack_requested [OF n, of "mgr s2" ?r True] by (simp add: m_def)
  then have "sam_step s4 (s4\<lparr>sam_lines := [], mgr := m, crashed := None\<rparr>)"
    using receives [of s4 "enabled_report n True" "[]" m None] assms(2) by (simp add: s1_def s2_def s3_def s4_def)
  moreover define s5 where "s5 = s4\<lparr>sam_lines := [], mgr := m, crashed := None\<rparr>"
  ultimately have r5: "reachable s5" using r4 by (auto intro: after_step)
  let ?m = "m\<lparr>EnabledStates := Map.empty\<rparr>"
  have "poll_request n 0 m = Poll_answered" and "finish_request True n m = (?m, None)"
    by (simp_all add: poll_request_def finish_request_def m_def)
  then have "sam_step s5 (s5\<lparr>client := Entering True n, mgr := ?m\<rparr>)"
    using finishes [of s5 True n 0 ?m] by (simp add: s1_def s2_def s3_def s4_def s5_def)
  with r5 have r5': "reachable (s5\<lparr>client := Entering True n, mgr := ?m\<rparr>)" by (rule after_step)
  define s6 where "s6 = s5\<lparr>client := Constructing n, mgr := enter_peripheral True n ?m\<rparr>"
  have "sam_step (s5\<lparr>client := Entering True n, mgr := ?m\<rparr>) s6"
    using enters [of "s5\<lparr>client := Entering True n, mgr := ?m\<rparr>" True n] by (simp add: s5_def s6_def)
  with r5' have r6: "reachable s6" by (rule after_step)
  have "sam_step s6 (s6\<lparr>client := Ready, mgr := (mgr s6)\<lparr>PeripheralMap := (PeripheralMap (mgr s6))(n \<mapsto> Object obj)\<rparr>\<rparr>)"
    using constructed [of s6 n obj] assms(7) by (simp add: s5_def s6_def)
  from after_step [OF r6 this] show ?thesis
    by (intro exI conjI) (assumption, simp_all add: s6_def s5_def s4_def m_def s2_def register_request_def enter_peripheral_def)
qed

lemma early_answer_run:
  assumes "supported n"
  shows "\<exists>s. reachable s \<and> client s = Sent True n \<and> crashed s = Some Runtime_error"
proof -
  have n: "real_peripheral n" by (rule supported_real [OF assms])
  define s1 where "s1 = sam_start\<lparr>client := Sent True n, host_lines := [request_command True n]\<rparr>"
  have "sam_step sam_start s1" using get_sends [of sam_start n] n by (simp add: s1_def sam_start_def)
  then have r1: "reachable s1" by (rule after_step [OF initially])
  define s2 where "s2 = s1\<lparr>host_lines := [], sam_enabled := (\<lambda>_. False)(n := True)\<rparr>"
  have "sam_step s1 s2" using sam_command [of s1 True n "[]"] assms by (simp add: s1_def s2_def sam_start_def)
  with r1 have r2: "reachable s2" by (rule after_step)
  define s3 where "s3 = s2\<lparr>sam_lines := [enabled_report n True], sam_text := [], sam_reported := (\<lambda>_. False)(n := True)\<rparr>"
  have "sam_step s2 s3" using sam_reports_enabled [of s2 n] n by (simp add: s1_def s2_def s3_def sam_start_def)
  with r2 have r3: "reachable s3" by (rule after_step)
  obtain x where "substr (enabled_report n True) 0 (find_first_of CHR '':'' (enabled_report n True)) = Inr x"
    "StringToPeripheralName x = Inr n"
    using route_target [OF n, of "enabled_report n True"] by (auto simp: enabled_report_def)
  then have "RouteMessage (enabled_report n True) (mgr s3) = (mgr s3, Some Runtime_error)"
    by (simp add: RouteMessage_def s1_def s2_def s3_def sam_start_def)
  then have "sam_step s3 (s3\<lparr>sam_lines := [], mgr := mgr s3, crashed := Some Runtime_error\<rparr>)"
    by (intro receives) (simp_all add: s1_def s2_def s3_def sam_start_def)
  from after_step [OF r3 this] show ?thesis
    by (intro exI conjI) (assumption, simp_all add: s1_def s2_def s3_def)
qed

lemma no_b: "CHR ''b'' \<notin> set (name_text p)"
proof -
  have "list_all (\<lambda>p. CHR ''b'' \<notin> set (name_text p)) peripheral_names" by code_simp
  then show ?thesis using peripheral_names_all [of p] by (auto simp: list_all_iff)
qed

lemma late_report_run:
  assumes "supported n"
  shows "\<exists>s. reachable s \<and> client s = Waiting False n 0 \<and> crashed s = Some Runtime_error_pointer"
proof -
  have n: "real_peripheral n" by (rule supported_real [OF assms])
  obtain obj where obj: "peripheral_name obj = n" by (metis gpio_object.select_convs(1) peripheral_name.simps(1))
  obtain s where s: "reachable s" "crashed s = None" "client s = Ready" "sam_lines s = []"
      "PeripheralMap (mgr s) = [n \<mapsto> Object obj]"
    using get_run [OF initially _ _ _ assms _ obj] by (auto simp: sam_start_def)
  have inv: "EnabledStates (mgr s) = Map.empty" "host_lines s = []" "sam_enabled s n" "sam_reported s n" "sam_text s = []"
    using reachable_inv [OF s(1)] s by (auto simp: protocol_inv_def client_inv_def at_rest_with_def held_def)
  define t where "t = name_text n @ '':val:on:'' @ [newline]"
  have t: "state_report n t"
    using not_contains [of "CHR ''b''" t] no_b [of n] by (simp add: state_report_def t_def)
  define s1 where "s1 = s\<lparr>sam_lines := [t], sam_text := []\<rparr>"
  have "sam_step s s1" using sam_reports_state [of s n t] s inv n t by (simp add: s1_def)
  with s(1) have r1: "reachable s1" by (rule after_step)
  define s2 where "s2 = s1\<lparr>client := Sent False n, host_lines := [request_command False n]\<rparr>"
  have "sam_step s1 s2" using return_sends [of s1 n obj] s inv n by (simp add: s1_def s2_def)
  with r1 have r2: "reachable s2" by (rule after_step)
  define s3 where "s3 = s2\<lparr>client := Waiting False n 0, mgr := register_request False n (mgr s)\<rparr>"
  have "sam_step s2 s3" using registers [of s2 False n] s by (simp add: s1_def s2_def s3_def)
  with r2 have r3: "reachable s3" by (rule after_step)
  have "RouteMessage t (mgr s3) = (mgr s3, Some Runtime_error_pointer)"
    by (simp add: route_state [OF n t] s3_def register_request_def)
  then have "sam_step s3 (s3\<lparr>sam_lines := [], mgr := mgr s3, crashed := Some Runtime_error_pointer\<rparr>)"
    using s by (intro receives) (simp_all add: s1_def s2_def s3_def)
  from after_step [OF r3 this] show ?thesis
    by (intro exI conjI) (assumption, simp_all add: s1_def s2_def s3_def)
qed

section \<open>Properties\<close>

text \<open>C6: while the receive thread lives, whenever no \<open>Get\<close> or \<open>Return\<close> is in
  progress no request is left in \<open>EnabledStates\<close>, no command is on its way, and the registered
  peripherals are exactly those the firmware has enabled, whatever the two threads and the firmware
  did before, in whatever order.\<close>

theorem manager_consistent:
  assumes "reachable s" and "crashed s = None" and "client s = Ready"
  shows "EnabledStates (mgr s) = Map.empty \<and> host_lines s = [] \<and>
    (\<forall>n. PeripheralMap (mgr s) n \<noteq> None \<longleftrightarrow> sam_enabled s n)"
  using reachable_inv [OF assms(1)] assms(2,3)
  by (simp add: protocol_inv_def client_inv_def at_rest_with_def held_def)

theorem manager_consistent_witness:
  "\<exists>s. reachable s \<and> client s = Ready \<and> PeripheralMap (mgr s) GPIO22 \<noteq> None \<and> sam_enabled s GPIO22 \<and>
    EnabledStates (mgr s) = Map.empty"
proof -
  obtain obj where obj: "peripheral_name obj = GPIO22" by (metis gpio_object.select_convs(1) peripheral_name.simps(1))
  have "supported GPIO22" by code_simp
  from get_run [OF initially _ _ _ this _ obj] obtain s where "reachable s" "crashed s = None" "client s = Ready"
    "PeripheralMap (mgr s) GPIO22 = Some (Object obj)" by (auto simp: sam_start_def)
  with manager_consistent [of s] show ?thesis by auto
qed

text \<open>C35: both requests race with the receive thread. The answer to \<open>Get\<close>, when it
  arrives before the request is registered, ends the program with an uncaught \<open>runtime_error\<close>; a
  state report still on its way when \<open>Return\<close> has registered its request ends it with a thrown
  pointer.\<close>

theorem unsynchronised_requests:
  assumes "supported n"
  shows "(\<exists>s. reachable s \<and> client s = Sent True n \<and> crashed s = Some Runtime_error) \<and>
    (\<exists>s. reachable s \<and> client s = Waiting False n 0 \<and> crashed s = Some Runtime_error_pointer)"
  using early_answer_run [OF assms] late_report_run [OF assms] by blast

theorem unsynchronised_requests_witness:
  "\<exists>s. reachable s \<and> client s = Sent True ADC3 \<and> crashed s = Some Runtime_error"
proof -
  have "supported ADC3" by code_simp
  from unsynchronised_requests [OF this] show ?thesis by blast
qed

text \<open>The wait of \<open>Get\<close> and \<open>Return\<close> never times out, since \<open>waitCount\<close> is
  tested and not counted, and a request for a peripheral the firmware does not serve (a DAC, a USART)
  waits for ever: whatever step the system takes, the client stays where it is.\<close>

theorem request_never_times_out:
  assumes "reachable s" and "client s = Waiting g n w" and "crashed s = None"
  shows "poll_request n w (mgr s) \<noteq> Poll_timeout \<and>
    (\<not> supported n \<longrightarrow> (\<forall>s'. sam_step s s' \<longrightarrow> client s' = client s))"
proof -
  obtain r where w: "w = 0" "EnabledStates (mgr s) = [n \<mapsto> r]" "rq_UpdatedByHardware r \<Longrightarrow> supported n"
    using reachable_inv [OF assms(1)] assms(2,3) by (auto simp: protocol_inv_def client_inv_def split: if_splits)
  then have p: "poll_request n w (mgr s) \<noteq> Poll_timeout" "\<not> supported n \<Longrightarrow> poll_request n w (mgr s) \<noteq> Poll_answered"
    by (auto simp: poll_request_def)
  have "client s' = client s" if "\<not> supported n" and "sam_step s s'" for s'
    using that(2) p that(1) assms(2) poll_keeps by cases auto
  with p(1) show ?thesis by blast
qed

theorem request_never_times_out_witness:
  "\<exists>s. reachable s \<and> client s = Waiting True DAC0 0 \<and> \<not> (\<exists>s'. sam_step s s' \<and> client s' \<noteq> client s)"
proof -
  define s1 where "s1 = sam_start\<lparr>client := Sent True DAC0, host_lines := [request_command True DAC0]\<rparr>"
  have "sam_step sam_start s1" using get_sends [of sam_start DAC0] by (simp add: s1_def sam_start_def real_peripheral_def)
  then have r1: "reachable s1" by (rule after_step [OF initially])
  define s2 where "s2 = s1\<lparr>client := Waiting True DAC0 0, mgr := register_request True DAC0 (mgr s1)\<rparr>"
  have "sam_step s1 s2" using registers [of s1 True DAC0] by (simp add: s1_def s2_def sam_start_def)
  with r1 have r2: "reachable s2" by (rule after_step)
  have "client s2 = Waiting True DAC0 0" "crashed s2 = None" by (simp_all add: s1_def s2_def sam_start_def)
  moreover have "\<not> supported DAC0" by code_simp
  ultimately show ?thesis using request_never_times_out [OF r2] r2 by metis
qed

end
