(* ===== verification/Robot_Run.thy ===== *)
theory Robot_Run
  imports Host_Stream "HOL-Library.Word"
begin

text \<open>
  What the robot's control path (\<open>clank/lib/motor/ClawMotor\<close>, \<open>module/DifferentialDriveModule\<close>,
  \<open>robot\<close>, \<open>communication\<close>) needs beside the host's strings and numbers: the ways a call can end,
  the multiplication of doubles and their conversion to \<open>unsigned char\<close>.
\<close>

section \<open>The end of a call\<close>

text \<open>
  A call returns, throws an exception, waits for ever for a mutex nobody will unlock, or does
  something the language leaves undefined.
\<close>

datatype 'a run = Returns 'a | Throws exn | Blocks | Undefined

text \<open>Operations pass their state along, also when they throw.\<close>

type_synonym ('s, 'a) op = "'s \<Rightarrow> 'a run \<times> 's"

definition and_then :: "('s, 'a) op \<Rightarrow> ('a \<Rightarrow> ('s, 'b) op) \<Rightarrow> ('s, 'b) op" where
  "and_then m f s = (case m s of
       (Returns x, s') \<Rightarrow> f x s'
     | (Throws e, s') \<Rightarrow> (Throws e, s')
     | (Blocks, s') \<Rightarrow> (Blocks, s')
     | (Undefined, s') \<Rightarrow> (Undefined, s'))"

definition modify_state :: "('s \<Rightarrow> 's) \<Rightarrow> ('s, unit) op" where
  "modify_state f s = (Returns (), f s)"

lemma and_then_Returns [simp]: "m s = (Returns x, s') \<Longrightarrow> and_then m f s = f x s'"
  by (simp add: and_then_def)

lemma and_then_stops [simp]:
  "m s = (Throws e, s') \<Longrightarrow> and_then m f s = (Throws e, s')"
  "m s = (Blocks, s') \<Longrightarrow> and_then m f s = (Blocks, s')"
  "m s = (Undefined, s') \<Longrightarrow> and_then m f s = (Undefined, s')"
  by (simp_all add: and_then_def)

lemma and_then_modify [simp]: "and_then (modify_state f) g s = g () (f s)"
  by (simp add: and_then_def modify_state_def)

lemma and_then_cases:
  obtains x s' where "m s = (Returns x, s')" and "and_then m f s = f x s'"
  | r s' where "m s = (r, s')" and "\<forall>x. r \<noteq> Returns x" and "snd (and_then m f s) = s'" and "\<forall>x. fst (and_then m f s) \<noteq> Returns x"
proof (cases "m s")
  case (Pair r s')
  then show thesis using that by (cases r) simp_all
qed

section \<open>Doubles\<close>

text \<open>The product of two doubles: the sign is that of the product, \<open>0 * inf\<close> is a NaN.\<close>

fun f_sign :: "cfloat \<Rightarrow> int" where
  "f_sign (Fin x) = (if x < 0 then - 1 else if 0 < x then 1 else 0)"
| "f_sign PInf = 1"
| "f_sign NInf = - 1"
| "f_sign NaN = 0"

definition f_mul :: "cfloat \<Rightarrow> cfloat \<Rightarrow> cfloat" where
  "f_mul x y = (case (x, y) of
       (Fin a, Fin b) \<Rightarrow> round64 (a * b)
     | _ \<Rightarrow> (if f_sign x * f_sign y = 0 then NaN else if 0 < f_sign x * f_sign y then PInf else NInf))"

fun f_abs :: "cfloat \<Rightarrow> cfloat" where
  "f_abs (Fin x) = Fin \<bar>x\<bar>" | "f_abs NInf = PInf" | "f_abs PInf = PInf" | "f_abs NaN = NaN"

text \<open>Truncation to \<open>unsigned char\<close>, undefined when the truncated value does not fit.\<close>

definition to_uchar :: "cfloat \<Rightarrow> 8 word option" where
  "to_uchar x = (case x of
       Fin v \<Rightarrow> (if - 1 < v \<and> v < 256 then Some (word_of_int (if 0 \<le> v then \<lfloor>v\<rfloor> else 0)) else None)
     | _ \<Rightarrow> None)"

section \<open>Integers in texts\<close>

text \<open>
  \<open>std::stoi\<close> and \<open>std::stol\<close>; \<open>int\<close> and \<open>long\<close> have 32 bits on the host's processor. They throw
  when there is no digit to convert and when the value does not fit.
\<close>

definition integer_text :: "string \<Rightarrow> int option" where
  "integer_text s = (let ds = takeWhile is_digit (number_start s);
       t = dropWhile is_space s in
     if ds = [] then None
     else Some (if t \<noteq> [] \<and> hd t = CHR ''-'' then - digits_val ds else digits_val ds))"

definition stoi :: "string \<Rightarrow> exn + int" where
  "stoi s = (case integer_text s of
       None \<Rightarrow> Inl Invalid_argument
     | Some v \<Rightarrow> (if v < - (2 ^ 31) \<or> 2 ^ 31 \<le> v then Inl Out_of_range else Inr v))"

section \<open>Rounding stays within representable bounds\<close>

lemma floor_log2_mono: "0 < x \<Longrightarrow> x \<le> y \<Longrightarrow> floor_log2 x \<le> floor_log2 y"
  using floor_log2_less [of x "floor_log2 y + 1"] floor_log2_upper [of y] by simp

lemma round_half_even_ge_int: "of_int k \<le> x \<Longrightarrow> k \<le> round_half_even x"
proof -
  assume "of_int k \<le> x"
  then have "k \<le> \<lfloor>x\<rfloor>" by (simp add: le_floor_iff)
  then show ?thesis by (simp add: round_half_even_def Let_def)
qed

lemma fround_within:
  assumes y: "fround prec emin emax y = Fin y" and x: "\<bar>x\<bar> \<le> y"
  shows "\<exists>r. fround prec emin emax x = Fin r \<and> \<bar>r\<bar> \<le> y"
proof (cases "x = 0")
  case True
  with x show ?thesis by (simp add: fround_def)
next
  case False
  define u where "u z = max (floor_log2 \<bar>z\<bar>) emin - prec + 1" for z
  have "0 < \<bar>x\<bar>" and y0: "0 < y" using False x by linarith+
  then have le: "u x \<le> u y" using floor_log2_mono [of "\<bar>x\<bar>" "\<bar>y\<bar>"] x by (simp add: u_def)
  define m where "m = round_half_even (y / pow2 (u y))"
  from y y0 have ym: "of_int m * pow2 (u y) = y" and top: "\<not> pow2 (emax + 1) \<le> y"
    by (simp_all add: fround_def Let_def u_def m_def split: if_splits)
  define K where "K = m * 2 ^ nat (u y - u x)"
  have "pow2 (u y) = pow2 (u y - u x) * pow2 (u x)" by (simp add: pow2_add [symmetric])
  moreover have "pow2 (u y - u x) = of_int (2 ^ nat (u y - u x))" using le by (simp add: pow2_def)
  ultimately have "of_int m * pow2 (u y) = of_int K * pow2 (u x)" by (simp add: K_def)
  with ym have yK: "y = of_int K * pow2 (u x)" by simp
  have "- of_int K \<le> x / pow2 (u x)" and "x / pow2 (u x) \<le> of_int K"
  proof -
    have "x \<le> of_int K * pow2 (u x)" and "- of_int K * pow2 (u x) \<le> x" using x yK by (simp_all add: abs_le_iff)
    then show "- of_int K \<le> x / pow2 (u x)" and "x / pow2 (u x) \<le> of_int K"
      by (simp_all only: pos_divide_le_eq [OF pow2_pos] pos_le_divide_eq [OF pow2_pos])
  qed
  then have "- K \<le> round_half_even (x / pow2 (u x))" and "round_half_even (x / pow2 (u x)) \<le> K"
    using round_half_even_ge_int [of "- K"] round_half_even_mono_int by simp_all
  then have "\<bar>of_int (round_half_even (x / pow2 (u x)))\<bar> \<le> (of_int K :: rat)" by (simp add: abs_le_iff)
  then have r: "\<bar>of_int (round_half_even (x / pow2 (u x))) * pow2 (u x)\<bar> \<le> y"
    using yK by (simp add: abs_mult abs_of_pos)
  with top have "\<not> pow2 (emax + 1) \<le> \<bar>of_int (round_half_even (x / pow2 (u x))) * pow2 (u x)\<bar>" by simp
  with r False show ?thesis by (simp add: fround_def Let_def u_def [symmetric])
qed

lemma fround_nonneg:
  assumes "0 \<le> x" and "fround prec emin emax x = Fin r"
  shows "0 \<le> r"
proof -
  have "0 \<le> round_half_even (x / pow2 u)" for u
    using assms(1) by (intro round_half_even_ge_int) (simp add: less_imp_le)
  then show ?thesis using assms(2) by (auto simp: fround_def Let_def less_imp_le split: if_splits)
qed

lemma round64_of_nat:
  assumes "n < 2 ^ 53"
  shows "round64 (of_nat n) = Fin (of_nat n)"
proof -
  have "(of_nat n :: rat) < of_nat (2 ^ 53)" using assms by (simp only: of_nat_less_iff)
  then show ?thesis using fround_exact [of "of_nat n" "int n" 0 53 "- 1022" 1023] by (simp add: pow2_def)
qed

text \<open>A value is a double if rounding leaves it alone.\<close>

definition is_double :: "cfloat \<Rightarrow> bool" where
  "is_double x \<longleftrightarrow> (case x of Fin v \<Rightarrow> round64 v = Fin v | _ \<Rightarrow> True)"

lemma f_mul_within:
  assumes "is_double (Fin y)" and "\<bar>c\<bar> \<le> 1" and "0 \<le> y"
  shows "\<exists>r. f_mul (Fin c) (Fin y) = Fin r \<and> \<bar>r\<bar> \<le> y"
  using assms fround_within [of 53 "- 1022" 1023 y "c * y"] mult_right_mono [of "\<bar>c\<bar>" 1 y]
  by (simp add: is_double_def f_mul_def abs_mult)

lemma fround_uminus:
  assumes "fround prec emin emax x = Fin x"
  shows "fround prec emin emax (- x) = Fin (- x)"
proof (cases "x = 0")
  case True
  then show ?thesis by (simp add: fround_def)
next
  case False
  define u where "u = max (floor_log2 \<bar>x\<bar>) emin - prec + 1"
  define m where "m = round_half_even (x / pow2 u)"
  from assms False have x: "of_int m * pow2 u = x" and top: "\<not> pow2 (emax + 1) \<le> \<bar>x\<bar>"
    by (simp_all add: fround_def Let_def u_def m_def split: if_splits)
  have "x / pow2 u = of_int m" using x by (simp add: field_simps less_imp_neq [symmetric])
  then have "- x / pow2 u = of_int (- m)" by simp
  then have "round_half_even (- x / pow2 u) = - m" by (simp only: round_half_even_int)
  then have "of_int (round_half_even (- x / pow2 u)) * pow2 u = - x" using x by simp
  with False top show ?thesis by (simp add: fround_def Let_def u_def)
qed

text \<open>Rounding a rounded value changes nothing.\<close>

lemma fround_idem:
  assumes "fround prec emin emax x = Fin s" and "0 < prec" and "emin \<le> emax"
  shows "fround prec emin emax s = Fin s"
proof (cases "x = 0")
  case True
  with assms(1) show ?thesis by (simp add: fround_def)
next
  case False
  define e where "e = max (floor_log2 \<bar>x\<bar>) emin"
  define q where "q = e - prec + 1"
  define m where "m = round_half_even (x / pow2 q)"
  from assms(1) False have s: "s = of_int m * pow2 q" and top: "\<bar>s\<bar> < pow2 (emax + 1)"
    by (auto simp: fround_def Let_def q_def e_def m_def split: if_splits)
  have x0: "0 < \<bar>x\<bar>" using False by simp
  have pm: "pow2 prec = of_int (2 ^ nat prec)" using assms(2) by (simp add: pow2_def)
  have "\<bar>x\<bar> < pow2 (floor_log2 \<bar>x\<bar> + 1)" by (rule floor_log2_upper [OF x0])
  also have "\<dots> \<le> pow2 (prec + q)" by (rule pow2_le) (simp add: q_def e_def)
  finally have less: "\<bar>x\<bar> < pow2 prec * pow2 q" by (simp only: pow2_add)
  then have "x \<le> pow2 prec * pow2 q" and "- pow2 prec * pow2 q \<le> x" by (simp_all add: abs_less_iff)
  then have "x / pow2 q \<le> pow2 prec" and "- pow2 prec \<le> x / pow2 q"
    by (simp_all only: pos_divide_le_eq [OF pow2_pos] pos_le_divide_eq [OF pow2_pos])
  then have "x / pow2 q \<le> of_int (2 ^ nat prec)" and "of_int (- (2 ^ nat prec)) \<le> x / pow2 q"
    unfolding pm by simp_all
  then have m: "m \<le> 2 ^ nat prec" "- (2 ^ nat prec) \<le> m"
    unfolding m_def by (blast intro: round_half_even_mono_int round_half_even_ge_int)+
  show ?thesis
  proof (cases "\<bar>m\<bar> = 2 ^ nat prec")
    case True
    then have "\<bar>s\<bar> = pow2 (prec + q)" by (simp add: s abs_mult abs_of_pos pow2_add pm flip: of_int_abs)
    with top have "\<not> pow2 (emax + 1) \<le> pow2 (prec + q)" by simp
    with pow2_le [of "emax + 1" "prec + q"] have "q + 1 + prec \<le> emax + 1" by linarith
    moreover have "emin - prec + 1 \<le> q + 1" by (simp add: q_def e_def)
    moreover obtain k where k: "m = k * 2" "\<bar>k\<bar> = 2 ^ nat (prec - 1)"
    proof -
      have "2 ^ nat prec = (2 * 2 ^ nat (prec - 1) :: int)" using assms(2) by (simp flip: power_Suc add: Suc_nat_eq_nat_zadd1)
      with True have "m = 2 * 2 ^ nat (prec - 1) \<or> m = - (2 * 2 ^ nat (prec - 1))" by linarith
      then show thesis using that [of "2 ^ nat (prec - 1)"] that [of "- (2 ^ nat (prec - 1))"] by auto
    qed
    moreover have "s = of_int k * pow2 (q + 1)" using pow2_add [of q 1] by (simp add: s k(1) pow2_def [of 1])
    moreover have "\<bar>of_int k\<bar> < pow2 prec"
    proof -
      have "\<bar>of_int k :: rat\<bar> = of_int (2 ^ nat (prec - 1))" using k(2) by (metis of_int_abs)
      also have "\<dots> < of_int (2 ^ nat prec)" using assms(2) by (simp only: of_int_less_iff) (rule power_strict_increasing, simp_all)
      finally show ?thesis by (simp add: pm)
    qed
    ultimately show ?thesis by (intro fround_exact [of s k "q + 1"])
  next
    case False
    then have "\<bar>m\<bar> < 2 ^ nat prec" using m by linarith
    then have "(of_int \<bar>m\<bar> :: rat) < of_int (2 ^ nat prec)" by (simp only: of_int_less_iff)
    then have "\<bar>of_int m\<bar> < pow2 prec" by (simp only: pm of_int_abs)
    moreover have "emin - prec + 1 \<le> q" by (simp add: q_def e_def)
    moreover have "q + prec \<le> emax + 1"
    proof (cases "emin \<le> floor_log2 \<bar>x\<bar>")
      case True
      have "pow2 (floor_log2 \<bar>x\<bar>) \<le> \<bar>x\<bar>" by (rule floor_log2_le [OF x0])
      moreover have "floor_log2 \<bar>x\<bar> = (prec - 1) + q" using True by (simp add: q_def e_def)
      ultimately have "pow2 (prec - 1) \<le> \<bar>x\<bar> / pow2 q" by (simp add: pow2_add pos_le_divide_eq)
      moreover have "pow2 (prec - 1) = of_int (2 ^ nat (prec - 1))" using assms(2) by (simp add: pow2_def)
      ultimately have "of_int (2 ^ nat (prec - 1)) \<le> x / pow2 q \<or> x / pow2 q \<le> of_int (- (2 ^ nat (prec - 1)))"
        by (cases "0 \<le> x") (simp_all add: abs_if)
      then have "2 ^ nat (prec - 1) \<le> m \<or> m \<le> - (2 ^ nat (prec - 1))"
        unfolding m_def by (blast intro: round_half_even_ge_int round_half_even_mono_int)
      then have "2 ^ nat (prec - 1) \<le> \<bar>m\<bar>" by linarith
      then have "of_int (2 ^ nat (prec - 1)) \<le> (of_int \<bar>m\<bar> :: rat)" by (simp only: of_int_le_iff)
      then have "pow2 (prec - 1) * pow2 q \<le> \<bar>s\<bar>"
        using \<open>pow2 (prec - 1) = _\<close> by (simp add: s abs_mult abs_of_pos)
      with top have "\<not> pow2 (emax + 1) \<le> pow2 (prec - 1 + q)" by (simp add: pow2_add)
      with pow2_le [of "emax + 1" "prec - 1 + q"] show ?thesis by linarith
    next
      case False
      with assms(3) show ?thesis by (simp add: q_def e_def)
    qed
    ultimately show ?thesis by (intro fround_exact [OF s])
  qed
qed

lemma is_double_round64: "round64 x = Fin s \<Longrightarrow> is_double (Fin s)"
  by (simp add: is_double_def fround_idem)

end
