(* ===== verification/Host_Motor.thy ===== *)
theory Host_Motor
  imports Host_Gpio Host_Pwm Robot_Run
begin

text \<open>
  \<open>clank/lib/motor/LiteMotor/LiteMotor.cpp\<close> and \<open>VHN2Motor/VHN2Motor.cpp\<close>: motors behind a bridge
  whose power is a pulse-width pin and whose direction is one digital pin (\<open>LiteMotor\<close>) or two
  (\<open>VHN2Motor\<close>). A motor owns the objects of its pins; the serial line they share is the
  component \<open>line\<close> of the state. The texts of the exceptions are left out.
\<close>

section \<open>One direction pin\<close>

record lite_motor =
  DirPin :: gpio_object
  PulsePin :: pwm_object
  line :: serial_port

text \<open>A call on a pin, with what it leaves put back into the motor.\<close>

definition carried :: "('p \<Rightarrow> serial_port \<Rightarrow> 'm) \<Rightarrow> 'p \<times> serial_port \<times> exn option \<Rightarrow> unit run \<times> 'm" where
  "carried rebuild r = (case r of
       (p, l, None) \<Rightarrow> (Returns (), rebuild p l)
     | (p, l, Some e) \<Rightarrow> (Throws e, rebuild p l))"

definition on_DirPin :: "(gpio_object \<Rightarrow> serial_port \<Rightarrow> gpio_object \<times> serial_port \<times> exn option) \<Rightarrow> (lite_motor, unit) op" where
  "on_DirPin f m = carried (\<lambda>p l. m\<lparr>DirPin := p, line := l\<rparr>) (f (DirPin m) (line m))"

definition on_PulsePin :: "(pwm_object \<Rightarrow> serial_port \<Rightarrow> pwm_object \<times> serial_port \<times> exn option) \<Rightarrow> (lite_motor, unit) op" where
  "on_PulsePin f m = carried (\<lambda>p l. m\<lparr>PulsePin := p, line := l\<rparr>) (f (PulsePin m) (line m))"

definition outside_velocity :: "cfloat \<Rightarrow> bool" where
  "outside_velocity v \<longleftrightarrow> f_less v (Fin (- 100)) \<or> f_less (Fin 100) v"

definition lite_GetVelocity :: "lite_motor \<Rightarrow> cfloat" where
  "lite_GetVelocity m = (let velocityMag = po_LastReportedValue (PulsePin m) in
     if gp_Value (DirPin m) = High then velocityMag else f_mul (Fin (- 1)) velocityMag)"

definition lite_SetVelocity :: "kernel_write \<Rightarrow> cfloat \<Rightarrow> (lite_motor, unit) op" where
  "lite_SetVelocity written velocity m =
     (if outside_velocity velocity then (Throws Runtime_error, m)
      else if f_less velocity (Fin 0)
        then and_then (on_DirPin (gpio_SetValue written Low))
          (\<lambda>_. on_PulsePin (pwm_SetValue written (f_mul velocity (Fin (- 1))))) m
      else if f_less (Fin 0) velocity
        then and_then (on_DirPin (gpio_SetValue written High)) (\<lambda>_. on_PulsePin (pwm_SetValue written velocity)) m
      else on_PulsePin (pwm_SetValue written velocity) m)"

definition lite_GetRampSpeed :: "lite_motor \<Rightarrow> cfloat" where
  "lite_GetRampSpeed m = po_LastReportedRampSpeed (PulsePin m)"

definition lite_SetRampSpeed :: "kernel_write \<Rightarrow> cfloat \<Rightarrow> (lite_motor, unit) op" where
  "lite_SetRampSpeed written speed m =
     (if f_zero speed then (Throws Runtime_error, m) else on_PulsePin (pwm_SetRampSpeed written speed) m)"

text \<open>The end of a constructor: a call that does not return leaves no object.\<close>

definition built :: "('m \<Rightarrow> serial_port) \<Rightarrow> unit run \<times> 'm \<Rightarrow> 'm run \<times> serial_port" where
  "built the_line r = (case r of
       (Returns _, m) \<Rightarrow> (Returns m, the_line m)
     | (Throws e, m) \<Rightarrow> (Throws e, the_line m)
     | (Blocks, m) \<Rightarrow> (Blocks, the_line m)
     | (Undefined, m) \<Rightarrow> (Undefined, the_line m))"

text \<open>What both constructors do once the parameters are checked: stopped pins, then the starting values.\<close>

definition lite_start ::
    "kernel_write \<Rightarrow> cfloat \<Rightarrow> cfloat \<Rightarrow> string \<Rightarrow> string \<Rightarrow> serial_port \<Rightarrow> lite_motor run \<times> serial_port" where
  "lite_start written ramp velocity dirPin pwmPin l =
     (case from_name (\<lambda>n. gpio_constructor written n Output Low) dirPin l of
        (Inl e, l') \<Rightarrow> (Throws e, l')
      | (Inr dir, l') \<Rightarrow> (case from_name (\<lambda>n. pwm_constructor written n (Fin (- 1)) (Fin 0)) pwmPin l' of
            (Inl e, l'') \<Rightarrow> (Throws e, l'')
          | (Inr pulse, l'') \<Rightarrow> built line (and_then (lite_SetRampSpeed written ramp)
              (\<lambda>_. lite_SetVelocity written velocity) \<lparr>DirPin = dir, PulsePin = pulse, line = l''\<rparr>)))"

definition lite_constructor ::
    "kernel_write \<Rightarrow> cfloat \<Rightarrow> cfloat \<Rightarrow> string \<Rightarrow> string \<Rightarrow> serial_port \<Rightarrow> lite_motor run \<times> serial_port" where
  "lite_constructor written startingRampSpeed startingVelocity dirControlName pwmPinName l =
     (if outside_velocity startingVelocity then (Throws Runtime_error, l)
      else if f_zero startingRampSpeed then (Throws Runtime_error, l)
      else lite_start written startingRampSpeed startingVelocity dirControlName pwmPinName l)"

text \<open>
  From a configuration. When \<open>stoi\<close> throws, the handler puts the variable it did not assign into the
  message; its value is indeterminate.
\<close>

definition lite_config_constructor :: "kernel_write \<Rightarrow> configuration \<Rightarrow> serial_port \<Rightarrow> lite_motor run \<times> serial_port" where
  "lite_config_constructor written config l =
     (let (velocity_given, configVelocity) = GetConfigurationData config ''Velocity'';
          (ramp_given, configRamp) = GetConfigurationData config ''RampSpeed'';
          (dir_given, dirPin) = GetConfigurationData config ''DirPin'';
          (pwm_given, pwmPin) = GetConfigurationData config ''PwmPin'' in
      if \<not> velocity_given \<or> \<not> ramp_given \<or> \<not> dir_given \<or> \<not> pwm_given then (Throws Runtime_error, l)
      else case stod configVelocity of
          Inl e \<Rightarrow> (Throws Runtime_error, l)
        | Inr startingVelocity \<Rightarrow>
            (if outside_velocity startingVelocity then (Throws Runtime_error, l)
             else case stoi configRamp of
                 Inl e \<Rightarrow> (Undefined, l)
               | Inr startingRampSpeed \<Rightarrow>
                   (if startingRampSpeed = 0 then (Throws Runtime_error, l)
                    else lite_start written (Fin (of_int startingRampSpeed)) startingVelocity dirPin pwmPin l)))"

section \<open>Two direction pins\<close>

record vhn2_motor =
  PinA :: gpio_object
  PinB :: gpio_object
  vPulsePin :: pwm_object
  vline :: serial_port

definition on_PinA :: "(gpio_object \<Rightarrow> serial_port \<Rightarrow> gpio_object \<times> serial_port \<times> exn option) \<Rightarrow> (vhn2_motor, unit) op" where
  "on_PinA f m = carried (\<lambda>p l. m\<lparr>PinA := p, vline := l\<rparr>) (f (PinA m) (vline m))"

definition on_PinB :: "(gpio_object \<Rightarrow> serial_port \<Rightarrow> gpio_object \<times> serial_port \<times> exn option) \<Rightarrow> (vhn2_motor, unit) op" where
  "on_PinB f m = carried (\<lambda>p l. m\<lparr>PinB := p, vline := l\<rparr>) (f (PinB m) (vline m))"

definition on_vPulsePin :: "(pwm_object \<Rightarrow> serial_port \<Rightarrow> pwm_object \<times> serial_port \<times> exn option) \<Rightarrow> (vhn2_motor, unit) op" where
  "on_vPulsePin f m = carried (\<lambda>p l. m\<lparr>vPulsePin := p, vline := l\<rparr>) (f (vPulsePin m) (vline m))"

definition vhn2_GetVelocity :: "vhn2_motor \<Rightarrow> cfloat" where
  "vhn2_GetVelocity m = (let velocityMag = po_LastReportedValue (vPulsePin m) in
     if gp_Value (PinA m) = High then velocityMag else f_mul (Fin (- 1)) velocityMag)"

definition vhn2_directions :: "kernel_write \<Rightarrow> GpioValue \<Rightarrow> GpioValue \<Rightarrow> (vhn2_motor, unit) op" where
  "vhn2_directions written a b = and_then (on_PinA (gpio_SetValue written a)) (\<lambda>_. on_PinB (gpio_SetValue written b))"

definition vhn2_SetVelocity :: "kernel_write \<Rightarrow> cfloat \<Rightarrow> (vhn2_motor, unit) op" where
  "vhn2_SetVelocity written velocity m =
     (if outside_velocity velocity then (Throws Runtime_error, m)
      else if f_less velocity (Fin 0)
        then and_then (vhn2_directions written Low High) (\<lambda>_. on_vPulsePin (pwm_SetValue written (f_mul velocity (Fin (- 1))))) m
      else if f_less (Fin 0) velocity
        then and_then (vhn2_directions written High Low) (\<lambda>_. on_vPulsePin (pwm_SetValue written velocity)) m
      else and_then (vhn2_directions written Low Low) (\<lambda>_. on_vPulsePin (pwm_SetValue written velocity)) m)"

definition vhn2_GetRampSpeed :: "vhn2_motor \<Rightarrow> cfloat" where
  "vhn2_GetRampSpeed m = po_LastReportedRampSpeed (vPulsePin m)"

definition vhn2_SetRampSpeed :: "kernel_write \<Rightarrow> cfloat \<Rightarrow> (vhn2_motor, unit) op" where
  "vhn2_SetRampSpeed written speed m =
     (if f_zero speed then (Throws Runtime_error, m) else on_vPulsePin (pwm_SetRampSpeed written speed) m)"

definition vhn2_start ::
    "kernel_write \<Rightarrow> cfloat \<Rightarrow> cfloat \<Rightarrow> string \<Rightarrow> string \<Rightarrow> string \<Rightarrow> serial_port \<Rightarrow> vhn2_motor run \<times> serial_port" where
  "vhn2_start written ramp velocity gpioA gpioB pwmPin l =
     (case from_name (\<lambda>n. gpio_constructor written n Output Low) gpioA l of
        (Inl e, l1) \<Rightarrow> (Throws e, l1)
      | (Inr a, l1) \<Rightarrow> (case from_name (\<lambda>n. gpio_constructor written n Input High) gpioB l1 of
            (Inl e, l2) \<Rightarrow> (Throws e, l2)
          | (Inr b, l2) \<Rightarrow> (case from_name (\<lambda>n. pwm_constructor written n (Fin (- 1)) (Fin 0)) pwmPin l2 of
                (Inl e, l3) \<Rightarrow> (Throws e, l3)
              | (Inr pulse, l3) \<Rightarrow> built vline (and_then (vhn2_SetRampSpeed written ramp)
                  (\<lambda>_. vhn2_SetVelocity written velocity) \<lparr>PinA = a, PinB = b, vPulsePin = pulse, vline = l3\<rparr>))))"

definition vhn2_constructor ::
    "kernel_write \<Rightarrow> cfloat \<Rightarrow> cfloat \<Rightarrow> string \<Rightarrow> string \<Rightarrow> string \<Rightarrow> serial_port \<Rightarrow> vhn2_motor run \<times> serial_port" where
  "vhn2_constructor written startingRampSpeed startingVelocity gpioAName gpioBName pwmPinName l =
     (if outside_velocity startingVelocity then (Throws Runtime_error, l)
      else if f_zero startingRampSpeed then (Throws Runtime_error, l)
      else vhn2_start written startingRampSpeed startingVelocity gpioAName gpioBName pwmPinName l)"

definition vhn2_config_constructor :: "kernel_write \<Rightarrow> configuration \<Rightarrow> serial_port \<Rightarrow> vhn2_motor run \<times> serial_port" where
  "vhn2_config_constructor written config l =
     (let (velocity_given, configVelocity) = GetConfigurationData config ''Velocity'';
          (ramp_given, configRamp) = GetConfigurationData config ''RampSpeed'';
          (a_given, gpioA) = GetConfigurationData config ''GPIOA'';
          (b_given, gpioB) = GetConfigurationData config ''GPIOB'';
          (pwm_given, pwmPin) = GetConfigurationData config ''PWMPin'' in
      if \<not> velocity_given \<or> \<not> ramp_given \<or> \<not> a_given \<or> \<not> b_given \<or> \<not> pwm_given then (Throws Runtime_error, l)
      else case stod configVelocity of
          Inl e \<Rightarrow> (Throws Runtime_error, l)
        | Inr startingVelocity \<Rightarrow>
            (if outside_velocity startingVelocity then (Throws Runtime_error, l)
             else case stoi configRamp of
                 Inl e \<Rightarrow> (Undefined, l)
               | Inr startingRampSpeed \<Rightarrow>
                   (if startingRampSpeed = 0 then (Throws Runtime_error, l)
                    else vhn2_start written (Fin (of_int startingRampSpeed)) startingVelocity gpioA gpioB pwmPin l)))"

section \<open>Lines to the firmware\<close>

text \<open>The firmware between two lines.\<close>

definition between_lines :: "board \<Rightarrow> daemon \<Rightarrow> bool" where
  "between_lines b d \<longleftrightarrow> daemon_inv b d \<and> RxBufPtr d = 0"

lemma SetState_line:
  assumes "accepts_all written" and "0 \<le> SerialPortFd l" and "length m \<le> 1000"
  shows "SetState written (Inr m) l = (l\<lparr>tx_line := tx_line l @ m\<rparr>, None)"
  using SendMessage_accepted [OF assms(1,2), of m] assms(3) by (simp add: SetState_def)

text \<open>The line that states the settings of a pin.\<close>

definition gpio_setting :: "int \<Rightarrow> gpio_object \<Rightarrow> string" where
  "gpio_setting i obj = gpio_command i (case gp_StagingDirection obj of Input \<Rightarrow> ''In'' | Output \<Rightarrow> ''Out'')
     (case gp_StagingValue obj of High \<Rightarrow> ''Hi'' | Low \<Rightarrow> ''Low'') @ [NL]"

definition pwm_setting :: "int \<Rightarrow> pwm_object \<Rightarrow> string" where
  "pwm_setting j obj = pwm_command j (to_string (po_StagingValue obj)) (to_string (po_StagingRampSpeed obj)) @ [NL]"

lemma gpio_line:
  assumes "name_text (gp_Name obj) = ''GPIO'' @ fmt_d i" and "22 \<le> i" "i \<le> 53"
  shows "gpio_StateToMessage obj = Inr (gpio_setting i obj)" and "length (gpio_setting i obj) \<le> 1000"
proof -
  have "real_peripheral (gp_Name obj)" using assms(1) by (intro name_text_real) simp
  from gpio_message_eq [OF this] show "gpio_StateToMessage obj = Inr (gpio_setting i obj)"
    by (simp add: assms(1) gpio_setting_def gpio_command_def split: GpioValue.split)
  show "length (gpio_setting i obj) \<le> 1000"
    using digits10_len2 [of i] assms(2,3)
    by (simp add: gpio_setting_def gpio_command_def split: GpioValue.split GpioDirection.split)
qed

lemma pwm_line:
  assumes "name_text (po_Name obj) = ''PWM'' @ fmt_d j" and "2 \<le> j" "j \<le> 13"
    and "po_StagingValue obj = Fin x" "0 \<le> x" "x \<le> 100" and "moderate (po_StagingRampSpeed obj)"
  shows "pwm_StateToMessage obj = Inr (pwm_setting j obj)" and "length (pwm_setting j obj) \<le> 1000"
proof -
  have "real_peripheral (po_Name obj)" using assms(1) by (intro name_text_real) simp
  from pwm_message_eq [OF this] show "pwm_StateToMessage obj = Inr (pwm_setting j obj)"
    by (simp add: assms(1) pwm_setting_def pwm_command_def)
  show "length (pwm_setting j obj) \<le> 1000"
    using number_fields_to_string [OF assms(5-7)] length_digits10_le [of j 1] assms(2-4)
    by (simp add: pwm_setting_def pwm_command_def number_fields_def)
qed

lemma between_lines_step:
  assumes "between_lines b d" and "forM cs (recv_char b ms) d = Some d'" and "RxBufPtr d' = 0"
  shows "between_lines b d'"
  using forM_preserves [where P = "daemon_inv b", OF assms(2)] assms(1,3) recv_char_inv
  by (auto simp: between_lines_def)

lemma recv_gpio_setting:
  assumes "between_lines b d" and i: "22 \<le> i" "i \<le> 53"
  shows "\<exists>d'. forM (gpio_setting i obj) (recv_char b ms) d = Some d' \<and> between_lines b d' \<and> PwmPins d' = PwmPins d \<and>
    GpioPins d' = (GpioPins d)[nat (i - 22) := (GpioPins d ! nat (i - 22))
      \<lparr>g_Direction := (case gp_StagingDirection obj of Input \<Rightarrow> INPUT b | Output \<Rightarrow> OUTPUT b),
       g_Value := (case gp_StagingValue obj of High \<Rightarrow> HIGH b | Low \<Rightarrow> LOW b)\<rparr>]"
proof -
  define D where "D = (case gp_StagingDirection obj of Input \<Rightarrow> ''In'' | Output \<Rightarrow> ''Out'')"
  define V where "V = (case gp_StagingValue obj of High \<Rightarrow> ''Hi'' | Low \<Rightarrow> ''Low'')"
  define dir where "dir = (case gp_StagingDirection obj of Input \<Rightarrow> INPUT b | Output \<Rightarrow> OUTPUT b)"
  define v where "v = (case gp_StagingValue obj of High \<Rightarrow> HIGH b | Low \<Rightarrow> LOW b)"
  have D: "(D, dir) \<in> {(''In'', INPUT b), (''Out'', OUTPUT b)}" and V: "(V, v) \<in> {(''Hi'', HIGH b), (''Low'', LOW b)}"
    by (simp_all add: D_def dir_def V_def v_def split: GpioDirection.split GpioValue.split)
  have ready: "daemon_inv b d" "RxBufPtr d = 0" using assms(1) by (simp_all add: between_lines_def)
  have me: "gpio_setting i obj = gpio_command i D V @ [NL]" by (simp add: gpio_setting_def D_def V_def)
  obtain r pin ev where set: "GpioPin_Set b (GpioPins d ! nat (i - 22)) dir v = (r, pin, ev)" by (metis prod_cases3)
  then have pin: "pin = (GpioPins d ! nat (i - 22))\<lparr>g_Direction := dir, g_Value := v\<rparr>" by (simp add: GpioPin_Set_def)
  obtain rx where "forM (gpio_setting i obj) (recv_char b ms) d =
      Some ((drive ev (d\<lparr>RxBuf := rx, GpioPins := (GpioPins d)[nat (i - 22) := pin]\<rparr>))\<lparr>RxBufPtr := 0\<rparr>)" (is "_ = Some ?d'")
    using recv_gpio_line [OF ready i D V set, where ms = ms] unfolding me by blast
  moreover from this between_lines_step [OF assms(1) this] have "between_lines b ?d'" by simp
  ultimately show ?thesis by (intro exI [of _ ?d']) (simp add: drive_def pin dir_def v_def)
qed

lemma recv_pwm_setting:
  assumes "between_lines b d" and j: "2 \<le> j" "j \<le> 13"
    and "po_StagingValue obj = Fin x" "0 \<le> x" "x \<le> 100" and "moderate (po_StagingRampSpeed obj)"
  shows "\<exists>d' pin. forM (pwm_setting j obj) (recv_char b ms) d = Some d' \<and> between_lines b d' \<and> GpioPins d' = GpioPins d \<and>
    PwmPins d' = (PwmPins d)[nat (j - 2) := pin] \<and> p_SetPoint pin = f_cast round32 (strtod (to_string (Fin x)))"
proof -
  let ?V = "to_string (Fin x)" and ?R = "to_string (po_StagingRampSpeed obj)"
  let ?p = "(PwmPins d ! nat (j - 2))\<lparr>p_SetPoint := f_cast round32 (strtod ?V), p_RampSpeed := f_cast round32 (strtod ?R)\<rparr>"
  have ready: "daemon_inv b d" "RxBufPtr d = 0" using assms(1) by (simp_all add: between_lines_def)
  have me: "pwm_setting j obj = pwm_command j ?V ?R @ [NL]" by (simp add: pwm_setting_def assms(4))
  obtain r pin ev where set: "PwmPin_Set ?p = (r, pin, ev)" by (metis prod_cases3)
  then have pin: "p_SetPoint pin = f_cast round32 (strtod ?V)" by (auto simp: PwmPin_Set_def Let_def split: if_splits)
  obtain rx where "forM (pwm_setting j obj) (recv_char b ms) d =
      Some ((drive ev (d\<lparr>RxBuf := rx, PwmPins := (PwmPins d)[nat (j - 2) := pin]\<rparr>))\<lparr>RxBufPtr := 0\<rparr>)" (is "_ = Some ?d'")
    using recv_pwm_line [OF ready j number_fields_to_string [OF assms(5-7)] set, where ms = ms] unfolding me by blast
  moreover from this between_lines_step [OF assms(1) this] have "between_lines b ?d'" by simp
  ultimately show ?thesis using pin by (intro exI [of _ ?d'] exI [of _ pin]) (simp add: drive_def)
qed

text \<open>Six decimals and single precision.\<close>

lemma set_point_near:
  assumes "0 \<le> x" and "x \<le> 100"
  shows "\<exists>\<rho>. f_cast round32 (strtod (to_string (Fin x))) = Fin \<rho> \<and> \<bar>\<rho> - x\<bar> \<le> 1 / 10 ^ 4"
proof -
  define k where "k = round_half_even (x * 10 ^ 6)"
  have k0: "0 \<le> k" unfolding k_def using assms by (intro round_half_even_nonneg) simp
  have k1: "k \<le> 100000000" unfolding k_def using assms by (intro round_half_even_mono_int) simp
  have near: "x * 1000000 - 1 / 2 \<le> of_int k" "of_int k \<le> x * 1000000 + 1 / 2"
    using round_half_even_bounds [of "x * 10 ^ 6"] by (simp_all add: k_def)
  have t: "strtod (to_string (Fin x)) = round64 (of_int k / 10 ^ 6)"
    using assms strtod_fixed [OF k0, of 6] by (simp add: to_string_def fmt_fixed_def k_def)
  show ?thesis
  proof (cases "k = 0")
    case True
    then have "f_cast round32 (strtod (to_string (Fin x))) = Fin 0" by (simp add: t fround_def f_cast_def)
    with near True assms show ?thesis by (intro exI [of _ 0]) simp
  next
    case False
    define y :: rat where "y = of_int k / 10 ^ 6"
    have "(of_int 1 :: rat) \<le> of_int k" "of_int k \<le> (of_int 100000000 :: rat)"
      using False k0 k1 by (simp_all only: of_int_le_iff)
    then have y: "1 / 1000000 \<le> y" "y \<le> 100" by (simp_all add: y_def)
    have "pow2 (- 125) \<le> y" using y(1) pow2_le [of "- 125" "- 20"] by (simp add: pow2_def [of "- 20"])
    moreover have "y < pow2 100" using y(2) pow2_le [of 7 100] by (simp add: pow2_def [of 7])
    ultimately obtain \<rho> where \<rho>: "f_cast round32 (round64 y) = Fin \<rho>" "\<bar>\<rho> - y\<bar> \<le> y * pow2 (- 23)"
      by (rule double_to_single)
    have "y * pow2 (- 23) \<le> 100 * pow2 (- 23)" using y(2) by (intro mult_right_mono) (simp_all add: less_imp_le)
    also have "\<dots> \<le> 1 / 50000" by (simp add: pow2_def)
    finally have "\<bar>\<rho> - y\<bar> \<le> 1 / 50000" using \<rho>(2) by linarith
    moreover have "\<bar>y - x\<bar> \<le> 1 / 1000000" using near by (simp add: y_def abs_le_iff field_simps)
    ultimately have "\<bar>\<rho> - x\<bar> \<le> 1 / 10000" by linarith
    with \<rho>(1) show ?thesis by (simp add: t y_def)
  qed
qed

section \<open>Calls on a motor\<close>

datatype motor_call = Velocity cfloat | Ramp cfloat

definition allowed_call :: "motor_call \<Rightarrow> bool" where
  "allowed_call c \<longleftrightarrow> (case c of Velocity v \<Rightarrow> outside_velocity v \<or> moderate v \<and> is_double v | Ramp r \<Rightarrow> moderate r)"

text \<open>What a sequence of calls leaves, some of which may throw.\<close>

definition motor_calls :: "(cfloat \<Rightarrow> ('m, unit) op) \<Rightarrow> (cfloat \<Rightarrow> ('m, unit) op) \<Rightarrow> motor_call list \<Rightarrow> 'm \<Rightarrow> 'm" where
  "motor_calls set_velocity set_ramp =
     fold (\<lambda>c m. case c of Velocity v \<Rightarrow> snd (set_velocity v m) | Ramp r \<Rightarrow> snd (set_ramp r m))"

text \<open>
  The interface \<open>IMotor\<close>: a velocity out of range is refused and changes nothing, and no call
  leaves the states \<open>ok\<close> in which the motor keeps its promises.
\<close>

locale i_motor =
  fixes ok :: "'m \<Rightarrow> bool" and set_velocity :: "cfloat \<Rightarrow> ('m, unit) op" and set_ramp :: "cfloat \<Rightarrow> ('m, unit) op"
  assumes velocity_refused: "outside_velocity v \<Longrightarrow> set_velocity v m = (Throws Runtime_error, m)"
    and velocity_ok: "ok m \<Longrightarrow> moderate v \<Longrightarrow> is_double v \<Longrightarrow> ok (snd (set_velocity v m))"
    and ramp_ok: "ok m \<Longrightarrow> moderate r \<Longrightarrow> ok (snd (set_ramp r m))"
begin

lemma calls_ok: "ok m \<Longrightarrow> list_all allowed_call cs \<Longrightarrow> ok (motor_calls set_velocity set_ramp cs m)"
proof (induction cs arbitrary: m)
  case (Cons c cs)
  have "ok (case c of Velocity v \<Rightarrow> snd (set_velocity v m) | Ramp r \<Rightarrow> snd (set_ramp r m))"
    using Cons.prems by (auto simp: allowed_call_def velocity_refused velocity_ok ramp_ok split: motor_call.splits)
  with Cons show ?case by (simp add: motor_calls_def)
qed (simp add: motor_calls_def)

end

section \<open>\<open>LiteMotor\<close>\<close>

definition pulse_ok :: "int \<Rightarrow> pwm_object \<Rightarrow> bool" where
  "pulse_ok j obj \<longleftrightarrow> 2 \<le> j \<and> j \<le> 13 \<and> name_text (po_Name obj) = ''PWM'' @ fmt_d j \<and> moderate (po_StagingRampSpeed obj) \<and>
     (\<exists>x. po_StagingValue obj = Fin x \<and> 0 \<le> x \<and> x \<le> 100)"

definition lite_ok :: "int \<Rightarrow> int \<Rightarrow> lite_motor \<Rightarrow> bool" where
  "lite_ok i j m \<longleftrightarrow> 22 \<le> i \<and> i \<le> 53 \<and> name_text (gp_Name (DirPin m)) = ''GPIO'' @ fmt_d i \<and> gp_StagingDirection (DirPin m) = Output \<and>
     pulse_ok j (PulsePin m) \<and> 0 \<le> SerialPortFd (line m)"

lemma pulse_SetValue:
  assumes "accepts_all written" and "0 \<le> SerialPortFd l" and "pulse_ok j obj" and "0 \<le> x" "x \<le> 100"
  defines "obj' \<equiv> obj\<lparr>po_StagingValue := Fin x\<rparr>"
  shows "pwm_SetValue written (Fin x) obj l = (obj', l\<lparr>tx_line := tx_line l @ pwm_setting j obj'\<rparr>, None)" and "pulse_ok j obj'"
proof -
  show ok: "pulse_ok j obj'" using assms(3-5) by (simp add: pulse_ok_def obj'_def)
  have "pwm_StateToMessage obj' = Inr (pwm_setting j obj')" "length (pwm_setting j obj') \<le> 1000"
    using pwm_line [of obj' j x] ok assms(4,5) by (simp_all add: pulse_ok_def obj'_def)
  with SetState_line [OF assms(1,2)] show "pwm_SetValue written (Fin x) obj l = (obj', l\<lparr>tx_line := tx_line l @ pwm_setting j obj'\<rparr>, None)"
    using assms(4,5) by (simp add: pwm_SetValue_def outside_percent_def Let_def flip: obj'_def)
qed

lemma gpio_SetValue_line:
  fixes v :: GpioValue
  assumes "accepts_all written" and "0 \<le> SerialPortFd l" and "name_text (gp_Name obj) = ''GPIO'' @ fmt_d i" and "22 \<le> i" "i \<le> 53"
  defines "obj' \<equiv> obj\<lparr>gp_StagingValue := v\<rparr>"
  shows "gpio_SetValue written v obj l = (obj', l\<lparr>tx_line := tx_line l @ gpio_setting i obj'\<rparr>, None)"
  using gpio_line [of obj' i] SetState_line [OF assms(1,2)] assms(3-5)
  by (simp add: gpio_SetValue_def Let_def flip: obj'_def) (simp add: obj'_def)

text \<open>A velocity: the direction first unless the motor is to stop, then the power.\<close>

definition velocity_in :: "rat \<Rightarrow> bool" where
  "velocity_in x \<longleftrightarrow> \<bar>x\<bar> \<le> 100 \<and> is_double (Fin x)"

lemma velocity_cases:
  assumes "velocity_in x"
  shows "\<not> outside_velocity (Fin x)" and "f_mul (Fin x) (Fin (- 1)) = Fin (- x)"
proof -
  show "\<not> outside_velocity (Fin x)" using assms by (auto simp: outside_velocity_def velocity_in_def)
  have "round64 (- x) = Fin (- x)" using assms fround_uminus [of 53 "- 1022" 1023 x] by (simp add: velocity_in_def is_double_def)
  then show "f_mul (Fin x) (Fin (- 1)) = Fin (- x)" by (simp add: f_mul_def)
qed

definition lite_after :: "int \<Rightarrow> int \<Rightarrow> rat \<Rightarrow> lite_motor \<Rightarrow> lite_motor" where
  "lite_after i j x m =
     (let dir = (if x = 0 then DirPin m else (DirPin m)\<lparr>gp_StagingValue := (if x < 0 then Low else High)\<rparr>);
          pulse = (PulsePin m)\<lparr>po_StagingValue := Fin \<bar>x\<bar>\<rparr>
      in m\<lparr>DirPin := dir, PulsePin := pulse,
        line := (line m)\<lparr>tx_line := tx_line (line m) @ (if x = 0 then [] else gpio_setting i dir) @ pwm_setting j pulse\<rparr>\<rparr>)"

lemma lite_SetVelocity_eq:
  assumes "lite_ok i j m" and "accepts_all written" and "velocity_in x"
  shows "lite_SetVelocity written (Fin x) m = (Returns (), lite_after i j x m)" and "lite_ok i j (lite_after i j x m)"
proof -
  have x: "\<bar>x\<bar> \<le> 100" using assms(3) by (simp add: velocity_in_def)
  have ok: "name_text (gp_Name (DirPin m)) = ''GPIO'' @ fmt_d i" "gp_StagingDirection (DirPin m) = Output" "pulse_ok j (PulsePin m)"
    "0 \<le> SerialPortFd (line m)" and i: "22 \<le> i" "i \<le> 53" using assms(1) by (simp_all add: lite_ok_def)
  note g = gpio_SetValue_line [OF assms(2) _ _ i] and p = pulse_SetValue [OF assms(2)]
  show "lite_SetVelocity written (Fin x) m = (Returns (), lite_after i j x m)"
  proof (cases "x = 0")
    case True
    then show ?thesis using p(1) [of "line m" j "PulsePin m" 0] ok velocity_cases [OF assms(3)]
      by (simp add: lite_SetVelocity_def on_PulsePin_def carried_def lite_after_def Let_def)
  next
    case False
    then show ?thesis
      using g [of "line m" "DirPin m"] p(1) [of "(line m)\<lparr>tx_line := tx_line (line m) @ t\<rparr>" j "PulsePin m" "\<bar>x\<bar>" for t]
        ok velocity_cases [OF assms(3)] x
      by (cases "x < 0") (simp_all add: lite_SetVelocity_def on_DirPin_def on_PulsePin_def carried_def lite_after_def Let_def)
  qed
  show "lite_ok i j (lite_after i j x m)"
    using ok i p(2) [of "line m" j "PulsePin m" "\<bar>x\<bar>"] x by (simp add: lite_ok_def lite_after_def Let_def)
qed

lemma outside_refused: "outside_velocity v \<Longrightarrow> lite_SetVelocity written v m = (Throws Runtime_error, m)"
  by (simp add: lite_SetVelocity_def)

lemma moderate_in: "moderate v \<Longrightarrow> is_double v \<Longrightarrow> \<exists>x. v = Fin x \<and> velocity_in x"
  by (auto simp: moderate_def velocity_in_def)

lemma pulse_SetRampSpeed:
  assumes "accepts_all written" and "0 \<le> SerialPortFd l" and "pulse_ok j obj" and "moderate r" and "\<not> f_zero r"
  defines "obj' \<equiv> obj\<lparr>po_StagingRampSpeed := r\<rparr>"
  shows "pwm_SetRampSpeed written r obj l = (obj', l\<lparr>tx_line := tx_line l @ pwm_setting j obj'\<rparr>, None)" and "pulse_ok j obj'"
proof -
  show ok: "pulse_ok j obj'" using assms(3,4) by (simp add: pulse_ok_def obj'_def)
  then obtain x where x: "po_StagingValue obj' = Fin x" "0 \<le> x" "x \<le> 100" by (auto simp: pulse_ok_def)
  then have "pwm_StateToMessage obj' = Inr (pwm_setting j obj')" "length (pwm_setting j obj') \<le> 1000"
    using pwm_line [of obj' j x] ok by (simp_all add: pulse_ok_def)
  with SetState_line [OF assms(1,2)] show "pwm_SetRampSpeed written r obj l = (obj', l\<lparr>tx_line := tx_line l @ pwm_setting j obj'\<rparr>, None)"
    using assms(5) by (simp add: pwm_SetRampSpeed_def Let_def flip: obj'_def)
qed

lemma lite_SetRampSpeed_ok:
  assumes "lite_ok i j m" and "accepts_all written" and "moderate r"
  shows "lite_ok i j (snd (lite_SetRampSpeed written r m))" and "\<not> f_zero r \<Longrightarrow> fst (lite_SetRampSpeed written r m) = Returns ()"
  using assms(1) pulse_SetRampSpeed [OF assms(2) _ _ assms(3), of "line m" j "PulsePin m"]
  by (auto simp: lite_ok_def lite_SetRampSpeed_def on_PulsePin_def carried_def)

interpretation lite_motor: i_motor "\<lambda>m. lite_ok i j m \<and> accepts_all written" "lite_SetVelocity written" "lite_SetRampSpeed written"
  for i j written
proof unfold_locales
  fix v m assume "lite_ok i j m \<and> accepts_all written" "moderate v" "is_double v"
  with moderate_in [of v] lite_SetVelocity_eq [of i j m written]
  show "lite_ok i j (snd (lite_SetVelocity written v m)) \<and> accepts_all written" by auto
qed (simp_all add: outside_refused lite_SetRampSpeed_ok)

text \<open>The constructor leaves the motor ready.\<close>

lemma gpio_constructed:
  assumes "accepts_all written" and "0 \<le> SerialPortFd l" and "StringToPeripheralName name = Inr p"
    and "name_text p = ''GPIO'' @ fmt_d i" and "22 \<le> i" "i \<le> 53"
  shows "\<exists>obj l'. from_name (\<lambda>n. gpio_constructor written n dir v) name l = (Inr obj, l') \<and> gp_Name obj = p \<and>
     gp_StagingDirection obj = dir \<and> gp_StagingValue obj = v \<and> l' = l\<lparr>tx_line := tx_line l @ gpio_setting i obj\<rparr>"
proof -
  define obj where "obj = \<lparr>gp_Name = p, gp_Direction = (if dir = Input then Output else Input),
    gp_Value = (if v = High then Low else High), gp_StagingDirection = dir, gp_StagingValue = v\<rparr>"
  have "gpio_StateToMessage obj = Inr (gpio_setting i obj)" "length (gpio_setting i obj) \<le> 1000"
    using gpio_line [of obj i] assms(4-6) by (simp_all add: obj_def)
  then show ?thesis using SetState_line [OF assms(1,2)] assms(3)
    by (intro exI [of _ obj] exI) (simp add: from_name_def gpio_constructor_def construct_def flip: obj_def, simp add: obj_def)
qed

lemma pwm_constructed:
  assumes "accepts_all written" and "0 \<le> SerialPortFd l" and "StringToPeripheralName name = Inr p"
    and "name_text p = ''PWM'' @ fmt_d j" and "2 \<le> j" "j \<le> 13"
  shows "\<exists>obj l'. from_name (\<lambda>n. pwm_constructor written n (Fin (- 1)) (Fin 0)) name l = (Inr obj, l') \<and> pulse_ok j obj \<and>
     l' = l\<lparr>tx_line := tx_line l @ pwm_setting j obj\<rparr>"
proof -
  define obj where "obj = \<lparr>po_Name = p, po_StagingRampSpeed = Fin (- 1), po_StagingValue = Fin 0,
    po_LastReportedRampSpeed = Fin (- 1), po_LastReportedValue = Fin (- 1)\<rparr>"
  have ok: "pulse_ok j obj" using assms(4-6) by (simp add: pulse_ok_def obj_def moderate_def)
  have "pwm_StateToMessage obj = Inr (pwm_setting j obj)" "length (pwm_setting j obj) \<le> 1000"
    using pwm_line [of obj j 0] assms(4-6) by (simp_all add: obj_def moderate_def)
  moreover have "\<not> outside_percent (Fin 0)" by (simp add: outside_percent_def)
  ultimately show ?thesis using SetState_line [OF assms(1,2)] assms(3) ok
    by (intro exI [of _ obj] exI) (simp add: from_name_def pwm_constructor_def construct_def flip: obj_def)
qed

lemma built_returns: "built the_line r = (Returns m, l) \<longleftrightarrow> r = (Returns (), m) \<and> l = the_line m"
  by (cases r; cases "fst r") (auto simp: built_def)

lemma lite_constructor_ok:
  assumes "accepts_all written" and "0 \<le> SerialPortFd l" and "moderate ramp" "\<not> f_zero ramp" and "velocity_in x"
    and "StringToPeripheralName dirName = Inr p" and "name_text p = ''GPIO'' @ fmt_d i" and "22 \<le> i" "i \<le> 53"
    and "StringToPeripheralName pwmName = Inr q" and "name_text q = ''PWM'' @ fmt_d j" and "2 \<le> j" "j \<le> 13"
  shows "\<exists>m l'. lite_constructor written ramp (Fin x) dirName pwmName l = (Returns m, l') \<and> lite_ok i j m"
proof -
  obtain dir l1 where dir: "from_name (\<lambda>n. gpio_constructor written n Output Low) dirName l = (Inr dir, l1)"
    "gp_Name dir = p" "gp_StagingDirection dir = Output" "SerialPortFd l1 = SerialPortFd l"
    using gpio_constructed [OF assms(1,2,6-9), of Output Low] by auto
  have "0 \<le> SerialPortFd l1" using assms(2) dir(4) by simp
  from pwm_constructed [OF assms(1) this assms(10-13)] obtain pulse l2 where
    pulse: "from_name (\<lambda>n. pwm_constructor written n (Fin (- 1)) (Fin 0)) pwmName l1 = (Inr pulse, l2)"
    "pulse_ok j pulse" "SerialPortFd l2 = SerialPortFd l1" by auto
  let ?m = "\<lparr>DirPin = dir, PulsePin = pulse, line = l2\<rparr>"
  have ok: "lite_ok i j ?m" using assms(2,7-9) dir(2-4) pulse(2,3) by (simp add: lite_ok_def)
  obtain m1 where m1: "lite_SetRampSpeed written ramp ?m = (Returns (), m1)" "lite_ok i j m1"
    using lite_SetRampSpeed_ok [OF ok assms(1,3)] assms(4) by (cases "lite_SetRampSpeed written ramp ?m") auto
  show ?thesis
    using dir(1) pulse(1) m1(1) lite_SetVelocity_eq [OF m1(2) assms(1,5)] velocity_cases(1) [OF assms(5)] assms(4)
    by (simp add: lite_constructor_def lite_start_def built_def)
qed

section \<open>\<open>VHN2Motor\<close>\<close>

definition vhn2_ok :: "int \<Rightarrow> int \<Rightarrow> int \<Rightarrow> vhn2_motor \<Rightarrow> bool" where
  "vhn2_ok i k j m \<longleftrightarrow> 22 \<le> i \<and> i \<le> 53 \<and> 22 \<le> k \<and> k \<le> 53 \<and>
     name_text (gp_Name (PinA m)) = ''GPIO'' @ fmt_d i \<and> gp_StagingDirection (PinA m) = Output \<and>
     name_text (gp_Name (PinB m)) = ''GPIO'' @ fmt_d k \<and> gp_StagingDirection (PinB m) = Input \<and>
     pulse_ok j (vPulsePin m) \<and> 0 \<le> SerialPortFd (vline m)"

definition vhn2_after :: "int \<Rightarrow> int \<Rightarrow> int \<Rightarrow> rat \<Rightarrow> vhn2_motor \<Rightarrow> vhn2_motor" where
  "vhn2_after i k j x m =
     (let a = (PinA m)\<lparr>gp_StagingValue := (if 0 < x then High else Low)\<rparr>;
          b = (PinB m)\<lparr>gp_StagingValue := (if x < 0 then High else Low)\<rparr>;
          pulse = (vPulsePin m)\<lparr>po_StagingValue := Fin \<bar>x\<bar>\<rparr>
      in m\<lparr>PinA := a, PinB := b, vPulsePin := pulse,
        vline := (vline m)\<lparr>tx_line := tx_line (vline m) @ gpio_setting i a @ gpio_setting k b @ pwm_setting j pulse\<rparr>\<rparr>)"

lemma vhn2_directions_eq:
  assumes "vhn2_ok i k j m" and "accepts_all written"
  shows "vhn2_directions written a b m = (Returns (), m\<lparr>PinA := (PinA m)\<lparr>gp_StagingValue := a\<rparr>, PinB := (PinB m)\<lparr>gp_StagingValue := b\<rparr>,
    vline := (vline m)\<lparr>tx_line := tx_line (vline m) @ gpio_setting i ((PinA m)\<lparr>gp_StagingValue := a\<rparr>) @
      gpio_setting k ((PinB m)\<lparr>gp_StagingValue := b\<rparr>)\<rparr>\<rparr>)"
  using assms(1) gpio_SetValue_line [OF assms(2), of "vline m" "PinA m" i a]
    gpio_SetValue_line [OF assms(2), of "(vline m)\<lparr>tx_line := tx_line (vline m) @ gpio_setting i ((PinA m)\<lparr>gp_StagingValue := a\<rparr>)\<rparr>" "PinB m" k b]
  by (simp add: vhn2_ok_def vhn2_directions_def on_PinA_def on_PinB_def carried_def)

lemma vhn2_SetVelocity_eq:
  assumes "vhn2_ok i k j m" and "accepts_all written" and "velocity_in x"
  shows "vhn2_SetVelocity written (Fin x) m = (Returns (), vhn2_after i k j x m)" and "vhn2_ok i k j (vhn2_after i k j x m)"
proof -
  have x: "\<bar>x\<bar> \<le> 100" using assms(3) by (simp add: velocity_in_def)
  have ok: "pulse_ok j (vPulsePin m)" "0 \<le> SerialPortFd (vline m)" using assms(1) by (simp_all add: vhn2_ok_def)
  note p = pulse_SetValue [OF assms(2)]
  show "vhn2_SetVelocity written (Fin x) m = (Returns (), vhn2_after i k j x m)"
    using vhn2_directions_eq [OF assms(1,2)] velocity_cases [OF assms(3)] x ok
      p(1) [of "(vline m)\<lparr>tx_line := tx_line (vline m) @ t\<rparr>" j "vPulsePin m" "\<bar>x\<bar>" for t]
    by (cases x "0 :: rat" rule: linorder_cases)
      (simp_all add: vhn2_SetVelocity_def on_vPulsePin_def carried_def vhn2_after_def Let_def)
  show "vhn2_ok i k j (vhn2_after i k j x m)"
    using assms(1) ok p(2) [of "vline m" j "vPulsePin m" "\<bar>x\<bar>"] x by (simp add: vhn2_ok_def vhn2_after_def Let_def)
qed

lemma vhn2_SetRampSpeed_ok:
  assumes "vhn2_ok i k j m" and "accepts_all written" and "moderate r"
  shows "vhn2_ok i k j (snd (vhn2_SetRampSpeed written r m))" and "\<not> f_zero r \<Longrightarrow> fst (vhn2_SetRampSpeed written r m) = Returns ()"
  using assms(1) pulse_SetRampSpeed [OF assms(2) _ _ assms(3), of "vline m" j "vPulsePin m"]
  by (auto simp: vhn2_ok_def vhn2_SetRampSpeed_def on_vPulsePin_def carried_def)

interpretation vhn2_motor: i_motor "\<lambda>m. vhn2_ok i k j m \<and> accepts_all written" "vhn2_SetVelocity written" "vhn2_SetRampSpeed written"
  for i k j written
proof unfold_locales
  fix v m assume "vhn2_ok i k j m \<and> accepts_all written" "moderate v" "is_double v"
  with moderate_in [of v] vhn2_SetVelocity_eq [of i k j m written]
  show "vhn2_ok i k j (snd (vhn2_SetVelocity written v m)) \<and> accepts_all written" by auto
qed (simp_all add: vhn2_SetVelocity_def vhn2_SetRampSpeed_ok)

lemma vhn2_constructor_ok:
  assumes "accepts_all written" and "0 \<le> SerialPortFd l" and "moderate ramp" "\<not> f_zero ramp" and "velocity_in x"
    and "StringToPeripheralName aName = Inr p" and "name_text p = ''GPIO'' @ fmt_d i" and "22 \<le> i" "i \<le> 53"
    and "StringToPeripheralName bName = Inr q" and "name_text q = ''GPIO'' @ fmt_d k" and "22 \<le> k" "k \<le> 53"
    and "StringToPeripheralName pwmName = Inr r" and "name_text r = ''PWM'' @ fmt_d j" and "2 \<le> j" "j \<le> 13"
  shows "\<exists>m l'. vhn2_constructor written ramp (Fin x) aName bName pwmName l = (Returns m, l') \<and> vhn2_ok i k j m"
proof -
  obtain a l1 where a: "from_name (\<lambda>n. gpio_constructor written n Output Low) aName l = (Inr a, l1)"
    "gp_Name a = p" "gp_StagingDirection a = Output" "SerialPortFd l1 = SerialPortFd l"
    using gpio_constructed [OF assms(1,2,6-9), of Output Low] by auto
  have l1: "0 \<le> SerialPortFd l1" using assms(2) a(4) by simp
  obtain b l2 where b: "from_name (\<lambda>n. gpio_constructor written n Input High) bName l1 = (Inr b, l2)"
    "gp_Name b = q" "gp_StagingDirection b = Input" "SerialPortFd l2 = SerialPortFd l1"
    using gpio_constructed [OF assms(1) l1 assms(10-13), of Input High] by auto
  have "0 \<le> SerialPortFd l2" using l1 b(4) by simp
  from pwm_constructed [OF assms(1) this assms(14-17)] obtain pulse l3 where
    pulse: "from_name (\<lambda>n. pwm_constructor written n (Fin (- 1)) (Fin 0)) pwmName l2 = (Inr pulse, l3)"
    "pulse_ok j pulse" "SerialPortFd l3 = SerialPortFd l2" by auto
  let ?m = "\<lparr>PinA = a, PinB = b, vPulsePin = pulse, vline = l3\<rparr>"
  have ok: "vhn2_ok i k j ?m" using assms(2,7-9,11-13) a(2-4) b(2-4) pulse(2,3) by (simp add: vhn2_ok_def)
  obtain m1 where m1: "vhn2_SetRampSpeed written ramp ?m = (Returns (), m1)" "vhn2_ok i k j m1"
    using vhn2_SetRampSpeed_ok [OF ok assms(1,3)] assms(4) by (cases "vhn2_SetRampSpeed written ramp ?m") auto
  show ?thesis
    using a(1) b(1) pulse(1) m1(1) vhn2_SetVelocity_eq [OF m1(2) assms(1,5)] velocity_cases(1) [OF assms(5)] assms(4)
    by (simp add: vhn2_constructor_def vhn2_start_def built_def)
qed

section \<open>What the firmware makes of a velocity\<close>

lemma lite_velocity_received:
  assumes "accepts_all written" and ok: "lite_ok i j m" and v: "velocity_in x" and d: "between_lines b d"
  shows "\<exists>m' sent d' \<rho>. lite_SetVelocity written (Fin x) m = (Returns (), m') \<and> tx_line (line m') = tx_line (line m) @ sent \<and>
     forM sent (recv_char b ms) d = Some d' \<and> between_lines b d' \<and>
     (if x = 0 then GpioPins d' = GpioPins d
      else g_Direction (GpioPins d' ! nat (i - 22)) = OUTPUT b \<and>
        g_Value (GpioPins d' ! nat (i - 22)) = (if x < 0 then LOW b else HIGH b)) \<and>
     p_SetPoint (PwmPins d' ! nat (j - 2)) = Fin \<rho> \<and> \<bar>\<rho> - \<bar>x\<bar>\<bar> \<le> 1 / 10 ^ 4"
proof -
  have i: "22 \<le> i" "i \<le> 53" and j: "2 \<le> j" "j \<le> 13" using ok by (simp_all add: lite_ok_def pulse_ok_def)
  let ?dir = "(DirPin m)\<lparr>gp_StagingValue := (if x < 0 then Low else High)\<rparr>" and ?pulse = "(PulsePin m)\<lparr>po_StagingValue := Fin \<bar>x\<bar>\<rparr>"
  define g where "g = (if x = 0 then [] else gpio_setting i ?dir)"
  have x: "0 \<le> \<bar>x\<bar>" "\<bar>x\<bar> \<le> 100" using v by (simp_all add: velocity_in_def)
  have k: "nat (i - 22) < length (GpioPins d)" "nat (j - 2) < length (PwmPins d)"
    using i j d by (auto simp: between_lines_def daemon_inv_def dest!: pins_ok_length)
  have "\<exists>d1. forM g (recv_char b ms) d = Some d1 \<and> between_lines b d1 \<and> PwmPins d1 = PwmPins d \<and>
    (if x = 0 then GpioPins d1 = GpioPins d else g_Direction (GpioPins d1 ! nat (i - 22)) = OUTPUT b \<and>
       g_Value (GpioPins d1 ! nat (i - 22)) = (if x < 0 then LOW b else HIGH b))"
  proof (cases "x = 0")
    case False
    with recv_gpio_setting [OF d i, of ?dir ms] ok k(1) show ?thesis
      by (auto simp: g_def lite_ok_def split: if_splits)
  qed (simp add: g_def d)
  then obtain d1 where d1: "forM g (recv_char b ms) d = Some d1" "between_lines b d1" "PwmPins d1 = PwmPins d"
    "if x = 0 then GpioPins d1 = GpioPins d else g_Direction (GpioPins d1 ! nat (i - 22)) = OUTPUT b \<and>
       g_Value (GpioPins d1 ! nat (i - 22)) = (if x < 0 then LOW b else HIGH b)" by blast
  have "moderate (po_StagingRampSpeed ?pulse)" using ok by (simp add: lite_ok_def pulse_ok_def)
  from recv_pwm_setting [OF d1(2) j _ x this, of ms] obtain d2 pin where
    d2: "forM (pwm_setting j ?pulse) (recv_char b ms) d1 = Some d2" "between_lines b d2" "GpioPins d2 = GpioPins d1"
    "PwmPins d2 = (PwmPins d1)[nat (j - 2) := pin]" "p_SetPoint pin = f_cast round32 (strtod (to_string (Fin \<bar>x\<bar>)))" by auto
  obtain \<rho> where "f_cast round32 (strtod (to_string (Fin \<bar>x\<bar>))) = Fin \<rho>" "\<bar>\<rho> - \<bar>x\<bar>\<bar> \<le> 1 / 10 ^ 4" using set_point_near [OF x] by blast
  moreover have "forM (g @ pwm_setting j ?pulse) (recv_char b ms) d = Some d2" using d1(1) d2(1) by (simp add: forM_append)
  moreover have "tx_line (line (lite_after i j x m)) = tx_line (line m) @ g @ pwm_setting j ?pulse" by (simp add: lite_after_def g_def Let_def)
  ultimately show ?thesis
    using lite_SetVelocity_eq(1) [OF ok assms(1) v] d2(2-5) d1(3,4) k(2)
    by (intro exI conjI) (assumption | simp)+
qed

lemma vhn2_velocity_received:
  assumes "accepts_all written" and ok: "vhn2_ok i k j m" and v: "velocity_in x" and d: "between_lines b d" and "i \<noteq> k"
  shows "\<exists>m' sent d' \<rho>. vhn2_SetVelocity written (Fin x) m = (Returns (), m') \<and> tx_line (vline m') = tx_line (vline m) @ sent \<and>
     forM sent (recv_char b ms) d = Some d' \<and> between_lines b d' \<and>
     g_Direction (GpioPins d' ! nat (i - 22)) = OUTPUT b \<and> g_Direction (GpioPins d' ! nat (k - 22)) = INPUT b \<and>
     p_SetPoint (PwmPins d' ! nat (j - 2)) = Fin \<rho> \<and> \<bar>\<rho> - \<bar>x\<bar>\<bar> \<le> 1 / 10 ^ 4"
proof -
  have i: "22 \<le> i" "i \<le> 53" and k: "22 \<le> k" "k \<le> 53" and j: "2 \<le> j" "j \<le> 13" using ok by (simp_all add: vhn2_ok_def pulse_ok_def)
  let ?a = "(PinA m)\<lparr>gp_StagingValue := (if 0 < x then High else Low)\<rparr>"
    and ?b = "(PinB m)\<lparr>gp_StagingValue := (if x < 0 then High else Low)\<rparr>" and ?pulse = "(vPulsePin m)\<lparr>po_StagingValue := Fin \<bar>x\<bar>\<rparr>"
  have x: "0 \<le> \<bar>x\<bar>" "\<bar>x\<bar> \<le> 100" using v by (simp_all add: velocity_in_def)
  have l: "nat (i - 22) < length (GpioPins d)" "nat (k - 22) < length (GpioPins d)" "nat (j - 2) < length (PwmPins d)"
    using i k j d by (auto simp: between_lines_def daemon_inv_def dest!: pins_ok_length)
  have ne: "nat (i - 22) \<noteq> nat (k - 22)" using i k assms(5) by auto
  obtain d1 where d1: "forM (gpio_setting i ?a) (recv_char b ms) d = Some d1" "between_lines b d1" "PwmPins d1 = PwmPins d"
    "length (GpioPins d1) = length (GpioPins d)" "g_Direction (GpioPins d1 ! nat (i - 22)) = OUTPUT b"
    using recv_gpio_setting [OF d i, of ?a ms] ok l(1) by (auto simp: vhn2_ok_def)
  obtain d2 where d2: "forM (gpio_setting k ?b) (recv_char b ms) d1 = Some d2" "between_lines b d2" "PwmPins d2 = PwmPins d"
    "g_Direction (GpioPins d2 ! nat (i - 22)) = OUTPUT b" "g_Direction (GpioPins d2 ! nat (k - 22)) = INPUT b"
    using recv_gpio_setting [OF d1(2) k, of ?b ms] ok l(2) ne d1(3-5) by (auto simp: vhn2_ok_def)
  have "moderate (po_StagingRampSpeed ?pulse)" using ok by (simp add: vhn2_ok_def pulse_ok_def)
  from recv_pwm_setting [OF d2(2) j _ x this, of ms] obtain d3 pin where
    d3: "forM (pwm_setting j ?pulse) (recv_char b ms) d2 = Some d3" "between_lines b d3" "GpioPins d3 = GpioPins d2"
    "PwmPins d3 = (PwmPins d2)[nat (j - 2) := pin]" "p_SetPoint pin = f_cast round32 (strtod (to_string (Fin \<bar>x\<bar>)))" by auto
  obtain \<rho> where "f_cast round32 (strtod (to_string (Fin \<bar>x\<bar>))) = Fin \<rho>" "\<bar>\<rho> - \<bar>x\<bar>\<bar> \<le> 1 / 10 ^ 4" using set_point_near [OF x] by blast
  moreover have "forM (gpio_setting i ?a @ gpio_setting k ?b @ pwm_setting j ?pulse) (recv_char b ms) d = Some d3"
    using d1(1) d2(1) d3(1) by (simp add: forM_append)
  moreover have "tx_line (vline (vhn2_after i k j x m)) = tx_line (vline m) @ gpio_setting i ?a @ gpio_setting k ?b @ pwm_setting j ?pulse"
    by (simp add: vhn2_after_def Let_def)
  ultimately show ?thesis
    using vhn2_SetVelocity_eq(1) [OF ok assms(1) v] d3(2-5) d2(3-5) l(3) by (intro exI conjI) (assumption | simp)+
qed

section \<open>Properties\<close>

text \<open>C9: a velocity reaches the motor's pins. After the constructor and any calls in
  range, \<open>SetVelocity\<close> returns and sends lines from which the firmware makes the direction pin an output at
  the level of the sign (untouched for 0) and the set point of the power the magnitude, up to
  the rounding to six decimals and single precision.\<close>

theorem lite_motor_end_to_end:
  assumes "accepts_all written" and "0 \<le> SerialPortFd l" and "moderate ramp" "\<not> f_zero ramp" and "velocity_in x0"
    and "StringToPeripheralName dirName = Inr p" and "name_text p = ''GPIO'' @ fmt_d i" and "22 \<le> i" "i \<le> 53"
    and "StringToPeripheralName pwmName = Inr q" and "name_text q = ''PWM'' @ fmt_d j" and "2 \<le> j" "j \<le> 13"
    and "list_all allowed_call cs" and "velocity_in x" and "between_lines b d"
  shows "\<exists>m0 l0 m m' sent d' \<rho>. lite_constructor written ramp (Fin x0) dirName pwmName l = (Returns m0, l0) \<and>
     m = motor_calls (lite_SetVelocity written) (lite_SetRampSpeed written) cs m0 \<and>
     lite_SetVelocity written (Fin x) m = (Returns (), m') \<and> tx_line (line m') = tx_line (line m) @ sent \<and>
     forM sent (recv_char b ms) d = Some d' \<and> between_lines b d' \<and>
     (if x = 0 then GpioPins d' = GpioPins d
      else g_Direction (GpioPins d' ! nat (i - 22)) = OUTPUT b \<and>
        g_Value (GpioPins d' ! nat (i - 22)) = (if x < 0 then LOW b else HIGH b)) \<and>
     p_SetPoint (PwmPins d' ! nat (j - 2)) = Fin \<rho> \<and> \<bar>\<rho> - \<bar>x\<bar>\<bar> \<le> 1 / 10 ^ 4"
proof -
  obtain m0 l0 where m0: "lite_constructor written ramp (Fin x0) dirName pwmName l = (Returns m0, l0)" "lite_ok i j m0"
    using lite_constructor_ok [OF assms(1-13)] by blast
  have "lite_ok i j (motor_calls (lite_SetVelocity written) (lite_SetRampSpeed written) cs m0)"
    using lite_motor.calls_ok [of i j m0 written cs] m0(2) assms(1,14) by simp
  from m0(1) lite_velocity_received [OF assms(1) this assms(15,16), of ms] show ?thesis by blast
qed

text \<open>C21: a \<open>VHN2Motor\<close> never drives its second direction pin. After the constructor and any
  calls in range, the lines that \<open>SetVelocity\<close> sends make the firmware turn the first direction pin into an output and
  the second one into an input, whatever the velocity.\<close>

theorem vhn2_second_pin_is_input:
  assumes "accepts_all written" and "0 \<le> SerialPortFd l" and "moderate ramp" "\<not> f_zero ramp" and "velocity_in x0"
    and "StringToPeripheralName aName = Inr p" and "name_text p = ''GPIO'' @ fmt_d i" and "22 \<le> i" "i \<le> 53"
    and "StringToPeripheralName bName = Inr q" and "name_text q = ''GPIO'' @ fmt_d k" and "22 \<le> k" "k \<le> 53" and "i \<noteq> k"
    and "StringToPeripheralName pwmName = Inr r" and "name_text r = ''PWM'' @ fmt_d j" and "2 \<le> j" "j \<le> 13"
    and "list_all allowed_call cs" and "velocity_in x" and "between_lines b d"
  shows "\<exists>m0 l0 m m' sent d'. vhn2_constructor written ramp (Fin x0) aName bName pwmName l = (Returns m0, l0) \<and>
     m = motor_calls (vhn2_SetVelocity written) (vhn2_SetRampSpeed written) cs m0 \<and>
     vhn2_SetVelocity written (Fin x) m = (Returns (), m') \<and> tx_line (vline m') = tx_line (vline m) @ sent \<and>
     forM sent (recv_char b ms) d = Some d' \<and>
     g_Direction (GpioPins d' ! nat (i - 22)) = OUTPUT b \<and> g_Direction (GpioPins d' ! nat (k - 22)) = INPUT b"
proof -
  obtain m0 l0 where m0: "vhn2_constructor written ramp (Fin x0) aName bName pwmName l = (Returns m0, l0)" "vhn2_ok i k j m0"
    using vhn2_constructor_ok [OF assms(1-13,15-18)] by blast
  have "vhn2_ok i k j (motor_calls (vhn2_SetVelocity written) (vhn2_SetRampSpeed written) cs m0)"
    using vhn2_motor.calls_ok [of i k j m0 written cs] m0(2) assms(1,19) by simp
  from m0(1) vhn2_velocity_received [OF assms(1) this assms(20,21,14), of ms] show ?thesis by blast
qed

section \<open>Runs\<close>

definition open_port :: serial_port where
  "open_port = \<lparr>SerialPortFd = 3, isListening = True, tx_line = []\<rparr>"

definition whole_write :: kernel_write where
  "whole_write m = int (length m)"

lemma run_facts:
  "accepts_all whole_write" "0 \<le> SerialPortFd open_port" "moderate (Fin 5)" "\<not> f_zero (Fin 5)" "velocity_in 0" "velocity_in (- 25)"
  "between_lines sam3x start"
  using start_inv start_facts(1)
  by (simp_all add: accepts_all_def whole_write_def open_port_def moderate_def f_zero_def f_eq_def velocity_in_def is_double_def
      between_lines_def float_eval)

lemma run_names:
  "StringToPeripheralName (name_text GPIO22) = Inr GPIO22" "name_text GPIO22 = ''GPIO'' @ fmt_d 22"
  "StringToPeripheralName (name_text GPIO23) = Inr GPIO23" "name_text GPIO23 = ''GPIO'' @ fmt_d 23"
  "StringToPeripheralName (name_text PWM2) = Inr PWM2" "name_text PWM2 = ''PWM'' @ fmt_d 2"
  by (rule StringToPeripheralName_text, simp add: real_peripheral_def
     | simp add: name_text_def digits10.simps [of 22] digits10.simps [of 23] digits10.simps [of 2] digit_char_def)+

theorem lite_motor_end_to_end_witness:
  "\<exists>m0 l0 m' sent d'. lite_constructor whole_write (Fin 5) (Fin 0) (name_text GPIO22) (name_text PWM2) open_port = (Returns m0, l0) \<and>
     lite_SetVelocity whole_write (Fin (- 25)) m0 = (Returns (), m') \<and> tx_line (line m') = tx_line (line m0) @ sent \<and>
     forM sent (recv_char sam3x 5) start = Some d' \<and> g_Value (GpioPins d' ! 0) = 0"
  using lite_motor_end_to_end [OF run_facts(1-5) run_names(1,2) _ _ run_names(5,6) _ _ _ run_facts(6,7), of "[]" 5]
  by (simp add: motor_calls_def sam3x_def) blast

theorem vhn2_second_pin_is_input_witness:
  "\<exists>m0 l0 m' sent d'. vhn2_constructor whole_write (Fin 5) (Fin 0) (name_text GPIO22) (name_text GPIO23) (name_text PWM2) open_port =
       (Returns m0, l0) \<and> vhn2_SetVelocity whole_write (Fin (- 25)) m0 = (Returns (), m') \<and>
     tx_line (vline m') = tx_line (vline m0) @ sent \<and> forM sent (recv_char sam3x 5) start = Some d' \<and>
     g_Direction (GpioPins d' ! 1) = 0"
  using vhn2_second_pin_is_input [OF run_facts(1-5) run_names(1,2) _ _ run_names(3,4) _ _ _ run_names(5,6) _ _ _ run_facts(6,7), of "[]" 5]
  by (simp add: motor_calls_def sam3x_def) blast

end
