(* ===== verification/Robot_Claw.thy ===== *)
theory Robot_Claw
  imports Robot_Run Host_Config
begin

text \<open>
  \<open>clank/lib/motor/ClawMotor/ClawMotorController.cpp\<close>: the driver of the motor controller the
  robot's two motors hang on. A velocity is sent as a packet of five bytes over a serial line; the
  controller acknowledges a packet with the byte \<open>0xFF\<close>.

  \<open>ClawMotor\<close> only forwards to the functions it is constructed with, so \<open>SetMotorVelocity False\<close>
  and \<open>SetMotorVelocity True\<close> stand for motor 1 and motor 2.
\<close>

unbundle bit_operations_syntax

section \<open>The check value\<close>

text \<open>
  \<open>ComputeCRC\<close> keeps the register in an \<open>unsigned int\<close> and never masks it: what is shifted out
  of the lower 16 bits stays above them.
\<close>

definition crc_bit :: "32 word \<Rightarrow> 32 word" where
  "crc_bit crc = (if crc AND 0x8000 \<noteq> 0 then push_bit 1 crc XOR 0x1021 else push_bit 1 crc)"

definition crc_byte :: "32 word \<Rightarrow> 8 word \<Rightarrow> 32 word" where
  "crc_byte crc b = (crc_bit ^^ 8) (crc XOR push_bit 8 (ucast b))"

definition ComputeCRC :: "nat \<Rightarrow> 8 word list \<Rightarrow> 32 word" where
  "ComputeCRC numBytes buf = foldl crc_byte 0 (take numBytes buf)"

text \<open>The 16-bit register of the CRC with polynomial \<open>x\<^sup>1\<^sup>6 + x\<^sup>1\<^sup>2 + x\<^sup>5 + 1\<close> that the controller keeps.\<close>

definition crc16_bit :: "16 word \<Rightarrow> 16 word" where
  "crc16_bit crc = (if bit crc 15 then push_bit 1 crc XOR 0x1021 else push_bit 1 crc)"

definition crc16_byte :: "16 word \<Rightarrow> 8 word \<Rightarrow> 16 word" where
  "crc16_byte crc b = (crc16_bit ^^ 8) (crc XOR push_bit 8 (ucast b))"

definition crc16 :: "8 word list \<Rightarrow> 16 word" where
  "crc16 bs = foldl crc16_byte 0 bs"

lemma ucast_shl: "(ucast (push_bit k (x :: 32 word)) :: 16 word) = push_bit k (ucast x)"
  by (intro bit_word_eqI) (auto simp: bit_simps)

lemma crc_bit_low: "ucast (crc_bit x) = crc16_bit (ucast x)"
proof -
  have "x AND 0x8000 \<noteq> 0 \<longleftrightarrow> bit x 15" using and_exp_eq_0_iff_not_bit [of x 15] by simp
  moreover have "bit (ucast x :: 16 word) 15 = bit x 15" by (simp add: bit_simps)
  moreover have "(ucast (push_bit 1 x) :: 16 word) = push_bit 1 (ucast x)" by (rule ucast_shl)
  moreover have "(ucast (y XOR 0x1021 :: 32 word) :: 16 word) = ucast y XOR 0x1021" for y
    by (simp add: unsigned_xor_eq)
  ultimately show ?thesis unfolding crc_bit_def crc16_bit_def by presburger
qed

lemma crc_byte_low: "ucast (crc_byte x b) = crc16_byte (ucast x) b"
proof -
  have f: "(ucast ((crc_bit ^^ n) y) :: 16 word) = (crc16_bit ^^ n) (ucast y)" for n y
    by (induction n) (simp_all add: crc_bit_low)
  have "(ucast (push_bit 8 (ucast b) :: 32 word) :: 16 word) = push_bit 8 (ucast b)"
    by (intro bit_word_eqI) (auto simp: bit_simps)
  then show ?thesis by (simp add: crc_byte_def crc16_byte_def f unsigned_xor_eq)
qed

lemma ComputeCRC_low: "ucast (ComputeCRC n buf) = crc16 (take n buf)"
proof -
  have "ucast (foldl crc_byte x bs) = foldl crc16_byte (ucast x) bs" for x bs
    by (induction bs arbitrary: x) (simp_all add: crc_byte_low)
  then show ?thesis by (simp add: ComputeCRC_def crc16_def)
qed


section \<open>The check detects changed bytes\<close>

lemma xor_zero_iff: "a XOR b = 0 \<longleftrightarrow> a = b" for a b :: "16 word"
  by (metis xor.assoc xor_self_eq xor.right_neutral xor.left_neutral)

lemma crc16_bit_alt: "crc16_bit x = push_bit 1 x XOR (if bit x 15 then 0x1021 else 0)"
  by (simp add: crc16_bit_def)

lemma crc16_bit_xor: "crc16_bit (x XOR y) = crc16_bit x XOR crc16_bit y"
proof -
  have "(if bit (x XOR y) 15 then 0x1021 else 0 :: 16 word) = (if bit x 15 then 0x1021 else 0) XOR (if bit y 15 then 0x1021 else 0)"
    by (simp add: bit_xor_iff)
  then show ?thesis
    unfolding crc16_bit_alt push_bit_xor by (simp only: xor.assoc xor.commute xor.left_commute)
qed

lemma bit_shl: "bit (push_bit k (x :: 16 word)) n \<longleftrightarrow> k \<le> n \<and> n < 16 \<and> bit x (n - k)"
  by (auto simp: bit_simps)

lemma crc16_bits_xor: "(crc16_bit ^^ n) (x XOR y) = (crc16_bit ^^ n) x XOR (crc16_bit ^^ n) y"
  by (induction n) (simp_all add: crc16_bit_xor)

lemma crc16_bit_zero: "crc16_bit x = 0 \<Longrightarrow> x = 0"
proof -
  assume z: "crc16_bit x = 0"
  have odd: "\<not> bit (push_bit 1 x) 0" unfolding bit_shl by simp
  have "\<not> bit x 15"
  proof
    assume "bit x 15"
    with z have "push_bit 1 x = 0x1021" unfolding crc16_bit_alt xor_zero_iff by presburger
    then have "bit (0x1021 :: 16 word) 0 \<longleftrightarrow> False" using odd by metis
    then show False by simp
  qed
  with z have s: "push_bit 1 x = 0" unfolding crc16_bit_alt xor_zero_iff by presburger
  show "x = 0"
  proof (rule bit_word_eqI)
    fix n assume "n < LENGTH(16)"
    show "bit x n = bit (0 :: 16 word) n"
    proof (cases "n = 15")
      case False
      with \<open>n < LENGTH(16)\<close> have "bit (push_bit 1 x) (Suc n) = bit x n" unfolding bit_shl by simp
      with s show ?thesis by simp
    qed (simp add: \<open>\<not> bit x 15\<close>)
  qed
qed

lemma crc16_bits_zero: "(crc16_bit ^^ n) x = 0 \<Longrightarrow> x = 0"
  by (induction n) (auto dest: crc16_bit_zero)

lemma crc16_bits_0 [simp]: "(crc16_bit ^^ n) 0 = 0"
  by (induction n) (simp_all add: crc16_bit_def)

text \<open>A byte that leaves the upper half of the register empty is shifted up unchanged.\<close>

lemma crc16_bits_shift: "k \<le> 8 \<Longrightarrow> (crc16_bit ^^ k) (ucast (b :: 8 word)) = push_bit k (ucast b)"
proof (induction k)
  case (Suc k)
  then have "(crc16_bit ^^ Suc k) (ucast b) = crc16_bit (push_bit k (ucast b))" by simp
  moreover have "\<not> bit (push_bit k (ucast b :: 16 word)) 15" using Suc.prems by (auto simp: bit_simps dest: bit_imp_le_length)
  ultimately show ?case unfolding crc16_bit_def push_bit_push_bit by (metis add.commute plus_1_eq_Suc)
qed simp

text \<open>Appending the check value leaves nothing in the register.\<close>

lemma crc16_residue:
  assumes "crc16 p = c"
  shows "crc16 (p @ [ucast (drop_bit 8 c), ucast c]) = 0"
proof -
  define l where "l = (ucast c :: 8 word)"
  have c: "c XOR push_bit 8 (ucast (ucast (drop_bit 8 c) :: 8 word)) = ucast l"
    by (intro bit_word_eqI) (auto simp: bit_simps l_def)
  have "crc16_byte c (ucast (drop_bit 8 c)) = push_bit 8 (ucast l)"
    unfolding crc16_byte_def c by (simp add: crc16_bits_shift)
  then show ?thesis using assms by (simp add: crc16_def crc16_byte_def l_def)
qed

lemma crc16_byte_xor: "crc16_byte (x XOR y) (a XOR b) = crc16_byte x a XOR crc16_byte y b"
proof -
  have "push_bit 8 (ucast (a XOR b)) = (push_bit 8 (ucast a) XOR push_bit 8 (ucast b) :: 16 word)"
    by (intro bit_word_eqI) (auto simp: bit_simps)
  then have e: "(x XOR y) XOR push_bit 8 (ucast (a XOR b)) = (x XOR push_bit 8 (ucast a)) XOR (y XOR push_bit 8 (ucast b))"
    by (simp add: ac_simps)
  show ?thesis unfolding crc16_byte_def e by (rule crc16_bits_xor)
qed

lemma crc16_byte_zeros: "foldl crc16_byte x (replicate n 0) = 0 \<longleftrightarrow> x = 0"
proof (induction n arbitrary: x)
  case (Suc n)
  have "crc16_byte x 0 = 0 \<longleftrightarrow> x = 0" by (auto simp: crc16_byte_def dest: crc16_bits_zero)
  with Suc show ?case by simp
qed simp

lemma crc16_change:
  assumes "a \<noteq> b"
  shows "crc16 (p @ a # q) \<noteq> crc16 (p @ b # q)"
proof -
  have xor: "foldl crc16_byte (x XOR y) (map2 (XOR) q r) = foldl crc16_byte x q XOR foldl crc16_byte y r"
    if "length q = length r" for x y q r
    using that by (induction q r arbitrary: x y rule: list_induct2) (simp_all add: crc16_byte_xor)
  define x y where "x = crc16_byte (crc16 p) a" and "y = crc16_byte (crc16 p) b"
  have "x XOR y = crc16_byte (crc16 p XOR crc16 p) (a XOR b)" unfolding x_def y_def by (rule crc16_byte_xor [symmetric])
  then have "x XOR y = (crc16_bit ^^ 8) (push_bit 8 (ucast (a XOR b)))" by (simp add: crc16_byte_def)
  moreover have "push_bit 8 (ucast (a XOR b) :: 16 word) \<noteq> 0"
  proof
    assume z: "push_bit 8 (ucast (a XOR b) :: 16 word) = 0"
    have "a = b"
    proof (rule bit_word_eqI)
      fix n assume n: "n < LENGTH(8)"
      then have "bit (push_bit 8 (ucast (a XOR b) :: 16 word)) (n + 8) = bit (a XOR b) n"
        unfolding bit_shl by (simp add: bit_simps)
      with z show "bit a n = bit b n" by (simp add: bit_xor_iff)
    qed
    with assms show False by simp
  qed
  ultimately have "x XOR y \<noteq> 0" using crc16_bits_zero by metis
  have "map2 (XOR) q q = replicate (length q) 0" by (induction q) auto
  with xor [of q q x y] have "foldl crc16_byte (x XOR y) (replicate (length q) 0) = foldl crc16_byte x q XOR foldl crc16_byte y q"
    by simp
  with \<open>x XOR y \<noteq> 0\<close> have "foldl crc16_byte x q \<noteq> foldl crc16_byte y q"
    using crc16_byte_zeros [of "x XOR y" "length q"] by auto
  then show ?thesis by (simp add: crc16_def x_def y_def)
qed


section \<open>The controller\<close>

datatype speed_t = B2400 | B9600 | B19200 | B38400 | B57600 | B115200 | B230400 | B460800

record timeval =
  tv_sec :: nat
  tv_usec :: nat

text \<open>
  \<open>watched\<close>: the port's descriptor is in \<open>FileDescriptorSet\<close>. \<open>locked\<close>: the mutex. The other side of
  the line is \<open>written\<close>, the packets it has been sent, and \<open>answers\<close>: for each packet to come the
  time in microseconds until the answer and the byte; no more answers when the list has ended.
\<close>

record claw =
  Address :: "32 word"
  DataBuffer :: "8 word list"
  baudRate :: speed_t
  Timeout :: timeval
  watched :: bool
  locked :: bool
  Motor1Velocity :: cfloat
  Motor1RampSpeed :: cfloat
  Motor2Velocity :: cfloat
  Motor2RampSpeed :: cfloat
  written :: "8 word list list"
  answers :: "(nat \<times> 8 word) list"

definition micros :: "timeval \<Rightarrow> nat" where
  "micros t = tv_sec t * 1000000 + tv_usec t"

definition to_timeval :: "nat \<Rightarrow> timeval" where
  "to_timeval us = \<lparr>tv_sec = us div 1000000, tv_usec = us mod 1000000\<rparr>"

text \<open>
  \<open>select\<close> on Linux: when the descriptor becomes readable in time, the timeout is left with the
  time not slept; when the time is over, it is zero and the set is emptied.
\<close>

definition select_port :: "claw \<Rightarrow> bool \<times> claw" where
  "select_port c = (case answers c of
       (d, b) # rest \<Rightarrow> (if watched c \<and> d \<le> micros (Timeout c)
          then (True, c\<lparr>Timeout := to_timeval (micros (Timeout c) - d)\<rparr>)
          else (False, c\<lparr>Timeout := to_timeval 0, watched := False\<rparr>))
     | [] \<Rightarrow> (False, c\<lparr>Timeout := to_timeval 0, watched := False\<rparr>))"

text \<open>Both exceptions leave the mutex locked.\<close>

definition WriteAndVerify :: "nat \<Rightarrow> (claw, bool) op" where
  "WriteAndVerify numBytes c = (if locked c then (Blocks, c)
     else case select_port (c\<lparr>locked := True, written := written c @ [take numBytes (DataBuffer c)]\<rparr>) of
         (False, c') \<Rightarrow> (Throws Runtime_error, c')
       | (True, c') \<Rightarrow> (case answers c' of
             [] \<Rightarrow> (Blocks, c')
           | (d, response) # rest \<Rightarrow>
               (if response \<noteq> 0xFF then (Throws Runtime_error, c'\<lparr>answers := rest\<rparr>)
                else (Returns True, c'\<lparr>answers := rest, locked := False\<rparr>))))"

text \<open>Motor 1 (\<open>False\<close>) has the commands 0 and 1, motor 2 (\<open>True\<close>) 4 and 5.\<close>

definition velocity_command :: "bool \<Rightarrow> cfloat \<Rightarrow> 8 word" where
  "velocity_command second velocity =
     (if second then (if f_less (Fin 0) velocity then 4 else 5)
      else (if f_less (Fin 0) velocity then 0 else 1))"

definition magnitude :: "cfloat \<Rightarrow> 8 word option" where
  "magnitude velocity = to_uchar (f_scale round64 (f_scale round64 (f_abs velocity) 127) (1 / 100))"

definition fill_buffer :: "bool \<Rightarrow> cfloat \<Rightarrow> 8 word \<Rightarrow> claw \<Rightarrow> claw" where
  "fill_buffer second velocity mag c =
     (let b = (DataBuffer c)[0 := ucast (Address c), 1 := velocity_command second velocity, 2 := mag];
          crc = ComputeCRC 3 b
      in c\<lparr>DataBuffer := b[3 := ucast (drop_bit 8 crc AND 0x00FF), 4 := ucast (crc AND 0x00FF)]\<rparr>)"

definition SetMotorVelocity :: "bool \<Rightarrow> cfloat \<Rightarrow> (claw, unit) op" where
  "SetMotorVelocity second velocity c = (case magnitude velocity of
       None \<Rightarrow> (Undefined, c)
     | Some mag \<Rightarrow> and_then (WriteAndVerify 5)
         (\<lambda>_. modify_state (if second then Motor2Velocity_update (\<lambda>_. velocity) else Motor1Velocity_update (\<lambda>_. velocity)))
         (fill_buffer second velocity mag c))"

definition SetMotorRampSpeed :: "bool \<Rightarrow> cfloat \<Rightarrow> claw \<Rightarrow> claw" where
  "SetMotorRampSpeed second speed =
     (if second then Motor2RampSpeed_update (\<lambda>_. speed) else Motor1RampSpeed_update (\<lambda>_. speed))"

definition GetMotorVelocity :: "bool \<Rightarrow> claw \<Rightarrow> cfloat" where
  "GetMotorVelocity second c = (if second then Motor2Velocity c else Motor1Velocity c)"

definition GetMotorRampSpeed :: "bool \<Rightarrow> claw \<Rightarrow> cfloat" where
  "GetMotorRampSpeed second c = (if second then Motor2RampSpeed c else Motor1RampSpeed c)"

section \<open>Construction\<close>

text \<open>The second test for 9600 stands where the one for 19200 was meant to be.\<close>

definition speed_of :: "32 word \<Rightarrow> speed_t option" where
  "speed_of r = (if r = 2400 then Some B2400
     else if r = 9600 then Some B9600
     else if r = 9600 then Some B19200
     else if r = 38400 then Some B38400
     else if r = 57600 then Some B57600
     else if r = 115200 then Some B115200
     else if r = 230400 then Some B230400
     else if r = 460800 then Some B460800
     else None)"

text \<open>
  \<open>opens\<close> tells which ports the operating system opens; \<open>raw\<close> holds the line and the values of the
  members nobody initialises (the buffer, the velocities and the ramp speeds).
\<close>

definition claw_Initialize :: "(string \<Rightarrow> bool) \<Rightarrow> string \<Rightarrow> 32 word \<Rightarrow> 32 word \<Rightarrow> 32 word \<Rightarrow> claw \<Rightarrow> exn + claw" where
  "claw_Initialize opens serialPortName rate timeoutMillis address raw = (case speed_of rate of
       None \<Rightarrow> Inl Runtime_error
     | Some b \<Rightarrow>
         (if \<not> opens serialPortName then Inl Runtime_error
          else if address < 0x80 \<or> 0x87 < address then Inl Runtime_error
          else Inr (raw\<lparr>baudRate := b, watched := True, Address := address, locked := False,
            Timeout := \<lparr>tv_sec = unat timeoutMillis div 1000, tv_usec = (unat timeoutMillis mod 1000) * 1000\<rparr>\<rparr>)))"

definition claw_config_constructor :: "(string \<Rightarrow> bool) \<Rightarrow> configuration \<Rightarrow> claw \<Rightarrow> exn + claw" where
  "claw_config_constructor opens config raw =
     (let (port_given, serialPortName) = GetConfigurationData config ''SerialPortName'';
          (rate_given, baudRateStr) = GetConfigurationData config ''BaudRate'';
          (timeout_given, timeoutMillisStr) = GetConfigurationData config ''TimeoutMillis'';
          (address_given, addressStr) = GetConfigurationData config ''Address'' in
      if \<not> port_given \<or> \<not> rate_given \<or> \<not> timeout_given \<or> \<not> address_given then Inl Runtime_error
      else case stoi baudRateStr of Inl e \<Rightarrow> Inl e | Inr rate \<Rightarrow>
        (case stoi timeoutMillisStr of Inl e \<Rightarrow> Inl e | Inr timeout \<Rightarrow>
          (if timeout \<le> 0 then Inl Runtime_error
           else if 2 ^ 32 - 1 < timeout then Inl Runtime_error
           else case stoi addressStr of Inl e \<Rightarrow> Inl e | Inr address \<Rightarrow>
             claw_Initialize opens serialPortName (word_of_int rate) (word_of_int timeout) (word_of_int address) raw)))"

text \<open>The destructor stops both motors; an exception ends the program there.\<close>

definition claw_destructor :: "(claw, unit) op" where
  "claw_destructor = and_then (SetMotorVelocity False (Fin 0)) (\<lambda>_. SetMotorVelocity True (Fin 0))"


section \<open>Packets\<close>

definition in_range :: "cfloat \<Rightarrow> bool" where
  "in_range v \<longleftrightarrow> (\<exists>x. v = Fin x \<and> \<bar>x\<bar> \<le> 100)"

text \<open>What the controller accepts: five bytes, its own address in front, nothing left in the CRC register.\<close>

definition valid_packet :: "32 word \<Rightarrow> 8 word list \<Rightarrow> bool" where
  "valid_packet address p \<longleftrightarrow> length p = 5 \<and> p ! 0 = ucast address \<and> crc16 p = 0"

lemma magnitude_range:
  assumes "\<bar>x\<bar> \<le> 100"
  shows "\<exists>m. magnitude (Fin x) = Some m \<and> unat m \<le> 127"
proof -
  have r: "\<exists>r. round64 y = Fin r \<and> 0 \<le> r \<and> r \<le> of_nat n" if "0 \<le> y" "y \<le> of_nat n" "n < 2 ^ 53" for y n
    using fround_within [OF round64_of_nat [OF that(3)], of y] fround_nonneg [OF that(1)] that(1,2) by fastforce
  obtain a where a: "round64 (\<bar>x\<bar> * 127) = Fin a" "0 \<le> a" "a \<le> 12700" using r [of "\<bar>x\<bar> * 127" 12700] assms by auto
  obtain b where b: "round64 (a * (1 / 100)) = Fin b" "0 \<le> b" "b \<le> 127" using r [of "a * (1 / 100)" 127] a(2,3) by auto
  have "\<lfloor>b\<rfloor> \<le> 127" using b(3) by (simp add: floor_le_iff)
  with b(2) have "unat (word_of_int \<lfloor>b\<rfloor> :: 8 word) \<le> 127"
    by (simp add: unat_eq_nat_uint uint_word_of_int nat_le_iff)
  with a(1) b show ?thesis by (simp add: magnitude_def f_scale_def to_uchar_def)
qed

lemma in_rangeE:
  assumes "in_range v"
  obtains m where "magnitude v = Some m" and "unat m \<le> 127"
  using assms magnitude_range by (auto simp: in_range_def)

text \<open>The packet behind \<open>fill_buffer\<close>.\<close>

definition velocity_packet :: "bool \<Rightarrow> cfloat \<Rightarrow> 8 word \<Rightarrow> 32 word \<Rightarrow> 8 word list" where
  "velocity_packet second velocity mag address =
     (let p = [ucast address, velocity_command second velocity, mag]; c = crc16 p
      in p @ [ucast (drop_bit 8 c), ucast c])"

lemma length_ge_5: "5 \<le> length xs \<Longrightarrow> \<exists>a b c d e r. xs = a # b # c # d # e # r"
  by (auto simp: Suc_le_length_iff eval_nat_numeral)

lemma fill_buffer_packet:
  assumes "5 \<le> length (DataBuffer c)"
  shows "take 5 (DataBuffer (fill_buffer second velocity mag c)) = velocity_packet second velocity mag (Address c)"
proof -
  obtain b0 b1 b2 b3 b4 r where b: "DataBuffer c = b0 # b1 # b2 # b3 # b4 # r" using length_ge_5 [OF assms] by auto
  let ?p = "[ucast (Address c), velocity_command second velocity, mag]"
  let ?crc = "ComputeCRC 3 (?p @ b3 # b4 # r)"
  have "take 3 (?p @ b3 # b4 # r) = ?p" by simp
  then have low: "ucast ?crc = crc16 ?p" using ComputeCRC_low [of 3 "?p @ b3 # b4 # r"] by simp
  have "(ucast (drop_bit 8 ?crc AND 0x00FF) :: 8 word) = ucast (drop_bit 8 (ucast ?crc :: 16 word))"
    and "(ucast (?crc AND 0x00FF) :: 8 word) = ucast (ucast ?crc :: 16 word)"
  proof -
    have m: "(ucast (x AND 0x00FF) :: 8 word) = ucast x" for x :: "32 word"
    proof -
      have "(ucast (x AND mask 8) :: 8 word) = ucast x" by (intro bit_word_eqI) (auto simp: bit_simps)
      moreover have "(mask 8 :: 32 word) = 0x00FF" by (simp add: mask_eq_exp_minus_1)
      ultimately show ?thesis by metis
    qed
    show "(ucast (drop_bit 8 ?crc AND 0x00FF) :: 8 word) = ucast (drop_bit 8 (ucast ?crc :: 16 word))"
      unfolding m by (intro bit_word_eqI) (auto simp: bit_simps)
    show "(ucast (?crc AND 0x00FF) :: 8 word) = ucast (ucast ?crc :: 16 word)"
      unfolding m by (intro bit_word_eqI) (auto simp: bit_simps)
  qed
  then show ?thesis unfolding low by (simp add: fill_buffer_def b velocity_packet_def Let_def)
qed

lemma velocity_packet_valid: "valid_packet a (velocity_packet second velocity mag a)"
  using crc16_residue [OF refl, of "[ucast a, velocity_command second velocity, mag]"]
  by (simp add: valid_packet_def velocity_packet_def Let_def)

section \<open>Commands against the controller\<close>

definition ready :: "claw \<Rightarrow> bool" where
  "ready c \<longleftrightarrow> \<not> locked c \<and> watched c \<and> length (DataBuffer c) = 16"

lemma micros_to_timeval [simp]: "micros (to_timeval us) = us"
  by (simp add: micros_def to_timeval_def)

lemma fill_buffer_simps [simp]:
  "Address (fill_buffer m v mag c) = Address c" "Timeout (fill_buffer m v mag c) = Timeout c"
  "watched (fill_buffer m v mag c) = watched c" "locked (fill_buffer m v mag c) = locked c"
  "written (fill_buffer m v mag c) = written c" "answers (fill_buffer m v mag c) = answers c"
  "length (DataBuffer (fill_buffer m v mag c)) = length (DataBuffer c)"
  by (simp_all add: fill_buffer_def Let_def)

lemma set_velocity_answered:
  assumes "ready c" and "in_range v" and "answers c = (d, 0xFF) # rest" and "d \<le> micros (Timeout c)"
  obtains c' mag where "SetMotorVelocity m v c = (Returns (), c')" and "ready c'" and "answers c' = rest"
    and "micros (Timeout c') = micros (Timeout c) - d" and "Address c' = Address c"
    and "written c' = written c @ [velocity_packet m v mag (Address c)]" and "magnitude v = Some mag"
    and "GetMotorVelocity m c' = v"
proof -
  obtain mag where mag: "magnitude v = Some mag" using assms(2) by (rule in_rangeE)
  have "take 5 (DataBuffer (fill_buffer m v mag c)) = velocity_packet m v mag (Address c)"
    using assms(1) by (intro fill_buffer_packet) (simp add: ready_def)
  moreover define c1 where "c1 = (fill_buffer m v mag c)\<lparr>written := written c @ [velocity_packet m v mag (Address c)],
      Timeout := to_timeval (micros (Timeout c) - d), answers := rest, locked := False\<rparr>"
  moreover define c2 where "c2 = (if m then c1\<lparr>Motor2Velocity := v\<rparr> else c1\<lparr>Motor1Velocity := v\<rparr>)"
  ultimately have "SetMotorVelocity m v c = (Returns (), c2)"
    using assms mag by (simp add: SetMotorVelocity_def WriteAndVerify_def select_port_def ready_def and_then_def modify_state_def)
  then show thesis
    using assms(1) mag by (intro that [of c2 mag]) (simp_all add: c1_def c2_def ready_def GetMotorVelocity_def)
qed

text \<open>No answer comes within what is left of the timeout.\<close>

definition late :: "claw \<Rightarrow> bool" where
  "late c \<longleftrightarrow> (case answers c of [] \<Rightarrow> True | (d, b) # rest \<Rightarrow> micros (Timeout c) < d)"

lemma set_velocity_late:
  assumes "ready c" and "in_range v" and "late c"
  obtains c' mag where "SetMotorVelocity m v c = (Throws Runtime_error, c')" and "locked c'" and "Address c' = Address c"
    and "written c' = written c @ [velocity_packet m v mag (Address c)]" and "magnitude v = Some mag"
proof -
  obtain mag where mag: "magnitude v = Some mag" using assms(2) by (rule in_rangeE)
  have p: "take 5 (DataBuffer (fill_buffer m v mag c)) = velocity_packet m v mag (Address c)"
    using assms(1) by (intro fill_buffer_packet) (simp add: ready_def)
  define c1 where "c1 = (fill_buffer m v mag c)\<lparr>written := written c @ [velocity_packet m v mag (Address c)],
      Timeout := to_timeval 0, watched := False, locked := True\<rparr>"
  have "SetMotorVelocity m v c = (Throws Runtime_error, c1)"
    using assms(1,3) mag p
    by (auto simp: SetMotorVelocity_def WriteAndVerify_def select_port_def ready_def and_then_def late_def c1_def
        split: list.splits prod.splits)
  then show thesis using mag by (intro that [of c1 mag]) (simp_all add: c1_def)
qed

lemma set_velocity_locked:
  assumes "locked c" and "in_range v"
  shows "\<exists>c'. SetMotorVelocity m v c = (Blocks, c') \<and> locked c' \<and> written c' = written c"
proof -
  obtain mag where mag: "magnitude v = Some mag" using assms(2) by (rule in_rangeE)
  with assms show ?thesis by (simp add: SetMotorVelocity_def WriteAndVerify_def and_then_def)
qed

fun send_all :: "(bool \<times> cfloat) list \<Rightarrow> (claw, unit) op" where
  "send_all [] = modify_state (\<lambda>c. c)"
| "send_all ((m, v) # vs) = and_then (SetMotorVelocity m v) (\<lambda>_. send_all vs)"

lemma send_all_answered:
  assumes "ready c" and "list_all (in_range \<circ> snd) vs" and "answers c = map (\<lambda>d. (d, 0xFF)) ds" and "length ds = length vs"
  shows "sum_list ds \<le> micros (Timeout c) \<Longrightarrow>
      \<exists>c'. send_all vs c = (Returns (), c') \<and> ready c' \<and> micros (Timeout c') = micros (Timeout c) - sum_list ds"
    and "micros (Timeout c) < sum_list ds \<Longrightarrow> \<exists>c'. send_all vs c = (Throws Runtime_error, c') \<and> locked c'"
  using assms
proof (induction vs arbitrary: c ds)
  case Nil
  { case 1 with Nil show ?case by (simp add: modify_state_def) }
  { case 2 with Nil show ?case by simp }
next
  case (Cons v vs)
  obtain m x where v: "v = (m, x)" by fastforce
  { case 1
    then obtain d ds' where ds: "ds = d # ds'" by (cases ds) auto
    with 1 v obtain c' where c': "SetMotorVelocity m x c = (Returns (), c')" "ready c'" "answers c' = map (\<lambda>d. (d, 0xFF)) ds'"
      "micros (Timeout c') = micros (Timeout c) - d"
      using set_velocity_answered [of c x d "map (\<lambda>d. (d, 0xFF)) ds'" m] by auto
    with Cons.IH(1) [of ds' c'] 1 ds v show ?case by auto }
  { case 2
    then obtain d ds' where ds: "ds = d # ds'" by (cases ds) auto
    show ?case
    proof (cases "d \<le> micros (Timeout c)")
      case True
      with 2 v ds obtain c' where c': "SetMotorVelocity m x c = (Returns (), c')" "ready c'" "answers c' = map (\<lambda>d. (d, 0xFF)) ds'"
        "micros (Timeout c') = micros (Timeout c) - d"
        using set_velocity_answered [of c x d "map (\<lambda>d. (d, 0xFF)) ds'" m] by auto
      with Cons.IH(2) [of c' ds'] 2 ds v True show ?thesis by auto
    next
      case False
      with 2 ds have "late c" by (simp add: late_def)
      moreover have "in_range x" using 2 v by simp
      ultimately obtain c' where "SetMotorVelocity m x c = (Throws Runtime_error, c')" "locked c'"
        using set_velocity_late [of c x m] 2(2) by metis
      with v show ?thesis by simp
    qed }
qed


lemma baud_19200_rejected: "claw_Initialize opens port 19200 timeout address raw = Inl Runtime_error"
  by (simp add: claw_Initialize_def speed_of_def)

section \<open>Properties\<close>

text \<open>A controller as the constructor leaves it for the shipped configuration.\<close>

definition sample_claw :: "(nat \<times> 8 word) list \<Rightarrow> claw" where
  "sample_claw as = \<lparr>Address = 0x80, DataBuffer = replicate 16 0, baudRate = B38400, Timeout = \<lparr>tv_sec = 2, tv_usec = 0\<rparr>,
     watched = True, locked = False, Motor1Velocity = Fin 0, Motor1RampSpeed = Fin 0, Motor2Velocity = Fin 0,
     Motor2RampSpeed = Fin 0, written = [], answers = as\<rparr>"

text \<open>C7: setting a velocity in \<open>[-100, 100]\<close> that the controller acknowledges in
  time writes one packet: the address, the command of that motor and direction, a magnitude of at
  most 127 and a check value that leaves the controller's 16-bit CRC register empty, although the
  host never masks its 32-bit register. With any one byte changed on the line the register is not
  empty.\<close>

theorem velocity_packet_accepted:
  assumes "ready c" and "in_range v" and "answers c = (d, 0xFF) # rest" and "d \<le> micros (Timeout c)"
  shows "\<exists>c' p. SetMotorVelocity m v c = (Returns (), c') \<and> GetMotorVelocity m c' = v \<and>
    written c' = written c @ [p] \<and> valid_packet (Address c) p \<and> p ! 1 = velocity_command m v \<and> unat (p ! 2) \<le> 127 \<and>
    (\<forall>i b. i < 5 \<longrightarrow> b \<noteq> p ! i \<longrightarrow> crc16 (p[i := b]) \<noteq> 0)"
proof -
  obtain c' mag where r: "SetMotorVelocity m v c = (Returns (), c')" "GetMotorVelocity m c' = v" "magnitude v = Some mag"
    "written c' = written c @ [velocity_packet m v mag (Address c)]"
    by (rule set_velocity_answered [OF assms, of m]) blast
  define p where "p = velocity_packet m v mag (Address c)"
  have p: "valid_packet (Address c) p" unfolding p_def by (rule velocity_packet_valid)
  have "crc16 (p[i := b]) \<noteq> 0" if "i < 5" "b \<noteq> p ! i" for i b
  proof -
    have "i < length p" using p that(1) by (simp add: valid_packet_def)
    then have "p = take i p @ p ! i # drop (Suc i) p" and "p[i := b] = take i p @ b # drop (Suc i) p"
      by (simp_all add: id_take_nth_drop upd_conv_take_nth_drop)
    with crc16_change [OF that(2), of "take i p" "drop (Suc i) p"] p show ?thesis by (metis valid_packet_def)
  qed
  moreover have "unat (p ! 2) \<le> 127" and "p ! 1 = velocity_command m v"
    using in_rangeE [OF assms(2)] r(3) by (auto simp: p_def velocity_packet_def Let_def)
  ultimately show ?thesis using r p by (auto simp: p_def)
qed

theorem velocity_packet_accepted_witness:
  "\<exists>c' p. SetMotorVelocity False (Fin 50) (sample_claw [(1000, 0xFF)]) = (Returns (), c') \<and> written c' = [p] \<and> valid_packet 0x80 p"
  using velocity_packet_accepted [of "sample_claw [(1000, 0xFF)]" "Fin 50" 1000 "[]" False]
  by (auto simp: sample_claw_def ready_def in_range_def micros_def)

text \<open>C19: the timeout of a command is not renewed. A sequence of commands that the controller
  acknowledges one after the other gets through as long as the sum of its answering times stays within
  the timeout the port was configured with; as soon as the sum exceeds it, a command throws although
  each answer may have come at once, the mutex stays locked, and every later command, the one that
  stops the motors included, blocks for ever.\<close>

theorem timeout_budget:
  assumes "ready c" and "list_all (in_range \<circ> snd) vs" and "answers c = map (\<lambda>d. (d, 0xFF)) ds" and "length ds = length vs"
  shows "if sum_list ds \<le> micros (Timeout c)
    then \<exists>c'. send_all vs c = (Returns (), c') \<and> micros (Timeout c') = micros (Timeout c) - sum_list ds
    else \<exists>c'. send_all vs c = (Throws Runtime_error, c') \<and> (\<forall>m v. in_range v \<longrightarrow> fst (SetMotorVelocity m v c') = Blocks)"
proof (cases "sum_list ds \<le> micros (Timeout c)")
  case True
  then show ?thesis using send_all_answered(1) [OF assms] by auto
next
  case False
  then obtain c' where "send_all vs c = (Throws Runtime_error, c')" "locked c'" using send_all_answered(2) [OF assms] by auto
  moreover from this(2) have "\<forall>m v. in_range v \<longrightarrow> fst (SetMotorVelocity m v c') = Blocks"
    using set_velocity_locked by (metis fst_conv)
  ultimately show ?thesis using False by auto
qed

theorem timeout_budget_witness:
  "\<exists>c'. send_all (replicate 3 (False, Fin 10)) (sample_claw (replicate 3 (700000, 0xFF))) = (Throws Runtime_error, c') \<and>
     fst (SetMotorVelocity False (Fin 0) c') = Blocks"
  using timeout_budget [of "sample_claw (replicate 3 (700000, 0xFF))" "replicate 3 (False, Fin 10)" "replicate 3 700000"]
  by (auto simp: sample_claw_def ready_def in_range_def micros_def numeral_3_eq_3)

end
