(* ===== verification/Robot_Drive.thy ===== *)
theory Robot_Drive
  imports Robot_Claw
begin

text \<open>
  \<open>clank/lib/module/DifferentialDriveModule/DifferentialDriveModule.cpp\<close>: a speed and a heading are
  turned into the velocities of the two wheels. The right motor is the controller's motor 1, the left
  one its motor 2.

  The C library's \<open>cos\<close> on doubles is the parameter \<open>cosine\<close>; what is used of it is that a finite
  argument has a value between -1 and 1 (\<open>unit_range\<close>).
\<close>

section \<open>Operations\<close>

record drive_state =
  SetSpeed :: cfloat
  SetHeading :: cfloat
  controller :: claw

text \<open>The constant \<open>M_PI\<close>, a double.\<close>

definition M_PI :: cfloat where
  "M_PI = Fin (884279719003555 / 281474976710656)"

definition halved :: "cfloat \<Rightarrow> cfloat" where
  "halved x = f_scale round64 x (1 / 2)"

definition GetCosineMultiplier :: "(cfloat \<Rightarrow> cfloat) \<Rightarrow> cfloat \<Rightarrow> cfloat" where
  "GetCosineMultiplier cosine v = cosine (f_mul (Fin 2) v)"

definition ValidateInput :: "cfloat \<Rightarrow> cfloat \<Rightarrow> bool" where
  "ValidateInput speed heading \<longleftrightarrow> (f_le (Fin 0) speed \<and> f_le speed (Fin 100)) \<and>
     (f_le (Fin 0) heading \<and> f_le heading (f_mul (Fin 2) M_PI))"

text \<open>The left and the right velocity.\<close>

definition wheel_velocities :: "(cfloat \<Rightarrow> cfloat) \<Rightarrow> cfloat \<Rightarrow> cfloat \<Rightarrow> cfloat \<times> cfloat" where
  "wheel_velocities cosine speed heading =
     (if f_less heading (halved M_PI)
      then (f_mul (GetCosineMultiplier cosine heading) speed, speed)
      else if f_less heading M_PI
      then (f_mul (Fin (- 1)) speed,
            f_mul (GetCosineMultiplier cosine (f_sub round64 heading (halved M_PI))) speed)
      else if f_less heading (halved (f_mul (Fin 3) M_PI))
      then (f_mul (f_mul (Fin (- 1)) (GetCosineMultiplier cosine (f_sub round64 heading M_PI))) speed,
            f_mul (Fin (- 1)) speed)
      else (speed,
            f_mul (f_mul (Fin (- 1)) (GetCosineMultiplier cosine (f_sub round64 heading (halved (f_mul M_PI (Fin 3)))))) speed))"

definition on_controller :: "(claw, 'a) op \<Rightarrow> (drive_state, 'a) op" where
  "on_controller m d = (case m (controller d) of (r, c) \<Rightarrow> (r, d\<lparr>controller := c\<rparr>))"

definition SetHardware :: "(cfloat \<Rightarrow> cfloat) \<Rightarrow> (drive_state, unit) op" where
  "SetHardware cosine d = (case wheel_velocities cosine (SetSpeed d) (SetHeading d) of (left, right) \<Rightarrow>
     and_then (on_controller (SetMotorVelocity True left)) (\<lambda>_. on_controller (SetMotorVelocity False right)) d)"

definition Stop :: "(cfloat \<Rightarrow> cfloat) \<Rightarrow> (drive_state, unit) op" where
  "Stop cosine d = SetHardware cosine (d\<lparr>SetSpeed := Fin 0, SetHeading := Fin 0\<rparr>)"

definition Drive :: "(cfloat \<Rightarrow> cfloat) \<Rightarrow> cfloat \<Rightarrow> cfloat \<Rightarrow> (drive_state, bool) op" where
  "Drive cosine speed heading d =
     (if ValidateInput speed heading
      then and_then (SetHardware cosine) (\<lambda>_ d. (Returns True, d)) (d\<lparr>SetSpeed := speed, SetHeading := heading\<rparr>)
      else (Returns False, d))"

definition drive_SetRampSpeed :: "cfloat \<Rightarrow> drive_state \<Rightarrow> drive_state" where
  "drive_SetRampSpeed rampSpeed d =
     d\<lparr>controller := SetMotorRampSpeed True rampSpeed (SetMotorRampSpeed False rampSpeed (controller d))\<rparr>"

definition drive_GetRampSpeed :: "drive_state \<Rightarrow> exn + cfloat" where
  "drive_GetRampSpeed d = (let sp1 = GetMotorRampSpeed False (controller d); sp2 = GetMotorRampSpeed True (controller d) in
     if f_eq sp1 sp2 then Inr sp1 else Inl Runtime_error)"

text \<open>\<open>raw\<close> is as in \<open>claw_config_constructor\<close>.\<close>

definition drive_constructor ::
    "(cfloat \<Rightarrow> cfloat) \<Rightarrow> (string \<Rightarrow> bool) \<Rightarrow> configuration \<Rightarrow> claw \<Rightarrow> drive_state run" where
  "drive_constructor cosine opens config raw = (case FindConfigurationByTag ''ClawController'' config of
       None \<Rightarrow> Throws Runtime_error
     | Some clawConfig \<Rightarrow> (case claw_config_constructor opens clawConfig raw of
           Inl e \<Rightarrow> Throws e
         | Inr c \<Rightarrow> (case Stop cosine \<lparr>SetSpeed = NaN, SetHeading = NaN, controller = c\<rparr> of
               (Returns _, d) \<Rightarrow> Returns d
             | (Throws e, d) \<Rightarrow> Throws e
             | (Blocks, d) \<Rightarrow> Blocks
             | (Undefined, d) \<Rightarrow> Undefined)))"

section \<open>Velocities\<close>

definition unit_range :: "(cfloat \<Rightarrow> cfloat) \<Rightarrow> bool" where
  "unit_range cosine \<longleftrightarrow> (\<forall>x. \<exists>c. cosine (Fin x) = Fin c \<and> \<bar>c\<bar> \<le> 1)"

lemma round64_small:
  assumes "\<bar>x\<bar> \<le> of_nat n" and "n < 2 ^ 53"
  obtains r where "round64 x = Fin r" and "\<bar>r\<bar> \<le> of_nat n"
  using fround_within [OF round64_of_nat [OF assms(2)] assms(1)] by blast

lemma pi_constants:
  "halved M_PI = Fin (884279719003555 / 562949953421312)"
  "f_mul (Fin 2) M_PI = Fin (884279719003555 / 140737488355328)"
  "halved (f_mul (Fin 3) M_PI) = Fin (2652839157010665 / 562949953421312)"
  "f_mul M_PI (Fin 3) = f_mul (Fin 3) M_PI"
  by (simp_all add: float_eval M_PI_def halved_def f_mul_def)


lemma validated:
  assumes "ValidateInput speed heading"
  obtains s h where "speed = Fin s" and "0 \<le> s" and "s \<le> 100" and "heading = Fin h" and "0 \<le> h"
    and "h \<le> 884279719003555 / 140737488355328"
  using assms by (cases speed; cases heading) (auto simp: ValidateInput_def pi_constants f_le_def f_eq_def)

text \<open>The multiplier of a heading in range, with or without an offset subtracted.\<close>

lemma multiplier_range:
  assumes "unit_range cosine" and "\<bar>h\<bar> \<le> 8"
  shows "\<exists>c. GetCosineMultiplier cosine (Fin h) = Fin c \<and> \<bar>c\<bar> \<le> 1"
proof -
  obtain x where "f_mul (Fin 2) (Fin h) = Fin x"
    using round64_small [of "2 * h" 16] assms(2) by (auto simp: f_mul_def abs_mult)
  then show ?thesis using assms(1) by (simp add: GetCosineMultiplier_def unit_range_def)
qed

lemma offset_multiplier:
  assumes "unit_range cosine" and "0 \<le> h" and "h \<le> 7" and "0 \<le> k" and "k \<le> 7"
  obtains c where "GetCosineMultiplier cosine (f_sub round64 (Fin h) (Fin k)) = Fin c" and "\<bar>c\<bar> \<le> 1"
proof -
  obtain x where x: "round64 (h - k) = Fin x" "\<bar>x\<bar> \<le> 8"
  proof (rule round64_small [of "h - k" 8])
    show "\<bar>h - k\<bar> \<le> of_nat 8" using assms(2-5) by simp
  qed auto
  then show thesis using multiplier_range [OF assms(1) x(2)] that by (auto simp: f_sub_def)
qed

lemma neg_mul: "is_double (Fin y) \<Longrightarrow> f_mul (Fin (- 1)) (Fin y) = Fin (- y)"
  by (simp add: is_double_def f_mul_def fround_uminus)

lemma one_double: "is_double (Fin 1)"
  by (simp add: is_double_def float_eval)

lemma neg_multiplier: "\<bar>c\<bar> \<le> 1 \<Longrightarrow> \<exists>b. f_mul (Fin (- 1)) (Fin c) = Fin b \<and> \<bar>b\<bar> \<le> 1"
  using round64_small [of "- c" 1] by (auto simp: f_mul_def)

lemma wheel_range:
  assumes "unit_range cosine" and "ValidateInput (Fin s) (Fin h)" and "is_double (Fin s)"
  shows "\<exists>l r. wheel_velocities cosine (Fin s) (Fin h) = (Fin l, Fin r) \<and> \<bar>l\<bar> \<le> s \<and> \<bar>r\<bar> \<le> s \<and> (\<bar>l\<bar> = s \<or> \<bar>r\<bar> = s)"
proof -
  from assms(2) have s: "0 \<le> s" and h: "0 \<le> h" "h \<le> 7" by (auto elim: validated)
  note within = f_mul_within [OF assms(3) _ s]
  obtain c0 where c0: "GetCosineMultiplier cosine (Fin h) = Fin c0" "\<bar>c0\<bar> \<le> 1"
    using multiplier_range [OF assms(1), of h] h by auto
  note off = offset_multiplier [OF assms(1) h]
  obtain c1 where c1: "GetCosineMultiplier cosine (f_sub round64 (Fin h) (halved M_PI)) = Fin c1" "\<bar>c1\<bar> \<le> 1"
    using off [of "884279719003555 / 562949953421312"] by (auto simp: pi_constants)
  obtain c2 where c2: "GetCosineMultiplier cosine (f_sub round64 (Fin h) M_PI) = Fin c2" "\<bar>c2\<bar> \<le> 1"
    using off [of "884279719003555 / 281474976710656"] by (auto simp: M_PI_def)
  obtain c3 where c3: "GetCosineMultiplier cosine (f_sub round64 (Fin h) (halved (f_mul M_PI (Fin 3)))) = Fin c3" "\<bar>c3\<bar> \<le> 1"
    using off [of "2652839157010665 / 562949953421312"] by (auto simp: pi_constants)
  obtain b2 where b2: "f_mul (Fin (- 1)) (Fin c2) = Fin b2" "\<bar>b2\<bar> \<le> 1" using neg_multiplier [OF c2(2)] by blast
  obtain b3 where b3: "f_mul (Fin (- 1)) (Fin c3) = Fin b3" "\<bar>b3\<bar> \<le> 1" using neg_multiplier [OF c3(2)] by blast
  note neg = neg_mul [OF assms(3)]
  show ?thesis
    using within [OF c0(2)] within [OF c1(2)] within [OF b2(2)] within [OF b3(2)] s
    by (auto simp: wheel_velocities_def c0 c1 c2 c3 b2 b3 neg)
qed


section \<open>Packets for both wheels\<close>

lemma on_controller_Returns: "m (controller d) = (Returns x, c) \<Longrightarrow> on_controller m d = (Returns x, d\<lparr>controller := c\<rparr>)"
  by (simp add: on_controller_def)

text \<open>A packet that carries velocity \<open>v\<close> to a motor.\<close>

definition carries :: "32 word \<Rightarrow> bool \<Rightarrow> cfloat \<Rightarrow> 8 word list \<Rightarrow> bool" where
  "carries address second v p \<longleftrightarrow> valid_packet address p \<and> p ! 1 = velocity_command second v \<and> magnitude v = Some (p ! 2)"

lemma carries_packet: "magnitude v = Some mag \<Longrightarrow> carries a m v (velocity_packet m v mag a)"
  using velocity_packet_valid [of a m v mag] by (simp add: carries_def) (simp add: velocity_packet_def Let_def)

lemma set_hardware_answered:
  assumes "ready (controller d)" and "wheel_velocities cosine (SetSpeed d) (SetHeading d) = (l, r)" and "in_range l" and "in_range r"
    and "answers (controller d) = (d1, 0xFF) # (d2, 0xFF) # rest" and "d1 + d2 \<le> micros (Timeout (controller d))"
  obtains c' pl pr where "SetHardware cosine d = (Returns (), d\<lparr>controller := c'\<rparr>)" and "ready c'" and "answers c' = rest"
    and "micros (Timeout c') = micros (Timeout (controller d)) - (d1 + d2)" and "Address c' = Address (controller d)"
    and "written c' = written (controller d) @ [pl, pr]"
    and "carries (Address (controller d)) True l pl" and "carries (Address (controller d)) False r pr"
proof -
  have "d1 \<le> micros (Timeout (controller d))" using assms(6) by simp
  then obtain c1 ml where c1: "SetMotorVelocity True l (controller d) = (Returns (), c1)" "ready c1" "answers c1 = (d2, 0xFF) # rest"
    "micros (Timeout c1) = micros (Timeout (controller d)) - d1" "Address c1 = Address (controller d)"
    "written c1 = written (controller d) @ [velocity_packet True l ml (Address (controller d))]" "magnitude l = Some ml"
    using set_velocity_answered [OF assms(1,3,5), of True] by metis
  have "d2 \<le> micros (Timeout c1)" using c1(4) assms(6) by simp
  then obtain c2 mr where c2: "SetMotorVelocity False r c1 = (Returns (), c2)" "ready c2" "answers c2 = rest"
    "micros (Timeout c2) = micros (Timeout c1) - d2" "Address c2 = Address c1"
    "written c2 = written c1 @ [velocity_packet False r mr (Address c1)]" "magnitude r = Some mr"
    using set_velocity_answered [OF c1(2) assms(4) c1(3), of False] by metis
  have "SetHardware cosine d = (Returns (), d\<lparr>controller := c2\<rparr>)"
    using c1(1) c2(1) by (simp add: SetHardware_def assms(2) on_controller_Returns)
  with c1 c2 show thesis
    by (intro that [of c2 "velocity_packet True l ml (Address (controller d))" "velocity_packet False r mr (Address (controller d))"])
      (simp_all add: carries_packet)
qed

lemma set_hardware_late:
  assumes "ready (controller d)" and "wheel_velocities cosine (SetSpeed d) (SetHeading d) = (l, r)" and "in_range l"
    and "late (controller d)"
  obtains c' p where "SetHardware cosine d = (Throws Runtime_error, d\<lparr>controller := c'\<rparr>)" and "locked c'"
    and "written c' = written (controller d) @ [p]" and "carries (Address (controller d)) True l p"
proof -
  obtain c' mag where c': "SetMotorVelocity True l (controller d) = (Throws Runtime_error, c')" "locked c'"
    "written c' = written (controller d) @ [velocity_packet True l mag (Address (controller d))]" "magnitude l = Some mag"
    using set_velocity_late [OF assms(1,3,4), of True] by metis
  have "SetHardware cosine d = (Throws Runtime_error, d\<lparr>controller := c'\<rparr>)"
    using c'(1) by (simp add: SetHardware_def assms(2) on_controller_def and_then_def)
  with c' carries_packet [OF c'(4)] show thesis by (metis that)
qed

lemma set_hardware_locked:
  assumes "locked (controller d)" and "wheel_velocities cosine (SetSpeed d) (SetHeading d) = (l, r)" and "in_range l"
  shows "\<exists>c'. SetHardware cosine d = (Blocks, d\<lparr>controller := c'\<rparr>) \<and> locked c' \<and> written c' = written (controller d)"
  using set_velocity_locked [OF assms(1,3), of True] by (auto simp: SetHardware_def assms(2) on_controller_def and_then_def)

lemma in_range_Fin [simp]: "in_range (Fin x) \<longleftrightarrow> \<bar>x\<bar> \<le> 100"
  by (simp add: in_range_def)

lemma zero_wheels:
  assumes "unit_range cosine"
  shows "wheel_velocities cosine (Fin 0) (Fin 0) = (Fin 0, Fin 0)"
  using multiplier_range [OF assms, of 0] by (auto simp: wheel_velocities_def pi_constants f_mul_def fround_def)

lemma magnitude_0: "magnitude (Fin 0) = Some 0"
  by (simp add: magnitude_def f_scale_def fround_def to_uchar_def)

lemma drive_answered:
  assumes "unit_range cosine" and "ValidateInput (Fin s) (Fin h)" and "is_double (Fin s)" and "ready (controller d)"
    and "answers (controller d) = (d1, 0xFF) # (d2, 0xFF) # rest" and "d1 + d2 \<le> micros (Timeout (controller d))"
  obtains l r d' pl pr where "Drive cosine (Fin s) (Fin h) d = (Returns True, d')"
    and "wheel_velocities cosine (Fin s) (Fin h) = (Fin l, Fin r)" and "\<bar>l\<bar> \<le> s" and "\<bar>r\<bar> \<le> s" and "\<bar>l\<bar> = s \<or> \<bar>r\<bar> = s"
    and "written (controller d') = written (controller d) @ [pl, pr]"
    and "carries (Address (controller d)) True (Fin l) pl" and "carries (Address (controller d)) False (Fin r) pr"
proof -
  obtain l r where w: "wheel_velocities cosine (Fin s) (Fin h) = (Fin l, Fin r)" "\<bar>l\<bar> \<le> s" "\<bar>r\<bar> \<le> s" "\<bar>l\<bar> = s \<or> \<bar>r\<bar> = s"
    using wheel_range [OF assms(1-3)] by blast
  define e where "e = d\<lparr>SetSpeed := Fin s, SetHeading := Fin h\<rparr>"
  have "s \<le> 100" using assms(2) by (rule validated) simp
  with w have "in_range (Fin l)" "in_range (Fin r)" by simp_all
  moreover have "wheel_velocities cosine (SetSpeed e) (SetHeading e) = (Fin l, Fin r)" using w(1) by (simp add: e_def)
  moreover have "controller e = controller d" by (simp add: e_def)
  ultimately obtain c' pl pr where "SetHardware cosine e = (Returns (), e\<lparr>controller := c'\<rparr>)"
    "written c' = written (controller d) @ [pl, pr]" "carries (Address (controller d)) True (Fin l) pl"
    "carries (Address (controller d)) False (Fin r) pr"
    using set_hardware_answered [of e cosine "Fin l" "Fin r" d1 d2 rest] assms(4-6) by metis
  with assms(2) w show thesis
    by (intro that [of "e\<lparr>controller := c'\<rparr>" l r pl pr]) (simp_all add: Drive_def e_def [symmetric])
qed

section \<open>Properties\<close>

text \<open>C23: an accepted drive command that the controller acknowledges in time sends each
  wheel its velocity in a valid packet: both velocities stay within the commanded speed, and one of
  them is that speed or its negative, in every quadrant of the heading, whatever rounding does.\<close>

theorem drive_moves_wheels:
  assumes "unit_range cosine" and "ValidateInput (Fin s) (Fin h)" and "is_double (Fin s)" and "ready (controller d)"
    and "answers (controller d) = (d1, 0xFF) # (d2, 0xFF) # rest" and "d1 + d2 \<le> micros (Timeout (controller d))"
  shows "\<exists>l r d' pl pr. Drive cosine (Fin s) (Fin h) d = (Returns True, d') \<and>
    wheel_velocities cosine (Fin s) (Fin h) = (Fin l, Fin r) \<and> \<bar>l\<bar> \<le> s \<and> \<bar>r\<bar> \<le> s \<and> (\<bar>l\<bar> = s \<or> \<bar>r\<bar> = s) \<and>
    written (controller d') = written (controller d) @ [pl, pr] \<and>
    carries (Address (controller d)) True (Fin l) pl \<and> carries (Address (controller d)) False (Fin r) pr"
  using drive_answered [OF assms] by metis

theorem drive_moves_wheels_witness:
  "\<exists>l r d'. Drive (\<lambda>_. Fin (1 / 2)) (Fin 50) (Fin 2) \<lparr>SetSpeed = Fin 0, SetHeading = Fin 0,
       controller = sample_claw [(1000, 0xFF), (1000, 0xFF)]\<rparr> = (Returns True, d') \<and> (\<bar>l\<bar> = 50 \<or> \<bar>r\<bar> = (50 :: rat)) \<and>
     length (written (controller d')) = 2"
proof -
  have "unit_range (\<lambda>_. Fin (1 / 2))" unfolding unit_range_def by (intro allI exI [of _ "1 / 2"]) simp
  moreover have "ValidateInput (Fin 50) (Fin 2)" by (simp add: ValidateInput_def pi_constants f_le_def f_eq_def)
  moreover have "is_double (Fin 50)" by (simp add: is_double_def float_eval)
  ultimately show ?thesis
    using drive_moves_wheels [of "\<lambda>_. Fin (1 / 2)" 50 2 "\<lparr>SetSpeed = Fin 0, SetHeading = Fin 0,
      controller = sample_claw [(1000, 0xFF), (1000, 0xFF)]\<rparr>" 1000 1000 "[]"]
    by (auto simp: sample_claw_def ready_def micros_def)
qed

text \<open>C37: \<open>Stop\<close> sends both wheels the magnitude 0 when the controller acknowledges in time.\<close>

theorem stop_halts:
  assumes "unit_range cosine" and "ready (controller d)"
    and "answers (controller d) = (d1, 0xFF) # (d2, 0xFF) # rest" and "d1 + d2 \<le> micros (Timeout (controller d))"
  shows "\<exists>d' pl pr. Stop cosine d = (Returns (), d') \<and> written (controller d') = written (controller d) @ [pl, pr] \<and>
    valid_packet (Address (controller d)) pl \<and> valid_packet (Address (controller d)) pr \<and> pl ! 2 = 0 \<and> pr ! 2 = 0"
proof -
  define e where "e = d\<lparr>SetSpeed := Fin 0, SetHeading := Fin 0\<rparr>"
  have "wheel_velocities cosine (SetSpeed e) (SetHeading e) = (Fin 0, Fin 0)" using zero_wheels [OF assms(1)] by (simp add: e_def)
  moreover have "controller e = controller d" by (simp add: e_def)
  ultimately obtain c' pl pr where "SetHardware cosine e = (Returns (), e\<lparr>controller := c'\<rparr>)"
    "written c' = written (controller d) @ [pl, pr]" "carries (Address (controller d)) True (Fin 0) pl"
    "carries (Address (controller d)) False (Fin 0) pr"
    using set_hardware_answered [of e cosine "Fin 0" "Fin 0" d1 d2 rest] assms(2-4) in_range_Fin [of 0]
    by (metis abs_zero zero_le_numeral)
  then show ?thesis by (auto simp: Stop_def e_def carries_def magnitude_0)
qed

theorem stop_halts_witness:
  "\<exists>d' pl pr. Stop (\<lambda>_. Fin 1) \<lparr>SetSpeed = Fin 70, SetHeading = Fin 1,
       controller = sample_claw [(900000, 0xFF), (1000000, 0xFF)]\<rparr> = (Returns (), d') \<and>
     written (controller d') = [pl, pr] \<and> pl ! 2 = 0 \<and> pr ! 2 = 0"
  using stop_halts [of "\<lambda>_. Fin 1" "\<lparr>SetSpeed = Fin 70, SetHeading = Fin 1,
      controller = sample_claw [(900000, 0xFF), (1000000, 0xFF)]\<rparr>" 900000 1000000 "[]"]
  by (auto simp: sample_claw_def ready_def micros_def unit_range_def)

end
