(* ===== verification/Robot_Command.thy ===== *)
theory Robot_Command
  imports Robot_Run "HOL-Library.Monad_Syntax"
begin

text \<open>
  \<open>clank/lib/communication/Command.cpp\<close>: a line \<open>Module:Component.Property=(Value)\<close> is copied into a
  buffer of 256 bytes and cut into its four parts in place; the members point into the buffer.

  \<open>None\<close> is behaviour the language leaves undefined: \<open>strcpy\<close> past the end of the buffer, or
  \<open>strlen\<close> of a null pointer.
\<close>

section \<open>Commands\<close>

text \<open>The members \<open>Module\<close>, \<open>Component\<close>, \<open>Property\<close> and \<open>Value\<close> are positions in \<open>workBuf\<close>.\<close>

record command =
  workBuf :: string
  Module :: "nat option"
  Component :: "nat option"
  Property :: "nat option"
  Val :: "nat option"
  Valid :: bool
  errors :: "string list"

definition new_command :: command where
  "new_command = \<lparr>workBuf = replicate 256 NUL, Module = None, Component = None, Property = None, Val = None,
     Valid = False, errors = []\<rparr>"

text \<open>\<open>strlen\<close>, and what a getter's caller reads.\<close>

definition text_at :: "command \<Rightarrow> nat option \<Rightarrow> string option" where
  "text_at c p = (case p of None \<Rightarrow> None | Some i \<Rightarrow> c_str (workBuf c) i)"

definition isValid :: "command \<Rightarrow> bool option" where
  "isValid c = do {
     m \<leftarrow> text_at c (Module c);
     if length m = 0 then Some False else do {
       k \<leftarrow> text_at c (Component c);
       if length k = 0 then Some False else do {
         p \<leftarrow> text_at c (Property c);
         if length p = 0 then Some False else do {
           v \<leftarrow> text_at c (Val c);
           Some (length v \<noteq> 0)
         } } } }"

definition strcpy :: "string \<Rightarrow> string \<Rightarrow> string option" where
  "strcpy buf s = (if length s < length buf then Some (s @ NUL # drop (Suc (length s)) buf) else None)"

text \<open>\<open>Parse\<close> with the four parts given.\<close>

definition Parse_parts :: "nat option \<Rightarrow> nat option \<Rightarrow> nat option \<Rightarrow> nat option \<Rightarrow> command \<Rightarrow> bool \<times> command" where
  "Parse_parts m k p v c = (False, c\<lparr>Valid := False, Module := m, Component := k, Property := p, Val := v\<rparr>)"

definition Parse :: "string \<Rightarrow> command \<Rightarrow> (bool \<times> command) option" where
  "Parse str c = do {
     buf \<leftarrow> strcpy (workBuf c) str;
     s \<leftarrow> c_str buf 0;
     let c = c\<lparr>errors := [], Module := None, Component := None, Property := None, Val := None, workBuf := buf\<rparr>;
     case (strchr s CHR '':'', strchr s CHR ''.'', strstr s ''=('', strchr s CHR '')'') of
       (Some m, Some k, Some q, Some f) \<Rightarrow>
         Some (True, snd (Parse_parts (Some 0) (Some (m + 1)) (Some (k + 1)) (Some (q + 2))
           (c\<lparr>workBuf := buf[m := NUL, k := NUL, q := NUL, q + 1 := NUL, f := NUL]\<rparr>)))
     | _ \<Rightarrow> Some (False, c)
   }"

definition printCmd :: "command \<Rightarrow> string option" where
  "printCmd c = do {
     m \<leftarrow> text_at c (Module c);
     k \<leftarrow> text_at c (Component c);
     p \<leftarrow> text_at c (Property c);
     v \<leftarrow> text_at c (Val c);
     Some (m @ '':'' @ k @ ''.'' @ p @ ''=('' @ v @ '')'' @ [CHR 0x0A])
   }"

section \<open>Parsing a well-formed line\<close>

definition command_line :: "string \<Rightarrow> string \<Rightarrow> string \<Rightarrow> string \<Rightarrow> string" where
  "command_line m k p v = m @ CHR '':'' # k @ CHR ''.'' # p @ CHR ''='' # CHR ''('' # v @ [CHR '')'']"

text \<open>Parts that do not contain the marks in front of them, and no zero byte.\<close>

definition parts :: "string \<Rightarrow> string \<Rightarrow> string \<Rightarrow> string \<Rightarrow> bool" where
  "parts m k p v \<longleftrightarrow> NUL \<notin> set (m @ k @ p @ v) \<and> CHR '')'' \<notin> set (m @ k @ p @ v) \<and> CHR ''='' \<notin> set (m @ k @ p) \<and>
     CHR ''.'' \<notin> set (m @ k) \<and> CHR '':'' \<notin> set m"

lemma Parse_command_line:
  assumes "parts m k p v" and "length (command_line m k p v) < 256" and "length (workBuf c) = 256"
  obtains c' where "Parse (command_line m k p v) c = Some (True, c')" and "text_at c' (Module c') = Some m"
    and "text_at c' (Component c') = Some k" and "text_at c' (Property c') = Some p" and "text_at c' (Val c') = Some v"
    and "length (workBuf c') = 256" and "errors c' = []"
proof -
  define s where "s = command_line m k p v"
  define r where "r = drop (Suc (length s)) (workBuf c)"
  have n: "NUL \<notin> set m" "NUL \<notin> set k" "NUL \<notin> set p" "NUL \<notin> set v" "NUL \<notin> set s"
    using assms(1) by (auto simp: parts_def s_def command_line_def)
  have cp: "strcpy (workBuf c) s = Some (s @ NUL # r)"
    using assms(2,3) by (simp add: strcpy_def s_def r_def)
  have "strchr s CHR '':'' = Some (length m)"
    unfolding s_def command_line_def using assms(1) by (intro strchr_first) (simp add: parts_def)
  moreover have "strchr s CHR ''.'' = Some (length m + 1 + length k)"
    using strchr_first [of "CHR ''.''" "m @ CHR '':'' # k"] assms(1) by (simp add: s_def command_line_def parts_def)
  moreover have "strstr s ''=('' = Some (length m + 1 + length k + 1 + length p)"
    using strstr_first [of "''=(''" "m @ CHR '':'' # k @ CHR ''.'' # p" "v @ [CHR '')'']"] assms(1)
    by (simp add: s_def command_line_def parts_def)
  moreover have "strchr s CHR '')'' = Some (length m + 1 + length k + 1 + length p + 2 + length v)"
    using strchr_first [of "CHR '')''" "m @ CHR '':'' # k @ CHR ''.'' # p @ CHR ''='' # CHR ''('' # v" "[]"] assms(1)
    by (simp add: s_def command_line_def parts_def)
  moreover have "c_str (s @ NUL # r) 0 = Some s" using n(5) by (rule c_str_0)
  moreover define b where "b = m @ NUL # k @ NUL # p @ NUL # NUL # v @ NUL # NUL # r"
  moreover have "(s @ NUL # r)[length m := NUL, length m + 1 + length k := NUL, length m + 1 + length k + 1 + length p := NUL,
      length m + 1 + length k + 1 + length p + 1 := NUL, length m + 1 + length k + 1 + length p + 2 + length v := NUL] = b"
    by (simp add: s_def command_line_def b_def list_update_append)
  moreover define c' where "c' = c\<lparr>errors := [], workBuf := b, Valid := False, Module := Some 0,
      Component := Some (length m + 1), Property := Some (length m + 1 + length k + 1),
      Val := Some (length m + 1 + length k + 1 + length p + 2)\<rparr>"
  ultimately have P: "Parse s c = Some (True, c')" by (simp add: Parse_def cp Parse_parts_def)
  have t: "c_str b 0 = Some m" "c_str b (length m + 1) = Some k" "c_str b (length m + 1 + length k + 1) = Some p"
    "c_str b (length m + 1 + length k + 1 + length p + 2) = Some v"
    using c_str_0 [OF n(1)] c_str_append [OF n(2), of "m @ [NUL]"] c_str_append [OF n(3), of "m @ NUL # k @ [NUL]"]
      c_str_append [OF n(4), of "m @ NUL # k @ NUL # p @ [NUL, NUL]"]
    by (simp_all add: b_def add.assoc)
  have "length b = 256" using assms(2,3) by (simp add: b_def r_def s_def command_line_def)
  with P t show thesis unfolding s_def by (intro that [of c']) (simp_all add: text_at_def c'_def)
qed


lemma isValid_parts:
  assumes "text_at c (Module c) = Some m" and "text_at c (Component c) = Some k" and "text_at c (Property c) = Some p"
    and "text_at c (Val c) = Some v"
  shows "isValid c = Some (m \<noteq> [] \<and> k \<noteq> [] \<and> p \<noteq> [] \<and> v \<noteq> [])"
  using assms by (simp add: isValid_def)

text \<open>
  A line that lacks one of the four marks is reported as not parsed, and the check for validity takes
  the length of a null pointer; a line of 256 characters or more runs over the buffer.
\<close>

lemma malformed_command_undefined:
  assumes "NUL \<notin> set s" and "length (workBuf c) = 256"
  shows "if length s < 256
    then (CHR '':'' \<notin> set s \<or> CHR ''.'' \<notin> set s \<or> strstr s ''=('' = None \<or> CHR '')'' \<notin> set s \<longrightarrow>
      (\<exists>c'. Parse s c = Some (False, c') \<and> isValid c' = None))
    else Parse s c = None"
proof (cases "length s < 256")
  case True
  then have cp: "strcpy (workBuf c) s = Some (s @ NUL # drop (Suc (length s)) (workBuf c))"
    using assms(2) by (simp add: strcpy_def)
  have str: "c_str (s @ NUL # drop (Suc (length s)) (workBuf c)) 0 = Some s" using assms(1) by (rule c_str_0)
  have none: "x \<notin> set s \<Longrightarrow> strchr s x = None" for x by (induction s) auto
  have "\<exists>c'. Parse s c = Some (False, c') \<and> isValid c' = None"
    if "CHR '':'' \<notin> set s \<or> CHR ''.'' \<notin> set s \<or> strstr s ''=('' = None \<or> CHR '')'' \<notin> set s"
    using that none by (auto simp: Parse_def cp str Let_def isValid_def text_at_def split: option.split)
  with True show ?thesis by simp
next
  case False
  with assms(2) show ?thesis by (simp add: Parse_def strcpy_def)
qed

section \<open>Properties\<close>

text \<open>A line made of four parts that do not contain the marks in front of them is parsed
  into these parts, whatever the value contains beside a closing bracket; \<open>printCmd\<close> prints the line again
  and the command is valid exactly if no part is empty.\<close>

theorem command_roundtrip:
  assumes "parts m k p v" and "length (command_line m k p v) < 256" and "length (workBuf c) = 256"
  shows "\<exists>c'. Parse (command_line m k p v) c = Some (True, c') \<and> printCmd c' = Some (command_line m k p v @ [CHR 0x0A]) \<and>
    isValid c' = Some (m \<noteq> [] \<and> k \<noteq> [] \<and> p \<noteq> [] \<and> v \<noteq> []) \<and> text_at c' (Val c') = Some v"
proof -
  obtain c' where c': "Parse (command_line m k p v) c = Some (True, c')" "text_at c' (Module c') = Some m"
    "text_at c' (Component c') = Some k" "text_at c' (Property c') = Some p" "text_at c' (Val c') = Some v"
    using Parse_command_line [OF assms] by metis
  then have "printCmd c' = Some (command_line m k p v @ [CHR 0x0A])" by (simp add: printCmd_def command_line_def)
  with c' isValid_parts [OF c'(2-5)] show ?thesis by auto
qed

theorem command_roundtrip_witness:
  "\<exists>c'. Parse ''Base:base.drive=(50.0|1.57)'' new_command = Some (True, c') \<and> isValid c' = Some True \<and>
     text_at c' (Val c') = Some ''50.0|1.57''"
proof -
  have "parts ''Base'' ''base'' ''drive'' ''50.0|1.57''" by code_simp
  moreover have "length (command_line ''Base'' ''base'' ''drive'' ''50.0|1.57'') < 256" by code_simp
  ultimately show ?thesis
    using command_roundtrip [of "''Base''" "''base''" "''drive''" "''50.0|1.57''" new_command]
    by (auto simp: command_line_def new_command_def)
qed

end
