(* ===== verification/Robot_Teleop.thy ===== *)
theory Robot_Teleop
  imports Robot_Drive Robot_Command
begin

text \<open>
  \<open>clank/lib/robot/TeleoperatedRobot.cpp\<close>: what the robot does with a command of the TCP server and
  with a timeout of the watchdog.

  Both run with a mutex of the watchdog: \<open>Kick\<close> takes it for a moment, and the listeners are called
  while it is held. \<open>dog_held\<close> says that it is held for ever, because a listener did not return.
\<close>

section \<open>Operations\<close>

record robot =
  drive_module :: drive_state
  dog_held :: bool

definition on_drive :: "(drive_state, 'a) op \<Rightarrow> (robot, 'a) op" where
  "on_drive m rb = (case m (drive_module rb) of (r, d) \<Rightarrow> (r, rb\<lparr>drive_module := d\<rparr>))"

text \<open>\<open>Watchdog::Kick\<close> as its caller sees it.\<close>

definition Kick :: "(robot, unit) op" where
  "Kick rb = (if dog_held rb then (Blocks, rb) else (Returns (), rb))"

text \<open>
  The positions of \<open>substr\<close>: \<open>splitPos\<close> is an \<open>int\<close>, -1 when there is no bar; the length
  \<open>splitPos-1\<close> is converted to \<open>size_t\<close>.
\<close>

definition split_position :: "string \<Rightarrow> int" where
  "split_position value = (let p = find_first_of CHR ''|'' value in if p = npos then - 1 else p)"

definition first_number :: "string \<Rightarrow> exn + cfloat" where
  "first_number value = (case substr value 0 ((split_position value - 1) mod 4294967296) of
       Inl e \<Rightarrow> Inl e
     | Inr t \<Rightarrow> stod t)"

definition second_number :: "string \<Rightarrow> exn + cfloat" where
  "second_number value = (case substr value (split_position value + 1) npos of
       Inl e \<Rightarrow> Inl e
     | Inr t \<Rightarrow> stod t)"

text \<open>The block under \<open>try\<close> with its handler, which catches everything.\<close>

definition drive_command :: "(cfloat \<Rightarrow> cfloat) \<Rightarrow> string \<Rightarrow> (robot, string) op" where
  "drive_command cosine value rb = (case first_number value of
       Inl e \<Rightarrow> (Returns ''ERROR'', rb)
     | Inr r \<Rightarrow> (case second_number value of
           Inl e \<Rightarrow> (Returns ''ERROR'', rb)
         | Inr theta \<Rightarrow> (case on_drive (Drive cosine r theta) rb of
               (Returns _, rb') \<Rightarrow> (Returns ''OK'', rb')
             | (Throws e, rb') \<Rightarrow> (Returns ''ERROR'', rb')
             | (Blocks, rb') \<Rightarrow> (Blocks, rb')
             | (Undefined, rb') \<Rightarrow> (Undefined, rb'))))"

text \<open>A getter that returns a null pointer makes the comparisons and the copy of the value undefined.\<close>

definition OnCommandReceived :: "(cfloat \<Rightarrow> cfloat) \<Rightarrow> command \<Rightarrow> (robot, string) op" where
  "OnCommandReceived cosine c = and_then Kick (\<lambda>_ rb. case text_at c (Module c) of
       None \<Rightarrow> (Undefined, rb)
     | Some m \<Rightarrow> (if m \<noteq> ''Base'' then (Returns '''', rb) else case text_at c (Component c) of
           None \<Rightarrow> (Undefined, rb)
         | Some k \<Rightarrow> (if k \<noteq> ''base'' then (Returns '''', rb) else case text_at c (Property c) of
               None \<Rightarrow> (Undefined, rb)
             | Some p \<Rightarrow> (if p \<noteq> ''drive'' then (Returns '''', rb) else case text_at c (Val c) of
                   None \<Rightarrow> (Undefined, rb)
                 | Some value \<Rightarrow> drive_command cosine value rb))))"

text \<open>\<open>isConnected\<close> and \<open>isAlive\<close> are what the server answers.\<close>

definition OnWatchdogTimeout :: "(cfloat \<Rightarrow> cfloat) \<Rightarrow> bool \<Rightarrow> bool \<Rightarrow> (robot, unit) op" where
  "OnWatchdogTimeout cosine isConnected isAlive rb =
     (if \<not> isConnected \<or> isAlive then on_drive (Stop cosine) rb else (Throws Runtime_error, rb))"

text \<open>\<open>Watchdog::Alert\<close> in the watchdog's thread, which holds the mutex until the listener has returned.\<close>

definition watchdog_alert :: "(cfloat \<Rightarrow> cfloat) \<Rightarrow> bool \<Rightarrow> bool \<Rightarrow> (robot, unit) op" where
  "watchdog_alert cosine isConnected isAlive rb = (case OnWatchdogTimeout cosine isConnected isAlive rb of
       (Blocks, rb') \<Rightarrow> (Blocks, rb'\<lparr>dog_held := True\<rparr>)
     | other \<Rightarrow> other)"

section \<open>The two numbers\<close>

lemma split_position_bar: "CHR ''|'' \<notin> set a \<Longrightarrow> length a < 4294967295 \<Longrightarrow> split_position (a @ CHR ''|'' # b) = int (length a)"
  by (simp add: split_position_def find_first_of_first npos_def)

text \<open>The last character in front of the bar is cut off.\<close>

lemma first_number_bar:
  assumes "CHR ''|'' \<notin> set a" and "a \<noteq> []" and "length a < 4294967295"
  shows "first_number (a @ CHR ''|'' # b) = stod (butlast a)"
proof -
  have "1 \<le> length a" using assms(2) by (cases a) auto
  then have e: "(int (length a) - 1) mod 4294967296 = int (length a - 1)"
    using assms(2,3) by (subst mod_pos_pos_trivial) (simp_all add: of_nat_diff)
  have "substr (a @ CHR ''|'' # b) 0 (int (length a - 1)) = Inr (butlast a)" by (simp add: substr_def butlast_conv_take)
  then show ?thesis by (simp only: first_number_def split_position_bar [OF assms(1,3)] e sum.case)
qed

lemma second_number_bar:
  assumes "CHR ''|'' \<notin> set a" and "length a < 4294967295" and "length b \<le> 4294967295"
  shows "second_number (a @ CHR ''|'' # b) = stod b"
  using assms by (simp add: second_number_def split_position_bar substr_def npos_def nat_add_distrib)

lemma butlast_fixed: "butlast (fixed_text (Suc k) n) = fixed_text k (n div 10)"
  by (simp add: fixed_text_def butlast_append div_mult2_eq [symmetric] zdiv_zmult2_eq [symmetric] mult.commute)


section \<open>Printed commands\<close>

text \<open>The value of a drive command as the front end prints it: speed and heading with six decimals.\<close>

definition drive_value :: "int \<Rightarrow> int \<Rightarrow> string" where
  "drive_value r t = fixed_text 6 r @ CHR ''|'' # fixed_text 6 t"

lemma fixed_text_no:
  assumes "0 \<le> n" and "\<not> is_digit c" and "c \<noteq> CHR ''.''"
  shows "c \<notin> set (fixed_text k n)"
  using assms div_pow10_nonneg [of n k] by (auto simp: fixed_text_def dest: frac_digits_digits)

lemma length_decimal_text:
  assumes "0 \<le> n" and "n < 10 ^ (m + k)" and "0 < m"
  shows "length (fixed_text k n) \<le> m + 1 + k"
proof -
  have "n div 10 ^ k * 10 ^ k \<le> n" 
    using minus_mod_eq_div_mult [of n "10 ^ k"] pos_mod_sign [OF zero_less_power [of "10 :: int" k], of n] by linarith
  then have "n div 10 ^ k * 10 ^ k < 10 ^ m * 10 ^ k" using assms(2) unfolding power_add by linarith
  then have "n div 10 ^ k < 10 ^ m" by (rule mult_right_less_imp_less) simp
  then show ?thesis using length_digits10_le [of "n div 10 ^ k" "m - 1"] assms(3) by (simp add: fixed_text_def)
qed

lemma printed_numbers:
  assumes "0 \<le> r" and "r \<le> 100000000" and "0 \<le> t" and "t \<le> 6283185"
  obtains s h where "first_number (drive_value r t) = Inr (Fin s)" and "second_number (drive_value r t) = Inr (Fin h)"
    and "round64 (of_int (r div 10) / 100000) = Fin s" and "round64 (of_int t / 1000000) = Fin h"
    and "ValidateInput (Fin s) (Fin h)" and "is_double (Fin s)"
proof -
  have bar: "\<not> is_digit CHR ''|''" by (simp add: is_digit_def)
  have lr: "length (fixed_text 6 r) \<le> 10" and lt: "length (fixed_text 6 t) \<le> 8"
    using length_decimal_text [of r 3 6] length_decimal_text [of t 1 6] assms by simp_all
  have ne: "fixed_text 6 r \<noteq> []" by (simp add: fixed_text_def)
  have q: "0 \<le> r div 10" "r div 10 \<le> 10000000" using assms(1,2) by (simp_all add: pos_imp_zdiv_nonneg_iff)
  have big: "x < (pow2 1000 :: rat)" if "x \<le> 100" for x
  proof -
    have "(100 :: rat) < pow2 7" by (simp add: pow2_def)
    also have "pow2 7 \<le> pow2 1000" by (rule pow2_le) simp
    finally show ?thesis using that by simp
  qed
  have small: "pow2 (- 1022) \<le> of_int n / 10 ^ k" if "0 < n" "k \<le> 6" for n :: int and k
  proof -
    have "pow2 (- 1022) \<le> pow2 (- 20)" by (rule pow2_le) simp
    also have "pow2 (- 20) \<le> 1 / 10 ^ 6" by (simp add: pow2_def)
    also have "(1 :: rat) / 10 ^ 6 \<le> 1 / 10 ^ k" using power_increasing [OF that(2), of "10 :: rat"] by (intro frac_le) simp_all
    also have "\<dots> \<le> of_int n / 10 ^ k" using that(1) by (simp add: divide_right_mono)
    finally show ?thesis .
  qed
  have qr: "of_int (r div 10) / 100000 \<le> (100 :: rat)" "0 \<le> of_int (r div 10) / (100000 :: rat)" using q by simp_all
  have tr: "of_int t / 1000000 \<le> (6283185 / 1000000 :: rat)" "0 \<le> of_int t / (1000000 :: rat)" using assms(3,4) by simp_all
  have f: "first_number (drive_value r t) = stod (fixed_text 5 (r div 10))"
  proof -
    have "first_number (drive_value r t) = stod (butlast (fixed_text (Suc 5) r))"
      unfolding drive_value_def using fixed_text_no [OF assms(1) bar, of 6] ne lr by (subst first_number_bar) simp_all
    then show ?thesis by (simp only: butlast_fixed)
  qed
  have g: "second_number (drive_value r t) = stod (fixed_text 6 t)"
    unfolding drive_value_def using fixed_text_no [OF assms(1) bar, of 6] lr lt by (subst second_number_bar) simp_all
  have "stod (fixed_text 5 (r div 10)) = Inr (round64 (of_int (r div 10) / 10 ^ 5))"
    using stod_fixed [OF q(1), of 5] big [OF qr(1)] small [of "r div 10" 5] q(1) by (cases "r div 10 = 0") simp_all
  moreover have "stod (fixed_text 6 t) = Inr (round64 (of_int t / 10 ^ 6))"
    using stod_fixed [OF assms(3), of 6] big [of "of_int t / 1000000"] tr(1) small [of t 6] assms(3) by (cases "t = 0") simp_all
  moreover obtain s where s: "round64 (of_int (r div 10) / 100000) = Fin s" "\<bar>s\<bar> \<le> 100"
    using round64_small [of "of_int (r div 10) / 100000" 100] qr by auto
  moreover have "round64 (884279719003555 / 140737488355328) = Fin (884279719003555 / 140737488355328)" by (simp add: float_eval)
  from fround_within [OF this, of "of_int t / 1000000"] tr obtain h where h: "round64 (of_int t / 1000000) = Fin h"
    "\<bar>h\<bar> \<le> 884279719003555 / 140737488355328" by fastforce
  moreover have "0 \<le> s" "0 \<le> h" using fround_nonneg [OF qr(2) s(1)] fround_nonneg [OF tr(2) h(1)] by simp_all
  then have "ValidateInput (Fin s) (Fin h)" using s(2) h(2) by (auto simp: ValidateInput_def pi_constants f_le_def f_eq_def)
  moreover have "is_double (Fin s)" using s(1) by (rule is_double_round64)
  ultimately show thesis using that [of s h] f g by simp
qed


lemma OnCommandReceived_drive:
  assumes "\<not> dog_held rb" and "text_at c (Module c) = Some ''Base''" and "text_at c (Component c) = Some ''base''"
    and "text_at c (Property c) = Some ''drive''" and "text_at c (Val c) = Some v"
  shows "OnCommandReceived cosine c rb = drive_command cosine v rb"
  using assms by (simp add: OnCommandReceived_def Kick_def)


section \<open>Properties\<close>

text \<open>The speed of a drive command is read from the text in front of the bar
  without its last character, since the length handed to \<open>substr\<close> is one too small. A speed of one
  digit is an error; of the front end's six decimals the last one is lost.\<close>

theorem drive_speed_loses_last_character:
  assumes "CHR ''|'' \<notin> set a" and "a \<noteq> []" and "length a < 4294967295"
  shows "first_number (a @ CHR ''|'' # b) = stod (butlast a) \<and>
    (length a = 1 \<longrightarrow> drive_command cosine (a @ CHR ''|'' # b) rb = (Returns ''ERROR'', rb))"
proof -
  have f: "first_number (a @ CHR ''|'' # b) = stod (butlast a)" by (rule first_number_bar [OF assms])
  have "stod [] = Inl Invalid_argument" by code_simp
  moreover have "butlast a = []" if "length a = 1" using that by (cases a) auto
  ultimately show ?thesis using f by (simp add: drive_command_def)
qed

theorem drive_speed_loses_last_character_witness:
  "first_number ''50|0.0'' = Inr (Fin 5) \<and> (\<forall>rb. drive_command (\<lambda>_. Fin 1) ''5|0.0'' rb = (Returns ''ERROR'', rb))"
proof -
  have "stod ''5'' = Inr (Fin 5)" by (simp add: stod_def converts_def exact_magnitude_def number_start_def float_eval)
  with drive_speed_loses_last_character [of "''50''" "''0.0''" "\<lambda>_. Fin 1" undefined]
    drive_speed_loses_last_character [of "''5''" "''0.0''" "\<lambda>_. Fin 1"]
  show ?thesis by simp
qed

text \<open>C3: when the motor controller does not answer the first packet of a drive command
  in time, the command is answered with \<open>ERROR\<close> and the wheel keeps the velocity of that packet:
  the watchdog's next alert waits for ever in \<open>Stop\<close> without writing a packet, and every command
  after it waits for ever in \<open>Kick\<close>.\<close>

theorem lost_answer_runaway:
  assumes "unit_range cosine" and "0 \<le> r" and "r \<le> 100000000" and "0 \<le> t" and "t \<le> 6283185"
    and "text_at c (Module c) = Some ''Base''" and "text_at c (Component c) = Some ''base''"
    and "text_at c (Property c) = Some ''drive''" and "text_at c (Val c) = Some (drive_value r t)"
    and "\<not> dog_held rb" and "ready (controller (drive_module rb))" and "late (controller (drive_module rb))"
  shows "\<exists>rb1 rb2 p. OnCommandReceived cosine c rb = (Returns ''ERROR'', rb1) \<and>
    watchdog_alert cosine True True rb1 = (Blocks, rb2) \<and>
    written (controller (drive_module rb2)) = written (controller (drive_module rb)) @ [p] \<and>
    valid_packet (Address (controller (drive_module rb))) p \<and>
    (\<forall>c'. OnCommandReceived cosine c' rb2 = (Blocks, rb2))"
proof -
  define d where "d = drive_module rb"
  obtain s h where n: "first_number (drive_value r t) = Inr (Fin s)" "second_number (drive_value r t) = Inr (Fin h)"
    "ValidateInput (Fin s) (Fin h)" "is_double (Fin s)" by (rule printed_numbers [OF assms(2-5)])
  obtain vl vr where w: "wheel_velocities cosine (Fin s) (Fin h) = (Fin vl, Fin vr)" "\<bar>vl\<bar> \<le> s"
    using wheel_range [OF assms(1) n(3,4)] by blast
  have "s \<le> 100" using n(3) by (rule validated) simp
  with w(2) have v: "in_range (Fin vl)" by simp
  define e where "e = d\<lparr>SetSpeed := Fin s, SetHeading := Fin h\<rparr>"
  have e: "wheel_velocities cosine (SetSpeed e) (SetHeading e) = (Fin vl, Fin vr)" "controller e = controller d"
    using w(1) by (simp_all add: e_def)
  have "ready (controller e)" "late (controller e)" using assms(11,12) e(2) by (simp_all add: d_def)
  from set_hardware_late [OF this(1) e(1) v this(2)] obtain c1 p where
    h: "SetHardware cosine e = (Throws Runtime_error, e\<lparr>controller := c1\<rparr>)" "locked c1"
      "written c1 = written (controller d) @ [p]" "carries (Address (controller d)) True (Fin vl) p"
    using e(2) by metis
  define d1 where "d1 = e\<lparr>controller := c1\<rparr>"
  have "Drive cosine (Fin s) (Fin h) d = (Throws Runtime_error, d1)"
    using h(1) n(3) by (simp add: Drive_def e_def [symmetric] d1_def)
  then have cmd: "OnCommandReceived cosine c rb = (Returns ''ERROR'', rb\<lparr>drive_module := d1\<rparr>)"
    using OnCommandReceived_drive [OF assms(10,6-9)] n(1,2) by (simp add: drive_command_def on_drive_def d_def)
  define d2 where "d2 = d1\<lparr>SetSpeed := Fin 0, SetHeading := Fin 0\<rparr>"
  have "wheel_velocities cosine (SetSpeed d2) (SetHeading d2) = (Fin 0, Fin 0)" using zero_wheels [OF assms(1)] by (simp add: d2_def)
  moreover have "locked (controller d2)" using h(2) by (simp add: d2_def d1_def)
  moreover have "in_range (Fin 0)" by simp
  ultimately obtain c2 where s: "SetHardware cosine d2 = (Blocks, d2\<lparr>controller := c2\<rparr>)" "written c2 = written (controller d2)"
    using set_hardware_locked by metis
  define rb2 where "rb2 = rb\<lparr>drive_module := d2\<lparr>controller := c2\<rparr>, dog_held := True\<rparr>"
  have "Stop cosine d1 = (Blocks, d2\<lparr>controller := c2\<rparr>)" using s(1) by (simp add: Stop_def d2_def)
  then have "watchdog_alert cosine True True (rb\<lparr>drive_module := d1\<rparr>) = (Blocks, rb2)"
    by (simp add: watchdog_alert_def OnWatchdogTimeout_def on_drive_def rb2_def)
  moreover have "written (controller (drive_module rb2)) = written (controller (drive_module rb)) @ [p]"
    using s(2) h(3) by (simp add: rb2_def d2_def d1_def d_def)
  moreover have "OnCommandReceived cosine c' rb2 = (Blocks, rb2)" for c'
    by (simp add: OnCommandReceived_def Kick_def rb2_def and_then_def)
  moreover have "valid_packet (Address (controller (drive_module rb))) p" using h(4) by (simp add: carries_def d_def)
  ultimately show ?thesis using cmd by blast
qed


definition sample_robot :: "(nat \<times> 8 word) list \<Rightarrow> robot" where
  "sample_robot as = \<lparr>drive_module = \<lparr>SetSpeed = Fin 0, SetHeading = Fin 0, controller = sample_claw as\<rparr>, dog_held = False\<rparr>"

lemma drive_value_parts:
  assumes "0 \<le> r" and "r \<le> 100000000" and "0 \<le> t" and "t \<le> 6283185"
  shows "parts ''Base'' ''base'' ''drive'' (drive_value r t)"
    and "length (command_line ''Base'' ''base'' ''drive'' (drive_value r t)) < 256"
proof -
  have "length (fixed_text 6 r) \<le> 10" and "length (fixed_text 6 t) \<le> 8"
    using length_decimal_text [of r 3 6] length_decimal_text [of t 1 6] assms by simp_all
  then show "length (command_line ''Base'' ''base'' ''drive'' (drive_value r t)) < 256"
    by (simp add: command_line_def drive_value_def)
  have no: "c \<notin> set (drive_value r t)" if "\<not> is_digit c" "c \<noteq> CHR ''.''" "c \<noteq> CHR ''|''" for c
    using fixed_text_no [OF assms(1) that(1,2)] fixed_text_no [OF assms(3) that(1,2)] that(3) by (simp add: drive_value_def)
  have "NUL \<notin> set (drive_value r t)" and "CHR '')'' \<notin> set (drive_value r t)" by (rule no; simp add: is_digit_def)+
  then show "parts ''Base'' ''base'' ''drive'' (drive_value r t)" by (simp add: parts_def)
qed

theorem lost_answer_runaway_witness:
  "\<exists>c rb1 rb2. OnCommandReceived (\<lambda>_. Fin 1) c (sample_robot []) = (Returns ''ERROR'', rb1) \<and>
     text_at c (Val c) = Some (drive_value 50000000 1000000) \<and> watchdog_alert (\<lambda>_. Fin 1) True True rb1 = (Blocks, rb2)"
proof -
  obtain c where c: "text_at c (Module c) = Some ''Base''" "text_at c (Component c) = Some ''base''"
    "text_at c (Property c) = Some ''drive''" "text_at c (Val c) = Some (drive_value 50000000 1000000)"
    using Parse_command_line [OF drive_value_parts [of 50000000 1000000], of new_command] by (auto simp: new_command_def)
  have "unit_range (\<lambda>_. Fin 1)" by (simp add: unit_range_def)
  from lost_answer_runaway [OF this _ _ _ _ c, of "sample_robot []"] c(4) show ?thesis
    by (auto simp: sample_robot_def sample_claw_def ready_def late_def)
qed

end
