(* ===== verification/Robot_Server.thy ===== *)
theory Robot_Server
  imports Robot_Teleop
begin

text \<open>
  \<open>clank/lib/communication/TcpServer.cpp\<close>: the server's thread takes one connection at a time, reads
  packets that end in a newline, answers \<open>Ping\<close>, parses commands and hands them to its listeners;
  the robot registers one, \<open>OnCommandReceived\<close>.

  The network is the state's three lists: what \<open>accept\<close>, \<open>recv\<close> and \<open>send\<close> will return. When a list has
  ended, \<open>accept\<close> and \<open>recv\<close> wait for ever and \<open>send\<close> succeeds. Creating the listening socket and the
  messages printed to the console are left out.
\<close>

section \<open>State\<close>

text \<open>\<open>Accepted again\<close>: \<open>again\<close> tells that \<open>errno\<close> holds \<open>EAGAIN\<close>, from whatever call before.\<close>

datatype accept_result = Accept_failed | Accepted bool

datatype recv_result = Recv_failed | Peer_closed | Received string

datatype send_result = Send_failed | Send_nothing | Sent_all

record tcp_server =
  port :: string
  killAll :: bool
  islsock :: bool
  iscsock :: bool
  accepts :: "accept_result list"
  receipts :: "recv_result list"
  send_results :: "send_result list"
  sent :: "string list"
  robot :: robot

definition isConnected :: "tcp_server \<Rightarrow> bool" where
  "isConnected s \<longleftrightarrow> iscsock s"

definition isAlive :: "tcp_server \<Rightarrow> bool" where
  "isAlive s \<longleftrightarrow> \<not> killAll s \<and> iscsock s"

text \<open>The constructor: the port's text, cut to five characters.\<close>

definition tcp_config_constructor :: "configuration \<Rightarrow> exn + string" where
  "tcp_config_constructor config = (case GetConfigurationData config ''PortNumber'' of
       (False, _) \<Rightarrow> Inl Runtime_error
     | (True, portNumber) \<Rightarrow> (case stoi portNumber of
           Inl e \<Rightarrow> Inl e
         | Inr portNumberCheck \<Rightarrow>
             (if portNumberCheck < 10000 \<or> 99999 < portNumberCheck \<or> 6 < length portNumber then Inl Runtime_error
              else Inr (take 5 portNumber))))"

section \<open>Connections\<close>

definition close_connection :: "tcp_server \<Rightarrow> tcp_server" where
  "close_connection s = s\<lparr>iscsock := False\<rparr>"

fun accept_loop :: "bool \<Rightarrow> accept_result list \<Rightarrow> (int option \<times> accept_result list)" where
  "accept_loop kill [] = (None, [])"
| "accept_loop kill (Accept_failed # as) = (Some (- 1), as)"
| "accept_loop kill (Accepted again # as) = (if again \<and> \<not> kill then accept_loop kill as else (Some 0, as))"

text \<open>The result of \<open>wait_for_connection\<close> is ignored by its callers.\<close>

definition wait_for_connection :: "(tcp_server, int) op" where
  "wait_for_connection s =
     (let s = (if iscsock s then close_connection s else s) in
      case accept_loop (killAll s) (accepts s) of
        (None, as) \<Rightarrow> (Blocks, s\<lparr>accepts := as\<rparr>)
      | (Some r, as) \<Rightarrow>
          (Returns r, s\<lparr>accepts := as, iscsock := (if r = 0 \<and> \<not> killAll s then True else iscsock s)\<rparr>))"

section \<open>Packets\<close>

text \<open>
  The return code and the text in the buffer. A chunk longer than the 511 bytes asked for leaves its
  rest for the next call.
\<close>

definition Receive :: "nat \<Rightarrow> (tcp_server, int \<times> string) op" where
  "Receive bufsize s =
     (if \<not> iscsock s then (Returns (- 1, []), s)
      else case receipts s of
          [] \<Rightarrow> (Blocks, s)
        | Recv_failed # rs \<Rightarrow> (Returns (- 1, []), close_connection (s\<lparr>receipts := rs\<rparr>))
        | Peer_closed # rs \<Rightarrow> (Returns (- 2, []), close_connection (s\<lparr>receipts := rs\<rparr>))
        | Received bs # rs \<Rightarrow>
            (let str = take (bufsize - 1) bs;
                 s = s\<lparr>receipts := (if length bs \<le> bufsize - 1 then rs else Received (drop (bufsize - 1) bs) # rs)\<rparr>
             in if str = [] then (Returns (- 2, []), close_connection s)
                else if last str \<noteq> newline then (Returns (- 1, []), s)
                else (Returns (0, c_text (butlast str)), s)))"

definition Send :: "string \<Rightarrow> tcp_server \<Rightarrow> int \<times> tcp_server" where
  "Send str s =
     (if \<not> iscsock s then (- 1, s)
      else case send_results s of
          Send_failed # rs \<Rightarrow> (- 1, close_connection (s\<lparr>send_results := rs\<rparr>))
        | Send_nothing # rs \<Rightarrow> (0, close_connection (s\<lparr>send_results := rs\<rparr>))
        | rs \<Rightarrow> (0, s\<lparr>send_results := tl rs, sent := sent s @ [str @ [newline]]\<rparr>))"

section \<open>The thread\<close>

definition on_robot :: "(robot, 'a) op \<Rightarrow> (tcp_server, 'a) op" where
  "on_robot m s = (case m (robot s) of (r, rb) \<Rightarrow> (r, s\<lparr>robot := rb\<rparr>))"

definition send_nonempty :: "string \<Rightarrow> tcp_server \<Rightarrow> tcp_server" where
  "send_nonempty str s = (if str \<noteq> [] then snd (Send str s) else s)"

text \<open>A non-empty text that is not \<open>Ping\<close>: the branch of the loop that parses it.\<close>

definition handle_text :: "(cfloat \<Rightarrow> cfloat) \<Rightarrow> string \<Rightarrow> (tcp_server, unit) op" where
  "handle_text cosine buf s = (case Parse buf new_command of
       None \<Rightarrow> (Undefined, s)
     | Some (_, c) \<Rightarrow> (case isValid c of
           None \<Rightarrow> (Undefined, s)
         | Some False \<Rightarrow>
             (Returns (), if errors c \<noteq> [] then fold (\<lambda>e s. snd (Send e s)) (errors c) s
                else snd (Send (''INVALIDCMD'' @ [CHR 0x0D]) s))
         | Some True \<Rightarrow>
             and_then (on_robot (OnCommandReceived cosine c)) (\<lambda>result. modify_state (send_nonempty result)) s))"

text \<open>One turn of the loop.\<close>

definition server_turn :: "(cfloat \<Rightarrow> cfloat) \<Rightarrow> (tcp_server, unit) op" where
  "server_turn cosine = and_then (Receive 512) (\<lambda>(returnCode, buf).
     if returnCode < 0 then and_then wait_for_connection (\<lambda>_. modify_state (\<lambda>s. s))
     else if buf = ''Ping'' then modify_state (\<lambda>s. snd (Send ''Pong'' s))
     else if buf \<noteq> [] then handle_text cosine buf
     else and_then wait_for_connection (\<lambda>_. modify_state (\<lambda>s. s)))"

text \<open>The whole thread, for at most \<open>n\<close> turns; \<open>None\<close> when it has not ended by then.\<close>

fun server_loop :: "nat \<Rightarrow> (cfloat \<Rightarrow> cfloat) \<Rightarrow> tcp_server \<Rightarrow> (unit run \<times> tcp_server) option" where
  "server_loop 0 cosine s = None"
| "server_loop (Suc n) cosine s = (if \<not> isAlive s then Some (Returns (), s)
     else case server_turn cosine s of
         (Returns _, s') \<Rightarrow> server_loop n cosine s'
       | (r, s') \<Rightarrow> Some (r, s'))"

definition TCPServerThreadFxn :: "nat \<Rightarrow> (cfloat \<Rightarrow> cfloat) \<Rightarrow> tcp_server \<Rightarrow> (unit run \<times> tcp_server) option" where
  "TCPServerThreadFxn n cosine s = (case wait_for_connection s of
       (Returns _, s') \<Rightarrow> server_loop n cosine s'
     | (Throws e, s') \<Rightarrow> Some (Throws e, s')
     | (Blocks, s') \<Rightarrow> Some (Blocks, s')
     | (Undefined, s') \<Rightarrow> Some (Undefined, s'))"

text \<open>\<open>KillServer\<close>, up to cancelling and joining the thread.\<close>

definition KillServer :: "tcp_server \<Rightarrow> tcp_server" where
  "KillServer s = s\<lparr>iscsock := False, islsock := False, port := [], killAll := True\<rparr>"


section \<open>A packet\<close>

text \<open>A line without a zero byte that fits the buffer is received as it is.\<close>

lemma Receive_line:
  assumes "iscsock s" and "receipts s = Received (t @ [newline]) # rest" and "NUL \<notin> set t" and "length t < n - 1"
  shows "Receive n s = (Returns (0, t), s\<lparr>receipts := rest\<rparr>)"
  using assms by (simp add: Receive_def c_text_id)

lemma server_turn_text:
  assumes "iscsock s" and "receipts s = Received (t @ [newline]) # rest" and "NUL \<notin> set t" and "length t < 511"
    and "t \<noteq> []" and "t \<noteq> ''Ping''"
  shows "server_turn cosine s = handle_text cosine t (s\<lparr>receipts := rest\<rparr>)"
proof -
  have "Receive 512 s = (Returns (0, t), s\<lparr>receipts := rest\<rparr>)" using Receive_line [OF assms(1-3), of 512] assms(4) by simp
  then show ?thesis using assms(5,6) by (simp add: server_turn_def)
qed

lemma Send_default:
  "iscsock s \<Longrightarrow> send_results s = [] \<Longrightarrow> Send str s = (0, s\<lparr>sent := sent s @ [str @ [newline]]\<rparr>)"
  by (simp add: Send_def)

section \<open>Properties\<close>

text \<open>C1: a drive packet of the front end (speed up to 100 and heading up to a full
  turn, six decimals each), received by a connected server whose motor controller answers in time,
  is answered with \<open>OK\<close> and moves the wheels: two valid packets carry the velocities of the speed,
  without its last decimal, and the heading, both rounded to double.\<close>

theorem drive_packet_end_to_end:
  assumes "unit_range cosine" and "0 \<le> r" and "r \<le> 100000000" and "0 \<le> t" and "t \<le> 6283185"
    and "isAlive s" and "receipts s = Received (command_line ''Base'' ''base'' ''drive'' (drive_value r t) @ [newline]) # rest"
    and "send_results s = []" and "\<not> dog_held (robot s)" and "c = controller (drive_module (robot s))" and "ready c"
    and "answers c = (d1, 0xFF) # (d2, 0xFF) # as" and "d1 + d2 \<le> micros (Timeout c)"
  shows "\<exists>s' speed heading left right pl pr. server_turn cosine s = (Returns (), s') \<and> isAlive s' \<and>
    sent s' = sent s @ [''OK'' @ [newline]] \<and> receipts s' = rest \<and>
    round64 (of_int (r div 10) / 100000) = Fin speed \<and> round64 (of_int t / 1000000) = Fin heading \<and>
    wheel_velocities cosine (Fin speed) (Fin heading) = (Fin left, Fin right) \<and> \<bar>left\<bar> \<le> speed \<and> \<bar>right\<bar> \<le> speed \<and>
    written (controller (drive_module (robot s'))) = written c @ [pl, pr] \<and>
    carries (Address c) True (Fin left) pl \<and> carries (Address c) False (Fin right) pr"
proof -
  let ?t = "command_line ''Base'' ''base'' ''drive'' (drive_value r t)"
  note parts = drive_value_parts [OF assms(2-5)]
  have nul: "NUL \<notin> set ?t" using parts(1) by (auto simp: parts_def command_line_def)
  obtain speed heading where n: "first_number (drive_value r t) = Inr (Fin speed)" "second_number (drive_value r t) = Inr (Fin heading)"
    "round64 (of_int (r div 10) / 100000) = Fin speed" "round64 (of_int t / 1000000) = Fin heading"
    "ValidateInput (Fin speed) (Fin heading)" "is_double (Fin speed)" by (rule printed_numbers [OF assms(2-5)])
  obtain left right d' pl pr where d: "Drive cosine (Fin speed) (Fin heading) (drive_module (robot s)) = (Returns True, d')"
    "wheel_velocities cosine (Fin speed) (Fin heading) = (Fin left, Fin right)" "\<bar>left\<bar> \<le> speed" "\<bar>right\<bar> \<le> speed"
    "written (controller d') = written c @ [pl, pr]" "carries (Address c) True (Fin left) pl" "carries (Address c) False (Fin right) pr"
    using drive_answered [OF assms(1) n(5,6)] assms(10-13) by metis
  obtain k where k: "Parse ?t new_command = Some (True, k)" "text_at k (Module k) = Some ''Base''"
    "text_at k (Component k) = Some ''base''" "text_at k (Property k) = Some ''drive''" "text_at k (Val k) = Some (drive_value r t)"
    using Parse_command_line [OF parts, of new_command] by (auto simp: new_command_def)
  have "drive_value r t \<noteq> []" by (simp add: drive_value_def)
  with isValid_parts [OF k(2-5)] have valid: "isValid k = Some True" by simp
  define s1 where "s1 = s\<lparr>receipts := rest\<rparr>"
  define rb where "rb = (robot s)\<lparr>drive_module := d'\<rparr>"
  have con: "iscsock s1" "send_results s1 = []" "robot s1 = robot s" using assms(6,8) by (simp_all add: s1_def isAlive_def)
  have "OnCommandReceived cosine k (robot s) = (Returns ''OK'', rb)"
    using OnCommandReceived_drive [OF assms(9) k(2-5)] n(1,2) d(1) by (simp add: drive_command_def on_drive_def rb_def)
  then have "handle_text cosine ?t s1 = (Returns (), send_nonempty ''OK'' (s1\<lparr>robot := rb\<rparr>))"
    using k(1) valid con(3) by (simp add: handle_text_def on_robot_def and_then_def modify_state_def)
  moreover have "server_turn cosine s = handle_text cosine ?t s1"
    unfolding s1_def using assms(6,7) nul parts(2)
    by (intro server_turn_text) (simp_all add: isAlive_def command_line_def)
  moreover have "send_nonempty ''OK'' (s1\<lparr>robot := rb\<rparr>) = s1\<lparr>robot := rb, sent := sent s1 @ [''OK'' @ [newline]]\<rparr>"
    using con by (simp add: send_nonempty_def Send_default)
  ultimately have turn: "server_turn cosine s = (Returns (), s1\<lparr>robot := rb, sent := sent s1 @ [''OK'' @ [newline]]\<rparr>)" by simp
  show ?thesis
    using turn assms(6) n(3,4) d(2-7)
    by (intro exI [of _ "s1\<lparr>robot := rb, sent := sent s1 @ [''OK'' @ [newline]]\<rparr>"] exI [of _ speed] exI [of _ heading]
        exI [of _ left] exI [of _ right] exI [of _ pl] exI [of _ pr])
      (simp add: s1_def isAlive_def rb_def)
qed

definition sample_server :: "recv_result list \<Rightarrow> (nat \<times> 8 word) list \<Rightarrow> tcp_server" where
  "sample_server rs as = \<lparr>port = ''12345'', killAll = False, islsock = True, iscsock = True, accepts = [], receipts = rs,
     send_results = [], sent = [], robot = sample_robot as\<rparr>"

theorem drive_packet_end_to_end_witness:
  "\<exists>s'. server_turn (\<lambda>_. Fin 1)
       (sample_server [Received (command_line ''Base'' ''base'' ''drive'' (drive_value 50000000 1000000) @ [newline])] [(1000, 0xFF), (1000, 0xFF)])
       = (Returns (), s') \<and> sent s' = [''OK'' @ [newline]] \<and> length (written (controller (drive_module (robot s')))) = 2"
proof -
  have "unit_range (\<lambda>_. Fin 1)" by (simp add: unit_range_def)
  from drive_packet_end_to_end [OF this, of 50000000 1000000
      "sample_server [Received (command_line ''Base'' ''base'' ''drive'' (drive_value 50000000 1000000) @ [newline])] [(1000, 0xFF), (1000, 0xFF)]"
      "[]" _ 1000 1000 "[]"]
  show ?thesis by (auto simp: sample_server_def sample_robot_def sample_claw_def ready_def micros_def isAlive_def)
qed

text \<open>C24: one packet without a colon, a dot, \<open>=(\<close> or a closing bracket, or one of 256
  to 510 characters, makes the server's behaviour undefined: it takes the length of a null pointer, or
  runs over the command's buffer.\<close>

theorem malformed_packet_crashes:
  assumes "iscsock s" and "receipts s = Received (t @ [newline]) # rest" and "NUL \<notin> set t" and "length t < 511"
    and "t \<noteq> []" and "t \<noteq> ''Ping''"
    and "256 \<le> length t \<or> CHR '':'' \<notin> set t \<or> CHR ''.'' \<notin> set t \<or> strstr t ''=('' = None \<or> CHR '')'' \<notin> set t"
  shows "fst (server_turn cosine s) = Undefined"
proof -
  have "length (workBuf new_command) = 256" by (simp add: new_command_def)
  from malformed_command_undefined [OF assms(3) this] assms(7)
  have "Parse t new_command = None \<or> (\<exists>c. Parse t new_command = Some (False, c) \<and> isValid c = None)" by (auto split: if_splits)
  with server_turn_text [OF assms(1-6)] show ?thesis by (auto simp: handle_text_def)
qed

theorem malformed_packet_crashes_witness:
  "fst (server_turn (\<lambda>_. Fin 1) (sample_server [Received (''Status'' @ [newline])] [])) = Undefined"
  by (rule malformed_packet_crashes [of _ "''Status''" "[]"]) (simp_all add: sample_server_def)

end
