(* ===== verification/Robot_Watchdog.thy ===== *)
theory Robot_Watchdog
  imports Robot_Run Host_Config
begin

text \<open>
  \<open>clank/lib/timers/Watchdog.cpp\<close>: a thread that calls the registered listeners whenever nobody has
  kicked it for the configured time. Threads share the flag \<open>KeepRunning\<close>, the timeout, a mutex and
  a condition variable; the relation \<open>wd_step\<close> interleaves them at every access to these.
\<close>

section \<open>Construction and deadlines\<close>

text \<open>The timeout of the constructor, in milliseconds; \<open>0\<close> is refused, a negative one is not.\<close>

definition watchdog_constructor :: "configuration \<Rightarrow> exn + int" where
  "watchdog_constructor config = (case GetConfigurationData config ''Timeout'' of
       (False, _) \<Rightarrow> Inl Runtime_error
     | (True, startingTimeoutMs) \<Rightarrow> (case stoi startingTimeoutMs of
           Inl e \<Rightarrow> Inl e
         | Inr timeoutMs \<Rightarrow> (if timeoutMs = 0 then Inl Runtime_error else Inr timeoutMs)))"

text \<open>
  The absolute time to wait for: the current time in seconds and microseconds plus the timeout,
  computed in \<open>unsigned long long\<close> and stored in the 32-bit members of a \<open>timespec\<close>.
\<close>

definition wait_until :: "int \<Rightarrow> nat \<Rightarrow> int \<Rightarrow> int \<times> int" where
  "wait_until tv_sec tv_usec msTimeout =
     (let nsec = int tv_usec * 1000;
          newMillis = (word_of_int msTimeout :: 64 word) * 1000000 + word_of_int nsec
      in (sint (word_of_int (uint (word_of_int tv_sec + newMillis div 1000000000)) :: 32 word),
          uint (newMillis mod 1000000000)))"

section \<open>Threads\<close>

datatype worker =
    W_none
  | W_while
  | W_time
  | W_get
  | W_get_lock
  | W_get_read bool
  | W_get_test bool
  | W_get_unlock
  | W_lock bool
  | W_locked
  | W_wait
  | W_woken bool
  | W_test bool
  | W_alert nat
  | W_unlock
  | W_exit
  | W_undefined

text \<open>
  Where the worker is: at the test of the loop, reading the clock, in \<open>GetTimeoutMillis\<close> (the flag
  tells whether it has locked the mutex there), before locking the mutex for the wait (the flag
  tells whether it holds it already), about to wait, waiting, woken (the flag tells whether by the
  timeout) and getting the mutex back, testing, calling the listener with the number, unlocking,
  ended. \<open>W_undefined\<close> and \<open>C_undefined\<close>: a thread unlocks a mutex it does not hold, locks one that is not
  initialised, or initialises or destroys one in use.

  A client thread kicks, changes or reads the timeout (\<open>C_access\<close>: the new value or none), and client 0
  starts and stops the watchdog.
\<close>

datatype wd_client =
    C_ready
  | C_start_init | C_start_create
  | C_kick_lock | C_kick_signal | C_kick_unlock
  | C_access_lock "int option" | C_access "int option" bool | C_access_test bool | C_access_unlock
  | C_stop_lock | C_stop_set | C_stop_signal | C_stop_unlock | C_stop_join
  | C_thrown | C_undefined

datatype holder = Worker | Client nat

text \<open>
  Times are in nanoseconds and unbounded; \<open>deadline\<close> is what \<open>wait_until\<close> computes as long as the seconds fit into
  32 bits (deadline_exact). \<open>mutex_ready\<close>: the mutex is initialised and not destroyed.
\<close>

record watchdog =
  KeepRunning :: bool
  TimeoutMs :: int
  listeners :: nat
  mutex_ready :: bool
  owner :: "holder option"
  worker :: worker
  clients :: "nat \<Rightarrow> wd_client"
  now :: int
  started :: int
  deadline :: int

definition at_client :: "nat \<Rightarrow> wd_client \<Rightarrow> watchdog \<Rightarrow> watchdog" where
  "at_client i pc s = s\<lparr>clients := (clients s)(i := pc)\<rparr>"

text \<open>\<open>pthread_cond_signal\<close>: it wakes the worker if it waits, and is lost otherwise.\<close>

definition signal :: "watchdog \<Rightarrow> watchdog" where
  "signal s = (if worker s = W_wait then s\<lparr>worker := W_woken False\<rparr> else s)"

definition watchdog_start :: "int \<Rightarrow> nat \<Rightarrow> watchdog" where
  "watchdog_start timeout n = \<lparr>KeepRunning = False, TimeoutMs = timeout, listeners = n, mutex_ready = False, owner = None, worker = W_none,
     clients = (\<lambda>_. C_ready), now = 0, started = 0, deadline = 0\<rparr>"

text \<open>
  The places where a thread holds the mutex. The converse fails: a thread that has taken the mutex to
  access the timeout and finds \<open>KeepRunning\<close> cleared goes on without unlocking.
\<close>

fun worker_holds :: "worker \<Rightarrow> bool" where
  "worker_holds (W_get_read l) = l" | "worker_holds (W_get_test l) = l" | "worker_holds W_get_unlock = True"
| "worker_holds (W_lock l) = l" | "worker_holds W_locked = True" | "worker_holds (W_test t) = True"
| "worker_holds (W_alert i) = True" | "worker_holds W_unlock = True" | "worker_holds _ = False"

fun client_holds :: "wd_client \<Rightarrow> bool" where
  "client_holds C_kick_signal = True" | "client_holds C_kick_unlock = True" | "client_holds (C_access v l) = l"
| "client_holds (C_access_test l) = l" | "client_holds C_access_unlock = True" | "client_holds C_stop_set = True"
| "client_holds C_stop_signal = True" | "client_holds C_stop_unlock = True" | "client_holds _ = False"

text \<open>
  \<open>Start\<close> sets the flag, initialises the mutex and creates the worker, one after the other, so a client can find the flag set
  before the mutex is ready. A second \<open>Start\<close> initialises a mutex in use; \<open>Stop\<close> destroys the mutex, which may still be
  locked by a client that has found the flag cleared.
\<close>

inductive wd_step :: "watchdog \<Rightarrow> watchdog \<Rightarrow> bool" where
  time_passes: "0 \<le> d \<Longrightarrow> wd_step s (s\<lparr>now := now s + d\<rparr>)"
| while_on: "\<lbrakk>worker s = W_while; KeepRunning s\<rbrakk> \<Longrightarrow> wd_step s (s\<lparr>worker := W_time\<rparr>)"
| while_off: "\<lbrakk>worker s = W_while; \<not> KeepRunning s\<rbrakk> \<Longrightarrow> wd_step s (s\<lparr>worker := W_exit\<rparr>)"
| reads_clock: "worker s = W_time \<Longrightarrow> wd_step s (s\<lparr>worker := W_get, started := now s\<rparr>)"
| get_on: "\<lbrakk>worker s = W_get; KeepRunning s\<rbrakk> \<Longrightarrow> wd_step s (s\<lparr>worker := W_get_lock\<rparr>)"
| get_off: "\<lbrakk>worker s = W_get; \<not> KeepRunning s\<rbrakk> \<Longrightarrow> wd_step s (s\<lparr>worker := W_get_read False\<rparr>)"
| get_locks: "\<lbrakk>worker s = W_get_lock; owner s = None\<rbrakk> \<Longrightarrow> wd_step s (s\<lparr>worker := W_get_read True, owner := Some Worker\<rparr>)"
| get_reads: "worker s = W_get_read l \<Longrightarrow>
    wd_step s (s\<lparr>worker := W_get_test l, deadline := started s + TimeoutMs s * 1000000\<rparr>)"
| get_test_on: "\<lbrakk>worker s = W_get_test l; KeepRunning s\<rbrakk> \<Longrightarrow> wd_step s (s\<lparr>worker := (if l then W_get_unlock else W_undefined)\<rparr>)"
| get_test_off: "\<lbrakk>worker s = W_get_test l; \<not> KeepRunning s\<rbrakk> \<Longrightarrow> wd_step s (s\<lparr>worker := W_lock l\<rparr>)"
| get_unlocks: "worker s = W_get_unlock \<Longrightarrow> wd_step s (s\<lparr>worker := W_lock False, owner := None\<rparr>)"
| locks: "\<lbrakk>worker s = W_lock l; owner s = None\<rbrakk> \<Longrightarrow> wd_step s (s\<lparr>worker := W_locked, owner := Some Worker\<rparr>)"
| waits: "worker s = W_locked \<Longrightarrow> wd_step s (s\<lparr>worker := W_wait, owner := None\<rparr>)"
| wakes: "worker s = W_wait \<Longrightarrow> wd_step s (s\<lparr>worker := W_woken False\<rparr>)"
| times_out: "\<lbrakk>worker s = W_wait; deadline s \<le> now s\<rbrakk> \<Longrightarrow> wd_step s (s\<lparr>worker := W_woken True\<rparr>)"
| relocks: "\<lbrakk>worker s = W_woken t; owner s = None\<rbrakk> \<Longrightarrow> wd_step s (s\<lparr>worker := W_test t, owner := Some Worker\<rparr>)"
| alerts: "\<lbrakk>worker s = W_test True; KeepRunning s\<rbrakk> \<Longrightarrow> wd_step s (s\<lparr>worker := W_alert 0\<rparr>)"
| no_alert: "\<lbrakk>worker s = W_test t; \<not> (t \<and> KeepRunning s)\<rbrakk> \<Longrightarrow> wd_step s (s\<lparr>worker := W_unlock\<rparr>)"
| calls_listener: "\<lbrakk>worker s = W_alert i; i < listeners s\<rbrakk> \<Longrightarrow> wd_step s (s\<lparr>worker := W_alert (Suc i)\<rparr>)"
| alerted: "\<lbrakk>worker s = W_alert i; \<not> i < listeners s\<rbrakk> \<Longrightarrow> wd_step s (s\<lparr>worker := W_unlock\<rparr>)"
| unlocks: "worker s = W_unlock \<Longrightarrow> wd_step s (s\<lparr>worker := W_while, owner := None\<rparr>)"
| start_sets: "\<lbrakk>clients s 0 = C_ready; worker s = W_none\<rbrakk> \<Longrightarrow> wd_step s (at_client 0 C_start_init (s\<lparr>KeepRunning := True\<rparr>))"
| start_again: "\<lbrakk>clients s 0 = C_ready; worker s \<noteq> W_none\<rbrakk> \<Longrightarrow> wd_step s (at_client 0 C_undefined s)"
| start_inits: "clients s 0 = C_start_init \<Longrightarrow> wd_step s (at_client 0 C_start_create (s\<lparr>mutex_ready := True, owner := None\<rparr>))"
| start_creates: "clients s 0 = C_start_create \<Longrightarrow> wd_step s (at_client 0 C_ready (s\<lparr>worker := W_while\<rparr>))"
| locks_early: "\<lbrakk>clients s i = C_kick_lock \<or> (\<exists>v. clients s i = C_access_lock v) \<or> i = 0 \<and> clients s 0 = C_stop_lock; \<not> mutex_ready s\<rbrakk> \<Longrightarrow>
    wd_step s (at_client i C_undefined s)"
| adds_listener: "\<lbrakk>clients s 0 = C_ready; worker s = W_none\<rbrakk> \<Longrightarrow> wd_step s (s\<lparr>listeners := Suc (listeners s)\<rparr>)"
| kick_on: "\<lbrakk>clients s i = C_ready; KeepRunning s\<rbrakk> \<Longrightarrow> wd_step s (at_client i C_kick_lock s)"
| kick_locks: "\<lbrakk>clients s i = C_kick_lock; owner s = None; mutex_ready s\<rbrakk> \<Longrightarrow> wd_step s (at_client i C_kick_signal (s\<lparr>owner := Some (Client i)\<rparr>))"
| kick_signals: "clients s i = C_kick_signal \<Longrightarrow> wd_step s (at_client i C_kick_unlock (signal s))"
| kick_unlocks: "clients s i = C_kick_unlock \<Longrightarrow> wd_step s (at_client i C_ready (s\<lparr>owner := None\<rparr>))"
| set_refused: "\<lbrakk>clients s i = C_ready; ms \<le> (0 :: int)\<rbrakk> \<Longrightarrow> wd_step s (at_client i C_thrown s)"
| access_on: "\<lbrakk>clients s i = C_ready; KeepRunning s; v \<noteq> None \<longrightarrow> 0 < the v\<rbrakk> \<Longrightarrow> wd_step s (at_client i (C_access_lock v) s)"
| access_off: "\<lbrakk>clients s i = C_ready; \<not> KeepRunning s; v \<noteq> None \<longrightarrow> 0 < the v\<rbrakk> \<Longrightarrow> wd_step s (at_client i (C_access v False) s)"
| access_locks: "\<lbrakk>clients s i = C_access_lock v; owner s = None; mutex_ready s\<rbrakk> \<Longrightarrow>
    wd_step s (at_client i (C_access v True) (s\<lparr>owner := Some (Client i)\<rparr>))"
| accesses: "clients s i = C_access v l \<Longrightarrow>
    wd_step s (at_client i (C_access_test l) (s\<lparr>TimeoutMs := (case v of None \<Rightarrow> TimeoutMs s | Some ms \<Rightarrow> ms)\<rparr>))"
| access_test_on: "\<lbrakk>clients s i = C_access_test l; KeepRunning s\<rbrakk> \<Longrightarrow>
    wd_step s (at_client i (if l then C_access_unlock else C_undefined) s)"
| access_test_off: "\<lbrakk>clients s i = C_access_test l; \<not> KeepRunning s\<rbrakk> \<Longrightarrow> wd_step s (at_client i C_ready s)"
| access_unlocks: "clients s i = C_access_unlock \<Longrightarrow> wd_step s (at_client i C_ready (s\<lparr>owner := None\<rparr>))"
| stop_on: "\<lbrakk>clients s 0 = C_ready; KeepRunning s\<rbrakk> \<Longrightarrow> wd_step s (at_client 0 C_stop_lock s)"
| stop_locks: "\<lbrakk>clients s 0 = C_stop_lock; owner s = None; mutex_ready s\<rbrakk> \<Longrightarrow> wd_step s (at_client 0 C_stop_set (s\<lparr>owner := Some (Client 0)\<rparr>))"
| stop_sets: "clients s 0 = C_stop_set \<Longrightarrow> wd_step s (at_client 0 C_stop_signal (s\<lparr>KeepRunning := False\<rparr>))"
| stop_signals: "clients s 0 = C_stop_signal \<Longrightarrow> wd_step s (at_client 0 C_stop_unlock (signal s))"
| stop_unlocks: "clients s 0 = C_stop_unlock \<Longrightarrow> wd_step s (at_client 0 C_stop_join (s\<lparr>owner := None\<rparr>))"
| stop_joins: "\<lbrakk>clients s 0 = C_stop_join; worker s = W_exit; owner s = None\<rbrakk> \<Longrightarrow>
    wd_step s (at_client 0 C_ready (s\<lparr>worker := W_none, mutex_ready := False\<rparr>))"
| stop_joins_locked: "\<lbrakk>clients s 0 = C_stop_join; worker s = W_exit; owner s \<noteq> None\<rbrakk> \<Longrightarrow> wd_step s (at_client 0 C_undefined s)"

inductive wd_reachable :: "watchdog \<Rightarrow> bool" where
  initially: "wd_reachable (watchdog_start timeout n)"
| after_step: "wd_reachable s \<Longrightarrow> wd_step s s' \<Longrightarrow> wd_reachable s'"

section \<open>The life of the mutex\<close>

text \<open>There is a mutex as long as there is a worker; nobody holds it before.\<close>

definition mutex_life :: "watchdog \<Rightarrow> bool" where
  "mutex_life s \<longleftrightarrow> (\<not> mutex_ready s \<longrightarrow> owner s = None \<and> worker s = W_none) \<and>
     (clients s 0 = C_start_init \<longrightarrow> \<not> mutex_ready s) \<and> (clients s 0 = C_start_create \<longrightarrow> mutex_ready s \<and> worker s = W_none) \<and>
     (worker s = W_none \<and> clients s 0 \<noteq> C_start_create \<longrightarrow> \<not> mutex_ready s)"

section \<open>Mutual exclusion\<close>

definition exclusive :: "watchdog \<Rightarrow> bool" where
  "exclusive s \<longleftrightarrow> (worker_holds (worker s) \<longrightarrow> owner s = Some Worker) \<and>
     (\<forall>i. client_holds (clients s i) \<longrightarrow> owner s = Some (Client i)) \<and>
     (\<forall>i. worker s = W_alert i \<longrightarrow> KeepRunning s)"

lemma signal_simps [simp]:
  "mutex_ready (signal s) = mutex_ready s" "KeepRunning (signal s) = KeepRunning s" "TimeoutMs (signal s) = TimeoutMs s" "listeners (signal s) = listeners s"
  "owner (signal s) = owner s" "clients (signal s) = clients s" "now (signal s) = now s"
  "started (signal s) = started s" "deadline (signal s) = deadline s"
  "worker (signal s) = (if worker s = W_wait then W_woken False else worker s)"
  by (simp_all add: signal_def)

lemma at_client_simps [simp]:
  "mutex_ready (at_client i pc s) = mutex_ready s" "KeepRunning (at_client i pc s) = KeepRunning s" "TimeoutMs (at_client i pc s) = TimeoutMs s"
  "listeners (at_client i pc s) = listeners s" "owner (at_client i pc s) = owner s" "worker (at_client i pc s) = worker s"
  "now (at_client i pc s) = now s" "started (at_client i pc s) = started s" "deadline (at_client i pc s) = deadline s"
  "clients (at_client i pc s) = (clients s)(i := pc)"
  by (simp_all add: at_client_def)

lemma exclusive_owner: "exclusive s \<Longrightarrow> clients s i = pc \<Longrightarrow> client_holds pc \<Longrightarrow> owner s = Some (Client i)"
  by (auto simp: exclusive_def)

lemma exclusive_worker: "exclusive s \<Longrightarrow> owner s \<noteq> Some Worker \<Longrightarrow> \<not> worker_holds (worker s)"
  by (auto simp: exclusive_def)

lemma not_alert: "\<not> worker_holds (worker s) \<Longrightarrow> worker s \<noteq> W_alert i"
  by auto

lemma exclusive_release:
  assumes "exclusive s" and "clients s i = pc" and "client_holds pc" and "\<not> client_holds pc'"
  shows "exclusive (at_client i pc' (s\<lparr>owner := None\<rparr>))"
proof -
  have o: "owner s = Some (Client i)" using assms(1-3) by (rule exclusive_owner)
  then have "\<not> client_holds (clients s j)" if "j \<noteq> i" for j using assms(1) that by (auto simp: exclusive_def)
  moreover have "\<not> worker_holds (worker s)" using exclusive_worker [OF assms(1)] o by simp
  ultimately show ?thesis using assms(4) not_alert [of s] by (auto simp: exclusive_def)
qed

lemma exclusive_move:
  assumes "exclusive s" and "client_holds pc' \<longrightarrow> client_holds (clients s i)"
  shows "exclusive (at_client i pc' s)" and "exclusive (at_client i pc' (signal s))"
  using assms by (auto simp: exclusive_def)

lemma mutex_life_step:
  assumes "mutex_life s" and "wd_step s s'"
  shows "mutex_life s'"
  using assms(2,1) by cases (auto simp: mutex_life_def)

lemma exclusive_step:
  assumes "mutex_life s" and "exclusive s" and "wd_step s s'"
  shows "exclusive s'"
  using assms(3)
proof cases
  case start_inits
  with assms(1) have "owner s = None" by (simp add: mutex_life_def)
  with start_inits assms(2) show ?thesis by (auto simp: exclusive_def)
next
  case start_creates
  with assms(1,2) show ?thesis by (auto simp: exclusive_def mutex_life_def)
next
  case (kick_unlocks i)
  then show ?thesis using exclusive_release [OF assms(2)] by simp
next
  case (access_unlocks i)
  then show ?thesis using exclusive_release [OF assms(2)] by simp
next
  case stop_unlocks
  then show ?thesis using exclusive_release [OF assms(2)] by simp
next
  case stop_sets
  then have "\<not> worker_holds (worker s)" using exclusive_worker [OF assms(2)] exclusive_owner [OF assms(2)] by fastforce
  then show ?thesis using assms(2) stop_sets not_alert [of s] by (auto simp: exclusive_def)
next
  case (kick_signals i)
  then show ?thesis using exclusive_move(2) [OF assms(2)] by simp
next
  case stop_signals
  then show ?thesis using exclusive_move(2) [OF assms(2)] by simp
qed (use assms(2) in \<open>auto simp: exclusive_def split: if_splits\<close>)

lemma exclusive_start: "exclusive (watchdog_start timeout n)"
  by (simp add: exclusive_def watchdog_start_def)

lemma reachable_exclusive: "wd_reachable s \<Longrightarrow> mutex_life s \<and> exclusive s"
proof (induction rule: wd_reachable.induct)
  case (initially timeout n)
  then show ?case using exclusive_start by (simp add: mutex_life_def watchdog_start_def)
next
  case (after_step s s')
  then show ?case using mutex_life_step exclusive_step by blast
qed

section \<open>Deadlines\<close>

fun timed_out :: "worker \<Rightarrow> bool" where
  "timed_out (W_woken t) = t" | "timed_out (W_test t) = t" | "timed_out (W_alert i) = True" | "timed_out _ = False"

lemma timed_out_step:
  assumes "timed_out (worker s) \<longrightarrow> deadline s \<le> now s" and "wd_step s s'"
  shows "timed_out (worker s') \<longrightarrow> deadline s' \<le> now s'"
  using assms(2,1) by cases auto

lemma reachable_timed_out: "wd_reachable s \<Longrightarrow> timed_out (worker s) \<longrightarrow> deadline s \<le> now s"
proof (induction rule: wd_reachable.induct)
  case (initially timeout n)
  then show ?case by (simp add: watchdog_start_def)
next
  case (after_step s s')
  from timed_out_step [OF after_step.IH after_step.hyps(2)] show ?case .
qed

lemma sint_small: "0 \<le> x \<Longrightarrow> x < 2 ^ 31 \<Longrightarrow> sint (word_of_int x :: 32 word) = x"
  by (simp add: sint_uint uint_word_of_int signed_take_bit_int_eq_self)

lemma wait_until_exact:
  assumes "0 < ms" and "ms < 2 ^ 31" and "tv_usec < 1000000" and "0 \<le> tv_sec" and "tv_sec + ms div 1000 + 1 < 2 ^ 31"
    and "wait_until tv_sec tv_usec ms = (sec, nsec)"
  shows "sec * 1000000000 + nsec = tv_sec * 1000000000 + int tv_usec * 1000 + ms * 1000000 \<and> 0 \<le> nsec \<and> nsec < 1000000000"
proof -
  define n where "n = ms * 1000000 + int tv_usec * 1000"
  have n: "0 \<le> n" "n < 2 ^ 64" using assms(1-3) by (auto simp: n_def)
  let ?w = "(word_of_int ms :: 64 word) * 1000000 + word_of_int (int tv_usec * 1000)"
  have "?w = word_of_int n" by (simp add: n_def)
  then have u: "uint ?w = n" using n by (simp add: uint_word_of_int)
  have ns: "nsec = n mod 1000000000"
    using assms(6) u by (simp add: wait_until_def Let_def uint_mod)
  have q: "n div 1000000000 \<le> ms div 1000 + 1" "0 \<le> n div 1000000000" using assms(3) n(1) by (simp_all add: n_def)
  have W: "uint (word_of_int tv_sec + ?w div 1000000000) = tv_sec + n div 1000000000"
  proof -
    have "uint (?w div 1000000000) = n div 1000000000" using u by (simp add: uint_div)
    moreover have "uint (word_of_int tv_sec :: 64 word) = tv_sec" using assms(1,2,4,5) by (simp add: uint_word_of_int)
    moreover have "tv_sec + n div 1000000000 < 2 ^ 64"
      using assms(5) q by (rule_tac order.strict_trans [of _ "2 ^ 31"]) simp_all
    ultimately show ?thesis using assms(4) q(2) by (simp add: uint_word_ariths)
  qed
  have "sec = sint (word_of_int (tv_sec + n div 1000000000) :: 32 word)"
    using assms(6) unfolding wait_until_def Let_def W by (simp only: prod.inject)
  also have "\<dots> = tv_sec + n div 1000000000"
    using assms(4,5) q by (intro sint_small) simp_all
  finally have sec: "sec = tv_sec + n div 1000000000" .
  have "sec * 1000000000 + nsec = tv_sec * 1000000000 + n" unfolding sec ns by (simp add: algebra_simps)
  then show ?thesis using ns by (simp add: n_def)
qed


section \<open>A deadlock\<close>

text \<open>
  The worker holds the mutex it is about to lock, and client 0 waits in \<open>Stop\<close> for the worker to end.
\<close>

definition deadlocked :: "watchdog \<Rightarrow> bool" where
  "deadlocked s \<longleftrightarrow> worker s = W_lock True \<and> owner s = Some Worker \<and> \<not> KeepRunning s \<and> clients s 0 = C_stop_join"

lemma deadlocked_step:
  assumes "exclusive s" and "deadlocked s" and "wd_step s s'"
  shows "deadlocked s'"
proof -
  have free: "\<not> client_holds (clients s i)" for i using assms(1,2) by (auto simp: exclusive_def deadlocked_def)
  have "clients s i \<noteq> C_kick_unlock" "clients s i \<noteq> C_access_unlock" for i using free [of i] by auto
  with assms(3,2) show ?thesis by cases (auto simp: deadlocked_def intro!: gr0I)
qed

lemma deadlocked_steps:
  "wd_step\<^sup>*\<^sup>* s s' \<Longrightarrow> mutex_life s \<and> exclusive s \<Longrightarrow> deadlocked s \<Longrightarrow> (mutex_life s' \<and> exclusive s') \<and> deadlocked s'"
  by (induction rule: rtranclp_induct) (auto intro: mutex_life_step exclusive_step deadlocked_step)

text \<open>A watchdog that has just been started.\<close>

definition just_started :: "int \<Rightarrow> nat \<Rightarrow> watchdog" where
  "just_started timeout n = (watchdog_start timeout n)\<lparr>KeepRunning := True, mutex_ready := True, worker := W_while\<rparr>"

lemma reachable_just_started: "wd_reachable (just_started timeout n)"
proof -
  define s0 where "s0 = watchdog_start timeout n"
  have r0: "wd_reachable s0" unfolding s0_def by (rule initially)
  define s1 where "s1 = at_client 0 C_start_init (s0\<lparr>KeepRunning := True\<rparr>)"
  have r1: "wd_reachable s1" unfolding s1_def by (rule after_step [OF r0], rule start_sets) (simp_all add: s0_def watchdog_start_def)
  define s2 where "s2 = at_client 0 C_start_create (s1\<lparr>mutex_ready := True, owner := None\<rparr>)"
  have r2: "wd_reachable s2" unfolding s2_def by (rule after_step [OF r1], rule start_inits) (simp add: s1_def)
  have "wd_step s2 (at_client 0 C_ready (s2\<lparr>worker := W_while\<rparr>))" by (rule start_creates) (simp add: s2_def)
  moreover have "at_client 0 C_ready (s2\<lparr>worker := W_while\<rparr>) = just_started timeout n"
    by (simp add: just_started_def s2_def s1_def s0_def at_client_def watchdog_start_def fun_eq_iff)
  ultimately show ?thesis using r2 by (metis after_step)
qed

lemma deadlock_reachable: "\<exists>s. wd_reachable s \<and> deadlocked s \<and> TimeoutMs s = timeout"
proof -
  define s1 where "s1 = just_started timeout n"
  have r1: "wd_reachable s1" unfolding s1_def by (rule reachable_just_started)
  define s2 where "s2 = s1\<lparr>worker := W_time\<rparr>"
  have r2: "wd_reachable s2" unfolding s2_def by (rule after_step [OF r1], rule while_on) (simp_all add: s1_def just_started_def)
  define s3 where "s3 = s2\<lparr>worker := W_get, started := now s2\<rparr>"
  have r3: "wd_reachable s3" unfolding s3_def by (rule after_step [OF r2], rule reads_clock) (simp add: s2_def)
  define s4 where "s4 = s3\<lparr>worker := W_get_lock\<rparr>"
  have r4: "wd_reachable s4" unfolding s4_def by (rule after_step [OF r3], rule get_on) (simp_all add: s3_def s2_def s1_def just_started_def)
  define s5 where "s5 = at_client 0 C_stop_lock s4"
  have r5: "wd_reachable s5" unfolding s5_def
    by (rule after_step [OF r4], rule stop_on) (simp_all add: s4_def s3_def s2_def s1_def just_started_def watchdog_start_def)
  define s6 where "s6 = at_client 0 C_stop_set (s5\<lparr>owner := Some (Client 0)\<rparr>)"
  have r6: "wd_reachable s6" unfolding s6_def
    by (rule after_step [OF r5], rule stop_locks) (simp_all add: s5_def s4_def s3_def s2_def s1_def just_started_def watchdog_start_def)
  define s7 where "s7 = at_client 0 C_stop_signal (s6\<lparr>KeepRunning := False\<rparr>)"
  have r7: "wd_reachable s7" unfolding s7_def by (rule after_step [OF r6], rule stop_sets) (simp add: s6_def)
  define s8 where "s8 = at_client 0 C_stop_unlock (signal s7)"
  have r8: "wd_reachable s8" unfolding s8_def by (rule after_step [OF r7], rule stop_signals) (simp add: s7_def)
  define s9 where "s9 = at_client 0 C_stop_join (s8\<lparr>owner := None\<rparr>)"
  have r9: "wd_reachable s9" unfolding s9_def by (rule after_step [OF r8], rule stop_unlocks) (simp add: s8_def)
  have w9: "worker s9 = W_get_lock" "owner s9 = None" "\<not> KeepRunning s9" "clients s9 0 = C_stop_join" "TimeoutMs s9 = timeout"
    by (simp_all add: s9_def s8_def s7_def s6_def s5_def s4_def s3_def s2_def s1_def just_started_def watchdog_start_def)
  define s10 where "s10 = s9\<lparr>worker := W_get_read True, owner := Some Worker\<rparr>"
  have r10: "wd_reachable s10" unfolding s10_def by (rule after_step [OF r9], rule get_locks) (simp_all add: w9)
  define s11 where "s11 = s10\<lparr>worker := W_get_test True, deadline := started s10 + TimeoutMs s10 * 1000000\<rparr>"
  have r11: "wd_reachable s11" unfolding s11_def by (rule after_step [OF r10], rule get_reads) (simp add: s10_def)
  define s12 where "s12 = s11\<lparr>worker := W_lock True\<rparr>"
  have r12: "wd_reachable s12" unfolding s12_def
    by (rule after_step [OF r11], rule get_test_off) (simp_all add: s11_def s10_def w9)
  have "deadlocked s12 \<and> TimeoutMs s12 = timeout" by (simp add: deadlocked_def s12_def s11_def s10_def w9)
  with r12 show ?thesis by blast
qed

section \<open>Properties\<close>

text \<open>C18: the listeners are only called while the watchdog runs, with the mutex held and after
  the deadline has passed, in every interleaving with clients that kick, stop and change the timeout;
  so none is called once \<open>Stop\<close> has cleared \<open>KeepRunning\<close>.\<close>

theorem alert_guarded:
  assumes "wd_reachable s" and "worker s = W_alert i"
  shows "KeepRunning s \<and> owner s = Some Worker \<and> deadline s \<le> now s"
  using reachable_exclusive [OF assms(1)] reachable_timed_out [OF assms(1)] assms(2) by (auto simp: exclusive_def)

theorem alert_guarded_witness: "\<exists>s. wd_reachable s \<and> worker s = W_alert 0 \<and> KeepRunning s \<and> deadline s \<le> now s"
proof -
  define s1 where "s1 = just_started 2 1"
  have r1: "wd_reachable s1" unfolding s1_def by (rule reachable_just_started)
  define s2 where "s2 = s1\<lparr>worker := W_time\<rparr>"
  have r2: "wd_reachable s2" unfolding s2_def by (rule after_step [OF r1], rule while_on) (simp_all add: s1_def just_started_def)
  define s3 where "s3 = s2\<lparr>worker := W_get, started := now s2\<rparr>"
  have r3: "wd_reachable s3" unfolding s3_def by (rule after_step [OF r2], rule reads_clock) (simp add: s2_def)
  define s4 where "s4 = s3\<lparr>worker := W_get_lock\<rparr>"
  have r4: "wd_reachable s4" unfolding s4_def by (rule after_step [OF r3], rule get_on) (simp_all add: s3_def s2_def s1_def just_started_def)
  define s5 where "s5 = s4\<lparr>worker := W_get_read True, owner := Some Worker\<rparr>"
  have r5: "wd_reachable s5" unfolding s5_def
    by (rule after_step [OF r4], rule get_locks) (simp_all add: s4_def s3_def s2_def s1_def just_started_def watchdog_start_def)
  define s6 where "s6 = s5\<lparr>worker := W_get_test True, deadline := started s5 + TimeoutMs s5 * 1000000\<rparr>"
  have r6: "wd_reachable s6" unfolding s6_def by (rule after_step [OF r5], rule get_reads) (simp add: s5_def)
  define s7 where "s7 = s6\<lparr>worker := (if True then W_get_unlock else W_undefined)\<rparr>"
  have r7: "wd_reachable s7" unfolding s7_def
    by (rule after_step [OF r6], rule get_test_on [where l = True]) (simp_all add: s6_def s5_def s4_def s3_def s2_def s1_def just_started_def watchdog_start_def)
  define s8 where "s8 = s7\<lparr>worker := W_lock False, owner := None\<rparr>"
  have r8: "wd_reachable s8" unfolding s8_def by (rule after_step [OF r7], rule get_unlocks) (simp add: s7_def)
  define s9 where "s9 = s8\<lparr>worker := W_locked, owner := Some Worker\<rparr>"
  have r9: "wd_reachable s9" unfolding s9_def by (rule after_step [OF r8], rule locks [where l = False]) (simp_all add: s8_def)
  define s10 where "s10 = s9\<lparr>worker := W_wait, owner := None\<rparr>"
  have r10: "wd_reachable s10" unfolding s10_def by (rule after_step [OF r9], rule waits) (simp add: s9_def)
  define s11 where "s11 = s10\<lparr>now := now s10 + 2000000\<rparr>"
  have r11: "wd_reachable s11" unfolding s11_def by (rule after_step [OF r10], rule time_passes) simp
  define s12 where "s12 = s11\<lparr>worker := W_woken True\<rparr>"
  have r12: "wd_reachable s12" unfolding s12_def
    by (rule after_step [OF r11], rule times_out)
      (simp_all add: s11_def s10_def s9_def s8_def s7_def s6_def s5_def s4_def s3_def s2_def s1_def just_started_def watchdog_start_def)
  define s13 where "s13 = s12\<lparr>worker := W_test True, owner := Some Worker\<rparr>"
  have r13: "wd_reachable s13" unfolding s13_def
    by (rule after_step [OF r12], rule relocks [where t = True]) (simp_all add: s12_def s11_def s10_def s9_def)
  define s14 where "s14 = s13\<lparr>worker := W_alert 0\<rparr>"
  have r14: "wd_reachable s14" unfolding s14_def
    by (rule after_step [OF r13], rule alerts)
      (simp_all add: s13_def s12_def s11_def s10_def s9_def s8_def s7_def s6_def s5_def s4_def s3_def s2_def s1_def just_started_def watchdog_start_def)
  have "worker s14 = W_alert 0" by (simp add: s14_def)
  with alert_guarded [OF r14 this] r14 show ?thesis by blast
qed

text \<open>C20: \<open>Stop\<close> can wait for ever. If it clears \<open>KeepRunning\<close> while the worker waits for
  the mutex in \<open>GetTimeoutMillis\<close>, the worker takes the mutex, does not unlock it, and locks it
  again; whatever happens from then on, \<open>Stop\<close> does not return.\<close>

theorem stop_deadlock:
  "\<exists>s. wd_reachable s \<and> TimeoutMs s = timeout \<and> clients s 0 = C_stop_join \<and>
    \<not> (\<exists>s'. wd_step\<^sup>*\<^sup>* s s' \<and> clients s' 0 \<noteq> C_stop_join)"
proof -
  obtain s where s: "wd_reachable s" "deadlocked s" "TimeoutMs s = timeout" using deadlock_reachable by blast
  have "clients s' 0 = C_stop_join" if "wd_step\<^sup>*\<^sup>* s s'" for s'
    using deadlocked_steps [OF that reachable_exclusive [OF s(1)] s(2)] by (simp add: deadlocked_def)
  with s show ?thesis by (auto simp: deadlocked_def)
qed

text \<open>The deadline handed to \<open>pthread_cond_timedwait\<close> is a normalised time exactly the
  timeout after the current time, as long as the seconds fit their 32 bits.\<close>

theorem deadline_exact:
  assumes "0 < ms" and "ms < 2 ^ 31" and "tv_usec < 1000000" and "0 \<le> tv_sec" and "tv_sec + ms div 1000 + 1 < 2 ^ 31"
  shows "\<exists>sec nsec. wait_until tv_sec tv_usec ms = (sec, nsec) \<and> 0 \<le> nsec \<and> nsec < 1000000000 \<and>
    sec * 1000000000 + nsec = tv_sec * 1000000000 + int tv_usec * 1000 + ms * 1000000"
  using wait_until_exact [OF assms] by (metis surj_pair)

theorem deadline_exact_witness:
  "\<exists>sec nsec. wait_until 1700000000 999999 2000 = (sec, nsec) \<and> sec * 1000000000 + nsec = 1700000002999999000"
  using deadline_exact [of 2000 999999 1700000000] by auto

end
