(* ===== verification/Host_Reader.thy ===== *)
theory Host_Reader
  imports Host_Config
begin

text \<open>
  What the reader of indented files does: it terminates on every text that is empty or ends in a
  newline, it reads back the document that was written, and without the newline behind the last line of
  a document of more than one line it does not return. The proofs go through \<open>line_kind\<close>, what the loop makes of a
  line, and \<open>ahead\<close>, the line read ahead together with the rest of the stream.
\<close>

text \<open>What the loop makes of the line it has read ahead.\<close>

datatype line_kind = Closing | Malformed exn | Nested string | Entry string string

definition line_kind :: "nat \<Rightarrow> string \<Rightarrow> line_kind" where
  "line_kind level line = (let l = GetLevel line in
     if l = level \<or> line = [] then Closing
     else if l \<noteq> level + 1 then (if level < l then Malformed Runtime_error else Closing)
     else case FormatTag line l of
         Inl e \<Rightarrow> Malformed e
       | Inr (True, t) \<Rightarrow> Nested t
       | Inr (False, _) \<Rightarrow> (case FormatKeyValuePair line l of
             Inl e \<Rightarrow> Malformed e
           | Inr (True, k, v) \<Rightarrow> Entry k v
           | Inr (False, _) \<Rightarrow> Malformed Runtime_error))"

lemma read_children_Suc:
  "read_children (Suc f) s level line c = (case line_kind level line of
       Closing \<Rightarrow> Some (Inr (c, s, line))
     | Malformed e \<Rightarrow> Some (Inl e)
     | Nested t \<Rightarrow> (case ReadConfigurationHelper f s (level + 1) t line of
           None \<Rightarrow> None
         | Some (Inl e) \<Rightarrow> Some (Inl e)
         | Some (Inr (child, s', line')) \<Rightarrow> read_children f s' level line' (AddChildConfiguration child c))
     | Entry k v \<Rightarrow> (case getline newline line s of (_, line', s') \<Rightarrow>
           read_children f s' level line' (AddConfigurationData k v c)))"
  by (simp add: read_children.simps(2) line_kind_def Let_def split: sum.split prod.split bool.split)

lemma ReadConfigurationHelper_Suc:
  "ReadConfigurationHelper (Suc f) s level tag line =
     (let (_, line', s') = getline newline line s in read_children f s' level line' (SetTag tag new_configuration))"
  by (simp add: ReadConfigurationHelper.simps(2))

lemma more_fuel_step:
  "(ReadConfigurationHelper f s level tag line = Some r \<longrightarrow> ReadConfigurationHelper (Suc f) s level tag line = Some r) \<and>
   (read_children f s level' line c = Some r' \<longrightarrow> read_children (Suc f) s level' line c = Some r')"
proof (induction f arbitrary: s level tag level' line c r r')
  case 0
  then show ?case by simp
next
  case (Suc f)
  note H = Suc.IH [THEN conjunct1, rule_format] and C = Suc.IH [THEN conjunct2, rule_format]
  have 1: "ReadConfigurationHelper (Suc (Suc f)) s level tag line = Some r"
    if "ReadConfigurationHelper (Suc f) s level tag line = Some r"
    using that by (auto simp: ReadConfigurationHelper_Suc split: prod.splits dest: C)
  have 2: "read_children (Suc (Suc f)) s level' line c = Some r'"
    if r: "read_children (Suc f) s level' line c = Some r'"
  proof (cases "line_kind level' line")
    case (Nested t)
    from r Nested obtain q where q: "ReadConfigurationHelper f s (level' + 1) t line = Some q"
      by (auto simp: read_children_Suc split: option.splits)
    show ?thesis
      by (subst read_children_Suc) (use r Nested q H [OF q] C in \<open>auto simp: read_children_Suc [of f] split: sum.splits\<close>)
  next
    case (Entry k v)
    obtain ok l' s' where g: "getline newline line s = (ok, l', s')" by (metis prod_cases3)
    from r Entry g have "read_children f s' level' l' (AddConfigurationData k v c) = Some r'"
      by (simp add: read_children_Suc)
    from C [OF this] Entry g show ?thesis by (subst read_children_Suc) simp
  qed (use r in \<open>simp_all add: read_children_Suc\<close>)
  from 1 2 show ?case by blast
qed

lemma more_fuel:
  "ReadConfigurationHelper f s level tag line = Some r \<Longrightarrow> ReadConfigurationHelper (f + k) s level tag line = Some r"
  "read_children f s level line c = Some r' \<Longrightarrow> read_children (f + k) s level line c = Some r'"
proof -
  show "ReadConfigurationHelper f s level tag line = Some r \<Longrightarrow> ReadConfigurationHelper (f + k) s level tag line = Some r"
    using more_fuel_step by (induction k) auto
  show "read_children f s level line c = Some r' \<Longrightarrow> read_children (f + k) s level line c = Some r'"
    using more_fuel_step by (induction k) auto
qed

text \<open>
  Termination. When every line of the rest of the file ends in a newline, the end of the stream leaves
  an empty line behind, which closes every level.
\<close>

definition complete_lines :: "in_stream \<Rightarrow> string \<Rightarrow> bool" where
  "complete_lines s line \<longleftrightarrow> (case s of None \<Rightarrow> line = [] | Some r \<Rightarrow> r = [] \<or> last r = newline)"

lemma getline_complete:
  assumes "complete_lines s line" and "getline newline line s = (ok, line', s')"
  shows "complete_lines s' line'" and "stream_size s' \<le> stream_size s"
    and "line' = [] \<or> stream_size s' < stream_size s"
proof -
  show "stream_size s' \<le> stream_size s" using getline_shrinks [OF assms(2)] by simp
  have "complete_lines s' line' \<and> (line' = [] \<or> stream_size s' < stream_size s)"
  proof (cases s)
    case None
    with assms show ?thesis by (auto simp: complete_lines_def)
  next
    case (Some r)
    show ?thesis
    proof (cases "newline \<in> set r")
      case True
      then obtain f q where r: "r = f @ newline # q" "newline \<notin> set f" by (auto dest: split_list_first)
      with assms Some have "s' = Some q" by simp
      with assms(1) Some r show ?thesis
        by (auto simp: complete_lines_def stream_size_def split: if_splits)
    next
      case False
      with assms(1) Some have "r = []" by (cases r rule: rev_cases) (auto simp: complete_lines_def)
      with assms(2) Some show ?thesis by (auto simp: complete_lines_def)
    qed
  qed
  then show "complete_lines s' line'" and "line' = [] \<or> stream_size s' < stream_size s" by auto
qed

lemma line_kind_empty [simp]: "line_kind level [] = Closing"
  by (simp add: line_kind_def)

text \<open>The fuel a call needs is twice what is left to read.\<close>

definition returns :: "in_stream \<Rightarrow> (in_stream \<Rightarrow> string \<Rightarrow> bool) \<Rightarrow> read_result \<Rightarrow> bool" where
  "returns s Q q \<longleftrightarrow> (\<exists>r. q = Some r \<and> (\<forall>c s' line'. r = Inr (c, s', line') \<longrightarrow>
     complete_lines s' line' \<and> stream_size s' \<le> stream_size s \<and> Q s' line'))"

abbreviation progress :: "in_stream \<Rightarrow> in_stream \<Rightarrow> string \<Rightarrow> bool" where
  "progress s s' line' \<equiv> line' = [] \<or> stream_size s' < stream_size s"

lemma returns_mono:
  assumes "returns s1 Q1 q" and "stream_size s1 \<le> stream_size s"
    and "\<And>s' line'. stream_size s' \<le> stream_size s1 \<Longrightarrow> Q1 s' line' \<Longrightarrow> Q s' line'"
  shows "returns s Q q"
proof -
  from assms(1) obtain r where r: "q = Some r" "\<And>c s' line'. r = Inr (c, s', line') \<Longrightarrow>
     complete_lines s' line' \<and> stream_size s' \<le> stream_size s1 \<and> Q1 s' line'"
    by (auto simp: returns_def)
  have "complete_lines s' line' \<and> stream_size s' \<le> stream_size s \<and> Q s' line'" if "r = Inr (c, s', line')" for c s' line'
    using r(2) [OF that] assms(2,3) by auto
  with r(1) show ?thesis by (auto simp: returns_def)
qed

lemma reader_terminates:
  "(complete_lines s line \<longrightarrow> 2 * stream_size s + 2 \<le> f \<longrightarrow>
      returns s (progress s) (ReadConfigurationHelper f s level tag line)) \<and>
   (complete_lines s line \<longrightarrow> 0 < f \<longrightarrow> line = [] \<or> 2 * stream_size s + 3 \<le> f \<longrightarrow>
      returns s (\<lambda>s' line'. line = [] \<longrightarrow> line' = []) (read_children f s level line c))"
proof (induction f arbitrary: s level tag line c)
  case 0
  then show ?case by simp
next
  case (Suc f)
  note H = Suc.IH [THEN conjunct1, rule_format] and C = Suc.IH [THEN conjunct2, rule_format]
  have 1: "returns s (progress s) (ReadConfigurationHelper (Suc f) s level tag line)"
    if cl: "complete_lines s line" and f: "2 * stream_size s + 2 \<le> Suc f"
  proof -
    obtain ok l1 s1 where g: "getline newline line s = (ok, l1, s1)" by (metis prod_cases3)
    note gc = getline_complete [OF cl g]
    have "returns s1 (\<lambda>s' line'. l1 = [] \<longrightarrow> line' = []) (read_children f s1 level l1 (SetTag tag new_configuration))"
      using gc f by (intro C) auto
    then have "returns s (progress s) (read_children f s1 level l1 (SetTag tag new_configuration))"
      by (rule returns_mono) (use gc in auto)
    with g show ?thesis by (simp add: ReadConfigurationHelper_Suc)
  qed
  have 2: "returns s (\<lambda>s' line'. line = [] \<longrightarrow> line' = []) (read_children (Suc f) s level line c)"
    if cl: "complete_lines s line" and f: "line = [] \<or> 2 * stream_size s + 3 \<le> Suc f"
  proof (cases "line_kind level line")
    case Closing
    with cl show ?thesis by (simp add: read_children_Suc returns_def)
  next
    case (Malformed e)
    then show ?thesis by (simp add: read_children_Suc returns_def)
  next
    case (Nested t)
    then have "line \<noteq> []" by auto
    with f have f2: "2 * stream_size s + 2 \<le> f" by simp
    from H [OF cl this, of "level + 1" t] obtain r where r: "ReadConfigurationHelper f s (level + 1) t line = Some r"
      and post: "\<And>c s' line'. r = Inr (c, s', line') \<Longrightarrow> complete_lines s' line' \<and> stream_size s' \<le> stream_size s \<and> progress s s' line'"
      by (auto simp: returns_def)
    show ?thesis
    proof (cases r)
      case (Inl e)
      with Nested r show ?thesis by (simp add: read_children_Suc returns_def)
    next
      case (Inr q)
      obtain ch s1 l1 where q: "q = (ch, s1, l1)" by (metis prod_cases3)
      from post [of ch s1 l1] Inr q have p: "complete_lines s1 l1" "stream_size s1 \<le> stream_size s" "progress s s1 l1" by auto
      have "returns s1 (\<lambda>s' line'. l1 = [] \<longrightarrow> line' = []) (read_children f s1 level l1 (AddChildConfiguration ch c))"
        using p f2 by (intro C) auto
      then have "returns s (\<lambda>s' line'. line = [] \<longrightarrow> line' = []) (read_children f s1 level l1 (AddChildConfiguration ch c))"
        by (rule returns_mono) (use p \<open>line \<noteq> []\<close> in auto)
      with Nested r Inr q show ?thesis by (simp add: read_children_Suc)
    qed
  next
    case (Entry k v)
    then have "line \<noteq> []" by auto
    with f have f2: "2 * stream_size s + 2 \<le> f" by simp
    obtain ok l1 s1 where g: "getline newline line s = (ok, l1, s1)" by (metis prod_cases3)
    note gc = getline_complete [OF cl g]
    have "returns s1 (\<lambda>s' line'. l1 = [] \<longrightarrow> line' = []) (read_children f s1 level l1 (AddConfigurationData k v c))"
      using gc f2 by (intro C) auto
    then have "returns s (\<lambda>s' line'. line = [] \<longrightarrow> line' = []) (read_children f s1 level l1 (AddConfigurationData k v c))"
      by (rule returns_mono) (use gc \<open>line \<noteq> []\<close> in auto)
    with Entry g show ?thesis by (simp add: read_children_Suc)
  qed
  from 1 2 show ?case by blast
qed


section \<open>Documents\<close>

text \<open>A document, the lines it is written as and the configuration it stands for.\<close>

datatype document = Document string "(string \<times> string) list" "document list"

definition tag_line :: "nat \<Rightarrow> string \<Rightarrow> string" where
  "tag_line level t = replicate (2 * level) CHR '' '' @ t @ '':''"

definition entry_line :: "nat \<Rightarrow> string \<times> string \<Rightarrow> string" where
  "entry_line level = (\<lambda>(k, v). replicate (2 * level) CHR '' '' @ k @ '':'' @ v @ '';'')"

fun document_lines :: "nat \<Rightarrow> document \<Rightarrow> string list" where
  "document_lines level (Document t kvs ds) =
     tag_line level t # map (entry_line (Suc level)) kvs @ concat (map (document_lines (Suc level)) ds)"

fun configuration_of :: "document \<Rightarrow> configuration" where
  "configuration_of (Document t kvs ds) =
     Configuration t (foldl (\<lambda>m (k, v). m(k \<mapsto> v)) Map.empty kvs) (map configuration_of ds)"

definition lines_text :: "string list \<Rightarrow> string" where
  "lines_text ls = concat (map (\<lambda>l. l @ [newline]) ls)"

text \<open>
  What the format can hold: no separator inside a word, no word that begins with a space, no line
  longer than a \<open>size_t\<close> counts.
\<close>

definition word :: "string \<Rightarrow> bool" where
  "word w \<longleftrightarrow> CHR '':'' \<notin> set w \<and> newline \<notin> set w \<and> (w = [] \<or> hd w \<noteq> CHR '' '')"

definition storable :: "nat \<Rightarrow> string \<times> string \<Rightarrow> bool" where
  "storable level = (\<lambda>(k, v). word k \<and> CHR '';'' \<notin> set k \<and> CHR '';'' \<notin> set v \<and> newline \<notin> set v \<and>
     int (length (entry_line level (k, v))) < npos)"

fun wf_document :: "nat \<Rightarrow> document \<Rightarrow> bool" where
  "wf_document level (Document t kvs ds) \<longleftrightarrow>
     word t \<and> int (length (tag_line level t)) < npos \<and> list_all (storable (Suc level)) kvs \<and>
     list_all (wf_document (Suc level)) ds"

lemma GetLevel_indent: "w = [] \<or> hd w \<noteq> CHR '' '' \<Longrightarrow> GetLevel (replicate (2 * n) CHR '' '' @ w) = n"
proof -
  assume "w = [] \<or> hd w \<noteq> CHR '' ''"
  then have "takeWhile (\<lambda>c. c = CHR '' '') w = []" by (cases w) auto
  then show ?thesis by (simp add: GetLevel_def takeWhile_append)
qed

lemma level_tag_line: "word t \<Longrightarrow> GetLevel (tag_line n t) = n"
  unfolding tag_line_def by (rule GetLevel_indent) (auto simp: word_def hd_append)

lemma level_entry_line: "word k \<Longrightarrow> GetLevel (entry_line n (k, v)) = n"
  unfolding entry_line_def by (simp, rule GetLevel_indent) (auto simp: word_def hd_append)

lemma FormatTag_tag_line:
  assumes "word t" and "int (length (tag_line n t)) < npos"
  shows "FormatTag (tag_line n t) n = Inr (True, t)"
proof -
  let ?i = "replicate (2 * n) CHR '' ''"
  have c: "find_first_of CHR '':'' (tag_line n t) = int (2 * n + length t)"
    using find_first_of_first [of "CHR '':''" "?i @ t" "[]"] assms(1) by (auto simp: tag_line_def word_def)
  have l: "int (2 * n + length t + 1) < 4294967296" using assms(2) by (simp add: tag_line_def npos_def)
  have "substr (tag_line n t) (2 * int n) (to_u32 (int (2 * n + length t) - 2 * int n)) = Inr t"
    using l by (simp add: substr_def tag_line_def nat_mult_distrib)
  moreover have "rest_is_space (int (2 * n + length t)) (tag_line n t)"
    using l by (simp add: rest_is_space_def tag_line_def nat_add_distrib nat_mult_distrib)
  moreover have "indented n (tag_line n t)" by (simp add: indented_def tag_line_def)
  ultimately show ?thesis by (simp add: FormatTag_def c Let_def)
qed


lemma FormatTag_entry_line:
  assumes "storable n (k, v)"
  shows "\<exists>t. FormatTag (entry_line n (k, v)) n = Inr (False, t)"
proof -
  let ?i = "replicate (2 * n) CHR '' ''"
  have c: "find_first_of CHR '':'' (entry_line n (k, v)) = int (2 * n + length k)"
    using find_first_of_first [of "CHR '':''" "?i @ k" "v @ '';''"] assms
    by (auto simp: entry_line_def storable_def word_def)
  have l: "int (2 * n + length k + length v + 2) < 4294967296" "int (2 * n + length k + 1) < 4294967296"
    using assms by (simp_all add: storable_def entry_line_def npos_def)
  have "substr (entry_line n (k, v)) (2 * int n) (to_u32 (int (2 * n + length k) - 2 * int n)) = Inr k"
    using l by (simp add: substr_def entry_line_def nat_mult_distrib)
  moreover have "\<not> is_space (CHR '';'')" by (simp add: is_space_def)
  then have "\<not> rest_is_space (int (2 * n + length k)) (entry_line n (k, v))"
    using l by (simp add: rest_is_space_def entry_line_def nat_add_distrib nat_mult_distrib)
  moreover have "indented n (entry_line n (k, v))" by (simp add: indented_def entry_line_def)
  ultimately show ?thesis by (simp add: FormatTag_def c Let_def)
qed

lemma FormatKeyValuePair_entry_line:
  assumes "storable n (k, v)"
  shows "FormatKeyValuePair (entry_line n (k, v)) n = Inr (True, k, v)"
proof -
  let ?i = "replicate (2 * n) CHR '' ''"
  have c: "find_first_of CHR '':'' (entry_line n (k, v)) = int (2 * n + length k)"
    using find_first_of_first [of "CHR '':''" "?i @ k" "v @ '';''"] assms
    by (auto simp: entry_line_def storable_def word_def)
  have e: "find_first_of CHR '';'' (entry_line n (k, v)) = int (2 * n + length k + 1 + length v)"
    using find_first_of_first [of "CHR '';''" "?i @ k @ '':'' @ v" "[]"] assms
    by (auto simp: entry_line_def storable_def word_def)
  have l: "int (2 * n + length k + length v + 2) < 4294967296" "int (2 * n + length k + 1) < 4294967296"
    using assms by (simp_all add: storable_def entry_line_def npos_def)
  have "substr (entry_line n (k, v)) (int n * 2) (to_u32 (int (2 * n + length k) - 2 * int n)) = Inr k"
    using l by (simp add: substr_def entry_line_def nat_mult_distrib)
  moreover have "substr (entry_line n (k, v)) (to_u32 (int (2 * n + length k) + 1))
      (to_u32 (int (2 * n + length k + 1 + length v) - int (2 * n + length k) - 1)) = Inr v"
    using l by (simp add: substr_def entry_line_def nat_add_distrib nat_mult_distrib)
  moreover have "rest_is_space (int (2 * n + length k + 1 + length v)) (entry_line n (k, v))"
    using l by (simp add: rest_is_space_def entry_line_def nat_add_distrib nat_mult_distrib)
  moreover have "indented n (entry_line n (k, v))" by (simp add: indented_def entry_line_def)
  ultimately show ?thesis by (simp add: FormatKeyValuePair_def c e Let_def)
qed

lemma line_kind_tag_line:
  "word t \<Longrightarrow> int (length (tag_line (Suc n) t)) < npos \<Longrightarrow> line_kind n (tag_line (Suc n) t) = Nested t"
  by (simp add: line_kind_def level_tag_line FormatTag_tag_line) (simp add: tag_line_def)

lemma line_kind_entry_line: "storable (Suc n) (k, v) \<Longrightarrow> line_kind n (entry_line (Suc n) (k, v)) = Entry k v"
  using FormatTag_entry_line [of "Suc n" k v]
  by (auto simp: line_kind_def level_entry_line FormatKeyValuePair_entry_line storable_def)
    (simp add: entry_line_def)

section \<open>Reading back a document\<close>

text \<open>The text of a file, with the newline at its end (\<open>e\<close>) or without it.\<close>

definition ended_text :: "bool \<Rightarrow> string list \<Rightarrow> string" where
  "ended_text e ls = (if e then lines_text ls else butlast (lines_text ls))"

text \<open>Without it there has to be something in the last line.\<close>

definition ends :: "bool \<Rightarrow> string list \<Rightarrow> bool" where
  "ends e ls \<longleftrightarrow> e \<or> ls \<noteq> [] \<and> last ls \<noteq> []"

lemma ends_True [simp]: "ends True ls"
  by (simp add: ends_def)

lemma ends_append: "ends e ls \<Longrightarrow> ends e (ls' @ ls)"
  by (auto simp: ends_def)

lemma ended_text_Cons: "ends e ls \<Longrightarrow> ended_text e (l # ls) = l @ newline # ended_text e ls"
  by (cases ls) (auto simp: ended_text_def lines_text_def ends_def butlast_append)

lemma ended_text_last: "ended_text False [l] = l"
  by (simp add: ended_text_def lines_text_def butlast_append)

text \<open>The line read ahead and the stream, when the lines \<open>ls\<close> are still to be read.\<close>

definition ahead :: "bool \<Rightarrow> string list \<Rightarrow> string \<times> in_stream" where
  "ahead e ls = (case ls of [] \<Rightarrow> ([], None) | l # ls' \<Rightarrow> (l, if ls' = [] \<and> \<not> e then None else Some (ended_text e ls')))"

lemma ahead_Cons: "ends e ls \<Longrightarrow> ahead e (l # ls) = (l, Some (ended_text e ls))"
  by (auto simp: ahead_def ends_def)

lemma getline_lines:
  assumes "list_all (\<lambda>l. newline \<notin> set l) ls" and "ends e ls"
  shows "\<exists>ok. getline newline tok (Some (ended_text e ls)) = (ok, ahead e ls)"
proof (cases ls)
  case Nil
  with assms show ?thesis by (auto simp: ended_text_def lines_text_def ahead_def ends_def)
next
  case (Cons l ls')
  show ?thesis
  proof (cases "ends e ls'")
    case True
    with assms Cons show ?thesis by (auto simp: ended_text_Cons ahead_Cons)
  next
    case False
    with assms Cons have "\<not> e" "ls' = []" "l \<noteq> []" "newline \<notin> set l" by (auto simp: ends_def split: if_splits)
    with Cons show ?thesis using getline_last [of newline l tok] by (auto simp: ended_text_last ahead_def)
  qed
qed

lemma getline_ahead:
  "list_all (\<lambda>l. newline \<notin> set l) ls \<Longrightarrow> ends e ls \<Longrightarrow> \<exists>ok. getline newline tok (snd (ahead e (l # ls))) = (ok, ahead e ls)"
  using getline_lines [of ls e tok] by (simp add: ahead_Cons)

definition reads :: "bool \<Rightarrow> nat \<Rightarrow> configuration \<Rightarrow> string list \<Rightarrow> configuration \<Rightarrow> string list \<Rightarrow> bool" where
  "reads e level c ls c' ls' \<longleftrightarrow> (\<exists>f. read_children f (snd (ahead e ls)) level (fst (ahead e ls)) c =
      Some (Inr (c', snd (ahead e ls'), fst (ahead e ls'))))"

definition closes :: "nat \<Rightarrow> string list \<Rightarrow> bool" where
  "closes level ls \<longleftrightarrow> ls = [] \<or> GetLevel (hd ls) \<le> level"

lemma reads_close: "closes level ls \<Longrightarrow> reads e level c ls c ls"
proof -
  assume "closes level ls"
  then have "line_kind level (fst (ahead e ls)) = Closing"
    by (cases ls) (auto simp: closes_def ahead_def line_kind_def Let_def)
  then show ?thesis unfolding reads_def by (intro exI [of _ "Suc 0"]) (simp add: read_children_Suc)
qed

lemma reads_entry:
  assumes "storable (Suc level) (k, v)" and "list_all (\<lambda>l. newline \<notin> set l) ls" and "ends e ls"
    and "reads e level (AddConfigurationData k v c) ls c' ls'"
  shows "reads e level c (entry_line (Suc level) (k, v) # ls) c' ls'"
proof -
  let ?l = "entry_line (Suc level) (k, v)"
  from assms(4) obtain f where f: "read_children f (snd (ahead e ls)) level (fst (ahead e ls)) (AddConfigurationData k v c) =
      Some (Inr (c', snd (ahead e ls'), fst (ahead e ls')))" by (auto simp: reads_def)
  obtain ok where g: "getline newline ?l (snd (ahead e (?l # ls))) = (ok, fst (ahead e ls), snd (ahead e ls))"
    using getline_ahead [OF assms(2,3)] by (metis prod.collapse)
  have "fst (ahead e (?l # ls)) = ?l" by (simp add: ahead_def)
  with f g show ?thesis
    unfolding reads_def by (intro exI [of _ "Suc f"]) (simp add: read_children_Suc line_kind_entry_line [OF assms(1)] case_prod_unfold)
qed

lemma reads_entries:
  assumes "list_all (storable (Suc level)) kvs" and "list_all (\<lambda>l. newline \<notin> set l) (map (entry_line (Suc level)) kvs @ ls)" and "ends e ls"
    and "reads e level (Configuration t (foldl (\<lambda>m (k, v). m(k \<mapsto> v)) m kvs) cs) ls c' ls'"
  shows "reads e level (Configuration t m cs) (map (entry_line (Suc level)) kvs @ ls) c' ls'"
  using assms
proof (induction kvs arbitrary: m)
  case Nil
  then show ?case by simp
next
  case (Cons kv kvs)
  obtain k v where kv: "kv = (k, v)" by (cases kv)
  have "reads e level (Configuration t (m(k \<mapsto> v)) cs) (map (entry_line (Suc level)) kvs @ ls) c' ls'"
    using Cons.prems by (intro Cons.IH) (simp_all add: kv)
  then have "reads e level (Configuration t m cs) (entry_line (Suc level) (k, v) # map (entry_line (Suc level)) kvs @ ls) c' ls'"
    using Cons.prems by (intro reads_entry) (simp_all add: kv AddConfigurationData_def ends_append)
  then show ?case by (simp add: kv)
qed

text \<open>A nested document, read by a call of its own.\<close>

definition reads_document :: "bool \<Rightarrow> nat \<Rightarrow> document \<Rightarrow> string list \<Rightarrow> bool" where
  "reads_document e level d ls \<longleftrightarrow> (case d of Document t kvs ds \<Rightarrow> \<forall>line. \<exists>f.
     ReadConfigurationHelper f (Some (ended_text e (tl (document_lines level d) @ ls))) level t line =
       Some (Inr (configuration_of d, snd (ahead e ls), fst (ahead e ls))))"

lemma reads_child:
  assumes d: "d = Document t kvs ds" and "word t" and "int (length (tag_line (Suc level) t)) < npos"
    and "reads_document e (Suc level) d ls" and "ends e ls" and "reads e level (AddChildConfiguration (configuration_of d) c) ls c' ls'"
  shows "reads e level c (document_lines (Suc level) d @ ls) c' ls'"
proof -
  let ?l = "tag_line (Suc level) t"
  from assms(4) obtain f where f: "ReadConfigurationHelper f (Some (ended_text e (tl (document_lines (Suc level) d) @ ls)))
      (level + 1) t ?l = Some (Inr (configuration_of d, snd (ahead e ls), fst (ahead e ls)))"
    by (auto simp: reads_document_def d)
  from assms(6) obtain g where g: "read_children g (snd (ahead e ls)) level (fst (ahead e ls)) (AddChildConfiguration (configuration_of d) c) =
      Some (Inr (c', snd (ahead e ls'), fst (ahead e ls')))" by (auto simp: reads_def)
  have a: "ahead e (document_lines (Suc level) d @ ls) = (?l, Some (ended_text e (tl (document_lines (Suc level) d) @ ls)))"
    using assms(5) by (simp add: d ahead_Cons ends_append)
  show ?thesis
    unfolding reads_def a
    by (rule exI [of _ "Suc (f + g)"])
      (use more_fuel(1) [OF f, of g] more_fuel(2) [OF g, of f] line_kind_tag_line [OF assms(2,3)]
        in \<open>simp add: read_children_Suc add.commute\<close>)
qed


abbreviation one_line :: "string \<Rightarrow> bool" where
  "one_line l \<equiv> newline \<notin> set l"

lemma document_lines_one_line: "wf_document level d \<Longrightarrow> list_all one_line (document_lines level d)"
proof (induction level d rule: document_lines.induct)
  case (1 level t kvs ds)
  have "one_line (tag_line level t)" using 1(2) by (auto simp: tag_line_def word_def)
  moreover have "list_all one_line (map (entry_line (Suc level)) kvs)"
    using 1(2) by (auto simp: list_all_iff storable_def word_def entry_line_def)
  moreover have "list_all one_line (concat (map (document_lines (Suc level)) ds))"
    using 1 by (auto simp: list_all_iff)
  ultimately show ?case by simp
qed

lemma level_document_lines: "wf_document level d \<Longrightarrow> document_lines level d \<noteq> [] \<and> GetLevel (hd (document_lines level d)) = level"
  by (cases d) (simp add: level_tag_line)

lemma reads_documents:
  assumes "list_all (wf_document (Suc level)) ds" and "list_all one_line ls" and "ends e ls" and "closes level ls"
    and "\<And>d ls. d \<in> set ds \<Longrightarrow> list_all one_line ls \<Longrightarrow> ends e ls \<Longrightarrow> closes (Suc level) ls \<Longrightarrow> reads_document e (Suc level) d ls"
    and "reads e level (Configuration t m (cs @ map configuration_of ds)) ls c' ls'"
  shows "reads e level (Configuration t m cs) (concat (map (document_lines (Suc level)) ds) @ ls) c' ls'"
  using assms
proof (induction ds arbitrary: cs)
  case Nil
  then show ?case by simp
next
  case (Cons d ds)
  let ?rest = "concat (map (document_lines (Suc level)) ds) @ ls"
  obtain t' kvs ds' where d: "d = Document t' kvs ds'" by (cases d)
  have "reads e level (Configuration t m (cs @ [configuration_of d])) ?rest c' ls'"
    using Cons.prems by (intro Cons.IH) simp_all
  then have r: "reads e level (AddChildConfiguration (configuration_of d) (Configuration t m cs)) ?rest c' ls'"
    by (simp add: AddChildConfiguration_def)
  have one: "list_all one_line ?rest"
    using Cons.prems(1,2) document_lines_one_line by (auto simp: list_all_iff)
  have "closes (Suc level) ?rest"
  proof (cases ds)
    case Nil
    with Cons.prems(4) show ?thesis by (auto simp: closes_def)
  next
    case (Cons d1 ds1)
    with Cons.prems(1) level_document_lines [of "Suc level" d1] show ?thesis by (simp add: closes_def hd_append)
  qed
  moreover have ends: "ends e ?rest" using Cons.prems(3) by (rule ends_append)
  ultimately have "reads_document e (Suc level) d ?rest" using one Cons.prems(5) by simp
  from reads_child [OF d _ _ this ends r] Cons.prems(1) show ?case by (simp add: d)
qed

lemma read_document:
  "wf_document level d \<Longrightarrow> list_all one_line ls \<Longrightarrow> ends e ls \<Longrightarrow> closes level ls \<Longrightarrow> reads_document e level d ls"
proof (induction level d arbitrary: ls rule: document_lines.induct)
  case (1 level t kvs ds)
  let ?es = "map (entry_line (Suc level)) kvs" and ?rest = "concat (map (document_lines (Suc level)) ds) @ ls"
  let ?m = "foldl (\<lambda>m (k, v). m(k \<mapsto> v)) Map.empty kvs"
  from 1(2) have wf: "list_all (storable (Suc level)) kvs" "list_all (wf_document (Suc level)) ds" by simp_all
  have one: "list_all one_line (?es @ ?rest)"
    using document_lines_one_line [OF 1(2)] 1(3) by simp
  have "reads e level (Configuration t ?m []) ?rest (configuration_of (Document t kvs ds)) ls"
    using wf 1(1,3,4,5) reads_close [OF 1(5)] by (intro reads_documents) (auto simp: list_all_iff)
  with wf(1) one ends_append [OF 1(4)] have "reads e level (Configuration t Map.empty []) (?es @ ?rest) (configuration_of (Document t kvs ds)) ls"
    by (rule reads_entries)
  then obtain f where f: "read_children f (snd (ahead e (?es @ ?rest))) level (fst (ahead e (?es @ ?rest)))
      (SetTag t new_configuration) = Some (Inr (configuration_of (Document t kvs ds), snd (ahead e ls), fst (ahead e ls)))"
    by (auto simp: reads_def SetTag_def new_configuration_def)
  have "ReadConfigurationHelper (Suc f) (Some (ended_text e (?es @ ?rest))) level t line =
      Some (Inr (configuration_of (Document t kvs ds), snd (ahead e ls), fst (ahead e ls)))" for line
    using getline_lines [OF one, of e line] f ends_append [OF ends_append [OF 1(4)]] by (auto simp: ReadConfigurationHelper_Suc case_prod_unfold)
  then show ?case by (auto simp: reads_document_def)
qed

section \<open>Properties\<close>

definition complete_text :: "string \<Rightarrow> bool" where
  "complete_text t \<longleftrightarrow> t = [] \<or> last t = newline"

lemma ReadFromFile_returns:
  assumes "complete_text t" and "2 * length t + 4 \<le> n"
  shows "\<exists>r. ReadFromFile n (Some t) = Some r"
proof -
  obtain ok l s where g: "getline newline [] (Some t) = (ok, l, s)" by (metis prod_cases3)
  have c: "complete_lines (Some t) []" using assms(1) by (simp add: complete_lines_def complete_text_def)
  note gc = getline_complete [OF c g]
  have r: "\<exists>r. ReadConfigurationHelper n s 0 tag l = Some r" for tag
  proof -
    have "2 * stream_size s + 2 \<le> n" using gc(2) assms(2) by (simp add: stream_size_def)
    then have "returns s (progress s) (ReadConfigurationHelper n s 0 tag l)"
      using reader_terminates [of s l n 0 tag] gc(1) by blast
    then show ?thesis by (auto simp: returns_def)
  qed
  then show ?thesis using g r
    by (auto simp: ReadFromFile_def split: sum.split bool.split)
qed

lemma ReadFromFile_more_fuel:
  "ReadFromFile n t = Some r \<Longrightarrow> ReadFromFile (n + k) t = Some r"
  by (auto simp: ReadFromFile_def split: option.splits sum.splits prod.splits bool.splits dest: more_fuel(1) [of n _ _ _ _ _ k])

lemma last_lines_text: "ls \<noteq> [] \<Longrightarrow> lines_text ls \<noteq> [] \<and> last (lines_text ls) = newline"
  by (induction ls rule: rev_induct) (simp_all add: lines_text_def)

lemma ReadFromFile_document:
  assumes "wf_document 0 d" and "2 * length (lines_text (document_lines 0 d)) + 4 \<le> n"
  shows "ReadFromFile n (Some (lines_text (document_lines 0 d))) = Some (Inr (configuration_of d))"
proof -
  let ?t = "lines_text (document_lines 0 d)"
  obtain t kvs ds where d: "d = Document t kvs ds" by (cases d)
  have one: "list_all one_line (document_lines 0 d)" by (rule document_lines_one_line [OF assms(1)])
  have "reads_document True 0 d []" using assms(1) by (intro read_document) (simp_all add: closes_def)
  then obtain f where f: "ReadConfigurationHelper f (Some (lines_text (tl (document_lines 0 d)))) 0 t (tag_line 0 t) =
      Some (Inr (configuration_of d, snd (ahead True []), fst (ahead True [])))"
    by (auto simp: reads_document_def ended_text_def d)
  have "FormatTag (tag_line 0 t) 0 = Inr (True, t)" using assms(1) by (intro FormatTag_tag_line) (simp_all add: d)
  with f getline_lines [OF one, of True "[]"] have r: "ReadFromFile f (Some ?t) = Some (Inr (configuration_of d))"
    by (auto simp: ReadFromFile_def ahead_def ended_text_def d)
  have "complete_text ?t" using last_lines_text [of "document_lines 0 d"] by (simp add: complete_text_def d)
  from ReadFromFile_returns [OF this assms(2)] obtain q where q: "ReadFromFile n (Some ?t) = Some q" by blast
  from ReadFromFile_more_fuel [OF q, of f] ReadFromFile_more_fuel [OF r, of n] have "q = Inr (configuration_of d)"
    by (simp add: add.commute)
  with q show ?thesis by simp
qed

text \<open>C11: reading the text of a document gives the configuration it stands for: every
  tag, every entry (the last one of a key counts) and every nested document, at any depth.\<close>

theorem config_read_back:
  assumes "wf_document 0 d" and "2 * length (lines_text (document_lines 0 d)) + 4 \<le> n"
  shows "ReadFromFile n (Some (lines_text (document_lines 0 d))) = Some (Inr (configuration_of d))"
  using assms by (rule ReadFromFile_document)

theorem config_read_back_witness:
  "ReadFromFile 100 (Some (''Robot:'' @ [newline] @ ''  Watchdog:'' @ [newline] @ ''    Timeout:2000;'' @ [newline])) =
     Some (Inr (Configuration ''Robot'' Map.empty [Configuration ''Watchdog'' [''Timeout'' \<mapsto> ''2000''] []]))"
proof -
  let ?d = "Document ''Robot'' [] [Document ''Watchdog'' [(''Timeout'', ''2000'')] []]"
  have "wf_document 0 ?d" by code_simp
  moreover have t: "lines_text (document_lines 0 ?d) =
      ''Robot:'' @ [newline] @ ''  Watchdog:'' @ [newline] @ ''    Timeout:2000;'' @ [newline]" by code_simp
  moreover have "2 * length (lines_text (document_lines 0 ?d)) + 4 \<le> 100" by (subst t) simp
  ultimately show ?thesis using config_read_back [of ?d 100] by simp
qed

text \<open>C28: the reader returns (a configuration or an exception) on every text that is
  empty or ends in a newline, well formed or not, and uses fuel twice its length.\<close>

theorem config_reader_terminates:
  assumes "complete_text t" and "2 * length t + 4 \<le> n"
  shows "ReadFromFile n (Some t) \<noteq> None"
  using ReadFromFile_returns [OF assms] by auto

theorem config_reader_terminates_witness: "ReadFromFile 10 (Some ([newline])) \<noteq> None"
  by (rule config_reader_terminates) (simp_all add: complete_text_def)

section \<open>Files whose last line has no newline\<close>

text \<open>
  The last line stays in the string once the stream has ended. It says the same again at every turn of the
  loop that it does not close: an entry is added again and again, and for a tag the reader is called again
  and again, each time returning at once because the tag closes its own level.
\<close>

lemma read_children_stuck: "line_kind level line = Entry k v \<Longrightarrow> read_children f None level line c = None"
  by (induction f arbitrary: c) (simp_all add: read_children_Suc)

lemma read_children_stuck_tag:
  assumes "line_kind level line = Nested t" and "line_kind (Suc level) line = Closing"
  shows "read_children f None level line c = None"
proof (induction f arbitrary: c)
  case 0
  then show ?case by simp
next
  case (Suc f)
  have "ReadConfigurationHelper f None (Suc level) t line = None \<or>
      ReadConfigurationHelper f None (Suc level) t line = Some (Inr (SetTag t new_configuration, None, line))"
    using assms(2) by (cases f; cases "f - 1") (auto simp: ReadConfigurationHelper_Suc read_children_Suc)
  with assms(1) Suc show ?case by (auto simp: read_children_Suc)
qed

text \<open>The loop at a level never returns when the lines \<open>ls\<close> are still to be read, the last one without a newline.\<close>

definition diverges :: "nat \<Rightarrow> string list \<Rightarrow> bool" where
  "diverges level ls \<longleftrightarrow> (\<forall>f c. read_children f (snd (ahead False ls)) level (fst (ahead False ls)) c = None)"

lemma diverges_entry:
  assumes kv: "storable (Suc level) (k, v)" and "list_all one_line ls" and "ls = [] \<or> ends False ls \<and> diverges level ls"
  shows "diverges level (entry_line (Suc level) (k, v) # ls)"
proof (cases "ls = []")
  case True
  with read_children_stuck [OF line_kind_entry_line [OF kv]] show ?thesis by (simp add: diverges_def ahead_def)
next
  case False
  let ?l = "entry_line (Suc level) (k, v)"
  from False assms have ls: "ends False ls" "diverges level ls" by auto
  obtain ok where g: "getline newline ?l (Some (ended_text False ls)) = (ok, fst (ahead False ls), snd (ahead False ls))"
    using getline_lines [OF assms(2) ls(1)] by (metis prod.collapse)
  have "read_children f (Some (ended_text False ls)) level ?l c = None" for f c
    using ls(2) by (cases f) (simp_all add: read_children_Suc line_kind_entry_line [OF kv] g diverges_def case_prod_unfold)
  then show ?thesis by (simp add: diverges_def ahead_Cons [OF ls(1)])
qed

lemma diverges_child:
  assumes d: "d = Document t kvs ds" and wf: "wf_document (Suc level) d"
    and "reads_document False (Suc level) d ls" and "ends False ls" and "diverges level ls"
  shows "diverges level (document_lines (Suc level) d @ ls)"
proof -
  let ?l = "tag_line (Suc level) t" and ?s = "Some (ended_text False (tl (document_lines (Suc level) d) @ ls))"
  from assms(3) obtain g where g: "ReadConfigurationHelper g ?s (Suc level) t ?l =
      Some (Inr (configuration_of d, snd (ahead False ls), fst (ahead False ls)))" by (auto simp: reads_document_def d)
  have h: "ReadConfigurationHelper f ?s (Suc level) t ?l \<in>
      {None, Some (Inr (configuration_of d, snd (ahead False ls), fst (ahead False ls)))}" for f
    using more_fuel(1) [OF g, of f] more_fuel(1) [of f ?s "Suc level" t ?l _ g]
    by (cases "ReadConfigurationHelper f ?s (Suc level) t ?l") (auto simp: add.commute)
  have "line_kind level ?l = Nested t" using wf by (intro line_kind_tag_line) (simp_all add: d)
  then have "read_children f ?s level ?l c = None" for f c
    using assms(5) h [of "f - 1"] by (cases f) (auto simp: read_children_Suc diverges_def)
  moreover have "ahead False (document_lines (Suc level) d @ ls) = (?l, ?s)"
    using assms(4) by (simp add: d ahead_Cons ends_append)
  ultimately show ?thesis by (simp add: diverges_def)
qed

lemma last_document_line: "wf_document level d \<Longrightarrow> document_lines level d \<noteq> [] \<and> last (document_lines level d) \<noteq> []"
proof (induction level d rule: document_lines.induct)
  case (1 level t kvs ds)
  show ?case
  proof (cases ds rule: rev_cases)
    case Nil
    then show ?thesis by (cases kvs rule: rev_cases) (auto simp: tag_line_def entry_line_def split: prod.split)
  next
    case (snoc ds' d)
    with 1 show ?thesis by simp
  qed
qed

text \<open>A nested document at the end of the file.\<close>

definition diverges_below :: "nat \<Rightarrow> document \<Rightarrow> bool" where
  "diverges_below level d \<longleftrightarrow> (tl (document_lines level d) \<noteq> [] \<longrightarrow> diverges level (tl (document_lines level d)))"

lemma diverges_last_child:
  assumes wf: "wf_document (Suc level) d" and "diverges_below (Suc level) d"
  shows "diverges level (document_lines (Suc level) d)"
proof -
  obtain t kvs ds where d: "d = Document t kvs ds" by (cases d)
  let ?l = "tag_line (Suc level) t" and ?r = "tl (document_lines (Suc level) d)"
  from wf have t: "line_kind level ?l = Nested t" by (intro line_kind_tag_line) (simp_all add: d)
  have e: "document_lines (Suc level) d = ?l # ?r" by (simp add: d)
  show ?thesis
  proof (cases "?r = []")
    case True
    have "line_kind (Suc level) ?l = Closing" using wf by (simp add: line_kind_def d level_tag_line)
    with True t show ?thesis using read_children_stuck_tag by (subst e) (simp add: diverges_def ahead_def)
  next
    case False
    then have ends: "ends False ?r" using last_document_line [OF wf] e by (metis ends_def last_ConsR)
    have one: "list_all one_line ?r" using document_lines_one_line [OF wf] e by (metis list.pred_inject(2))
    obtain ok where g: "getline newline ?l (Some (ended_text False ?r)) = (ok, fst (ahead False ?r), snd (ahead False ?r))"
      using getline_lines [OF one ends] by (metis prod.collapse)
    have "ReadConfigurationHelper f (Some (ended_text False ?r)) (Suc level) t ?l = None" for f
      using assms(2) False by (cases f) (simp_all add: ReadConfigurationHelper_Suc g diverges_below_def diverges_def case_prod_unfold)
    with t have "read_children f (Some (ended_text False ?r)) level ?l c = None" for f c
      by (cases f) (simp_all add: read_children_Suc)
    then show ?thesis by (subst e) (simp add: diverges_def ahead_Cons [OF ends])
  qed
qed

lemma diverges_documents:
  assumes "ds \<noteq> []" and "list_all (wf_document (Suc level)) ds" and "\<And>d. d \<in> set ds \<Longrightarrow> diverges_below (Suc level) d"
  shows "diverges level (concat (map (document_lines (Suc level)) ds)) \<and> ends False (concat (map (document_lines (Suc level)) ds))"
  using assms
proof (induction ds)
  case Nil
  then show ?case by simp
next
  case (Cons d ds)
  show ?case
  proof (cases "ds = []")
    case True
    with Cons.prems diverges_last_child [of level d] last_document_line [of "Suc level" d] show ?thesis by (simp add: ends_def)
  next
    case False
    let ?rest = "concat (map (document_lines (Suc level)) ds)"
    obtain t kvs ds' where d: "d = Document t kvs ds'" by (cases d)
    from False Cons have rest: "diverges level ?rest" "ends False ?rest" by auto
    have "list_all one_line ?rest" using Cons.prems(2) document_lines_one_line by (auto simp: list_all_iff)
    moreover have "closes (Suc level) ?rest"
      using False Cons.prems(2) level_document_lines by (cases ds) (auto simp: closes_def hd_append)
    ultimately have "reads_document False (Suc level) d ?rest" using Cons.prems(2) rest(2) by (intro read_document) simp_all
    from diverges_child [OF d _ this rest(2,1)] Cons.prems(2) show ?thesis by (simp add: ends_append [OF rest(2)])
  qed
qed

lemma diverges_document: "wf_document level d \<Longrightarrow> diverges_below level d"
proof (induction level d rule: document_lines.induct)
  case (1 level t kvs ds)
  let ?rest = "concat (map (document_lines (Suc level)) ds)"
  have rest: "ds \<noteq> [] \<Longrightarrow> diverges level ?rest \<and> ends False ?rest"
    using 1 by (intro diverges_documents) (auto simp: list_all_iff)
  have "list_all one_line ?rest" using 1(2) document_lines_one_line by (auto simp: list_all_iff)
  have "list_all (storable (Suc level)) kvs \<Longrightarrow> kvs \<noteq> [] \<or> ds \<noteq> [] \<Longrightarrow>
      diverges level (map (entry_line (Suc level)) kvs @ ?rest) \<and> ends False (map (entry_line (Suc level)) kvs @ ?rest)"
  proof (induction kvs)
    case Nil
    with rest show ?case by simp
  next
    case (Cons kv kvs)
    obtain k v where kv: "kv = (k, v)" by (cases kv)
    let ?ls = "map (entry_line (Suc level)) kvs @ ?rest"
    have one: "list_all one_line ?ls"
      using Cons.prems \<open>list_all one_line ?rest\<close> by (auto simp: list_all_iff storable_def word_def entry_line_def)
    have ne: "entry_line (Suc level) (k, v) \<noteq> []" by (simp add: entry_line_def)
    show ?case
    proof (cases "?ls = []")
      case True
      with diverges_entry [of level k v "[]"] ne Cons.prems show ?thesis by (simp add: kv ends_def del: append_is_Nil_conv)
    next
      case False
      then have "kvs \<noteq> [] \<or> ds \<noteq> []" by auto
      with Cons have ls: "diverges level ?ls" "ends False ?ls" by auto
      with diverges_entry [of level k v ?ls] one Cons.prems ends_append [OF ls(2), of "[entry_line (Suc level) (k, v)]"]
      show ?thesis by (simp add: kv)
    qed
  qed
  moreover have "tl (document_lines level (Document t kvs ds)) = map (entry_line (Suc level)) kvs @ ?rest" by simp
  moreover have "kvs \<noteq> [] \<or> ds \<noteq> []" if "map (entry_line (Suc level)) kvs @ ?rest \<noteq> []" using that by auto
  ultimately show ?case using 1(2) by (simp only: diverges_below_def wf_document.simps) blast
qed

text \<open>C29: a document whose file has no newline after its last line is never read, whatever its entries and nested documents
  are: \<open>getline\<close> fails at the end of the file and leaves the line in place, and the loop adds that entry, or that
  tag, again and again. The only exception is a document of a single line, its tag, for which two calls
  are enough. So, at every fuel, the result is the configuration for a tag alone and none otherwise.\<close>

theorem config_reader_diverges:
  assumes "wf_document 0 d"
  shows "ReadFromFile n (Some (butlast (lines_text (document_lines 0 d)))) =
    (if length (document_lines 0 d) = 1 \<and> 2 \<le> n then Some (Inr (configuration_of d)) else None)"
proof -
  obtain t kvs ds where d: "d = Document t kvs ds" by (cases d)
  let ?l = "tag_line 0 t" and ?r = "tl (document_lines 0 d)"
  have e: "document_lines 0 d = ?l # ?r" by (simp add: d)
  have tag: "FormatTag ?l 0 = Inr (True, t)" using assms by (intro FormatTag_tag_line) (simp_all add: d)
  have one: "list_all one_line (document_lines 0 d)" by (rule document_lines_one_line [OF assms])
  have ends: "ends False (document_lines 0 d)" using last_document_line [OF assms] by (simp add: ends_def)
  have cut: "butlast (lines_text (document_lines 0 d)) = ended_text False (document_lines 0 d)" by (simp add: ended_text_def)
  obtain ok where g: "getline newline [] (Some (butlast (lines_text (document_lines 0 d)))) =
      (ok, fst (ahead False (document_lines 0 d)), snd (ahead False (document_lines 0 d)))"
    using getline_lines [OF one ends] cut by (metis prod.collapse)
  show ?thesis
  proof (cases "?r = []")
    case True
    then have "kvs = []" "ds = []" using assms last_document_line [of "Suc 0" "hd ds"] by (simp_all add: d) (cases ds; simp)
    then have c: "configuration_of d = SetTag t new_configuration" by (simp add: d SetTag_def new_configuration_def)
    have "line_kind 0 ?l = Closing" using assms by (simp add: line_kind_def d level_tag_line)
    then have "ReadConfigurationHelper n None 0 t ?l =
        (if 2 \<le> n then Some (Inr (configuration_of d, None, ?l)) else None)"
      by (cases n; cases "n - 1") (auto simp: ReadConfigurationHelper_Suc read_children_Suc c)
    with g e True tag show ?thesis by (simp add: ReadFromFile_def ahead_def)
  next
    case False
    then have r: "ends False ?r" using last_document_line [OF assms] e by (metis ends_def last_ConsR)
    obtain ok' where g': "getline newline ?l (Some (ended_text False ?r)) = (ok', fst (ahead False ?r), snd (ahead False ?r))"
      using getline_lines [OF _ r] one e by (metis list.pred_inject(2) prod.collapse)
    have "ReadConfigurationHelper n (Some (ended_text False ?r)) 0 t ?l = None"
      using diverges_document [OF assms] False
      by (cases n) (simp_all add: ReadConfigurationHelper_Suc g' diverges_below_def diverges_def case_prod_unfold)
    moreover have "length (document_lines 0 d) \<noteq> 1" using False by (cases "document_lines 0 d") auto
    moreover have "ahead False (document_lines 0 d) = (?l, Some (ended_text False ?r))" by (subst e) (rule ahead_Cons [OF r])
    ultimately show ?thesis using g tag by (simp add: ReadFromFile_def)
  qed
qed

theorem config_reader_diverges_witness:
  "\<forall>n. ReadFromFile n (Some (''Robot:'' @ [newline] @ ''  Name:Clank;'' @ [newline] @ ''  Watchdog:'' @ [newline] @ ''    Timeout:2000;'')) = None"
proof
  fix n
  let ?d = "Document ''Robot'' [(''Name'', ''Clank'')] [Document ''Watchdog'' [(''Timeout'', ''2000'')] []]"
  have "wf_document 0 ?d" by code_simp
  moreover have "butlast (lines_text (document_lines 0 ?d)) =
      ''Robot:'' @ [newline] @ ''  Name:Clank;'' @ [newline] @ ''  Watchdog:'' @ [newline] @ ''    Timeout:2000;''" by code_simp
  ultimately show "ReadFromFile n (Some (''Robot:'' @ [newline] @ ''  Name:Clank;'' @ [newline] @ ''  Watchdog:'' @ [newline] @ ''    Timeout:2000;'')) = None"
    using config_reader_diverges [of ?d n] by simp
qed

section \<open>Copies\<close>

lemma end_of_copy_finds:
  "FindConfigurationByTag tag c = Some d \<Longrightarrow>
     FindConfigurationByTag tag (end_of_copy tag c) = Some (Configuration_destructor d)"
  "find_in_children tag cs = Some d \<Longrightarrow>
     find_in_children tag (end_in_children tag cs) = Some (Configuration_destructor d)"
  by (induction tag c and tag cs rule: FindConfigurationByTag_find_in_children.induct)
    (auto simp: Configuration_destructor_def split: option.splits if_splits)

text \<open>When a configuration found by its tag has been copied and the copy is
  destroyed, the children of the original still carry their tags and have lost their data and their own children.\<close>

theorem config_copy_destroys_children:
  assumes "FindConfigurationByTag tag c = Some d"
  shows "\<exists>d'. FindConfigurationByTag tag (end_of_copy tag c) = Some d' \<and> map Tag (ChildConfigurations d') = map Tag (ChildConfigurations d) \<and>
     (\<forall>child. child \<in> set (ChildConfigurations d') \<longrightarrow> ChildConfigurations child = [] \<and> (\<forall>key. GetConfigurationData child key = (False, [])))"
  using end_of_copy_finds(1) [OF assms]
  by (auto simp: Configuration_destructor_def CleanUp_def GetConfigurationData_def)


theorem config_copy_destroys_children_witness:
  "\<exists>d'. FindConfigurationByTag ''B'' (end_of_copy ''B'' (Configuration ''A'' Map.empty
       [Configuration ''B'' Map.empty [Configuration ''C'' [''k'' \<mapsto> ''v''] []]])) = Some d' \<and>
     map Tag (ChildConfigurations d') = [''C''] \<and> GetConfigurationData (hd (ChildConfigurations d')) ''k'' = (False, [])"
proof -
  have "FindConfigurationByTag ''B'' (Configuration ''A'' Map.empty [Configuration ''B'' Map.empty [Configuration ''C'' [''k'' \<mapsto> ''v''] []]]) =
      Some (Configuration ''B'' Map.empty [Configuration ''C'' [''k'' \<mapsto> ''v''] []])" by simp
  from config_copy_destroys_children [OF this] show ?thesis by (auto simp: map_eq_Cons_conv)
qed

end
