(* ===== verification/Robot_Main.thy ===== *)
theory Robot_Main
  imports Robot_Server Robot_Watchdog Host_Reader
begin

text \<open>
  \<open>TeleoperatedRobot::ConstructFromFile\<close>: the robot is put together from a configuration file. Starting
  the server, whose result is ignored, and the video stream, a separate process, are left out.
\<close>

section \<open>Construction\<close>

text \<open>The watchdog's timeout, the drive module, the server's port and the streamer's path.\<close>

record robot_parts =
  watchdog_timeout :: int
  drive_part :: drive_state
  server_port :: string
  streamer_path :: string

definition video_constructor :: "configuration \<Rightarrow> exn + string" where
  "video_constructor config = (case GetConfigurationData config ''MjpegStreamerPath'' of
       (False, _) \<Rightarrow> Inl Runtime_error
     | (True, path) \<Rightarrow> Inr path)"

text \<open>\<open>new\<close> of a part from the configuration under a tag.\<close>

definition from_tag :: "string \<Rightarrow> configuration \<Rightarrow> (configuration \<Rightarrow> exn + 'a) \<Rightarrow> ('a \<Rightarrow> 'b run) \<Rightarrow> 'b run" where
  "from_tag tag config constructor rest = (case FindConfigurationByTag tag config of
       None \<Rightarrow> Throws Runtime_error
     | Some currentConfig \<Rightarrow> (case constructor currentConfig of Inl e \<Rightarrow> Throws e | Inr x \<Rightarrow> rest x))"

definition construct_parts :: "(cfloat \<Rightarrow> cfloat) \<Rightarrow> (string \<Rightarrow> bool) \<Rightarrow> claw \<Rightarrow> configuration \<Rightarrow> robot_parts run" where
  "construct_parts cosine opens raw config =
     from_tag ''Watchdog'' config watchdog_constructor (\<lambda>timeout.
       (case FindConfigurationByTag ''DifferentialDriveModule'' config of
          None \<Rightarrow> Throws Runtime_error
        | Some currentConfig \<Rightarrow> (case drive_constructor cosine opens currentConfig raw of
              Throws e \<Rightarrow> Throws e
            | Blocks \<Rightarrow> Blocks
            | Undefined \<Rightarrow> Undefined
            | Returns d \<Rightarrow>
                from_tag ''TcpServer'' config tcp_config_constructor (\<lambda>p.
                  from_tag ''VideoStreamer'' config video_constructor (\<lambda>path.
                    Returns \<lparr>watchdog_timeout = timeout, drive_part = d, server_port = p, streamer_path = path\<rparr>)))))"

text \<open>With the fuel of the configuration reader; \<open>None\<close> when it runs out.\<close>

definition ConstructFromFile ::
    "(cfloat \<Rightarrow> cfloat) \<Rightarrow> (string \<Rightarrow> bool) \<Rightarrow> claw \<Rightarrow> nat \<Rightarrow> string option \<Rightarrow> robot_parts run option" where
  "ConstructFromFile cosine opens raw fuel file_text = (case ReadFromFile fuel file_text of
       None \<Rightarrow> None
     | Some (Inl e) \<Rightarrow> Some (Throws e)
     | Some (Inr config) \<Rightarrow> Some (construct_parts cosine opens raw config))"

section \<open>The shipped configuration\<close>

text \<open>\<open>clank/config/TeleoperatedConfig.config\<close>\<close>

definition shipped_config :: string where
  "shipped_config =
     ''Robot:'' @ newline #
     ''  Watchdog:'' @ newline #
     ''    Timeout:2000;'' @ newline #
     ''  DifferentialDriveModule:'' @ newline #
     ''    ClawController:'' @ newline #
     ''      SerialPortName:/dev/ttyACM0;'' @ newline #
     ''      BaudRate:38400;'' @ newline #
     ''      TimeoutMillis:2000;'' @ newline #
     ''      Address:128;'' @ newline #
     ''  TcpServer:'' @ newline #
     ''    PortNumber:12345;'' @ newline #
     ''  VideoStreamer:'' @ newline #
     ''    MjpegStreamerPath:/root/robot/clank/lib/module/VideoStreamer/mjpg-streamer/;'' @ [newline]"

definition shipped_document :: document where
  "shipped_document = Document ''Robot'' []
     [Document ''Watchdog'' [(''Timeout'', ''2000'')] [],
      Document ''DifferentialDriveModule'' []
        [Document ''ClawController'' [(''SerialPortName'', ''/dev/ttyACM0''), (''BaudRate'', ''38400''),
           (''TimeoutMillis'', ''2000''), (''Address'', ''128'')] []],
      Document ''TcpServer'' [(''PortNumber'', ''12345'')] [],
      Document ''VideoStreamer'' [(''MjpegStreamerPath'', ''/root/robot/clank/lib/module/VideoStreamer/mjpg-streamer/'')] []]"

lemma shipped_text: "lines_text (document_lines 0 shipped_document) = shipped_config"
  by code_simp

lemma shipped_wf: "wf_document 0 shipped_document"
  by code_simp

lemma shipped_length: "length shipped_config \<le> 500"
  by code_simp

lemma shipped_read: "ReadFromFile 2000 (Some shipped_config) = Some (Inr (configuration_of shipped_document))"
proof -
  have "2 * length (lines_text (document_lines 0 shipped_document)) + 4 \<le> 2000" using shipped_length by (simp add: shipped_text)
  from ReadFromFile_document [OF shipped_wf this] show ?thesis by (simp only: shipped_text)
qed

lemma shipped_numbers:
  "stoi ''2000'' = Inr 2000" "stoi ''38400'' = Inr 38400" "stoi ''128'' = Inr 128" "stoi ''12345'' = Inr 12345"
  by code_simp+


section \<open>Properties\<close>

text \<open>C25: the configuration file of the repository constructs the robot, if the
  motor controller's port can be opened and the controller acknowledges its first two packets in
  time: the watchdog gets 2 seconds, the server port 12345, the controller address 128, and the two
  packets stop the wheels.\<close>

theorem shipped_configuration_accepted:
  assumes "unit_range cosine" and "opens ''/dev/ttyACM0''" and "length (DataBuffer raw) = 16"
    and "answers raw = (d1, 0xFF) # (d2, 0xFF) # as" and "d1 + d2 \<le> 2000000"
  shows "\<exists>robot p q. ConstructFromFile cosine opens raw 2000 (Some shipped_config) = Some (Returns robot) \<and>
    watchdog_timeout robot = 2000 \<and> server_port robot = ''12345'' \<and> ready (controller (drive_part robot)) \<and>
    Address (controller (drive_part robot)) = 128 \<and>
    written (controller (drive_part robot)) = written raw @ [p, q] \<and> valid_packet 128 p \<and> valid_packet 128 q \<and> p ! 2 = 0 \<and> q ! 2 = 0"
proof -
  define cc where "cc = configuration_of (Document ''ClawController'' [(''SerialPortName'', ''/dev/ttyACM0''), (''BaudRate'', ''38400''),
      (''TimeoutMillis'', ''2000''), (''Address'', ''128'')] [])"
  define c where "c = raw\<lparr>baudRate := B38400, watched := True, Address := 128, locked := False, Timeout := \<lparr>tv_sec = 2, tv_usec = 0\<rparr>\<rparr>"
  have claw: "claw_config_constructor opens cc raw = Inr c"
    using assms(2) by (simp add: claw_config_constructor_def cc_def GetConfigurationData_def shipped_numbers claw_Initialize_def
        speed_of_def c_def)
  define d where "d = \<lparr>SetSpeed = Fin 0, SetHeading = Fin 0, controller = c\<rparr>"
  have "ready (controller d)" "micros (Timeout (controller d)) = 2000000" "Address (controller d) = 128"
    "answers (controller d) = (d1, 0xFF) # (d2, 0xFF) # as" "written (controller d) = written raw"
    using assms(3,4) by (simp_all add: d_def c_def ready_def micros_def)
  moreover have "wheel_velocities cosine (SetSpeed d) (SetHeading d) = (Fin 0, Fin 0)" using zero_wheels [OF assms(1)] by (simp add: d_def)
  moreover have "in_range (Fin 0)" by simp
  ultimately obtain c' p q where h: "SetHardware cosine d = (Returns (), d\<lparr>controller := c'\<rparr>)" "ready c'"
    "written c' = written raw @ [p, q]" "carries 128 True (Fin 0) p" "carries 128 False (Fin 0) q" "Address c' = 128"
    using set_hardware_answered [of d cosine "Fin 0" "Fin 0" d1 d2 as] assms(5) by metis
  have "Stop cosine \<lparr>SetSpeed = NaN, SetHeading = NaN, controller = c\<rparr> = SetHardware cosine d" by (simp add: Stop_def d_def)
  then have "drive_constructor cosine opens (Configuration ''DifferentialDriveModule'' Map.empty [cc]) raw = Returns (d\<lparr>controller := c'\<rparr>)"
    using claw h(1) by (simp add: drive_constructor_def) (simp add: cc_def)
  moreover define dd where "dd = Configuration ''DifferentialDriveModule'' Map.empty [cc]"
  moreover define wc where "wc = Configuration ''Watchdog'' [''Timeout'' \<mapsto> ''2000''] []"
  moreover define tc where "tc = Configuration ''TcpServer'' [''PortNumber'' \<mapsto> ''12345''] []"
  moreover define vc where "vc = Configuration ''VideoStreamer''
    [''MjpegStreamerPath'' \<mapsto> ''/root/robot/clank/lib/module/VideoStreamer/mjpg-streamer/''] []"
  moreover have "configuration_of shipped_document = Configuration ''Robot'' Map.empty [wc, dd, tc, vc]"
    by (simp add: shipped_document_def wc_def dd_def tc_def vc_def cc_def)
  moreover have "watchdog_constructor wc = Inr 2000" by (simp add: watchdog_constructor_def wc_def GetConfigurationData_def shipped_numbers)
  moreover have "tcp_config_constructor tc = Inr ''12345''"
    by (simp add: tcp_config_constructor_def tc_def GetConfigurationData_def shipped_numbers)
  moreover have "video_constructor vc = Inr ''/root/robot/clank/lib/module/VideoStreamer/mjpg-streamer/''"
    by (simp add: video_constructor_def vc_def GetConfigurationData_def)
  moreover have "FindConfigurationByTag ''Watchdog'' (Configuration ''Robot'' Map.empty [wc, dd, tc, vc]) = Some wc"
    "FindConfigurationByTag ''DifferentialDriveModule'' (Configuration ''Robot'' Map.empty [wc, dd, tc, vc]) = Some dd"
    "FindConfigurationByTag ''TcpServer'' (Configuration ''Robot'' Map.empty [wc, dd, tc, vc]) = Some tc"
    "FindConfigurationByTag ''VideoStreamer'' (Configuration ''Robot'' Map.empty [wc, dd, tc, vc]) = Some vc"
    by (simp_all add: wc_def dd_def tc_def vc_def cc_def)
  ultimately have "construct_parts cosine opens raw (configuration_of shipped_document) = Returns \<lparr>watchdog_timeout = 2000,
      drive_part = d\<lparr>controller := c'\<rparr>, server_port = ''12345'', streamer_path = ''/root/robot/clank/lib/module/VideoStreamer/mjpg-streamer/''\<rparr>"
    by (simp add: construct_parts_def from_tag_def)
  then show ?thesis using h(2-6) by (simp add: ConstructFromFile_def shipped_read carries_def magnitude_0)
qed

theorem shipped_configuration_accepted_witness:
  "\<exists>robot p q. ConstructFromFile (\<lambda>_. Fin 1) (\<lambda>_. True) (sample_claw [(1000, 0xFF), (1000, 0xFF)]) 2000 (Some shipped_config) =
     Some (Returns robot) \<and> server_port robot = ''12345'' \<and> written (controller (drive_part robot)) = [p, q]"
  using shipped_configuration_accepted [of "\<lambda>_. Fin 1" "\<lambda>_. True" "sample_claw [(1000, 0xFF), (1000, 0xFF)]" 1000 1000 "[]"]
  by (auto simp: sample_claw_def unit_range_def)

end
