(* ===== verification/Nav_Text.thy ===== *)
theory Nav_Text
  imports Robot_Run
begin

text \<open>
  Numbers in the text files of the maps: \<open>operator<<\<close> and \<open>operator>>\<close> of a stream on a double.
  A stream prints six significant digits (\<open>%g\<close>), so not every number is read back; the integers
  below a million are.
\<close>

section \<open>Printing\<close>

text \<open>\<open>\<lfloor>log\<^sub>1\<^sub>0 x\<rfloor>\<close> for a positive rational.\<close>

definition decimal_exponent :: "rat \<Rightarrow> int" where
  "decimal_exponent x = (if 1 \<le> x then int (length (digits10 \<lfloor>x\<rfloor>)) - 1 else - int (length (digits10 (\<lceil>1 / x\<rceil> - 1))))"

definition strip_zeros :: "string \<Rightarrow> string" where
  "strip_zeros s = (let t = rev (dropWhile (\<lambda>c. c = CHR ''0'') (rev s)) in
     if t \<noteq> [] \<and> last t = CHR ''.'' then butlast t else t)"

text \<open>Six significant digits: the integer they form and the exponent of the first.\<close>

definition six_digits :: "rat \<Rightarrow> int \<times> int" where
  "six_digits x = (let e = decimal_exponent x; m = round_half_even (x * rat_power 10 (5 - e)) in
     if m = 1000000 then (100000, e + 1) else (m, e))"

definition fmt_g :: "cfloat \<Rightarrow> string" where
  "fmt_g x = (case x of
       Fin v \<Rightarrow> (if v = 0 then ''0''
         else case six_digits \<bar>v\<bar> of (m, e) \<Rightarrow> (if v < 0 then ''-'' else []) @
           (if - 4 \<le> e \<and> e < 6 then strip_zeros (fixed_text (nat (5 - e)) m)
            else strip_zeros (fixed_text 5 m) @ (if e < 0 then ''e-'' else ''e+'') @ (if \<bar>e\<bar> < 10 then ''0'' else []) @ digits10 \<bar>e\<bar>))
     | PInf \<Rightarrow> ''inf'' | NInf \<Rightarrow> ''-inf'' | NaN \<Rightarrow> ''nan'')"

section \<open>Reading\<close>

text \<open>
  The characters the conversion collects: a sign, digits with a point, and behind them an
  exponent, which counts as soon as its letter is there. The fields are the sign, the mantissa,
  the exponent and whether the exponent has digits.
\<close>

definition sign_of :: "string \<Rightarrow> string" where
  "sign_of s = (if s \<noteq> [] \<and> (hd s = CHR ''-'' \<or> hd s = CHR ''+'') then [hd s] else [])"

definition mantissa_of :: "string \<Rightarrow> string" where
  "mantissa_of s = (let ip = takeWhile is_digit s; r = drop (length ip) s in
     if r \<noteq> [] \<and> hd r = CHR ''.'' then ip @ CHR ''.'' # takeWhile is_digit (tl r) else ip)"

definition exponent_of :: "string \<Rightarrow> string" where
  "exponent_of s = (if s \<noteq> [] \<and> to_lower (hd s) = CHR ''e''
     then let sg = sign_of (tl s) in hd s # sg @ takeWhile is_digit (drop (length sg) (tl s)) else [])"

definition has_digit :: "string \<Rightarrow> bool" where
  "has_digit s \<longleftrightarrow> list_ex is_digit s"

text \<open>The largest double, stored when the value overflows.\<close>

definition DBL_MAX :: rat where
  "DBL_MAX = pow2 1024 - pow2 971"

text \<open>
  \<open>istringstream(token) >> x\<close>: nothing but white space leaves \<open>x\<close> as it was (\<open>None\<close> when it was
  never assigned), a text that is no number stores 0.
\<close>

definition read_double :: "string \<Rightarrow> cfloat option \<Rightarrow> cfloat option" where
  "read_double token x = (let t = dropWhile is_space token in
     if t = [] then x
     else let sg = sign_of t; m = mantissa_of (drop (length sg) t);
              e = (if has_digit m then exponent_of (drop (length sg + length m) t) else []) in
       Some (if \<not> has_digit m \<or> (e \<noteq> [] \<and> \<not> has_digit e) then Fin 0
         else case strtod (sg @ m @ e) of PInf \<Rightarrow> Fin DBL_MAX | NInf \<Rightarrow> Fin (- DBL_MAX) | v \<Rightarrow> v))"

section \<open>Integers\<close>

lemma digits10_bounds: "0 < n \<Longrightarrow> 10 ^ (length (digits10 n) - 1) \<le> n \<and> n < 10 ^ length (digits10 n)"
proof (induction n rule: digits10.induct)
  case (1 n)
  show ?case
  proof (cases "n < 10")
    case True
    with 1 show ?thesis by (simp add: digits10.simps [of n])
  next
    case False
    then have "0 < n div 10" by simp
    with 1 False have IH: "10 ^ (length (digits10 (n div 10)) - 1) \<le> n div 10" "n div 10 < 10 ^ length (digits10 (n div 10))" by auto
    have l: "length (digits10 n) = Suc (length (digits10 (n div 10)))" using False by (simp add: digits10.simps [of n])
    have p: "10 ^ length (digits10 (n div 10)) = (10 :: int) * 10 ^ (length (digits10 (n div 10)) - 1)"
      by (simp flip: power_Suc)
    define q where "q = (10 :: int) ^ (length (digits10 (n div 10)) - 1)"
    have "n = 10 * (n div 10) + n mod 10" "0 \<le> n mod 10" "n mod 10 < 10" by simp_all
    then have "10 * q \<le> n \<and> n < 10 * (10 * q)" using IH unfolding p q_def [symmetric] by linarith
    then show ?thesis by (simp only: l p q_def [symmetric] power_Suc diff_Suc_1)
  qed
qed

lemma frac_digits_shift: "frac_digits k (n * 10 ^ k) = replicate k (CHR ''0'')"
proof (induction k)
  case (Suc k)
  have "n * 10 ^ Suc k div 10 = n * 10 ^ k" "n * 10 ^ Suc k mod 10 = 0" by (simp_all add: mult.left_commute)
  with Suc show ?case by (simp add: digit_char_def replicate_append_same)
qed simp

lemma strip_zeros_point: "strip_zeros (s @ CHR ''.'' # replicate k (CHR ''0'')) = s"
  by (simp add: strip_zeros_def dropWhile_append3 dropWhile_append1 rev_replicate)

lemma fmt_g_pos:
  assumes "0 < n" and "n < 1000000"
  shows "six_digits (of_int n) = (n * 10 ^ (6 - length (digits10 n)), int (length (digits10 n)) - 1)"
    and "strip_zeros (fixed_text (6 - length (digits10 n)) (n * 10 ^ (6 - length (digits10 n)))) = digits10 n"
proof -
  let ?l = "length (digits10 n)"
  have l: "1 \<le> ?l" "?l \<le> 6"
    using length_digits10_le [of n 5] assms(2) by (simp_all add: Suc_le_eq)
  have "10 ^ ?l * 10 ^ (6 - ?l) = (10 :: int) ^ 6" using l(2) by (simp flip: power_add)
  moreover have "n * 10 ^ (6 - ?l) < 10 ^ ?l * 10 ^ (6 - ?l)" using digits10_bounds [OF assms(1)] by (intro mult_strict_right_mono) simp_all
  ultimately have "n * 10 ^ (6 - ?l) < 1000000" by simp
  moreover have "(of_int n :: rat) * rat_power 10 (5 - (int ?l - 1)) = of_int (n * 10 ^ (6 - ?l))"
  proof -
    have "nat (5 - (int ?l - 1)) = 6 - ?l" using l by auto
    then show ?thesis using l by (simp add: rat_power_def)
  qed
  moreover have "decimal_exponent (of_int n) = int ?l - 1" using assms(1) by (simp add: decimal_exponent_def)
  ultimately show "six_digits (of_int n) = (n * 10 ^ (6 - ?l), int ?l - 1)"
    by (simp add: six_digits_def round_half_even_int del: of_int_mult)
  have "n * 10 ^ (6 - ?l) div 10 ^ (6 - ?l) = n" by simp
  then show "strip_zeros (fixed_text (6 - ?l) (n * 10 ^ (6 - ?l))) = digits10 n"
    by (simp add: fixed_text_def frac_digits_shift strip_zeros_point del: nonzero_mult_div_cancel_right)
qed

lemma fmt_g_int:
  assumes "\<bar>n\<bar> < 1000000"
  shows "fmt_g (Fin (of_int n)) = fmt_d n"
proof (cases "n = 0")
  case True
  then show ?thesis by (simp add: fmt_g_def digits10.simps [of 0] digit_char_def)
next
  case False
  then have n: "0 < \<bar>n\<bar>" by simp
  note g = fmt_g_pos [OF n assms]
  let ?l = "length (digits10 \<bar>n\<bar>)"
  have l: "1 \<le> ?l" "?l \<le> 6" using length_digits10_le [of "\<bar>n\<bar>" 5] assms by (simp_all add: Suc_le_eq)
  then have "nat (5 - (int ?l - 1)) = 6 - ?l" by auto
  moreover have "six_digits \<bar>of_int n\<bar> = (\<bar>n\<bar> * 10 ^ (6 - ?l), int ?l - 1)" using g(1) by simp
  ultimately show ?thesis using False l g(2) by (simp add: fmt_g_def fmt_d_def)
qed

lemma takeWhile_digits: "0 \<le> n \<Longrightarrow> takeWhile is_digit (digits10 n) = digits10 n"
  using digits10_all_digits [of n] by (simp add: takeWhile_eq_all_conv)

lemma digit_first:
  assumes "is_digit c" and "\<forall>y \<in> set s. is_digit y"
  shows "\<not> is_space c" "c \<noteq> CHR ''-''" "c \<noteq> CHR ''+''"
    "\<not> is_prefix ''inf'' (map to_lower (c # s))" "\<not> is_prefix ''nan'' (map to_lower (c # s))" "\<not> is_prefix ''0x'' (map to_lower (c # s))"
proof -
  show "\<not> is_space c" using assms(1) by (rule is_digit_not_space)
  show "c \<noteq> CHR ''-''" "c \<noteq> CHR ''+''" using assms(1) by (auto simp: is_digit_def)
  have c: "to_lower c = c" using assms(1) by (rule to_lower_digit)
  then show "\<not> is_prefix ''inf'' (map to_lower (c # s))" "\<not> is_prefix ''nan'' (map to_lower (c # s))"
    using assms(1) by (auto simp: is_digit_def)
  show "\<not> is_prefix ''0x'' (map to_lower (c # s))"
  proof (cases s)
    case (Cons y ys)
    then have "is_digit y" "to_lower y = y" using assms(2) to_lower_digit by simp_all
    then show ?thesis by (auto simp: Cons is_digit_def)
  qed simp
qed

lemma scan_digits:
  assumes "0 \<le> n"
  shows "scan_mantissa is_digit digit_val 10 (digits10 n) = (n, 0, length (digits10 n), [])"
  unfolding scan_mantissa_def Let_def takeWhile_digits [OF assms]
  using digits_val_digits10 [OF assms] by (simp add: digits_val_def)

lemma strtod_digits:
  assumes "0 \<le> n"
  shows "strtod (digits10 n) = round64 (of_int n)" and "strtod (CHR ''-'' # digits10 n) = f_neg (round64 (of_int n))"
proof -
  obtain c s where u: "digits10 n = c # s" by (cases "digits10 n") simp_all
  then have "is_digit c" "\<forall>y \<in> set s. is_digit y" using digits10_all_digits [OF assms] by simp_all
  note ns = digit_first [OF this]
  have sc: "scan_mantissa is_digit digit_val 10 (c # s) = (n, 0, length (c # s), [])" using scan_digits [OF assms] by (simp only: u)
  show "strtod (digits10 n) = round64 (of_int n)"
    unfolding strtod_def u Let_def using ns sc
    by (simp add: scan_exponent_def rat_power_def split: prod.split del: is_prefix.simps)
  have sp: "\<not> is_space (CHR ''-'')" by (simp add: is_space_def)
  show "strtod (CHR ''-'' # digits10 n) = f_neg (round64 (of_int n))"
    unfolding strtod_def u Let_def using ns sc sp
    by (simp add: scan_exponent_def rat_power_def split: prod.split del: is_prefix.simps)
qed

lemma read_double_int:
  assumes "\<bar>n\<bar> < 1000000"
  shows "read_double (fmt_d n) x = Some (Fin (of_int n))"
proof -
  have "round64 (of_nat (nat \<bar>n\<bar>)) = Fin (of_nat (nat \<bar>n\<bar>))" using assms by (intro round64_of_nat) simp
  then have r: "round64 (of_int \<bar>n\<bar>) = Fin (of_int \<bar>n\<bar>)" by simp
  define d where "d = digits10 \<bar>n\<bar>"
  have d: "takeWhile is_digit d = d" "d \<noteq> []" "is_digit (hd d)"
    unfolding d_def by (rule takeWhile_digits, simp) (rule digits10_nonempty, rule hd_digits10, simp)
  have h: "hd d \<noteq> CHR ''-''" "hd d \<noteq> CHR ''+''" "\<not> is_space (hd d)" using digit_first(1-3) [OF d(3), of "[]"] by simp_all
  define sg where "sg = (if n < 0 then ''-'' else [])"
  have t: "fmt_d n = sg @ d" by (simp add: fmt_d_def d_def sg_def)
  have ws: "dropWhile is_space (sg @ d) = sg @ d" using h(3) d(2) by (cases d) (auto simp: sg_def is_space_def)
  have so: "sign_of (sg @ d) = sg" using h d(2) by (simp add: sign_of_def sg_def)
  have m: "mantissa_of d = d" unfolding mantissa_of_def Let_def d(1) by simp
  have hd: "has_digit d" using d(2,3) hd_in_set by (auto simp: has_digit_def list_ex_iff)
  have v: "strtod (sg @ d) = Fin (of_int n)" using strtod_digits [of "\<bar>n\<bar>"] r by (auto simp: sg_def d_def)
  have e: "exponent_of [] = []" by (simp add: exponent_of_def)
  show ?thesis unfolding read_double_def Let_def t ws so using m hd d(2) v e by simp
qed

text \<open>Longer numbers are rounded to six digits.\<close>

lemma seven_digits_lost: "fmt_g (Fin 1234567) = ''1.23457e+06''" "read_double ''1.23457e+06'' x = Some (Fin 1234570)"
proof -
  have "six_digits 1234567 = (123457, 6)"
    by (simp add: six_digits_def decimal_exponent_def rat_power_def digits10.simps round_half_even_def Let_def floor_rat_numeral)
  then show "fmt_g (Fin 1234567) = ''1.23457e+06''"
    by (simp add: fmt_g_def strip_zeros_def fixed_text_def numeral_eq_Suc digits10.simps digit_char_def)
  show "read_double ''1.23457e+06'' x = Some (Fin 1234570)"
    by (simp add: read_double_def sign_of_def mantissa_of_def exponent_of_def has_digit_def float_eval)
qed

end
