(* ===== verification/Nav_Map.thy ===== *)
theory Nav_Map
  imports Nav_Text Clank_Prelude
begin

text \<open>
  \<open>clank/lib/navigation\<close> and \<open>clank/lib/types/navigation\<close>: points, obstacles, and the map of
  obstacles with its text file. Obstacles are reached through pointers: an address in a store, where
  \<open>delete\<close> leaves nothing and a second \<open>delete\<close> is undefined. Coordinates are doubles
  (\<open>MAPPING_MODULE_PRECISION\<close> in \<open>clank/CMakeLists.txt\<close>); the checks of \<open>DEBUGMODE\<close> are off.

  The directory is commented out of \<open>clank/lib/CMakeLists.txt\<close> at this commit: \<open>IObstacle\<close> no longer declares the
  \<open>GetCorners\<close> that the map calls. The definitions follow the lines as they stand, for the class \<open>Obstacle\<close>, which has it.

  The path planner and the test whether a ray meets an obstacle have empty bodies in the source.
\<close>

section \<open>Points and obstacles\<close>

type_synonym point = "cfloat list"

definition point_equal :: "point \<Rightarrow> point \<Rightarrow> bool" where
  "point_equal p q \<longleftrightarrow> length q = length p \<and> list_all (\<lambda>i. \<not> f_ne (p ! i) (q ! i)) [0..<length p]"

definition point_differs :: "point \<Rightarrow> point \<Rightarrow> bool" where
  "point_differs p q \<longleftrightarrow> \<not> point_equal p q"

record obstacle =
  Points :: "point list"
  Severity :: int

definition obstacle_equal :: "obstacle \<Rightarrow> obstacle \<Rightarrow> bool" where
  "obstacle_equal a b \<longleftrightarrow> Severity b = Severity a \<and> length (Points b) = length (Points a) \<and>
     list_all (\<lambda>i. \<not> point_differs (Points b ! i) (Points a ! i)) [0..<length (Points a)]"

section \<open>The map\<close>

type_synonym address = nat

record sparse_map =
  Corner1 :: point
  Corner2 :: point
  Obstacles :: "address list"
  LastComputedPath :: "point list"
  objects :: "address \<Rightarrow> obstacle option"
  next_address :: address

text \<open>The constructor from two corners; the store is that of the program.\<close>

definition map_constructor :: "point \<Rightarrow> point \<Rightarrow> (address \<Rightarrow> obstacle option) \<Rightarrow> address \<Rightarrow> sparse_map" where
  "map_constructor corner1 corner2 store free =
     \<lparr>Corner1 = corner1, Corner2 = corner2, Obstacles = [], LastComputedPath = [], objects = store, next_address = free\<rparr>"

definition delete_object :: "address \<Rightarrow> sparse_map \<Rightarrow> sparse_map option" where
  "delete_object a m = (case objects m a of None \<Rightarrow> None | Some _ \<Rightarrow> Some (m\<lparr>objects := (objects m)(a := None)\<rparr>))"

definition map_destructor :: "sparse_map \<Rightarrow> sparse_map option" where
  "map_destructor m = map_option (\<lambda>m'. m'\<lparr>Obstacles := []\<rparr>) (forM (Obstacles m) delete_object m)"

definition AddObstacle :: "address \<Rightarrow> sparse_map \<Rightarrow> sparse_map" where
  "AddObstacle a m = m\<lparr>Obstacles := Obstacles m @ [a]\<rparr>"

text \<open>The loop of \<open>RemoveObstacle\<close>: it erases the element and advances all the same.\<close>

function remove_loop :: "address \<Rightarrow> nat \<Rightarrow> sparse_map \<Rightarrow> sparse_map option" where
  "remove_loop a i m = (if i < length (Obstacles m) then
     (if a = Obstacles m ! i
      then case delete_object a m of
          None \<Rightarrow> None
        | Some m' \<Rightarrow> remove_loop a (Suc i) (m'\<lparr>Obstacles := take i (Obstacles m) @ drop (Suc i) (Obstacles m)\<rparr>)
      else remove_loop a (Suc i) m)
     else Some m)"
  by pat_completeness auto
termination
  by (relation "measure (\<lambda>(a, i, m). length (Obstacles m) - i)") auto

declare remove_loop.simps [simp del]

definition RemoveObstacle :: "address \<Rightarrow> sparse_map \<Rightarrow> sparse_map option" where
  "RemoveObstacle a m = remove_loop a 0 m"

text \<open>The bounds: a second corner of fewer dimensions is read outside.\<close>

definition bound :: "(cfloat \<Rightarrow> cfloat \<Rightarrow> bool) \<Rightarrow> sparse_map \<Rightarrow> point option" where
  "bound better m = those (map (\<lambda>i. do { c1 \<leftarrow> rd (Corner1 m) i; c2 \<leftarrow> rd (Corner2 m) i;
     Some (if better c1 c2 then c1 else c2) }) [0..<length (Corner1 m)])"

definition GetMinimumBounds :: "sparse_map \<Rightarrow> point option" where
  "GetMinimumBounds m = bound (\<lambda>c1 c2. f_less c1 c2) m"

definition GetMaximumBounds :: "sparse_map \<Rightarrow> point option" where
  "GetMaximumBounds m = bound (\<lambda>c1 c2. f_less c2 c1) m"

definition SetPath :: "point list \<Rightarrow> sparse_map \<Rightarrow> sparse_map" where
  "SetPath path m = m\<lparr>LastComputedPath := path\<rparr>"

section \<open>Writing a map\<close>

definition SerializePoint :: "point \<Rightarrow> string" where
  "SerializePoint p = concat (map (\<lambda>i. fmt_g (p ! i) @ (if Suc i \<noteq> length p then '','' else [])) [0..<length p]) @ [newline]"

definition SerializeObstacle :: "obstacle \<Rightarrow> string" where
  "SerializeObstacle ob = fmt_d (int (length (Points ob))) @ newline # concat (map SerializePoint (Points ob)) @
     fmt_d (Severity ob) @ [newline]"

text \<open>The text of a file; an obstacle that was deleted is read after its end.\<close>

definition Serialize :: "sparse_map \<Rightarrow> string option" where
  "Serialize m = do {
     obstacles \<leftarrow> those (map (objects m) (Obstacles m));
     Some (SerializePoint (Corner1 m) @ SerializePoint (Corner2 m) @ newline # concat (map SerializeObstacle obstacles) @
       ''-'' @ newline # concat (map SerializePoint (LastComputedPath m))) }"

section \<open>Reading a map\<close>

text \<open>The numbers of a line; \<open>tokenValue\<close> is not initialised and keeps the last number.\<close>

function read_numbers :: "in_stream \<Rightarrow> cfloat option \<Rightarrow> point option" where
  "read_numbers s tokenValue = (case getline CHR '','' [] s of
       (ok, token, s') \<Rightarrow> (if ok then (case read_double token tokenValue of
            None \<Rightarrow> None
          | Some v \<Rightarrow> map_option ((#) v) (read_numbers s' (Some v))) else Some []))"
  by pat_completeness auto
termination
  by (relation "measure (\<lambda>(s, x). stream_size s)") (auto dest: getline_shrinks_eq)

declare read_numbers.simps [simp del]

definition DeserializePoint :: "in_stream \<Rightarrow> point option \<times> in_stream" where
  "DeserializePoint s = (case getline newline [] s of (_, text_line, s') \<Rightarrow> (read_numbers (Some text_line) None, s'))"

primrec read_points :: "nat \<Rightarrow> in_stream \<Rightarrow> point list option \<times> in_stream" where
  "read_points 0 s = (Some [], s)"
| "read_points (Suc n) s = (case DeserializePoint s of
       (None, s') \<Rightarrow> (None, s')
     | (Some p, s') \<Rightarrow> (case read_points n s' of (ps, s'') \<Rightarrow> (map_option ((#) p) ps, s'')))"

definition DeserializeObstacle :: "in_stream \<Rightarrow> obstacle run \<times> in_stream" where
  "DeserializeObstacle s = (case getline newline [] s of (_, text_line, s1) \<Rightarrow> (case stoi text_line of
       Inl e \<Rightarrow> (Throws e, s1)
     | Inr numberOfCorners \<Rightarrow> (case read_points (nat numberOfCorners) s1 of
           (None, s2) \<Rightarrow> (Undefined, s2)
         | (Some corners, s2) \<Rightarrow> (case getline newline text_line s2 of (_, text_line, s3) \<Rightarrow> (case stoi text_line of
               Inl e \<Rightarrow> (Throws e, s3)
             | Inr severity \<Rightarrow> (Returns \<lparr>Points = corners, Severity = severity\<rparr>, s3))))))"

definition isprint :: "char \<Rightarrow> bool" where
  "isprint c \<longleftrightarrow> 32 \<le> (of_char c :: nat) \<and> (of_char c :: nat) < 127"

text \<open>\<open>peek\<close>: at the end of the file there is no character and the stream is at its end from then on.\<close>

definition peek :: "in_stream \<Rightarrow> char option \<times> in_stream" where
  "peek s = (case s of Some (c # r) \<Rightarrow> (Some c, s) | _ \<Rightarrow> (None, None))"

definition new_obstacle :: "obstacle \<Rightarrow> sparse_map \<Rightarrow> sparse_map" where
  "new_obstacle ob m = m\<lparr>Obstacles := Obstacles m @ [next_address m],
     objects := (objects m)(next_address m := Some ob), next_address := Suc (next_address m)\<rparr>"

text \<open>
  The loop, with fuel. Its condition is the end-of-file bit, which a stream that could not
  be opened never gets; it consumes nothing when the next character is neither \<open>-\<close> nor printable.
\<close>

primrec deserialize_loop :: "nat \<Rightarrow> bool \<Rightarrow> in_stream \<Rightarrow> bool \<Rightarrow> sparse_map \<Rightarrow> sparse_map run option" where
  "deserialize_loop 0 opened s readingWaypoints m = None"
| "deserialize_loop (Suc fuel) opened s readingWaypoints m =
     (if opened \<and> s = None then Some (Returns m)
      else case peek s of
          (None, s') \<Rightarrow> deserialize_loop fuel opened s' readingWaypoints m
        | (Some nextChar, s') \<Rightarrow>
            (if nextChar = CHR ''-'' then deserialize_loop fuel opened (snd (snd (getline newline [] s'))) True m
             else if isprint nextChar then
               (if \<not> readingWaypoints
                then case DeserializeObstacle s' of
                    (Returns ob, s'') \<Rightarrow> deserialize_loop fuel opened s'' readingWaypoints (new_obstacle ob m)
                  | (Throws e, s'') \<Rightarrow> Some (Throws e)
                  | (Blocks, s'') \<Rightarrow> Some Blocks
                  | (Undefined, s'') \<Rightarrow> Some Undefined
                else case DeserializePoint s' of
                    (Some p, s'') \<Rightarrow> deserialize_loop fuel opened s'' readingWaypoints
                      (m\<lparr>LastComputedPath := LastComputedPath m @ [p]\<rparr>)
                  | (None, s'') \<Rightarrow> Some Undefined)
             else deserialize_loop fuel opened s' readingWaypoints m))"

text \<open>The file is its text, or \<open>None\<close> when it cannot be opened.\<close>

definition Deserialize :: "nat \<Rightarrow> string option \<Rightarrow> sparse_map \<Rightarrow> sparse_map run option" where
  "Deserialize fuel file m = (case DeserializePoint file of
       (None, s1) \<Rightarrow> Some Undefined
     | (Some c1, s1) \<Rightarrow> (case DeserializePoint s1 of
           (None, s2) \<Rightarrow> Some Undefined
         | (Some c2, s2) \<Rightarrow> deserialize_loop fuel (file \<noteq> None) (snd (snd (getline newline [] s2))) False
             (m\<lparr>Corner1 := c1, Corner2 := c2\<rparr>)))"

definition map_file_constructor :: "nat \<Rightarrow> string option \<Rightarrow> (address \<Rightarrow> obstacle option) \<Rightarrow> address \<Rightarrow> sparse_map run option" where
  "map_file_constructor fuel file store free = Deserialize fuel file (map_constructor [] [] store free)"

section \<open>Drawing a map\<close>

definition joined :: "string option list \<Rightarrow> string option" where
  "joined ts = map_option concat (those ts)"

text \<open>A corner of the box of the map: bit \<open>i\<close> of its number says whose coordinate \<open>i\<close> it has.\<close>

definition box_corner :: "sparse_map \<Rightarrow> nat \<Rightarrow> nat \<Rightarrow> string option" where
  "box_corner m dimensionality e = joined (map (\<lambda>i. do {
     v \<leftarrow> rd (if bit e i then Corner1 m else Corner2 m) i;
     Some (to_string v @ (if Suc i = dimensionality then [newline] else '','')) }) [0..<dimensionality])"

definition diff_bit_count :: "nat \<Rightarrow> nat \<Rightarrow> nat \<Rightarrow> nat" where
  "diff_bit_count dimensionality a b = length (filter (\<lambda>i. bit a i \<noteq> bit b i) [0..<dimensionality])"

definition box_edge :: "sparse_map \<Rightarrow> nat \<Rightarrow> nat \<times> nat \<Rightarrow> string option" where
  "box_edge m dimensionality e = (if diff_bit_count dimensionality (fst e) (snd e) = 1
     then joined [Some (''#000000'' @ [newline]), box_corner m dimensionality (fst e), box_corner m dimensionality (snd e),
       Some (''-'' @ [newline])]
     else Some [])"

definition edge_pairs :: "nat \<Rightarrow> (nat \<times> nat) list" where
  "edge_pairs dimensionality = concat (map (\<lambda>a. map (\<lambda>b. (a, b)) [Suc a..<2 ^ dimensionality]) [0..<2 ^ dimensionality])"

definition drawn_obstacle :: "obstacle \<Rightarrow> string" where
  "drawn_obstacle ob = ''#0000FF'' @ newline # concat (map SerializePoint (Points ob)) @ ''-'' @ [newline]"

text \<open>The lines between waypoints: the bound of the loop is \<open>size() - 1\<close>, of an unsigned type.\<close>

definition drawn_path :: "point list \<Rightarrow> string option" where
  "drawn_path path = joined (map (\<lambda>w. do {
     p \<leftarrow> rd path w; q \<leftarrow> rd path (Suc w);
     Some (''#00FF00'' @ newline # SerializePoint p @ SerializePoint q @ ''-'' @ [newline]) })
       [0..<unat (word_of_nat (length path) - 1 :: 32 word)])"

text \<open>The text written, and the command run when there is a path to the interpreter's program.\<close>

definition Visualize :: "string \<Rightarrow> string \<Rightarrow> sparse_map \<Rightarrow> (string \<times> string option) run" where
  "Visualize filepath pythonpath m =
     (let dimensionality = length (Corner1 m) in
      if \<not> (dimensionality = 2 \<or> dimensionality = 3) then Throws Runtime_error
      else case do {
          box \<leftarrow> joined (map (box_edge m dimensionality) (edge_pairs dimensionality));
          obstacles \<leftarrow> those (map (objects m) (Obstacles m));
          path \<leftarrow> drawn_path (LastComputedPath m);
          Some (box @ concat (map drawn_obstacle obstacles) @
            (case LastComputedPath m of [p] \<Rightarrow> ''#00FF00'' @ newline # SerializePoint p | _ \<Rightarrow> []) @ path) }
        of None \<Rightarrow> Undefined
      | Some written_text \<Rightarrow> Returns (written_text,
          if pythonpath \<noteq> [] then Some (''python '' @ pythonpath @ '' '' @ filepath) else None))"

end
