(* ===== verification/Nav_File.thy ===== *)
theory Nav_File
  imports Nav_Map
begin

text \<open>
  What the text files of the maps keep. The printed form of a point is followed through the reader
  line by line; a map whose coordinates are integers below a million is read back, except for the
  waypoints whose line begins with a minus sign, which the reader takes for the separator.
\<close>

section \<open>Grid maps\<close>

definition grid_number :: "cfloat \<Rightarrow> bool" where
  "grid_number c \<longleftrightarrow> (\<exists>n. c = Fin (of_int n) \<and> \<bar>n\<bar> < 1000000)"

definition grid_point :: "point \<Rightarrow> bool" where
  "grid_point p \<longleftrightarrow> list_all grid_number p"

definition grid_obstacle :: "obstacle \<Rightarrow> bool" where
  "grid_obstacle ob \<longleftrightarrow> list_all grid_point (Points ob) \<and> length (Points ob) < 2 ^ 31 \<and> \<bar>Severity ob\<bar> < 2 ^ 31"

definition starts_negative :: "point \<Rightarrow> bool" where
  "starts_negative p \<longleftrightarrow> p \<noteq> [] \<and> f_less (hd p) (Fin 0)"

section \<open>Lines\<close>

fun numbers_text :: "point \<Rightarrow> string" where
  "numbers_text [] = []"
| "numbers_text [x] = fmt_g x"
| "numbers_text (x # y # ys) = fmt_g x @ CHR '','' # numbers_text (y # ys)"

lemma SerializePoint_eq: "SerializePoint p = numbers_text p @ [newline]"
proof -
  have "concat (map (\<lambda>i. fmt_g (p ! i) @ (if Suc i \<noteq> length p then '','' else [])) [0..<length p]) = numbers_text p"
  proof (induction p rule: numbers_text.induct)
    case (3 x y ys)
    have "[0..<length (x # y # ys)] = 0 # map Suc [0..<length (y # ys)]" by (simp only: map_Suc_upt length_Cons) (simp add: upt_conv_Cons del: upt_Suc)
    with 3 show ?case by (simp add: comp_def del: upt_Suc)
  qed simp_all
  then show ?thesis by (simp add: SerializePoint_def)
qed

lemma fmt_d_chars: "c \<in> set (fmt_d n) \<Longrightarrow> is_digit c \<or> c = CHR ''-''"
  using digits10_all_digits [of "\<bar>n\<bar>"] by (auto simp: fmt_d_def split: if_splits)

lemma not_digits: "\<not> is_digit (CHR '','')" "\<not> is_digit newline" "\<not> is_digit (CHR ''-'')"
  by (simp_all add: is_digit_def)

lemma fmt_d_separators [simp]: "CHR '','' \<notin> set (fmt_d n)" "newline \<notin> set (fmt_d n)"
  using fmt_d_chars [of "CHR '',''" n] fmt_d_chars [of newline n] not_digits by auto

lemma fmt_d_nonempty [simp]: "fmt_d n \<noteq> []"
  by (simp add: fmt_d_def)

lemma grid_numberE:
  assumes "grid_number c"
  obtains n where "c = Fin (of_int n)" and "fmt_g c = fmt_d n" and "\<And>x. read_double (fmt_d n) x = Some c"
  using assms fmt_g_int read_double_int by (auto simp: grid_number_def)

lemma numbers_text_newline: "grid_point p \<Longrightarrow> newline \<notin> set (numbers_text p)"
proof (induction p rule: numbers_text.induct)
  case (3 x y ys)
  then show ?case by (auto simp: grid_point_def elim: grid_numberE)
qed (auto simp: grid_point_def elim: grid_numberE)

lemma read_numbers_text: "grid_point p \<Longrightarrow> read_numbers (Some (numbers_text p)) x = Some p"
proof (induction p arbitrary: x rule: numbers_text.induct)
  case 1
  show ?case by (simp add: read_numbers.simps [of "Some []"])
next
  case (2 c)
  then obtain n where n: "fmt_g c = fmt_d n" "\<And>x. read_double (fmt_d n) x = Some c"
    by (auto simp: grid_point_def elim: grid_numberE)
  have "getline CHR '','' [] (Some (fmt_d n)) = (True, fmt_d n, None)" by (rule getline_last) simp_all
  then show ?case
    by (simp add: n(1) read_numbers.simps [of "Some (fmt_d n)"] n(2) read_numbers.simps [of None])
next
  case (3 c y ys)
  then obtain n where n: "fmt_g c = fmt_d n" "\<And>x. read_double (fmt_d n) x = Some c" and IH: "\<And>x. read_numbers (Some (numbers_text (y # ys))) x = Some (y # ys)"
    by (auto simp: grid_point_def elim: grid_numberE)
  then show ?case by (simp add: read_numbers.simps [of "Some (fmt_d n @ CHR '','' # numbers_text (y # ys))"])
qed

lemma DeserializePoint_line: "grid_point p \<Longrightarrow> DeserializePoint (Some (SerializePoint p @ rest)) = (Some p, Some rest)"
  using getline_field [OF numbers_text_newline, of p "[]" rest]
  by (simp add: DeserializePoint_def SerializePoint_eq read_numbers_text)

lemma read_points_text:
  "list_all grid_point ps \<Longrightarrow> read_points (length ps) (Some (concat (map SerializePoint ps) @ rest)) = (Some ps, Some rest)"
  by (induction ps) (simp_all add: DeserializePoint_line)

lemma stoi_fmt_d:
  assumes "\<bar>n\<bar> < 2 ^ 31"
  shows "stoi (fmt_d n) = Inr n"
proof -
  obtain c s where u: "digits10 \<bar>n\<bar> = c # s" by (cases "digits10 \<bar>n\<bar>") simp_all
  then have c: "is_digit c" "\<forall>y \<in> set s. is_digit y" using digits10_all_digits [of "\<bar>n\<bar>"] by simp_all
  note ns = digit_first(1-3) [OF c]
  have tw: "takeWhile is_digit (c # s) = c # s" using c by (simp only: takeWhile_eq_all_conv) auto
  have v: "digits_val (c # s) = \<bar>n\<bar>" using digits_val_digits10 [of "\<bar>n\<bar>"] u by simp
  have "integer_text (fmt_d n) = Some n"
  proof (cases "n < 0")
    case True
    then have f: "number_start (fmt_d n) = c # s" "dropWhile is_space (fmt_d n) = CHR ''-'' # c # s"
      using u by (simp_all add: number_start_def fmt_d_def is_space_def)
    show ?thesis unfolding integer_text_def Let_def f tw using True v by simp
  next
    case False
    then have f: "number_start (fmt_d n) = c # s" "dropWhile is_space (fmt_d n) = c # s"
      using ns u by (simp_all add: number_start_def fmt_d_def)
    show ?thesis unfolding integer_text_def Let_def f tw using False v ns by simp
  qed
  with assms show ?thesis by (auto simp: stoi_def abs_less_iff)
qed

lemma DeserializeObstacle_text:
  assumes "grid_obstacle ob"
  shows "DeserializeObstacle (Some (SerializeObstacle ob @ rest)) = (Returns ob, Some rest)"
proof -
  let ?n = "int (length (Points ob))" and ?r = "fmt_d (Severity ob) @ newline # rest"
  have "int (length (Points ob)) < 2 ^ 31" using assms by (auto simp: grid_obstacle_def)
  then have n: "stoi (fmt_d ?n) = Inr ?n" by (intro stoi_fmt_d) simp
  have s: "stoi (fmt_d (Severity ob)) = Inr (Severity ob)" using assms by (intro stoi_fmt_d) (simp add: grid_obstacle_def)
  have "getline newline [] (Some (fmt_d ?n @ newline # concat (map SerializePoint (Points ob)) @ ?r)) =
      (True, fmt_d ?n, Some (concat (map SerializePoint (Points ob)) @ ?r))" by (rule getline_field, rule fmt_d_separators(2))
  moreover have "read_points (nat ?n) (Some (concat (map SerializePoint (Points ob)) @ ?r)) = (Some (Points ob), Some ?r)"
    using assms read_points_text by (simp add: grid_obstacle_def)
  moreover have "getline newline (fmt_d ?n) (Some ?r) = (True, fmt_d (Severity ob), Some rest)" by (rule getline_field) simp
  ultimately show ?thesis using n s by (simp add: DeserializeObstacle_def SerializeObstacle_def del: fmt_d_nonneg)
qed

section \<open>The loop\<close>

lemma digit_printed: "is_digit c \<Longrightarrow> isprint c \<and> c \<noteq> CHR ''-''"
  unfolding is_digit_def by (auto simp: isprint_def)

lemma peek_Cons: "peek (Some (c # r)) = (Some c, Some (c # r))"
  by (simp add: peek_def)

lemma loop_obstacle:
  assumes "grid_obstacle ob"
  shows "deserialize_loop (Suc fuel) True (Some (SerializeObstacle ob @ rest)) False m =
    deserialize_loop fuel True (Some rest) False (new_obstacle ob m)"
proof -
  obtain c s where c: "SerializeObstacle ob @ rest = c # s" "is_digit c"
    using hd_digits10 [of "int (length (Points ob))"]
    by (cases "digits10 (int (length (Points ob)))") (auto simp: SerializeObstacle_def)
  with DeserializeObstacle_text [OF assms, of rest] digit_printed [OF c(2)] show ?thesis
    by (simp add: peek_Cons)
qed

lemma loop_obstacles:
  "list_all grid_obstacle obs \<Longrightarrow>
   deserialize_loop (length obs + fuel) True (Some (concat (map SerializeObstacle obs) @ rest)) False m =
   deserialize_loop fuel True (Some rest) False (fold new_obstacle obs m)"
  by (induction obs arbitrary: m) (simp_all add: loop_obstacle del: deserialize_loop.simps)

lemma loop_separator:
  "deserialize_loop (Suc fuel) True (Some (''-'' @ newline # rest)) False m = deserialize_loop fuel True (Some rest) True m"
  using getline_field [of newline "''-''" "[]" rest] by (simp add: peek_Cons)

lemma first_char:
  assumes "grid_point p" and "p \<noteq> []"
  obtains c s where "SerializePoint p = c # s" and "starts_negative p \<longleftrightarrow> c = CHR ''-''" and "is_digit c \<or> c = CHR ''-''"
proof -
  obtain x ps where p: "p = x # ps" using assms(2) by (cases p) auto
  then obtain n where n: "x = Fin (of_int n)" "fmt_g x = fmt_d n" using assms(1) by (auto simp: grid_point_def elim: grid_numberE)
  obtain c t where c: "fmt_d n = c # t" by (cases "fmt_d n") simp_all
  have "\<exists>s. SerializePoint p = c # s" unfolding SerializePoint_eq p using n(2) c by (cases ps) auto
  moreover have "n < 0 \<longleftrightarrow> c = CHR ''-''"
    using c hd_digits10 [of "\<bar>n\<bar>"] not_digits(3) by (cases "n < 0") (auto simp: fmt_d_def)
  moreover have "is_digit c \<or> c = CHR ''-''" using fmt_d_chars [of c n] c by simp
  ultimately show thesis using that by (auto simp: starts_negative_def p n(1))
qed

lemma loop_waypoint:
  assumes "grid_point p" and "p \<noteq> []"
  shows "deserialize_loop (Suc fuel) True (Some (SerializePoint p @ rest)) True m =
    deserialize_loop fuel True (Some rest) True
      (if starts_negative p then m else m\<lparr>LastComputedPath := LastComputedPath m @ [p]\<rparr>)"
proof -
  obtain c s where c: "SerializePoint p = c # s" "starts_negative p \<longleftrightarrow> c = CHR ''-''" "is_digit c \<or> c = CHR ''-''"
    by (rule first_char [OF assms])
  have line: "getline newline [] (Some (SerializePoint p @ rest)) = (True, numbers_text p, Some rest)"
    using getline_field [OF numbers_text_newline [OF assms(1)], of "[]" rest] by (simp add: SerializePoint_eq)
  show ?thesis
  proof (cases "c = CHR ''-''")
    case True
    with c line show ?thesis by (simp add: peek_Cons)
  next
    case False
    with c(3) digit_printed have "isprint c" by blast
    with False c DeserializePoint_line [OF assms(1), of rest] show ?thesis by (simp add: peek_Cons)
  qed
qed

lemma loop_waypoints:
  "list_all (\<lambda>p. grid_point p \<and> p \<noteq> []) path \<Longrightarrow>
   deserialize_loop (length path + fuel) True (Some (concat (map SerializePoint path) @ rest)) True m =
   deserialize_loop fuel True (Some rest) True (m\<lparr>LastComputedPath := LastComputedPath m @ filter (\<lambda>p. \<not> starts_negative p) path\<rparr>)"
  by (induction path arbitrary: m) (simp_all add: loop_waypoint del: deserialize_loop.simps)

lemma loop_end: "deserialize_loop (Suc (Suc fuel)) True (Some []) w m = Some (Returns m)"
  by (simp add: peek_def)

section \<open>The store\<close>

definition fresh :: "sparse_map \<Rightarrow> bool" where
  "fresh m \<longleftrightarrow> list_all (\<lambda>a. a < next_address m) (Obstacles m)"

definition stored :: "sparse_map \<Rightarrow> obstacle list option" where
  "stored m = those (map (objects m) (Obstacles m))"

lemma those_append: "those (xs @ ys) = (case those xs of None \<Rightarrow> None | Some a \<Rightarrow> map_option (\<lambda>b. a @ b) (those ys))"
  by (cases "those ys"; induction xs) (auto split: option.splits)

lemma new_obstacle_stored:
  assumes "fresh m" and "stored m = Some obs"
  shows "fresh (new_obstacle ob m)" and "stored (new_obstacle ob m) = Some (obs @ [ob])"
proof -
  show "fresh (new_obstacle ob m)" using assms(1) by (auto simp: fresh_def new_obstacle_def list_all_iff)
  have kept: "map (objects (new_obstacle ob m)) (Obstacles m) = map (objects m) (Obstacles m)"
    using assms(1) by (auto simp: fresh_def new_obstacle_def list_all_iff)
  have new: "Obstacles (new_obstacle ob m) = Obstacles m @ [next_address m]" "objects (new_obstacle ob m) (next_address m) = Some ob"
    by (simp_all add: new_obstacle_def)
  show "stored (new_obstacle ob m) = Some (obs @ [ob])"
    unfolding stored_def new(1) map_append kept those_append using assms(2) new(2) by (simp add: stored_def)
qed

lemma new_obstacles_stored:
  "fresh m \<Longrightarrow> stored m = Some old \<Longrightarrow> stored (fold new_obstacle obs m) = Some (old @ obs)"
  by (induction obs arbitrary: m old) (simp_all add: new_obstacle_stored)

lemma new_obstacles_fields:
  "Corner1 (fold new_obstacle obs m) = Corner1 m" "Corner2 (fold new_obstacle obs m) = Corner2 m"
  "LastComputedPath (fold new_obstacle obs m) = LastComputedPath m"
  by (induction obs arbitrary: m) (simp_all add: new_obstacle_def)

section \<open>Removing obstacles\<close>

lemma remove_loop_other:
  "a \<notin> set (drop i (Obstacles m)) \<Longrightarrow> remove_loop a i m = Some m"
proof (induction "length (Obstacles m) - i" arbitrary: i)
  case 0
  then show ?case by (simp add: remove_loop.simps [of a i m])
next
  case (Suc n)
  then have i: "i < length (Obstacles m)" "n = length (Obstacles m) - Suc i" by simp_all
  then have "drop i (Obstacles m) = Obstacles m ! i # drop (Suc i) (Obstacles m)" by (simp add: Cons_nth_drop_Suc)
  with Suc.prems have "a \<noteq> Obstacles m ! i" "a \<notin> set (drop (Suc i) (Obstacles m))" by simp_all
  with Suc.hyps(1) [OF i(2)] i(1) show ?case by (simp add: remove_loop.simps [of a i m])
qed

lemma remove_loop_found:
  assumes "Obstacles m = xs @ a # ys" and "a \<notin> set xs" and "a \<notin> set (drop 1 ys)" and "objects m a = Some ob" and "i \<le> length xs"
  shows "remove_loop a i m = Some (m\<lparr>objects := (objects m)(a := None), Obstacles := xs @ ys\<rparr>)"
  using assms(5)
proof (induction "length xs - i" arbitrary: i)
  case 0
  then have i: "i = length xs" by simp
  let ?m = "m\<lparr>objects := (objects m)(a := None), Obstacles := xs @ ys\<rparr>"
  have "drop (Suc i) (xs @ ys) = drop 1 ys" by (simp add: i)
  then have "remove_loop a (Suc i) ?m = Some ?m" using assms(3) by (intro remove_loop_other) simp
  moreover have "remove_loop a i m = remove_loop a (Suc i) ?m"
    by (subst remove_loop.simps) (simp add: assms(1,4) i delete_object_def)
  ultimately show ?case by (simp only:)
next
  case (Suc n)
  then have i: "i < length xs" "n = length xs - Suc i" by simp_all
  then have "Obstacles m ! i \<in> set xs" using assms(1) by (simp add: nth_append)
  with assms(2) have "a \<noteq> Obstacles m ! i" by auto
  with Suc.hyps(1) [OF i(2)] i(1) assms(1) show ?case by (simp add: remove_loop.simps [of a i m])
qed

lemma delete_all:
  "distinct as \<Longrightarrow> list_all (\<lambda>a. objects m a \<noteq> None) as \<Longrightarrow>
   forM as delete_object m = Some (m\<lparr>objects := (\<lambda>a. if a \<in> set as then None else objects m a)\<rparr>)"
proof (induction as arbitrary: m)
  case (Cons a as)
  then obtain ob where "objects m a = Some ob" by auto
  then have d: "delete_object a m = Some (m\<lparr>objects := (objects m)(a := None)\<rparr>)" by (simp add: delete_object_def)
  have "list_all (\<lambda>b. objects (m\<lparr>objects := (objects m)(a := None)\<rparr>) b \<noteq> None) as"
    using Cons.prems by (auto simp: list_all_iff)
  with Cons.IH [of "m\<lparr>objects := (objects m)(a := None)\<rparr>"] Cons.prems d show ?case by (auto intro!: arg_cong [where f = "\<lambda>f. m\<lparr>objects := f\<rparr>"])
qed simp

section \<open>Properties\<close>

text \<open>C12: a map is read back from its file. For a map whose coordinates are integers below a
  million the reader, given a step per obstacle and waypoint and three more, returns a map with the same corners and
  obstacles and the same path without the waypoints whose first coordinate is negative: their
  lines begin like the separator and are skipped.\<close>

theorem map_reads_back:
  assumes "grid_point (Corner1 m)" and "grid_point (Corner2 m)" and "stored m = Some obs" and "list_all grid_obstacle obs"
    and "list_all (\<lambda>p. grid_point p \<and> p \<noteq> []) (LastComputedPath m)"
    and "length obs + length (LastComputedPath m) + 3 \<le> fuel"
  shows "\<exists>file m'. Serialize m = Some file \<and> map_file_constructor fuel (Some file) store free = Some (Returns m') \<and>
     Corner1 m' = Corner1 m \<and> Corner2 m' = Corner2 m \<and> stored m' = Some obs \<and>
     LastComputedPath m' = filter (\<lambda>p. \<not> starts_negative p) (LastComputedPath m)"
proof -
  let ?path = "LastComputedPath m"
  let ?lines = "concat (map SerializeObstacle obs) @ ''-'' @ newline # concat (map SerializePoint ?path)"
  let ?file = "SerializePoint (Corner1 m) @ SerializePoint (Corner2 m) @ newline # ?lines"
  define m0 where "m0 = (map_constructor [] [] store free)\<lparr>Corner1 := Corner1 m, Corner2 := Corner2 m\<rparr>"
  define m1 where "m1 = fold new_obstacle obs m0"
  define m2 where "m2 = m1\<lparr>LastComputedPath := LastComputedPath m1 @ filter (\<lambda>p. \<not> starts_negative p) ?path\<rparr>"
  obtain j where "fuel = length obs + length ?path + 3 + j" using assms(6) le_Suc_ex by blast
  then have k: "fuel = length obs + Suc (length ?path + Suc (Suc j))" by simp
  have "deserialize_loop fuel True (Some ?lines) False m0 = Some (Returns m2)"
    unfolding k loop_obstacles [OF assms(4)] loop_separator m1_def [symmetric]
    using loop_waypoints [OF assms(5), of "Suc (Suc j)" "[]" m1] by (simp only: append_Nil2 loop_end m2_def)
  then have returns: "map_file_constructor fuel (Some ?file) store free = Some (Returns m2)"
    using getline_field0 [of newline "[]" ?lines]
    by (simp add: map_file_constructor_def Deserialize_def DeserializePoint_line assms(1,2) m0_def)
  have "Serialize m = Some ?file" using assms(3) by (simp add: Serialize_def stored_def)
  moreover have "stored m2 = Some obs"
    using new_obstacles_stored [of m0 "[]" obs] by (simp add: m1_def m2_def m0_def map_constructor_def fresh_def stored_def)
  moreover have "Corner1 m2 = Corner1 m" "Corner2 m2 = Corner2 m" "LastComputedPath m2 = filter (\<lambda>p. \<not> starts_negative p) ?path"
    by (simp_all add: m2_def m1_def m0_def new_obstacles_fields map_constructor_def)
  ultimately show ?thesis using returns by blast
qed

text \<open>A file that cannot be opened is read for ever: the loop waits for the end-of-file
  bit, which a stream that failed to open never gets.\<close>

theorem missing_map_file_hangs:
  "map_file_constructor fuel None store free = None"
proof -
  have "deserialize_loop fuel False None w m = None" for w m
    by (induction fuel) (simp_all add: peek_def)
  moreover have "DeserializePoint None = (Some [], None)"
    by (simp add: DeserializePoint_def read_numbers.simps [of "Some []"])
  ultimately show ?thesis by (simp add: map_file_constructor_def Deserialize_def)
qed

text \<open>C36: \<open>RemoveObstacle\<close> on a map without repeated pointers: the obstacle is gone from the
  list and from the store, the others keep their order and their content, and the destructor
  then deletes each of them exactly once.\<close>

theorem remove_obstacle_sound:
  assumes "distinct (Obstacles m)" and "a \<in> set (Obstacles m)" and "list_all (\<lambda>b. objects m b \<noteq> None) (Obstacles m)"
  shows "\<exists>m' m''. RemoveObstacle a m = Some m' \<and> Obstacles m' = filter (\<lambda>b. b \<noteq> a) (Obstacles m) \<and>
     objects m' = (objects m)(a := None) \<and> map_destructor m' = Some m'' \<and> Obstacles m'' = [] \<and>
     objects m'' = (\<lambda>b. if b \<in> set (Obstacles m) then None else objects m b)"
proof -
  obtain xs ys where xy: "Obstacles m = xs @ a # ys" using assms(2) by (meson split_list)
  with assms(1) have ny: "a \<notin> set xs" "a \<notin> set ys" "distinct (xs @ ys)" by auto
  obtain ob where ob: "objects m a = Some ob" using assms(2,3) by (auto simp: list_all_iff)
  let ?m = "m\<lparr>objects := (objects m)(a := None), Obstacles := xs @ ys\<rparr>"
  have r: "RemoveObstacle a m = Some ?m"
    unfolding RemoveObstacle_def using ny(2) by (intro remove_loop_found [OF xy ny(1) _ ob]) (auto dest: in_set_dropD)
  have "filter (\<lambda>b. b \<noteq> a) xs = xs" "filter (\<lambda>b. b \<noteq> a) ys = ys" using ny(1,2) by (auto simp: filter_id_conv)
  then have f: "filter (\<lambda>b. b \<noteq> a) (Obstacles m) = xs @ ys" by (simp add: xy)
  have "list_all (\<lambda>b. objects ?m b \<noteq> None) (xs @ ys)" using assms(3) ny(1,2) by (auto simp: xy list_all_iff)
  from delete_all [OF ny(3) this] obtain m'' where d: "map_destructor ?m = Some m''" "Obstacles m'' = []"
    "objects m'' = (\<lambda>b. if b \<in> set (xs @ ys) then None else objects ?m b)"
    by (simp add: map_destructor_def)
  have "objects m'' = (\<lambda>b. if b \<in> set (Obstacles m) then None else objects m b)" unfolding d(3) by (auto simp: xy)
  moreover have "Obstacles ?m = filter (\<lambda>b. b \<noteq> a) (Obstacles m)" "objects ?m = (objects m)(a := None)" by (simp_all add: f)
  ultimately show ?thesis using r d(1,2) by blast
qed

text \<open>An obstacle added twice is deleted once and forgotten once: the loop skips the
  element behind the one it erased. The pointer left is dangling, and the destructor deletes it again.\<close>

theorem repeated_obstacle_deleted_twice:
  assumes "Obstacles m = []" and "objects m a = Some ob"
  shows "\<exists>m'. RemoveObstacle a (AddObstacle a (AddObstacle a m)) = Some m' \<and> Obstacles m' = [a] \<and> objects m' a = None \<and>
     map_destructor m' = None \<and> Serialize m' = None"
proof -
  let ?m = "AddObstacle a (AddObstacle a m)"
  let ?m' = "?m\<lparr>Obstacles := [a], objects := (objects ?m)(a := None)\<rparr>"
  have "RemoveObstacle a ?m = Some ?m'"
    using remove_loop_found [of ?m "[]" a "[a]" ob 0] assms by (simp add: RemoveObstacle_def AddObstacle_def)
  moreover have "map_destructor ?m' = None" by (simp add: map_destructor_def delete_object_def)
  moreover have "Serialize ?m' = None" by (simp add: Serialize_def)
  ultimately show ?thesis by (intro exI [of _ ?m']) simp
qed

lemma those_None: "None \<in> set xs \<Longrightarrow> those xs = None"
  by (induction xs) (auto split: option.splits)

text \<open>A map without a path cannot be drawn: \<open>size() - 1\<close> of the empty path wraps to the
  largest unsigned number, and the loop reads a waypoint that does not exist.\<close>

theorem empty_path_cannot_be_drawn:
  assumes "length (Corner1 m) = 2 \<or> length (Corner1 m) = 3" and "LastComputedPath m = []"
  shows "Visualize filepath pythonpath m = Undefined"
proof -
  define n where "n = unat (word_of_nat (length ([] :: point list)) - 1 :: 32 word)"
  have "unat (- 1 :: 32 word) \<noteq> 0" by (simp only: unat_eq_0) simp
  then have "0 \<in> set [0..<n]" by (simp add: n_def)
  then have "drawn_path [] = None"
    unfolding drawn_path_def joined_def n_def [symmetric] by (subst those_None) (auto simp: rd_def image_iff)
  then show ?thesis using assms by (auto simp: Visualize_def Let_def split: bind_splits option.splits)
qed

section \<open>Runs\<close>

definition grid_map :: sparse_map where
  "grid_map = \<lparr>Corner1 = [Fin 0, Fin 0], Corner2 = [Fin 10, Fin 10], Obstacles = [7],
     LastComputedPath = [[Fin 2, Fin 3], [Fin (- 1), Fin 4]],
     objects = [7 \<mapsto> \<lparr>Points = [[Fin 1, Fin (- 2)]], Severity = 100\<rparr>], next_address = 8\<rparr>"

lemma grid_numbers: "grid_number (Fin 0)" "grid_number (Fin 10)" "grid_number (Fin 2)" "grid_number (Fin 3)" "grid_number (Fin 4)"
  "grid_number (Fin 1)" "grid_number (Fin (- 1))" "grid_number (Fin (- 2))"
  unfolding grid_number_def
  by (intro exI [of _ 0] exI [of _ 10] exI [of _ 2] exI [of _ 3] exI [of _ 4] exI [of _ 1] exI [of _ "- 1"] exI [of _ "- 2"]; simp)+

theorem map_reads_back_witness:
  "\<exists>file m'. Serialize grid_map = Some file \<and> map_file_constructor 6 (Some file) (\<lambda>_. None) 0 = Some (Returns m') \<and>
     LastComputedPath m' = [[Fin 2, Fin 3]]"
  using map_reads_back [of grid_map "[\<lparr>Points = [[Fin 1, Fin (- 2)]], Severity = 100\<rparr>]" 6 "\<lambda>_. None" 0]
  by (simp add: grid_map_def stored_def grid_point_def grid_obstacle_def grid_numbers starts_negative_def) blast

theorem remove_obstacle_sound_witness: "\<exists>m'. RemoveObstacle 7 grid_map = Some m' \<and> Obstacles m' = []"
  using remove_obstacle_sound [of grid_map 7] by (simp add: grid_map_def) blast

theorem repeated_obstacle_deleted_twice_witness:
  "\<exists>m'. RemoveObstacle 7 (AddObstacle 7 (AddObstacle 7 (grid_map\<lparr>Obstacles := []\<rparr>))) = Some m' \<and> map_destructor m' = None"
  using repeated_obstacle_deleted_twice [of "grid_map\<lparr>Obstacles := []\<rparr>" 7] by (simp add: grid_map_def) blast

theorem empty_path_cannot_be_drawn_witness: "Visualize ''map.txt'' [] (grid_map\<lparr>LastComputedPath := []\<rparr>) = Undefined"
  by (rule empty_path_cannot_be_drawn) (simp_all add: grid_map_def)

end
