(* ===== verification/Http_Text.thy ===== *)
theory Http_Text
  imports C_String
begin

text \<open>
  The two decoders of \<open>plugins/output_http/httpd.c\<close>, which work in place: \<open>decodeBase64\<close> for the credentials
  of a request and \<open>unescape\<close> for its parameters. Both are related to the encodings they undo.
\<close>

section \<open>Base64\<close>

text \<open>The chain of comparisons, \<open>None\<close> where the loop goes on with the next character.\<close>

definition base64_value :: "char \<Rightarrow> nat option" where
  "base64_value c = (let t = of_char c :: nat in
     if of_char (CHR ''0'') \<le> t \<and> t \<le> of_char (CHR ''9'') then Some (t - of_char (CHR ''0'') + 52)
     else if of_char (CHR ''A'') \<le> t \<and> t \<le> of_char (CHR ''Z'') then Some (t - of_char (CHR ''A''))
     else if of_char (CHR ''a'') \<le> t \<and> t \<le> of_char (CHR ''z'') then Some (t - of_char (CHR ''a'') + 26)
     else if c = CHR ''+'' then Some 62
     else if c = CHR ''/'' then Some 63
     else if c = CHR ''='' then Some 0
     else None)"

text \<open>\<open>(char) w\<close>: the low byte.\<close>

definition low_char :: "u32 \<Rightarrow> char" where
  "low_char w = char_of (unat w)"

definition shift_in :: "u32 \<Rightarrow> nat \<Rightarrow> u32" where
  "shift_in ch t = push_bit 6 ch OR of_nat t"

text \<open>The loop at the read position \<open>src\<close> and the write position \<open>dst\<close> of one buffer.\<close>

function decode_loop :: "nat \<Rightarrow> nat \<Rightarrow> u32 \<Rightarrow> nat \<Rightarrow> string \<Rightarrow> string option" where
  "decode_loop src dst ch i buf = (case rd buf src of
       None \<Rightarrow> None
     | Some c \<Rightarrow>
         (if c = NUL then wr buf dst NUL
          else case base64_value c of
              None \<Rightarrow> decode_loop (Suc src) dst ch i buf
            | Some t \<Rightarrow>
                (let ch = shift_in ch t in
                 if Suc i = 4 then
                   (case wr_seq buf dst [low_char (drop_bit 16 ch), low_char (drop_bit 8 ch), low_char ch] of
                        None \<Rightarrow> None
                      | Some buf' \<Rightarrow> decode_loop (Suc src) (dst + 3) ch 0 buf')
                 else decode_loop (Suc src) dst ch (Suc i) buf)))"
  by pat_completeness auto
termination
  by (relation "measure (\<lambda>(src, dst, ch, i, buf). length buf - src)")
     (auto simp: rd_Some_iff wr_seq_Some_iff simp del: wr_seq.simps)

declare decode_loop.simps [simp del]

definition decodeBase64 :: "string \<Rightarrow> string option" where
  "decodeBase64 data = decode_loop 0 0 0 0 data"

section \<open>Percent signs\<close>

definition hex_char_to_int :: "char \<Rightarrow> int" where
  "hex_char_to_int c = (let t = of_char c :: int in
     if of_char (CHR ''0'') \<le> t \<and> t \<le> of_char (CHR ''9'') then t - of_char (CHR ''0'')
     else if of_char (CHR ''a'') \<le> t \<and> t \<le> of_char (CHR ''f'') then t - of_char (CHR ''a'') + 10
     else if of_char (CHR ''A'') \<le> t \<and> t \<le> of_char (CHR ''F'') then t - of_char (CHR ''A'') + 10
     else - 1)"

text \<open>
  The loop of \<open>unescape\<close> over the \<open>len\<close> characters of the string. The high digit is stored before the low
  one is looked at.
\<close>

function unescape_loop :: "nat \<Rightarrow> nat \<Rightarrow> nat \<Rightarrow> string \<Rightarrow> (int \<times> string) option" where
  "unescape_loop len src dst buf =
     (if src < len
      then do {
        c \<leftarrow> rd buf src;
        if c \<noteq> CHR ''%'' then do { buf \<leftarrow> wr buf dst c; unescape_loop len (Suc src) (Suc dst) buf }
        else if len < src + 2 then Some (- 1, buf)
        else do {
          high \<leftarrow> rd buf (src + 1);
          if hex_char_to_int high = - 1 then Some (- 1, buf)
          else do {
            buf \<leftarrow> wr buf dst (char_of (hex_char_to_int high * 16));
            low \<leftarrow> rd buf (src + 2);
            if hex_char_to_int low = - 1 then Some (- 1, buf)
            else do {
              d \<leftarrow> rd buf dst;
              buf \<leftarrow> wr buf dst (char_of (of_char d + hex_char_to_int low));
              unescape_loop len (src + 3) (Suc dst) buf
            } } } }
      else do { buf \<leftarrow> wr buf dst NUL; Some (0, buf) })"
  by pat_completeness auto
termination
  by (relation "measure (\<lambda>(len, src, dst, buf). len - src)") auto

declare unescape_loop.simps [simp del]

definition unescape :: "string \<Rightarrow> (int \<times> string) option" where
  "unescape buf = do { s \<leftarrow> c_str buf 0; unescape_loop (length s) 0 0 buf }"

section \<open>The bytes decoded\<close>

fun shifted_out :: "u32 \<Rightarrow> nat \<Rightarrow> nat list \<Rightarrow> string" where
  "shifted_out ch i [] = []"
| "shifted_out ch i (v # vs) = (let ch = shift_in ch v in
     if Suc i = 4 then low_char (drop_bit 16 ch) # low_char (drop_bit 8 ch) # low_char ch # shifted_out ch 0 vs
     else shifted_out ch (Suc i) vs)"

lemma drop_ConsD: "drop n xs = y # ys \<Longrightarrow> n < length xs \<and> xs ! n = y \<and> drop (Suc n) xs = ys"
  by (metis Cons_nth_drop_Suc drop_all list.distinct(1) list.inject not_le)

text \<open>The write position never overtakes the read position, so what is still to be read stays as it is.\<close>

lemma decode_loop_out:
  assumes "drop src buf = s @ NUL # post" and "NUL \<notin> set s" and "dst + i \<le> src" and "i < 4"
  shows "\<exists>buf'. decode_loop src dst ch i buf = Some buf' \<and> length buf' = length buf \<and>
           take (Suc (dst + length (shifted_out ch i (List.map_filter base64_value s)))) buf' =
             take dst buf @ shifted_out ch i (List.map_filter base64_value s) @ [NUL]"
  using assms
proof (induction s arbitrary: src dst ch i buf)
  case Nil
  then have "src < length buf" "buf ! src = NUL" using drop_ConsD [of src buf NUL post] by auto
  with Nil show ?case
    by (subst decode_loop.simps) (auto simp: List.map_filter_simps take_Suc_conv_app_nth)
next
  case (Cons c s)
  then have c: "src < length buf" "buf ! src = c" "c \<noteq> NUL" "drop (Suc src) buf = s @ NUL # post"
    using drop_ConsD [of src buf c "s @ NUL # post"] by auto
  show ?case
  proof (cases "base64_value c")
    case None
    with c Cons.IH [of "Suc src" buf dst i ch] Cons.prems show ?thesis
      by (subst decode_loop.simps) (simp add: List.map_filter_simps)
  next
    case (Some t)
    show ?thesis
    proof (cases "Suc i = 4")
      case False
      with Some c Cons.IH [of "Suc src" buf dst "Suc i" "shift_in ch t"] Cons.prems show ?thesis
        by (subst decode_loop.simps) (simp add: List.map_filter_simps Let_def)
    next
      case True
      define three where "three = [low_char (drop_bit 16 (shift_in ch t)), low_char (drop_bit 8 (shift_in ch t)), low_char (shift_in ch t)]"
      define buf1 where "buf1 = take dst buf @ three @ drop (dst + 3) buf"
      have l3: "length three = 3" by (simp add: three_def)
      have w: "wr_seq buf dst three = Some buf1"
        using True c Cons.prems(3) l3 by (simp add: wr_seq_in buf1_def)
      have len: "length buf1 = length buf" using True c Cons.prems(3) l3 by (simp add: buf1_def)
      have "drop (Suc src) buf1 = drop (Suc src) buf"
        using True c Cons.prems(3) l3 by (simp add: buf1_def)
      with c have d: "drop (Suc src) buf1 = s @ NUL # post" by simp
      have t: "take (dst + 3) buf1 = take dst buf @ three"
        using True c Cons.prems(3) l3 by (simp add: buf1_def)
      from Cons.IH [OF d, of "dst + 3" 0 "shift_in ch t"] True Cons.prems obtain buf' where
        "decode_loop (Suc src) (dst + 3) (shift_in ch t) 0 buf1 = Some buf'" "length buf' = length buf1"
        "take (Suc (dst + 3 + length (shifted_out (shift_in ch t) 0 (List.map_filter base64_value s)))) buf' =
           take (dst + 3) buf1 @ shifted_out (shift_in ch t) 0 (List.map_filter base64_value s) @ [NUL]" by auto
      with Some c True w len t show ?thesis
        by (subst decode_loop.simps)
           (simp add: List.map_filter_simps Let_def three_def eval_nat_numeral del: wr_seq.simps)
    qed
  qed
qed


lemma decodeBase64_out:
  assumes "NUL \<notin> set s"
  shows "\<exists>buf'. decodeBase64 (s @ NUL # post) = Some buf' \<and> length buf' = Suc (length s + length post) \<and>
           c_str buf' 0 = Some (c_text (shifted_out 0 0 (List.map_filter base64_value s)))"
proof -
  define out where "out = shifted_out 0 0 (List.map_filter base64_value s)"
  from decode_loop_out [of 0 "s @ NUL # post" s post 0 0 0] assms obtain buf' where
    b: "decodeBase64 (s @ NUL # post) = Some buf'" "length buf' = Suc (length s + length post)" "take (Suc (length out)) buf' = out @ [NUL]"
    by (auto simp: decodeBase64_def out_def)
  obtain tail where tail: "buf' = (out @ [NUL]) @ tail" by (metis b(3) append_take_drop_id)
  have "takeWhile (\<lambda>c. c \<noteq> NUL) buf' = c_text out" by (simp add: tail c_text_def takeWhile_tail)
  moreover have "length (c_text out) < length buf'"
    using length_takeWhile_le [of "\<lambda>c. c \<noteq> NUL" out] by (simp add: tail c_text_def)
  ultimately have "c_str buf' 0 = Some (c_text out)" by (simp add: c_str_def)
  with b show ?thesis by (auto simp: out_def)
qed

section \<open>The encoding that is undone\<close>

text \<open>Base64 as RFC 4648 describes it.\<close>

definition base64_alphabet :: string where
  "base64_alphabet = ''ABCDEFGHIJKLMNOPQRSTUVWXYZabcdefghijklmnopqrstuvwxyz0123456789+/''"

definition byte_number :: "char \<Rightarrow> char \<Rightarrow> char \<Rightarrow> nat" where
  "byte_number a b c = (of_char a * 256 + of_char b) * 256 + of_char c"

definition six_bits :: "nat \<Rightarrow> nat list" where
  "six_bits n = [n div 262144, n div 4096 mod 64, n div 64 mod 64, n mod 64]"

definition base64_group :: "char \<Rightarrow> char \<Rightarrow> char \<Rightarrow> string" where
  "base64_group a b c = map (\<lambda>v. base64_alphabet ! v) (six_bits (byte_number a b c))"

fun base64_text :: "string \<Rightarrow> string" where
  "base64_text (a # b # c # s) = base64_group a b c @ base64_text s"
| "base64_text [a, b] = take 3 (base64_group a b NUL) @ ''=''"
| "base64_text [a] = take 2 (base64_group a NUL NUL) @ ''==''"
| "base64_text [] = []"

lemma alphabet_values: "map base64_value base64_alphabet = map Some [0..<64]"
  by code_simp

lemma length_alphabet: "length base64_alphabet = 64"
  by (simp add: base64_alphabet_def)

lemma base64_value_nth: "v < 64 \<Longrightarrow> base64_value (base64_alphabet ! v) = Some v"
  using arg_cong [OF alphabet_values, of "\<lambda>l. l ! v"] by (simp add: length_alphabet del: upt_rec_numeral)

lemma base64_value_equals: "base64_value (CHR ''='') = Some 0"
  by code_simp

text \<open>The low 24 bits of the accumulator.\<close>

lemma unat_shift_in: "v < 64 \<Longrightarrow> unat (shift_in ch v) mod 16777216 = (unat ch * 64 + v) mod 16777216"
proof -
  assume v: "v < 64"
  then have "take_bit 6 v = v" by (simp add: take_bit_nat_eq_self)
  then have low: "bit v n \<Longrightarrow> n < 6" for n by (metis bit_take_bit_iff)
  have disjoint: "push_bit 6 (unat ch) AND v = 0"
  proof (rule bit_eqI)
    fix n
    show "bit (push_bit 6 (unat ch) AND v) n \<longleftrightarrow> bit (0 :: nat) n"
      using low [of n] unfolding bit_and_iff bit_push_bit_iff bit_0_eq by auto
  qed
  have "unat (shift_in ch v) = take_bit 32 (push_bit 6 (unat ch)) OR v"
    using v by (simp add: shift_in_def unsigned_or_eq unsigned_push_bit_eq unat_of_nat)
  then have "take_bit 24 (unat (shift_in ch v)) = take_bit 24 (push_bit 6 (unat ch) OR v)"
    by (simp add: take_bit_or)
  also have "\<dots> = take_bit 24 (unat ch * 64 + v)"
    using disjunctive_add_eq_or [OF disjoint] by (simp add: push_bit_eq_mult)
  finally show ?thesis by (simp add: take_bit_eq_mod)
qed

text \<open>Four digits give the three bytes of their number.\<close>

lemma char_of_mod: "n mod 256 = m mod 256 \<Longrightarrow> char_of (n :: nat) = char_of (m :: nat)"
  by (metis char_of_mod_256)

lemma low_bytes:
  assumes "unat w mod 16777216 = n"
  shows "low_char (drop_bit 16 w) = char_of (n div 65536)" and "low_char (drop_bit 8 w) = char_of (n div 256)"
    and "low_char w = char_of n"
proof -
  obtain q where q: "unat w = n + 16777216 * q"
    by (metis assms mod_mult_div_eq)
  have "(n + 16777216 * q) div 65536 = n div 65536 + 256 * q"
    using div_mult_self1 [of 65536 n "256 * q"] by (simp add: mult.commute)
  moreover have "(n + 16777216 * q) div 256 = n div 256 + 256 * (256 * q)"
    using div_mult_self1 [of 256 n "65536 * q"] by (simp add: mult.commute)
  ultimately have q2: "(n + 16777216 * q) div 65536 mod 256 = n div 65536 mod 256"
    "(n + 16777216 * q) div 256 mod 256 = n div 256 mod 256" "(n + 16777216 * q) mod 256 = n mod 256"
    using mod_mult_self2 [of "n div 256" 256 "256 * q"] mod_mult_self2 [of n 256 "65536 * q"] by simp_all
  have u: "unat (drop_bit 16 w) = unat w div 65536" "unat (drop_bit 8 w) = unat w div 256"
    by (simp_all only: unat_drop_bit_eq) (simp_all add: drop_bit_eq_div)
  show "low_char (drop_bit 16 w) = char_of (n div 65536)" and "low_char (drop_bit 8 w) = char_of (n div 256)"
    and "low_char w = char_of n"
    using char_of_mod [OF q2(1)] char_of_mod [OF q2(2)] char_of_mod [OF q2(3)]
    unfolding low_char_def u q by simp_all
qed

lemma four_digits:
  assumes "a < 64" and "b < 64" and "c < 64" and "d < 64"
  shows "\<exists>ch'. shifted_out ch 0 (a # b # c # d # vs) =
    char_of ((((a * 64 + b) * 64 + c) * 64 + d) div 65536) # char_of ((((a * 64 + b) * 64 + c) * 64 + d) div 256) #
    char_of (((a * 64 + b) * 64 + c) * 64 + d) # shifted_out ch' 0 vs"
proof -
  define w where "w = shift_in (shift_in (shift_in (shift_in ch a) b) c) d"
  have step: "x mod 16777216 = y mod 16777216 \<Longrightarrow> (x * 64 + v) mod 16777216 = (y * 64 + v) mod 16777216" for x y v :: nat
    by (rule mod_add_cong [OF mod_mult_cong]) auto
  have "unat w mod 16777216 = ((((unat ch * 64 + a) * 64 + b) * 64 + c) * 64 + d) mod 16777216"
    unfolding w_def unat_shift_in [OF assms(4)]
    by (intro step trans [OF unat_shift_in [OF assms(3)]] trans [OF unat_shift_in [OF assms(2)]] unat_shift_in [OF assms(1)])
  also have "((((unat ch * 64 + a) * 64 + b) * 64 + c) * 64 + d) = (((a * 64 + b) * 64 + c) * 64 + d) + unat ch * 16777216"
    by simp
  also have "\<dots> mod 16777216 = ((a * 64 + b) * 64 + c) * 64 + d"
    using assms by simp
  finally have "unat w mod 16777216 = ((a * 64 + b) * 64 + c) * 64 + d" .
  from low_bytes [OF this] show ?thesis
    by (intro exI [of _ w]) (simp add: w_def Let_def)
qed

text \<open>Three characters, encoded and decoded.\<close>

lemma of_char_less: "(of_char c :: nat) < 256"
  using of_char_mod_256 [of c] by (metis mod_less_divisor zero_less_numeral)

lemma mod_div_less: "n mod 64 < (64 :: nat)"
  by simp

lemma byte_number_parts:
  fixes a b c
  defines "n \<equiv> byte_number a b c"
  shows "((n div 262144 * 64 + n div 4096 mod 64) * 64 + n div 64 mod 64) * 64 + n mod 64 = n"
    and "char_of (n div 65536) = a" and "char_of (n div 256) = b" and "char_of n = c" and "n div 262144 < 64"
proof -
  define x y z :: nat where "x = of_char a" and "y = of_char b" and "z = of_char c"
  have xyz: "x < 256" "y < 256" "z < 256" using of_char_less by (simp_all add: x_def y_def z_def)
  have n_def: "n = (x * 256 + y) * 256 + z" by (simp add: n_def byte_number_def x_def y_def z_def)
  have "n < 16777216" using xyz by (simp add: n_def)
  then show "n div 262144 < 64" by simp
  have m: "n div 256 = x * 256 + y" "n mod 256 = z"
    using xyz(3) unfolding n_def by (simp_all only: div_mult_self3 mod_mult_self3 zero_neq_numeral not_False_eq_True div_less mod_less add_0_right)
  moreover have "(x * 256 + y) div 256 = x" "(x * 256 + y) mod 256 = y"
    using xyz(2) by (simp_all only: div_mult_self3 mod_mult_self3 zero_neq_numeral not_False_eq_True div_less mod_less add_0_right)
  moreover have "n div 65536 = n div 256 div 256" by (simp add: div_mult2_eq [symmetric])
  ultimately have "n div 65536 = x" "n div 256 mod 256 = y" "n mod 256 = z" by simp_all
  then show "char_of (n div 65536) = a" "char_of (n div 256) = b" "char_of n = c"
    unfolding x_def y_def z_def by (metis char_of_char char_of_mod_256)+
  have "n div 262144 = n div 64 div 64 div 64" "n div 4096 = n div 64 div 64" by (simp_all add: div_mult2_eq [symmetric])
  then show "((n div 262144 * 64 + n div 4096 mod 64) * 64 + n div 64 mod 64) * 64 + n mod 64 = n"
    by simp
qed

text \<open>The values of a group, and of the shorter groups at the end, whose \<open>=\<close> stands for six zero bits.\<close>

lemma values_group: "map base64_value (base64_group a b c) = map Some (six_bits (byte_number a b c))"
  using byte_number_parts(5) by (simp add: base64_group_def six_bits_def base64_value_nth)

lemma values_map_filter: "map f xs = map Some ys \<Longrightarrow> List.map_filter f (xs @ zs) = ys @ List.map_filter f zs"
  by (induction xs arbitrary: ys) (auto simp: List.map_filter_simps Cons_eq_map_conv)

lemma values_padded:
  "map base64_value (base64_text [a, b]) = map Some (six_bits (byte_number a b NUL))"
  "map base64_value (base64_text [a]) = map Some (six_bits (byte_number a NUL NUL))"
proof -
  have "byte_number a b NUL mod 64 = 0" "byte_number a NUL NUL mod 64 = 0" "byte_number a NUL NUL div 64 mod 64 = 0"
    by (simp_all add: byte_number_def)
  with values_group [of a b NUL] values_group [of a NUL NUL] show
    "map base64_value (base64_text [a, b]) = map Some (six_bits (byte_number a b NUL))"
    "map base64_value (base64_text [a]) = map Some (six_bits (byte_number a NUL NUL))"
    by (simp_all add: base64_group_def six_bits_def base64_value_equals numeral_3_eq_3 numeral_2_eq_2)
qed

lemma base64_text_values: "c \<in> set (base64_text s) \<Longrightarrow> base64_value c \<noteq> None"
proof (induction s rule: base64_text.induct)
  case (1 x y z s)
  then show ?case using arg_cong [OF values_group [of x y z], of set] by auto
next
  case (2 x y)
  then show ?case using arg_cong [OF values_padded(1) [of x y], of set] by auto
next
  case (3 x)
  then show ?case using arg_cong [OF values_padded(2) [of x], of set] by auto
qed simp

text \<open>What the loop stores for a group.\<close>

lemma shifted_out_group:
  "\<exists>ch'. shifted_out ch 0 (six_bits (byte_number a b c) @ vs) = a # b # c # shifted_out ch' 0 vs"
proof -
  define n where "n = byte_number a b c"
  note parts = byte_number_parts [of a b c, folded n_def]
  from four_digits [OF parts(5) mod_div_less mod_div_less mod_div_less, of ch "n div 4096" "n div 64" n vs]
  show ?thesis unfolding six_bits_def n_def [symmetric] append.simps parts(1-4) .
qed

lemma shifted_out_text:
  assumes "\<forall>c \<in> set junk. base64_value c = None"
  shows "\<exists>k. shifted_out ch 0 (List.map_filter base64_value (base64_text s @ junk)) = s @ replicate k NUL"
proof (induction s arbitrary: ch rule: base64_text.induct)
  case (1 a b c s)
  from shifted_out_group [of ch a b c "List.map_filter base64_value (base64_text s @ junk)"] obtain ch' where
    "shifted_out ch 0 (List.map_filter base64_value (base64_text (a # b # c # s) @ junk)) =
      a # b # c # shifted_out ch' 0 (List.map_filter base64_value (base64_text s @ junk))"
    using values_map_filter [OF values_group, of a b c "base64_text s @ junk"] by auto
  with "1.IH" [of ch'] show ?case by auto
next
  case (2 a b)
  have "List.map_filter base64_value junk = []" using assms by (induction junk) (auto simp: List.map_filter_simps)
  with shifted_out_group [of ch a b NUL "[]"] values_map_filter [OF values_padded(1), of a b junk] show ?case
    by (intro exI [of _ 1]) auto
next
  case (3 a)
  have "List.map_filter base64_value junk = []" using assms by (induction junk) (auto simp: List.map_filter_simps)
  with shifted_out_group [of ch a NUL NUL "[]"] values_map_filter [OF values_padded(2), of a junk] show ?case
    by (intro exI [of _ 2]) (auto simp: numeral_2_eq_2)
next
  case 4
  have "List.map_filter base64_value junk = []" using assms by (induction junk) (auto simp: List.map_filter_simps)
  then show ?case by simp
qed

text \<open>
  The credentials come back: whatever follows them on the line is skipped, and the zero bytes of the padding end
  the string.
\<close>

lemma decodeBase64_text:
  assumes "NUL \<notin> set s" and "\<forall>c \<in> set junk. base64_value c = None \<and> c \<noteq> NUL"
  shows "\<exists>buf'. decodeBase64 (base64_text s @ junk @ NUL # post) = Some buf' \<and> c_str buf' 0 = Some s"
proof -
  have "base64_value NUL = None" by code_simp
  with assms(2) base64_text_values [of NUL s] have no_NUL: "NUL \<notin> set (base64_text s @ junk)" by auto
  from shifted_out_text [of junk 0 s] assms(2) obtain k where
    "shifted_out 0 0 (List.map_filter base64_value (base64_text s @ junk)) = s @ replicate k NUL" by auto
  moreover have "c_text (s @ replicate k NUL) = s"
    using assms(1) by (cases k) (auto simp: c_text_def takeWhile_tail)
  ultimately show ?thesis using decodeBase64_out [OF no_NUL, of post] by auto
qed

section \<open>Escaped characters\<close>

text \<open>A character may stand for itself, or be written as a percent sign and two hexadecimal digits of either case.\<close>

definition written_as :: "char \<Rightarrow> string \<Rightarrow> bool" where
  "written_as c w \<longleftrightarrow> (c \<noteq> CHR ''%'' \<and> w = [c]) \<or>
     (\<exists>h l. w = [CHR ''%'', h, l] \<and> hex_char_to_int h \<noteq> - 1 \<and> hex_char_to_int l \<noteq> - 1 \<and>
        of_char c = hex_char_to_int h * 16 + hex_char_to_int l)"

lemma hex_range: "hex_char_to_int c = - 1 \<or> (0 \<le> hex_char_to_int c \<and> hex_char_to_int c \<le> 15)"
  by (auto simp: hex_char_to_int_def Let_def)

lemma rd_append: "rd (xs @ y # ys) (length xs) = Some y"
  by simp

text \<open>
  \<open>pre\<close> is what has been stored, \<open>gap\<close> the characters between the two positions, which no longer matter.
\<close>

lemma unescape_loop_written:
  assumes "list_all2 written_as cs ws" and "NUL \<notin> set (concat ws)"
  shows "\<exists>tail. unescape_loop (length (pre @ gap @ concat ws)) (length (pre @ gap)) (length pre) (pre @ gap @ concat ws @ NUL # post) =
    Some (0, pre @ cs @ NUL # tail)"
  using assms
proof (induction cs ws arbitrary: pre gap rule: list_all2_induct)
  case Nil
  then show ?case by (subst unescape_loop.simps) (cases gap; simp)
next
  case (Cons c cs w ws)
  then consider "c \<noteq> CHR ''%''" "w = [c]"
    | h l where "w = [CHR ''%'', h, l]" "hex_char_to_int h \<noteq> - 1" "hex_char_to_int l \<noteq> - 1"
        "of_char c = hex_char_to_int h * 16 + hex_char_to_int l"
    by (auto simp: written_as_def)
  then show ?case
  proof cases
    case 1
    define gap' where "gap' = tl (gap @ [c])"
    have gap': "(pre @ gap @ c # s)[length pre := c] = (pre @ [c]) @ gap' @ s" "length gap' = length gap" for s
      by (cases gap; simp add: gap'_def list_update_append)+
    from Cons.IH [of "pre @ [c]" gap'] Cons.prems 1 gap' show ?thesis
      by (subst unescape_loop.simps) simp
  next
    case 2
    then have c: "char_of (of_char (char_of (hex_char_to_int h * 16) :: char) + hex_char_to_int l) = c"
      using hex_range [of h] hex_range [of l] by (metis char_of_char mod_add_left_eq of_char_of char_of_mod_256)
    define s where "s = concat ws @ NUL # post"
    define gap' where "gap' = tl (gap @ [CHR ''%'', h, l])"
    define x where "x = (char_of (hex_char_to_int h * 16) :: char)"
    have b1: "(pre @ gap @ [CHR ''%'', h, l] @ s)[length pre := x] = pre @ x # gap' @ s" "length gap' = length gap + 2"
      by (cases gap; simp add: gap'_def list_update_append)+
    have rl: "(pre @ x # gap' @ s) ! (length pre + length gap + 2) = l"
      unfolding b1(1) [symmetric] by (simp add: nth_append)
    from Cons.IH [of "pre @ [c]" gap'] Cons.prems 2 b1 rl c show ?thesis
      by (subst unescape_loop.simps)
         (simp add: nth_append s_def [symmetric] x_def [symmetric] list_update_append numeral_3_eq_3)
  qed
qed

lemma unescape_written:
  assumes "list_all2 written_as cs ws" and "NUL \<notin> set (concat ws)"
  shows "\<exists>tail. unescape (concat ws @ NUL # post) = Some (0, cs @ NUL # tail)"
  using unescape_loop_written [OF assms, of "[]" "[]"] c_str_0 [OF assms(2)] by (simp add: unescape_def)

text \<open>Whatever the string is, the loop stays inside it and its terminator.\<close>

lemma unescape_loop_defined:
  "dst \<le> src \<Longrightarrow> dst \<le> len \<Longrightarrow> len < length buf \<Longrightarrow>
   \<exists>rc buf'. unescape_loop len src dst buf = Some (rc, buf') \<and> length buf' = length buf \<and> (rc = 0 \<or> rc = - 1)"
proof (induction "len - src" arbitrary: src dst buf rule: less_induct)
  case (less src dst buf)
  note IH = less.hyps and prems = less.prems
  show ?case
  proof (cases "src < len")
    case False
    then show ?thesis using prems by (subst unescape_loop.simps) simp
  next
    case True
    show ?thesis
    proof (cases "buf ! src = CHR ''%''")
      case False
      with True IH [of "Suc src" "Suc dst" "buf[dst := buf ! src]"] prems show ?thesis
        by (subst unescape_loop.simps) simp
    next
      case percent: True
      show ?thesis
      proof (cases "len < src + 2 \<or> hex_char_to_int (buf ! (src + 1)) = - 1")
        case True
        with percent \<open>src < len\<close> prems show ?thesis by (subst unescape_loop.simps) auto
      next
        case False
        from \<open>src < len\<close> have "len - (src + 3) < len - src" by simp
        from IH [OF this, of "Suc dst" "buf[dst := x]" for x] False \<open>src < len\<close> percent prems show ?thesis
          by (subst unescape_loop.simps) simp
      qed
    qed
  qed
qed

text \<open>\<open>unescape\<close> on a string: it returns, and its buffer keeps its size.\<close>

lemma unescape_defined:
  assumes "c_str buf 0 = Some s"
  shows "\<exists>rc buf'. unescape buf = Some (rc, buf') \<and> length buf' = length buf \<and> (rc = 0 \<or> rc = - 1)"
proof -
  from assms have "length s < length buf" by (auto simp: c_str_def Let_def split: if_splits)
  with assms unescape_loop_defined [of 0 0 "length s" buf] show ?thesis by (simp add: unescape_def)
qed

end
