(* ===== verification/Http_Io.thy ===== *)
theory Http_Io
  imports Robot_Run
begin

text \<open>
  The reading side of the HTTP server of the video stream
  (\<open>clank/lib/module/VideoStreamer/mjpg-streamer/plugins/output_http/httpd.c\<close>): the buffer between the
  socket and the parser, \<open>_read\<close> with its timeout and \<open>_readline\<close>.

  What the kernel will deliver on a connection is a list of arrivals. A chunk longer than the 256 bytes asked for
  leaves its rest for the next call; when the list has ended nothing more arrives and every wait ends in a timeout.
  \<open>exit\<close> ends the process, which no caller can prevent: it is the value \<open>Process_exit\<close>.
\<close>

section \<open>The buffer\<close>

abbreviation IO_BUFFER :: nat where "IO_BUFFER \<equiv> 256"

text \<open>\<open>level\<close> is signed; the bytes not yet handed out are the last \<open>level\<close> ones of the buffer.\<close>

record iobuffer =
  level :: int
  contents :: string

definition init_iobuffer :: iobuffer where
  "init_iobuffer = \<lparr>level = 0, contents = replicate IO_BUFFER NUL\<rparr>"

text \<open>A chunk without bytes is the end of the connection, where \<open>read\<close> returns 0.\<close>

datatype arrival = Chunk string | Quiet | Read_error | Select_error

type_synonym byte_reader = "iobuffer \<times> arrival list"

text \<open>\<open>read(fd, &iobuf->buffer, IO_BUFFER)\<close> of the bytes \<open>bs\<close>, and the \<open>memmove\<close> behind it.\<close>

definition refill :: "string \<Rightarrow> iobuffer" where
  "refill bs = (let fresh = bs @ drop (length bs) (contents init_iobuffer)
                in \<lparr>level = int (length bs), contents = take (IO_BUFFER - length bs) fresh @ bs\<rparr>)"

definition rest_of_chunk :: "string \<Rightarrow> arrival list \<Rightarrow> arrival list" where
  "rest_of_chunk bs as = (if length bs \<le> IO_BUFFER then as else Chunk (drop IO_BUFFER bs) # as)"

definition bytes_left :: "arrival list \<Rightarrow> nat" where
  "bytes_left as = (\<Sum>a\<leftarrow>as. case a of Chunk bs \<Rightarrow> Suc (length bs) | _ \<Rightarrow> 1)"

text \<open>
  The loop of \<open>_read\<close>. \<open>got\<close> is what has been stored in the caller's buffer so far, so that \<open>copied\<close> is its
  length. The smaller of \<open>level\<close> and the bytes missing is taken between unsigned numbers, where a negative level counts as
  huge: then the copy starts behind the buffer, which is undefined.
\<close>

function read_loop :: "nat \<Rightarrow> string \<Rightarrow> iobuffer \<Rightarrow> arrival list \<Rightarrow> (int \<times> string) run \<times> byte_reader" where
  "read_loop len got b as =
     (if len \<le> length got then (Returns (0, got), b, as)
      else if level b < 0 \<or> int (length (contents b)) < level b then (Undefined, b, as)
      else let i = min (nat (level b)) (len - length got);
               got = got @ take i (drop (length (contents b) - nat (level b)) (contents b));
               b = b\<lparr>level := level b - int i\<rparr>
           in if len \<le> length got then (Returns (int (length got), got), b, as)
              else case as of
                  [] \<Rightarrow> (Returns (int (length got), got), b, [])
                | Quiet # as \<Rightarrow> (Returns (int (length got), got), b, as)
                | Select_error # as \<Rightarrow> (Throws Process_exit, b, as)
                | Read_error # as \<Rightarrow> (Returns (- 1, got), init_iobuffer\<lparr>level := - 1\<rparr>, as)
                | Chunk [] # as \<Rightarrow> (Returns (- 1, got), init_iobuffer, as)
                | Chunk (c # cs) # as \<Rightarrow>
                    read_loop len got (refill (take IO_BUFFER (c # cs))) (rest_of_chunk (c # cs) as))"
  by pat_completeness auto
termination
  by (relation "measure (\<lambda>(len, got, b, as). bytes_left as)") (auto simp: rest_of_chunk_def bytes_left_def)

declare read_loop.simps [simp del]

text \<open>Without the zeros the caller's buffer is set to first.\<close>

definition read_bytes :: "nat \<Rightarrow> (byte_reader, int \<times> string) op" where
  "read_bytes len = (\<lambda>(b, as). read_loop len [] b as)"

text \<open>
  \<open>_readline\<close>: at most \<open>len\<close> bytes, up to and with the newline. \<open>line\<close> is what has been stored; \<open>c\<close> starts as a
  zero byte.
\<close>

function readline_loop :: "nat \<Rightarrow> string \<Rightarrow> (byte_reader, int \<times> string) op" where
  "readline_loop len line r =
     (if length line < len \<and> (line = [] \<or> last line \<noteq> newline)
      then case read_bytes 1 r of
          (Returns (n, c), r') \<Rightarrow> (if n \<le> 0 then (Returns (- 1, line), r') else readline_loop len (line @ take 1 (c @ [NUL])) r')
        | (Throws e, r') \<Rightarrow> (Throws e, r')
        | (Blocks, r') \<Rightarrow> (Blocks, r')
        | (Undefined, r') \<Rightarrow> (Undefined, r')
      else (Returns (int (length line), line), r))"
  by pat_completeness auto
termination
  by (relation "measure (\<lambda>(len, line, r). len - length line)") auto

declare readline_loop.simps [simp del]

definition readline :: "nat \<Rightarrow> (byte_reader, int \<times> string) op" where
  "readline len = readline_loop len []"

section \<open>The bytes still to come\<close>

text \<open>
  The abstraction of a reader: the bytes in the buffer, followed by the chunks that arrive before anything
  else happens. \<open>buffer_ok\<close> is the invariant of the buffer.
\<close>

definition buffer_ok :: "iobuffer \<Rightarrow> bool" where
  "buffer_ok b \<longleftrightarrow> 0 \<le> level b \<and> level b \<le> int IO_BUFFER \<and> length (contents b) = IO_BUFFER"

definition buffered :: "iobuffer \<Rightarrow> string" where
  "buffered b = drop (IO_BUFFER - nat (level b)) (contents b)"

fun arriving :: "arrival list \<Rightarrow> string" where
  "arriving (Chunk (c # cs) # as) = c # cs @ arriving as"
| "arriving as = []"

definition upcoming :: "byte_reader \<Rightarrow> string" where
  "upcoming r = buffered (fst r) @ arriving (snd r)"

lemma init_iobuffer_ok [simp]: "buffer_ok init_iobuffer" and buffered_init [simp]: "buffered init_iobuffer = []"
  by (simp_all add: buffer_ok_def buffered_def init_iobuffer_def)

lemma refill_ok: "length bs \<le> IO_BUFFER \<Longrightarrow> buffer_ok (refill bs) \<and> buffered (refill bs) = bs"
  by (simp add: buffer_ok_def buffered_def refill_def init_iobuffer_def Let_def)

lemma length_buffered: "buffer_ok b \<Longrightarrow> length (buffered b) = nat (level b)"
  by (auto simp: buffer_ok_def buffered_def)

lemma arriving_rest: "cs \<noteq> [] \<Longrightarrow> take IO_BUFFER cs @ arriving (rest_of_chunk cs as) = arriving (Chunk cs # as)"
  by (cases cs; cases "drop IO_BUFFER cs") (auto simp: rest_of_chunk_def, metis append_Cons append_take_drop_id)

text \<open>Taking bytes out of the buffer.\<close>

lemma buffered_taken:
  assumes "buffer_ok b" and "i \<le> nat (level b)"
  shows "buffer_ok (b\<lparr>level := level b - int i\<rparr>)" and "buffered (b\<lparr>level := level b - int i\<rparr>) = drop i (buffered b)"
proof -
  from assms show "buffer_ok (b\<lparr>level := level b - int i\<rparr>)" by (auto simp: buffer_ok_def)
  have "IO_BUFFER - nat (level b - int i) = i + (IO_BUFFER - nat (level b))"
    using assms by (auto simp: buffer_ok_def)
  then show "buffered (b\<lparr>level := level b - int i\<rparr>) = drop i (buffered b)"
    by (simp add: buffered_def)
qed

text \<open>One byte: the next of the stream, whatever the chunks are.\<close>

lemma read_one:
  assumes "buffer_ok b" and "upcoming (b, as) = c # cs"
  shows "\<exists>b' as'. read_bytes 1 (b, as) = (Returns (1, [c]), b', as') \<and> buffer_ok b' \<and> upcoming (b', as') = cs"
proof (cases "level b = 0")
  case False
  then have pos: "0 < level b" using assms(1) by (simp add: buffer_ok_def)
  then obtain bs where bs: "buffered b = c # bs"
    using assms length_buffered [OF assms(1)] by (cases "buffered b") (auto simp: upcoming_def)
  have "read_bytes 1 (b, as) = (Returns (1, [c]), b\<lparr>level := level b - int 1\<rparr>, as)"
    using assms(1) bs pos
    by (subst read_bytes_def, simp, subst read_loop.simps) (simp add: buffer_ok_def buffered_def Let_def)
  with buffered_taken [OF assms(1), of 1] bs pos assms(2) show ?thesis by (auto simp: upcoming_def)
next
  case True
  then have "buffered b = []" using length_buffered [OF assms(1)] by simp
  with assms(2) have "arriving as = c # cs" by (simp add: upcoming_def)
  then obtain ds rest where ds: "as = Chunk (c # ds) # rest"
    by (cases as rule: arriving.cases) auto
  define b1 as1 where "b1 = refill (take IO_BUFFER (c # ds))" and "as1 = rest_of_chunk (c # ds) rest"
  have b1: "buffer_ok b1" "buffered b1 = take IO_BUFFER (c # ds)" using refill_ok by (auto simp: b1_def)
  have up: "upcoming (b1, as1) = c # cs"
    using arriving_rest [of "c # ds" rest] \<open>arriving as = c # cs\<close> ds b1(2) by (simp add: upcoming_def as1_def)
  have pos: "0 < level b1" using length_buffered [OF b1(1)] b1 by (auto simp: gr0_conv_Suc)
  have "read_bytes 1 (b, as) = read_loop 1 [] b1 as1"
    using True assms(1) ds
    by (subst read_bytes_def, simp, subst read_loop.simps) (simp add: buffer_ok_def b1_def as1_def)
  also have "\<dots> = (Returns (1, [c]), b1\<lparr>level := level b1 - int 1\<rparr>, as1)"
    using b1 pos by (subst read_loop.simps) (simp add: buffer_ok_def buffered_def Let_def)
  finally show ?thesis
    using buffered_taken [OF b1(1), of 1] b1 pos up by (auto simp: upcoming_def)
qed


text \<open>
  A line that arrives before anything else does is read as it is, however it has been cut into chunks, and the bytes behind
  it stay for the next call. \<open>got\<close> is the part stored already.
\<close>

lemma readline_rest:
  assumes "buffer_ok b" and "upcoming (b, as) = rest @ later" and "newline \<notin> set (butlast (got @ rest))"
    and "got @ rest \<noteq> []" and "length (got @ rest) \<le> len"
    and "last (got @ rest) = newline \<or> length (got @ rest) = len"
  shows "\<exists>b' as'. readline_loop len got (b, as) = (Returns (int (length (got @ rest)), got @ rest), b', as') \<and>
           buffer_ok b' \<and> upcoming (b', as') = later"
  using assms
proof (induction rest arbitrary: got b as)
  case Nil
  then show ?case by (subst readline_loop.simps) auto
next
  case (Cons c cs)
  then obtain b1 as1 where r: "read_bytes 1 (b, as) = (Returns (1, [c]), b1, as1)" "buffer_ok b1" "upcoming (b1, as1) = cs @ later"
    using read_one [of b as c "cs @ later"] by auto
  have "got = [] \<or> last got \<noteq> newline"
  proof (cases got rule: rev_cases)
    case (snoc xs x)
    then have "x \<in> set (butlast (got @ c # cs))" by (simp add: butlast_append)
    with Cons.prems(3) snoc show ?thesis by auto
  qed simp
  then have "readline_loop len got (b, as) = readline_loop len (got @ [c]) (b1, as1)"
    using Cons.prems(5) r(1) by (subst readline_loop.simps) simp
  moreover have "\<exists>b' as'. readline_loop len (got @ [c]) (b1, as1) =
      (Returns (int (length ((got @ [c]) @ cs)), (got @ [c]) @ cs), b', as') \<and> buffer_ok b' \<and> upcoming (b', as') = later"
    using Cons.prems r by (intro Cons.IH) simp_all
  ultimately show ?case by simp
qed

lemma readline_line:
  assumes "buffer_ok b" and "upcoming (b, as) = line @ newline # later" and "newline \<notin> set line" and "length line < len"
  shows "\<exists>b' as'. readline len (b, as) = (Returns (int (length line) + 1, line @ [newline]), b', as') \<and>
           buffer_ok b' \<and> upcoming (b', as') = later"
  using readline_rest [of b as "line @ [newline]" later "[]" len] assms by (simp add: readline_def add.commute)

text \<open>A line longer than the buffer is handed out in parts.\<close>

lemma readline_part:
  assumes "buffer_ok b" and "upcoming (b, as) = part @ later" and "newline \<notin> set part" and "length part = len" and "0 < len"
  shows "\<exists>b' as'. readline len (b, as) = (Returns (int len, part), b', as') \<and> buffer_ok b' \<and> upcoming (b', as') = later"
  using readline_rest [of b as part later "[]" len] assms in_set_butlastD [of newline part] by (auto simp: readline_def)

text \<open>A call that hands out bytes leaves less to read.\<close>

definition reader_size :: "byte_reader \<Rightarrow> nat" where
  "reader_size r = nat (level (fst r)) + bytes_left (snd r)"

lemma bytes_left_Cons [simp]:
  "bytes_left (Chunk bs # as) = Suc (length bs) + bytes_left as" "bytes_left [] = 0"
  by (simp_all add: bytes_left_def)

lemma level_refill: "level (refill bs) = int (length bs)"
  by (simp add: refill_def Let_def)

lemma rest_of_chunk_size: "min (length cs) IO_BUFFER + bytes_left (rest_of_chunk cs as) \<le> Suc (length cs) + bytes_left as"
  by (simp add: rest_of_chunk_def)

lemma read_loop_buffered:
  "read_loop 1 [] b as = (Returns (n, c), r') \<Longrightarrow> 0 < level b \<Longrightarrow> reader_size r' < reader_size (b, as) \<and> 0 < length c"
  by (subst (asm) read_loop.simps) (auto simp: reader_size_def Let_def split: if_splits)

lemma read_one_size:
  assumes "read_bytes 1 r = (Returns (n, c), r')" and "0 < n"
  shows "reader_size r' < reader_size r"
proof (cases r)
  case (Pair b as)
  with assms(1) have loop: "read_loop 1 [] b as = (Returns (n, c), r')" by (simp add: read_bytes_def)
  consider "0 < level b" | "level b < 0" | "level b = 0" by linarith
  then show ?thesis
  proof cases
    case 1
    with read_loop_buffered [OF loop] Pair show ?thesis by simp
  next
    case 2
    with loop show ?thesis by (subst (asm) read_loop.simps) simp
  next
    case 3
    with loop assms(2) obtain d ds rest where ds: "as = Chunk (d # ds) # rest"
        "read_loop 1 [] (refill (take IO_BUFFER (d # ds))) (rest_of_chunk (d # ds) rest) = (Returns (n, c), r')"
      by (subst (asm) read_loop.simps) (auto simp: Let_def split: list.splits arrival.splits if_splits)
    define bs where "bs = take IO_BUFFER (d # ds)"
    then have bs: "bs \<noteq> []" "length bs = min (length (d # ds)) IO_BUFFER" by simp_all
    have "0 < level (refill bs)" using bs(1) by (simp add: level_refill)
    from read_loop_buffered [OF ds(2) [folded bs_def] this]
    have "reader_size r' < length bs + bytes_left (rest_of_chunk (d # ds) rest)"
      unfolding reader_size_def [of "(_, _)"] fst_conv snd_conv level_refill by simp
    with rest_of_chunk_size [of "d # ds" rest] bs(2) 3 ds(1) Pair show ?thesis
      by (simp add: reader_size_def [of "(_, _)"])
  qed
qed

lemma readline_loop_size:
  "readline_loop len line r = (Returns (n, l), r') \<Longrightarrow> 0 < n \<Longrightarrow>
   length line \<le> length l \<and> reader_size r' + length l \<le> reader_size r + length line \<and> n = int (length l)"
proof (induction len line r rule: readline_loop.induct)
  case (1 len line r)
  show ?case
  proof (cases "length line < len \<and> (line = [] \<or> last line \<noteq> newline)")
    case False
    with "1.prems" show ?thesis by (subst (asm) readline_loop.simps) auto
  next
    case True
    obtain m c r1 where r1: "read_bytes 1 r = (Returns (m, c), r1)" "0 < m"
        "readline_loop len (line @ take 1 (c @ [NUL])) r1 = (Returns (n, l), r')"
      using "1.prems" True by (subst (asm) readline_loop.simps) (auto split: prod.splits run.splits if_splits)
    have "length (take 1 (c @ [NUL])) = 1" by simp
    with "1.IH" [OF True r1(1) [symmetric] refl refl] r1 "1.prems"(2) read_one_size [OF r1(1,2)] show ?thesis by simp
  qed
qed

lemma readline_size: "readline len r = (Returns (n, l), r') \<Longrightarrow> 0 < n \<Longrightarrow> reader_size r' < reader_size r"
  using readline_loop_size [of len "[]" r n l r'] by (cases l) (auto simp: readline_def)

section \<open>The interface\<close>

text \<open>
  What the parser of a request relies on: as long as whole lines are ahead, each call hands out the next one.
\<close>

locale line_source =
  fixes next_line :: "'s \<Rightarrow> (int \<times> string) run \<times> 's"
    and ahead :: "'s \<Rightarrow> string"
    and ready :: "'s \<Rightarrow> bool"
    and limit :: nat
  assumes next_line: "ready s \<Longrightarrow> ahead s = l @ newline # rest \<Longrightarrow> newline \<notin> set l \<Longrightarrow> length l < limit \<Longrightarrow>
      \<exists>s'. next_line s = (Returns (int (length l) + 1, l @ [newline]), s') \<and> ready s' \<and> ahead s' = rest"
begin

text \<open>A loop that reads and handles lines until one of them tells it to stop.\<close>

lemma read_until:
  assumes loop: "\<And>r x s s'. next_line s = (Returns (int (length r) + 1, r @ [newline]), s') \<Longrightarrow>
      loop x s = (if final r then (Returns (result (handle r x)), s') else loop (handle r x) s')"
    and "\<forall>l \<in> set ls. \<not> final l" and "final l0"
    and "\<forall>l \<in> set (ls @ [l0]). newline \<notin> set l \<and> length l < limit"
    and "ready s" and "ahead s = concat (map (\<lambda>l. l @ [newline]) (ls @ [l0])) @ rest"
  shows "\<exists>s'. loop x s = (Returns (result (fold handle (ls @ [l0]) x)), s') \<and> ready s' \<and> ahead s' = rest"
  using assms(2-)
proof (induction ls arbitrary: s x)
  case Nil
  then obtain s' where s': "next_line s = (Returns (int (length l0) + 1, l0 @ [newline]), s')" "ready s'" "ahead s' = rest"
    using next_line [of s l0 rest] by auto
  with loop [OF s'(1), of x] Nil.prems show ?case by simp
next
  case (Cons l ls)
  then obtain s' where s': "next_line s = (Returns (int (length l) + 1, l @ [newline]), s')" "ready s'"
      "ahead s' = concat (map (\<lambda>l. l @ [newline]) (ls @ [l0])) @ rest"
    using next_line [of s l "concat (map (\<lambda>l. l @ [newline]) (ls @ [l0])) @ rest"] by auto
  from Cons.prems s' have "\<exists>t. loop (handle l x) s' = (Returns (result (fold handle (ls @ [l0]) (handle l x))), t) \<and> ready t \<and> ahead t = rest"
    by (intro Cons.IH) auto
  with loop [OF s'(1), of x] Cons.prems(1) show ?case by auto
qed

end

interpretation http_line: line_source "readline len" upcoming "\<lambda>r. buffer_ok (fst r)" len for len
proof
  fix s :: byte_reader and l rest
  assume "buffer_ok (fst s)" and "upcoming s = l @ newline # rest" and "newline \<notin> set l" and "length l < len"
  then show "\<exists>s'. readline len s = (Returns (int (length l) + 1, l @ [newline]), s') \<and> buffer_ok (fst s') \<and> upcoming s' = rest"
    using readline_line [of "fst s" "snd s" l rest len] by auto
qed

section \<open>Property\<close>

text \<open>C37: \<open>_readline\<close> refines taking a line off a stream of bytes. Let the bytes still to come - those in the buffer and those of the
  chunks that arrive before a timeout or an error - start with a line shorter than the caller's buffer. However they are cut into
  chunks, and however many of them are in the buffer already, the line is returned with its length, and the bytes behind it are still to come.
\<close>

lemma readline_refines:
  assumes "buffer_ok b" and "upcoming (b, as) = l @ newline # rest" and "newline \<notin> set l" and "length l < len"
  shows "\<exists>b' as'. readline len (b, as) = (Returns (int (length l) + 1, l @ [newline]), b', as') \<and>
    buffer_ok b' \<and> upcoming (b', as') = rest"
  using http_line.next_line [of "(b, as)" l rest len] assms by auto

lemma readline_refines_witness:
  "\<exists>b' as'. readline 1023 (init_iobuffer, [Chunk ''GET'', Chunk (''/'' @ [newline] @ ''Ho''), Chunk ''st'']) =
      (Returns (5, ''GET/'' @ [newline]), b', as') \<and> buffer_ok b' \<and> upcoming (b', as') = ''Host''"
  using readline_refines [of init_iobuffer "[Chunk ''GET'', Chunk (''/'' @ [newline] @ ''Ho''), Chunk ''st'']" "''GET/''" "''Host''" 1023]
  by (simp add: upcoming_def)

end
