(* ===== verification/Http_Server.thy ===== *)
theory Http_Server
  imports Http_Io
begin

text \<open>
  The answers of the HTTP server (\<open>plugins/output_http/httpd.c\<close>): error messages, single pictures, the endless
  stream of pictures, files and commands, over the globals of \<open>mjpg_streamer.h\<close>.

  Outside the model, and fields of the state: the command functions of the plugins, the files of the disk, which
  allocations succeed, the results of \<open>write\<close>, and the pictures. \<open>frames\<close> lists, per
  input plugin, what the shared buffer holds when each wait on its condition ends, and whether \<open>stop\<close> is set by the
  time it is looked at next; when the list has ended the wait does not end.
\<close>

section \<open>State\<close>

text \<open>
  A control of a plugin: the fields of \<open>v4l2_queryctrl\<close> and \<open>control\<close>, numbers as \<open>%d\<close> prints them; a null pointer is
  \<open>None\<close>. The menu items are an array of names.
\<close>

record plugin_control =
  ctrl_name :: string
  ctrl_id :: int
  ctrl_type :: int
  minimum :: int
  maximum :: int
  step :: int
  default_value :: int
  ctrl_flags :: int
  ctrl_value :: int
  ctrl_group :: int
  menuitems :: "string list option"

record plugin =
  plugin_name :: string
  plugin_id :: int
  parameters :: string
  controls :: "plugin_control list option"
  cmd :: "int \<Rightarrow> int \<Rightarrow> int \<Rightarrow> int \<Rightarrow> int"

record frame =
  tv_sec :: int
  tv_usec :: int
  picture :: string

datatype write_result = Write_failed | Written nat

datatype command_dest = Dest_Input | Dest_Output | Dest_Program

record web =
  inputs :: "plugin list"
  outputs :: "plugin list"
  stop :: bool
  frames :: "(frame \<times> bool) list list"
  credentials :: "string option"
  www_folder :: "string option"
  nocommands :: bool
  files :: "string \<Rightarrow> string option"
  can_allocate :: "nat \<Rightarrow> bool"
  incoming :: byte_reader
  write_results :: "write_result list"
  sent :: "string list"
  opened :: "string list"
  executed :: "(command_dest \<times> int \<times> int \<times> int \<times> int) list"
  is_open :: bool

section \<open>Writing\<close>

abbreviation BUFFER_SIZE :: nat where "BUFFER_SIZE \<equiv> 1024"

text \<open>The result, and what has left for the client; only a negative result is looked at by the callers.\<close>

definition write_fd :: "string \<Rightarrow> web \<Rightarrow> int \<times> web" where
  "write_fd text s = (case write_results s of
       [] \<Rightarrow> (int (length text), s\<lparr>sent := sent s @ [text]\<rparr>)
     | Write_failed # rs \<Rightarrow> (- 1, s\<lparr>write_results := rs\<rparr>)
     | Written n # rs \<Rightarrow> (int (min n (length text)), s\<lparr>write_results := rs, sent := sent s @ [take n text]\<rparr>))"

text \<open>\<open>sprintf\<close> into a buffer of \<open>n\<close> bytes.\<close>

definition formatted :: "nat \<Rightarrow> string \<Rightarrow> (string \<Rightarrow> (web, 'a) op) \<Rightarrow> (web, 'a) op" where
  "formatted n text k s = (if length text < n then k text s else (Undefined, s))"

definition write_ignored :: "string \<Rightarrow> (web, unit) op" where
  "write_ignored text = modify_state (\<lambda>s. snd (write_fd text s))"

abbreviation crlf :: string where "crlf \<equiv> [CHR 0x0D, CHR 0x0A]"

abbreviation dquote :: string where "dquote \<equiv> [CHR 0x22]"

definition STD_HEADER :: string where
  "STD_HEADER = ''Connection: close'' @ crlf @
     ''Server: MJPG-Streamer/0.2'' @ crlf @
     ''Cache-Control: no-store, no-cache, must-revalidate, pre-check=0, post-check=0, max-age=0'' @ crlf @
     ''Pragma: no-cache'' @ crlf @
     ''Expires: Mon, 3 Jan 2000 12:34:56 GMT'' @ crlf"

abbreviation BOUNDARY :: string where "BOUNDARY \<equiv> ''boundarydonotcross''"

section \<open>Errors\<close>

definition error_text :: "int \<Rightarrow> string \<Rightarrow> string" where
  "error_text which msg =
     (if which = 401 then ''HTTP/1.0 401 Unauthorized'' @ crlf @ ''Content-type: text/plain'' @ crlf @ STD_HEADER @
        ''WWW-Authenticate: Basic realm='' @ dquote @ ''MJPG-Streamer'' @ dquote @ crlf @ crlf @ ''401: Not Authenticated!'' @ crlf @ msg
      else if which = 404 then ''HTTP/1.0 404 Not Found'' @ crlf @ ''Content-type: text/plain'' @ crlf @ STD_HEADER @
        crlf @ ''404: Not Found!'' @ crlf @ msg
      else if which = 500 then ''HTTP/1.0 500 Internal Server Error'' @ crlf @ ''Content-type: text/plain'' @ crlf @ STD_HEADER @
        crlf @ ''500: Internal Server Error!'' @ crlf @ msg
      else if which = 400 then ''HTTP/1.0 400 Bad Request'' @ crlf @ ''Content-type: text/plain'' @ crlf @ STD_HEADER @
        crlf @ ''400: Not Found!'' @ crlf @ msg
      else ''HTTP/1.0 501 Not Implemented'' @ crlf @ ''Content-type: text/plain'' @ crlf @ STD_HEADER @
        crlf @ ''501: Not Implemented!'' @ crlf @ msg)"

definition send_error :: "int \<Rightarrow> string \<Rightarrow> (web, unit) op" where
  "send_error which msg = formatted BUFFER_SIZE (error_text which msg) write_ignored"

section \<open>Pictures\<close>

text \<open>\<open>%06d\<close>\<close>

definition fmt_06d :: "int \<Rightarrow> string" where
  "fmt_06d n = (let d = digits10 \<bar>n\<bar> in
     if n < 0 then ''-'' @ replicate (5 - length d) (CHR ''0'') @ d else replicate (6 - length d) (CHR ''0'') @ d)"

definition time_text :: "frame \<Rightarrow> string" where
  "time_text f = fmt_d (tv_sec f) @ ''.'' @ fmt_06d (tv_usec f)"

text \<open>Waiting for a fresh picture: it becomes the next of the list, and the flag may be set meanwhile.\<close>

definition wait_frame :: "nat \<Rightarrow> (web, frame) op" where
  "wait_frame n s = (case frames s ! n of
       [] \<Rightarrow> (Blocks, s)
     | (f, stopped) # fs \<Rightarrow> (Returns f, s\<lparr>frames := (frames s)[n := fs], stop := stop s \<or> stopped\<rparr>))"

definition send_snapshot :: "nat \<Rightarrow> (web, unit) op" where
  "send_snapshot input_number = and_then (wait_frame input_number) (\<lambda>f s.
     if \<not> can_allocate s (length (picture f) + 1) then send_error 500 ''not enough memory'' s
     else formatted BUFFER_SIZE
            (''HTTP/1.0 200 OK'' @ crlf @ STD_HEADER @ ''Content-type: image/jpeg'' @ crlf @
             ''X-Timestamp: '' @ time_text f @ crlf @ crlf)
            (\<lambda>buffer s. case write_fd buffer s of
                 (n, s) \<Rightarrow> if n < 0 then (Returns (), s) else write_ignored (picture f) s) s)"

definition stream_header :: string where
  "stream_header = ''HTTP/1.0 200 OK'' @ crlf @ STD_HEADER @
     ''Content-Type: multipart/x-mixed-replace;boundary='' @ BOUNDARY @ crlf @ crlf @ ''--'' @ BOUNDARY @ crlf"

definition part_header :: "frame \<Rightarrow> string" where
  "part_header f = ''Content-Type: image/jpeg'' @ crlf @ ''Content-Length: '' @ fmt_d (int (length (picture f))) @ crlf @
     ''X-Timestamp: '' @ time_text f @ crlf @ crlf"

definition part_end :: string where
  "part_end = crlf @ ''--'' @ BOUNDARY @ crlf"

text \<open>The three writes of a picture; \<open>False\<close> when one of them fails and the loop is left.\<close>

definition send_part :: "frame \<Rightarrow> (web, bool) op" where
  "send_part f = formatted BUFFER_SIZE (part_header f) (\<lambda>buffer s.
     case write_fd buffer s of (n, s) \<Rightarrow>
       if n < 0 then (Returns False, s)
       else case write_fd (picture f) s of (n, s) \<Rightarrow>
         if n < 0 then (Returns False, s)
         else formatted BUFFER_SIZE part_end (\<lambda>buffer s.
           case write_fd buffer s of (n, s) \<Rightarrow> (Returns (0 \<le> n), s)) s)"

text \<open>The loop over the pictures that will come; \<open>max_frame_size\<close> is the size of the buffer allocated so far.\<close>

fun stream_loop :: "nat \<Rightarrow> nat \<Rightarrow> (frame \<times> bool) list \<Rightarrow> (web, unit) op" where
  "stream_loop n max_frame_size [] s = (if stop s then (Returns (), s) else (Blocks, s))"
| "stream_loop n max_frame_size ((f, stopped) # fs) s =
     (if stop s then (Returns (), s)
      else let s = s\<lparr>frames := (frames s)[n := fs], stop := stopped\<rparr>;
               size = (if max_frame_size < length (picture f) then length (picture f) + 10 * 1024 else max_frame_size)
           in if max_frame_size < length (picture f) \<and> \<not> can_allocate s size then send_error 500 ''not enough memory'' s
              else case send_part f s of
                  (Returns True, s) \<Rightarrow> stream_loop n size fs s
                | (Returns False, s) \<Rightarrow> (Returns (), s)
                | (Throws e, s) \<Rightarrow> (Throws e, s)
                | (Blocks, s) \<Rightarrow> (Blocks, s)
                | (Undefined, s) \<Rightarrow> (Undefined, s))"

definition send_stream :: "nat \<Rightarrow> (web, unit) op" where
  "send_stream input_number = formatted BUFFER_SIZE stream_header (\<lambda>buffer s.
     case write_fd buffer s of (n, s) \<Rightarrow>
       if n < 0 then (Returns (), s) else stream_loop input_number 0 (frames s ! input_number) s)"

section \<open>Files\<close>

definition mimetypes :: "(string \<times> string) list" where
  "mimetypes =
    [(''.html'', ''text/html''), (''.htm'', ''text/html''), (''.css'', ''text/css''), (''.js'', ''text/javascript''),
     (''.txt'', ''text/plain''), (''.jpg'', ''image/jpeg''), (''.jpeg'', ''image/jpeg''), (''.png'', ''image/png''),
     (''.gif'', ''image/gif''), (''.ico'', ''image/x-icon''), (''.swf'', ''application/x-shockwave-flash''),
     (''.cab'', ''application/x-shockwave-flash''), (''.jar'', ''application/java-archive''),
     (''.json'', ''application/json'')]"

text \<open>The loop that follows \<open>strchr\<close> to the last point, from position \<open>pos\<close> on; 0 when there is none.\<close>

function last_dot :: "string \<Rightarrow> nat \<Rightarrow> nat \<Rightarrow> nat" where
  "last_dot parameter pos found = (case strchr (drop pos parameter) (CHR ''.'') of
       None \<Rightarrow> found
     | Some i \<Rightarrow> last_dot parameter (pos + i + 1) (pos + i))"
  by pat_completeness auto
termination
  by (relation "measure (\<lambda>(parameter, pos, found). length parameter - pos)") (auto dest: strchr_Some)

declare last_dot.simps [simp del]

text \<open>The header, then the content in blocks of the buffer's size, until a write fails.\<close>

function send_blocks :: "string \<Rightarrow> string \<Rightarrow> web \<Rightarrow> web" where
  "send_blocks block rest s = (case write_fd block s of (n, s) \<Rightarrow>
     if n < 0 \<or> rest = [] then s else send_blocks (take BUFFER_SIZE rest) (drop BUFFER_SIZE rest) s)"
  by pat_completeness auto
termination
  by (relation "measure (\<lambda>(block, rest, s). length rest)") auto

declare send_blocks.simps [simp del]

definition file_path :: "string \<Rightarrow> string \<Rightarrow> string" where
  "file_path folder parameter = (let buffer = take (BUFFER_SIZE - 1) folder
     in buffer @ take (BUFFER_SIZE - length buffer - 1) parameter)"

definition send_file :: "string \<Rightarrow> string \<Rightarrow> (web, unit) op" where
  "send_file folder parameter s =
     (let parameter = (if parameter = [] then ''index.html'' else parameter);
          lastDot = last_dot parameter 0 0
      in if lastDot = 0 then send_error 400 ''No file extension found'' s
         else case map_of mimetypes (drop lastDot parameter) of
             None \<Rightarrow> send_error 404 ''MIME-TYPE not known'' s
           | Some mimetype \<Rightarrow>
               (let path = file_path folder parameter; s = s\<lparr>opened := opened s @ [path]\<rparr> in
                case files s path of
                    None \<Rightarrow> send_error 404 ''Could not open file'' s
                  | Some content \<Rightarrow>
                      formatted BUFFER_SIZE
                        (''HTTP/1.0 200 OK'' @ crlf @ ''Content-type: '' @ mimetype @ crlf @ STD_HEADER @ crlf)
                        (\<lambda>buffer. modify_state (send_blocks buffer content)) s))"

section \<open>Commands\<close>

text \<open>\<open>MAX(MIN(strtol(svalue, NULL, 10), INT_MAX), INT_MIN)\<close> of the characters that may be part of a number.\<close>

definition int_option :: "string \<Rightarrow> int" where
  "int_option text = max (min (strtol10 64 (take (strspn text ''-1234567890'') text)) 2147483647) (- 2147483648)"

text \<open>An optional variable of the parameter: its default, its value, or no memory for the copy.\<close>

definition get_variable :: "string \<Rightarrow> int \<Rightarrow> string \<Rightarrow> web \<Rightarrow> int option" where
  "get_variable key otherwise parameter s = (case strstr parameter key of
       None \<Rightarrow> Some otherwise
     | Some i \<Rightarrow>
         (let text = drop (i + length key) parameter
          in if can_allocate s (strspn text ''-1234567890'' + 1) then Some (int_option text) else None))"

definition no_memory :: "(web, unit) op" where
  "no_memory = send_error 500 ''could not allocate memory''"

text \<open>The call of a plugin; a negative plugin number is an index in front of the array.\<close>

definition call_plugin :: "command_dest \<Rightarrow> plugin list \<Rightarrow> int \<Rightarrow> int \<Rightarrow> int \<Rightarrow> int \<Rightarrow> (web, int) op" where
  "call_plugin dest plugins plugin_no command_id grp ivalue s =
     (if plugin_no < int (length plugins)
      then if plugin_no < 0 then (Undefined, s)
           else (Returns (cmd (plugins ! nat plugin_no) plugin_no (to_u32 command_id) (to_u32 grp) ivalue),
                 s\<lparr>executed := executed s @ [(dest, plugin_no, to_u32 command_id, to_u32 grp, ivalue)]\<rparr>)
      else (Returns 0, s))"

definition dispatch :: "int \<Rightarrow> int \<Rightarrow> int \<Rightarrow> int \<Rightarrow> int \<Rightarrow> (web, int) op" where
  "dispatch dest plugin_no command_id grp ivalue s =
     (if dest = 0 then call_plugin Dest_Input (inputs s) plugin_no command_id grp ivalue s
      else if dest = 1 then call_plugin Dest_Output (outputs s) plugin_no command_id grp ivalue s
      else (Returns 0, s))"

definition command :: "string \<Rightarrow> (web, unit) op" where
  "command parameter s =
     (if 255 \<le> length parameter \<or> parameter = [] then send_error 400 ''Parameter-string of command does not look valid.'' s
      else case strstr parameter ''id='' of
          None \<Rightarrow> send_error 400 (''no GET variable '' @ dquote @ ''id=...'' @ dquote @
                    '' found, it is required to specify which command id to execute'') s
        | Some i \<Rightarrow>
            (let text = drop (i + length ''id='') parameter;
                 name = take (strspn text
                   ''abcdefghijklmnopqrstuvwxyzABCDEFGHIJKLMNOPQRSTUVWXYZ_1234567890'') text
             in if \<not> can_allocate s (length name + 1) \<or> \<not> can_allocate s (strspn name ''-1234567890'' + 1) then no_memory s
                else case get_variable ''value='' 0 parameter s of None \<Rightarrow> no_memory s | Some ivalue \<Rightarrow>
                     case get_variable ''group='' 0 parameter s of None \<Rightarrow> no_memory s | Some grp \<Rightarrow>
                     case get_variable ''dest='' 0 parameter s of None \<Rightarrow> no_memory s | Some dest \<Rightarrow>
                     case get_variable ''plugin='' 0 parameter s of None \<Rightarrow> no_memory s | Some plugin_no \<Rightarrow>
                     and_then (dispatch dest plugin_no (int_option name) grp ivalue) (\<lambda>res.
                       formatted BUFFER_SIZE
                         (''HTTP/1.0 200 OK'' @ crlf @ ''Content-type: text/plain'' @ crlf @ STD_HEADER @ crlf @
                          name @ '': '' @ fmt_d res) write_ignored) s))"

end
