(* ===== verification/Http_Json.thy ===== *)
theory Http_Json
  imports Http_Server
begin

text \<open>
  The descriptions of the plugins in JSON (\<open>send_Input_JSON\<close>, \<open>send_Output_JSON\<close> and \<open>send_Program_JSON\<close> of
  \<open>plugins/output_http/httpd.c\<close>). They are built by \<open>sprintf\<close> calls at the end of one buffer of 16 KiB, without a
  check of its size; the text of a menu is built in a block of the heap that grows with each item.
\<close>

section \<open>Texts\<close>

abbreviation JSON_SIZE :: nat where "JSON_SIZE \<equiv> BUFFER_SIZE * 16"

abbreviation nl :: string where "nl \<equiv> [CHR 0x0A]"

definition quoted :: "string \<Rightarrow> string" where
  "quoted text = dquote @ text @ dquote"

definition member_text :: "string \<Rightarrow> string \<Rightarrow> string" where
  "member_text key text = quoted key @ '': '' @ quoted text"

text \<open>\<open>sprintf(buffer + strlen(buffer), \<dots>)\<close>\<close>

definition append_text :: "string \<Rightarrow> string \<Rightarrow> string option" where
  "append_text buffer text = (if length buffer + length text < JSON_SIZE then Some (buffer @ text) else None)"

definition json_header :: string where
  "json_header = ''HTTP/1.0 200 OK'' @ crlf @ ''Content-type: '' @ ''application/x-javascript'' @ crlf @ STD_HEADER @ crlf"

section \<open>Menus\<close>

abbreviation V4L2_CTRL_TYPE_MENU :: int where "V4L2_CTRL_TYPE_MENU \<equiv> 3"

definition menu_item :: "plugin_control \<Rightarrow> int \<Rightarrow> string \<Rightarrow> string" where
  "menu_item c j name = member_text (fmt_d j) name @ (if j \<noteq> maximum c then '', '' else [])"

text \<open>
  One item of an input's menu. \<open>item_length + 5\<close> bytes are added to the block; no memory is \<open>Returns None\<close>, an index
  outside the array of items or a store outside the block \<open>Undefined\<close>.
\<close>

definition input_menu_step :: "plugin_control \<Rightarrow> string list \<Rightarrow> (nat \<Rightarrow> bool) \<Rightarrow> int \<Rightarrow> string option \<Rightarrow> string option run" where
  "input_menu_step c items alloc j menu =
     (if j < 0 \<or> int (length items) \<le> j then Undefined
      else let name = items ! nat j;
               itemLength = length name + length (dquote @ dquote @ '': '' @ dquote @ dquote);
               previous = (case menu of None \<Rightarrow> [] | Some m \<Rightarrow> m);
               size = length previous + itemLength + 5
           in if \<not> alloc size then Returns None
              else if length (previous @ menu_item c j name) < size then Returns (Some (previous @ menu_item c j name))
              else Undefined)"

text \<open>The loop over the items, from the smallest to the largest value of the control.\<close>

function menu_loop :: "(int \<Rightarrow> string option \<Rightarrow> string option run) \<Rightarrow> int \<Rightarrow> int \<Rightarrow> string option \<Rightarrow> string option option run" where
  "menu_loop menu_step last_item j menu =
     (if j \<le> last_item
      then case menu_step j menu of
          Returns None \<Rightarrow> Returns None
        | Returns (Some menu) \<Rightarrow> menu_loop menu_step last_item (j + 1) (Some menu)
        | _ \<Rightarrow> Undefined
      else Returns (Some menu))"
  by pat_completeness auto
termination
  by (relation "measure (\<lambda>(menu_step, last_item, j, menu). nat (last_item - j + 1))") auto

declare menu_loop.simps [simp del]

definition input_menu :: "(nat \<Rightarrow> bool) \<Rightarrow> plugin_control \<Rightarrow> string option option run" where
  "input_menu alloc c = (if ctrl_type c = V4L2_CTRL_TYPE_MENU
     then case menuitems c of
         None \<Rightarrow> Returns (Some None)
       | Some items \<Rightarrow> menu_loop (input_menu_step c items alloc) (maximum c) (minimum c) None
     else Returns (Some None))"

text \<open>
  One item of an output's menu. Here the length of the text so far is taken first, of a null pointer too (\<open>None\<close>);
  the test for the null pointer, the allocation of the first block or of a larger one, and the item printed behind the
  text so far follow.
\<close>

definition string_length :: "string option \<Rightarrow> nat option" where
  "string_length p = map_option length p"

definition output_menu_step :: "plugin_control \<Rightarrow> string list \<Rightarrow> (nat \<Rightarrow> bool) \<Rightarrow> int \<Rightarrow> string option \<Rightarrow> string option run" where
  "output_menu_step c items alloc j menu = (case string_length menu of
       None \<Rightarrow> Undefined
     | Some prevSize \<Rightarrow>
         if j < 0 \<or> int (length items) \<le> j then Undefined
         else let name = items ! nat j;
                  itemLength = length name + length (dquote @ dquote @ '': '' @ dquote @ dquote);
                  (size, block) = (case menu of None \<Rightarrow> (itemLength + 5, []) | Some m \<Rightarrow> (prevSize + itemLength + 5, m))
              in if \<not> alloc size then Returns None
                 else if prevSize + length (menu_item c j name) < size then Returns (Some (take prevSize block @ menu_item c j name))
                 else Undefined)"

definition output_menu :: "(nat \<Rightarrow> bool) \<Rightarrow> plugin_control \<Rightarrow> string option option run" where
  "output_menu alloc c = (if ctrl_type c = V4L2_CTRL_TYPE_MENU
     then case menuitems c of
         None \<Rightarrow> Returns (Some None)
       | Some items \<Rightarrow> menu_loop (output_menu_step c items alloc) (maximum c) (minimum c) None
     else Returns (Some None))"

section \<open>Controls\<close>

definition control_text :: "string \<Rightarrow> plugin_control \<Rightarrow> string" where
  "control_text dest c = ''{'' @ nl @
     member_text ''name'' (ctrl_name c) @ '','' @ nl @
     member_text ''id'' (fmt_d (ctrl_id c)) @ '','' @ nl @
     member_text ''type'' (fmt_d (ctrl_type c)) @ '','' @ nl @
     member_text ''min'' (fmt_d (minimum c)) @ '','' @ nl @
     member_text ''max'' (fmt_d (maximum c)) @ '','' @ nl @
     member_text ''step'' (fmt_d (step c)) @ '','' @ nl @
     member_text ''default'' (fmt_d (default_value c)) @ '','' @ nl @
     member_text ''value'' (fmt_d (ctrl_value c)) @ '','' @ nl @
     member_text ''dest'' dest @ '','' @ nl @
     member_text ''flags'' (fmt_d (ctrl_flags c)) @ '','' @ nl @
     member_text ''group'' (fmt_d (ctrl_group c))"

text \<open>The end of a control; a null pointer for \<open>%s\<close> is undefined.\<close>

definition control_end :: "plugin_control \<Rightarrow> string option \<Rightarrow> string option" where
  "control_end c menu = (if ctrl_type c = V4L2_CTRL_TYPE_MENU
     then map_option (\<lambda>m. '','' @ nl @ quoted ''menu'' @ '': {'' @ m @ ''}'' @ nl @ ''}'') menu
     else Some (nl @ ''}''))"

fun controls_loop :: "(plugin_control \<Rightarrow> string option option run) \<Rightarrow> string \<Rightarrow> plugin_control list \<Rightarrow> string \<Rightarrow> string option run" where
  "controls_loop menu_of dest [] buffer = Returns (Some buffer)"
| "controls_loop menu_of dest (c # cs) buffer = (case menu_of c of
       Returns None \<Rightarrow> Returns None
     | Returns (Some menu) \<Rightarrow>
         (case do { buffer \<leftarrow> append_text buffer (control_text dest c);
                    end \<leftarrow> control_end c menu;
                    buffer \<leftarrow> append_text buffer end;
                    if cs \<noteq> [] then append_text buffer ('','' @ nl) else Some buffer } of
              None \<Rightarrow> Undefined
            | Some buffer \<Rightarrow> controls_loop menu_of dest cs buffer)
     | _ \<Rightarrow> Undefined)"

text \<open>The whole answer, from the controls of a plugin; \<open>None\<close> for a plugin without any.\<close>

definition controls_json :: "(plugin_control \<Rightarrow> string option option run) \<Rightarrow> string \<Rightarrow> plugin_control list option \<Rightarrow> string option run" where
  "controls_json menu_of dest params =
     (let buffer = json_header @ ''{'' @ nl @ quoted ''controls'' @ '': ['' @ nl in
      case (case params of None \<Rightarrow> Returns (Some buffer) | Some cs \<Rightarrow> controls_loop menu_of dest cs buffer) of
          Returns None \<Rightarrow> Returns None
        | Returns (Some buffer) \<Rightarrow>
            (case append_text buffer (nl @ '']'' @ nl @ ''}'' @ nl) of None \<Rightarrow> Undefined | Some buffer \<Rightarrow> Returns (Some buffer))
        | _ \<Rightarrow> Undefined)"

definition send_json :: "string option run \<Rightarrow> (web, unit) op" where
  "send_json answer s = (case answer of
       Returns None \<Rightarrow> (Returns (), s)
     | Returns (Some buffer) \<Rightarrow> write_ignored buffer s
     | _ \<Rightarrow> (Undefined, s))"

definition send_Input_JSON :: "nat \<Rightarrow> (web, unit) op" where
  "send_Input_JSON plugin_number s = send_json
     (controls_json (input_menu (can_allocate s)) ''0'' (controls (inputs s ! plugin_number))) s"

text \<open>The entries of the array behind the last output plugin are zero.\<close>

definition send_Output_JSON :: "nat \<Rightarrow> (web, unit) op" where
  "send_Output_JSON plugin_number s = send_json
     (controls_json (output_menu (can_allocate s)) ''1''
        (if plugin_number < length (outputs s) then controls (outputs s ! plugin_number) else None)) s"

section \<open>The program\<close>

definition plugin_text :: "plugin \<Rightarrow> string" where
  "plugin_text p = ''{'' @ nl @ member_text ''id'' (fmt_d (plugin_id p)) @ '','' @ nl @
     member_text ''name'' (plugin_name p) @ '','' @ nl @ member_text ''args'' (parameters p) @ nl @ ''}''"

fun plugins_loop :: "plugin list \<Rightarrow> string \<Rightarrow> string option" where
  "plugins_loop [] buffer = Some buffer"
| "plugins_loop (p # ps) buffer = do {
     buffer \<leftarrow> append_text buffer (plugin_text p);
     buffer \<leftarrow> append_text buffer (if ps \<noteq> [] then '', '' @ nl else nl);
     plugins_loop ps buffer }"

definition program_json :: "plugin list \<Rightarrow> plugin list \<Rightarrow> string option" where
  "program_json ins outs = do {
     buffer \<leftarrow> plugins_loop ins (json_header @ ''{'' @ nl @ quoted ''inputs'' @ '':['' @ nl);
     buffer \<leftarrow> append_text buffer (''],'' @ nl);
     buffer \<leftarrow> append_text buffer (quoted ''outputs'' @ '':['' @ nl);
     buffer \<leftarrow> plugins_loop outs buffer;
     append_text buffer ('']}'' @ nl) }"

definition send_Program_JSON :: "(web, unit) op" where
  "send_Program_JSON s = send_json (case program_json (inputs s) (outputs s) of None \<Rightarrow> Undefined | Some b \<Rightarrow> Returns (Some b)) s"

section \<open>The size of the answers\<close>

text \<open>A control adds at least 100 characters, whatever its numbers are.\<close>

lemma fmt_d_length: "1 \<le> length (fmt_d n)"
  by (simp add: fmt_d_def Suc_le_eq)

lemma control_text_length: "100 \<le> length (control_text dest c)"
  by (simp add: control_text_def member_text_def quoted_def)

lemma controls_loop_length:
  "controls_loop menu_of dest cs buffer = Returns (Some buffer') \<Longrightarrow>
   length buffer + 100 * length cs \<le> length buffer' \<and> (cs = [] \<or> length buffer' < JSON_SIZE)"
proof (induction cs arbitrary: buffer)
  case Nil
  then show ?case by simp
next
  case (Cons c cs)
  from Cons.prems obtain menu b1 b2 b3 fin where b: "append_text buffer (control_text dest c) = Some b1"
      "append_text b1 fin = Some b2" "(if cs \<noteq> [] then append_text b2 ('','' @ nl) else Some b2) = Some b3"
      "controls_loop menu_of dest cs b3 = Returns (Some buffer')"
    by (auto split: run.splits option.splits bind_splits)
  then have "length buffer + 100 \<le> length b3 \<and> length b3 < JSON_SIZE"
    using control_text_length [of dest c] by (auto simp: append_text_def split: if_splits)
  with Cons.IH [OF b(4)] b(4) show ?case by (cases cs) auto
qed

end
