(* ===== verification/Http_Client.thy ===== *)
theory Http_Client
  imports Http_Text Http_Json
begin

text \<open>
  \<open>client_thread\<close> of \<open>plugins/output_http/httpd.c\<close>: one connection, from its first line to its answer, without the
  compile-time option \<open>WXP_COMPAT\<close>. The state is that of Http_Server.
\<close>

section \<open>The request\<close>

datatype answer_t = A_UNKNOWN | A_SNAPSHOT | A_STREAM | A_COMMAND | A_FILE | A_INPUT_JSON | A_OUTPUT_JSON | A_PROGRAM_JSON

record http_request =
  req_type :: answer_t
  req_parameter :: "string option"
  req_client :: "string option"
  req_credentials :: "string option"

definition init_request :: http_request where
  "init_request = \<lparr>req_type = A_UNKNOWN, req_parameter = None, req_client = None, req_credentials = None\<rparr>"

definition has :: "string \<Rightarrow> string \<Rightarrow> bool" where
  "has text pat \<longleftrightarrow> strstr text pat \<noteq> None"

definition request_type :: "string \<Rightarrow> answer_t" where
  "request_type buffer =
     (if has buffer ''GET /?action=snapshot'' then A_SNAPSHOT
      else if has buffer ''GET /?action=stream'' then A_STREAM
      else if has buffer ''GET /input'' \<and> has buffer ''.json'' then A_INPUT_JSON
      else if has buffer ''GET /output'' \<and> has buffer ''.json'' then A_OUTPUT_JSON
      else if has buffer ''GET /program.json'' then A_PROGRAM_JSON
      else if has buffer ''GET /?action=command'' then A_COMMAND
      else A_FILE)"

abbreviation letters :: string where
  "letters \<equiv> ''abcdefghijklmnopqrstuvwxyzABCDEFGHIJKLMNOPQRSTUVWXYZ''"

abbreviation command_chars :: string where
  "command_chars \<equiv> letters @ ''_-=&1234567890%./''"

abbreviation file_chars :: string where
  "file_chars \<equiv> letters @ ''._-1234567890''"

text \<open>At most 100 of the accepted characters, copied into a block of zeros with one byte more.\<close>

definition accepted :: "string \<Rightarrow> string \<Rightarrow> string" where
  "accepted chars pb = take (min (strspn pb chars) 100) pb"

text \<open>
  What the first line asks for, with the parameter. \<open>Returns None\<close>: an error has been answered, the connection is to be
  closed. The process ends when there is no memory.
\<close>

definition parse_parameter :: "string \<Rightarrow> (web, (answer_t \<times> string option) option) op" where
  "parse_parameter buffer s =
     (case request_type buffer of
        A_COMMAND \<Rightarrow>
          (case strstr buffer ''GET /?action=command'' of
             None \<Rightarrow> and_then (send_error 400 ''Malformed HTTP request'') (\<lambda>_ s. (Returns None, s)) s
           | Some i \<Rightarrow>
               (let parameter = accepted command_chars (drop (i + length ''GET /?action=command'') buffer) in
                if \<not> can_allocate s (length parameter + 1) then (Throws Process_exit, s)
                else case unescape (parameter @ [NUL]) of
                    None \<Rightarrow> (Undefined, s)
                  | Some (rc, parameter) \<Rightarrow>
                      (if rc = - 1
                       then and_then (send_error 500 ''could not properly unescape command parameter string'') (\<lambda>_ s. (Returns None, s)) s
                       else (Returns (Some (A_COMMAND, Some (c_text parameter))), s))))
      | A_FILE \<Rightarrow>
          (case strstr buffer ''GET /'' of
             None \<Rightarrow> and_then (send_error 400 ''Malformed HTTP request'') (\<lambda>_ s. (Returns None, s)) s
           | Some i \<Rightarrow>
               (let parameter = accepted file_chars (drop (i + length ''GET /'') buffer) in
                if \<not> can_allocate s (length parameter + 1) then (Throws Process_exit, s)
                else (Returns (Some (A_FILE, Some parameter)), s)))
      | kind \<Rightarrow> (Returns (Some (kind, None)), s))"

text \<open>The number behind the first underscore, one digit, for the requests that may name an input.\<close>

definition input_suffix :: "answer_t \<Rightarrow> string \<Rightarrow> int" where
  "input_suffix kind buffer =
     (if kind = A_COMMAND \<or> kind = A_FILE then 0
      else case strchr buffer (CHR ''_'') of
          None \<Rightarrow> 0
        | Some i \<Rightarrow> strtol10 64 (take 1 (drop (i + 1) buffer)))"

section \<open>The header\<close>

text \<open>\<open>strdup\<close>, whose null pointer \<open>decodeBase64\<close> would follow.\<close>

definition duplicate :: "(nat \<Rightarrow> bool) \<Rightarrow> string \<Rightarrow> string option" where
  "duplicate alloc text = (if alloc (length text + 1) then Some text else None)"

definition handle_header :: "(nat \<Rightarrow> bool) \<Rightarrow> string \<Rightarrow> http_request \<Rightarrow> http_request option" where
  "handle_header alloc buffer req =
     (if has buffer ''User-Agent: '' then
        Some (req\<lparr>req_client := duplicate alloc (drop (length ''User-Agent: '') buffer)\<rparr>)
      else if has buffer ''Authorization: Basic '' then do {
        text \<leftarrow> duplicate alloc (drop (length ''Authorization: Basic '') buffer);
        decoded \<leftarrow> decodeBase64 (text @ [NUL]);
        plain \<leftarrow> c_str decoded 0;
        Some (req\<lparr>req_credentials := Some plain\<rparr>) }
      else Some req)"

function header_loop :: "(nat \<Rightarrow> bool) \<Rightarrow> http_request \<Rightarrow> (byte_reader, http_request option) op" where
  "header_loop alloc req r = (case readline (BUFFER_SIZE - 1) r of
       (Returns (cnt, buffer), r') \<Rightarrow>
         (if cnt = - 1 then (Returns None, r')
          else case handle_header alloc (c_text buffer) req of
              None \<Rightarrow> (Undefined, r')
            | Some req \<Rightarrow> (if 2 < cnt \<and> \<not> is_prefix crlf buffer then header_loop alloc req r' else (Returns (Some req), r')))
     | (Throws e, r') \<Rightarrow> (Throws e, r')
     | (Blocks, r') \<Rightarrow> (Blocks, r')
     | (Undefined, r') \<Rightarrow> (Undefined, r'))"
  by pat_completeness auto
termination
  by (relation "measure (\<lambda>(alloc, req, r). reader_size r)") (auto intro: readline_size [OF sym])

declare header_loop.simps [simp del]

section \<open>The thread\<close>

definition on_incoming :: "(byte_reader, 'a) op \<Rightarrow> (web, 'a) op" where
  "on_incoming m s = (case m (incoming s) of (r, r') \<Rightarrow> (r, s\<lparr>incoming := r'\<rparr>))"

definition close_fd :: "(web, unit) op" where
  "close_fd = modify_state (\<lambda>s. s\<lparr>is_open := False\<rparr>)"

definition answer :: "int \<Rightarrow> http_request \<Rightarrow> (web, unit) op" where
  "answer input_number req s = (case req_type req of
       A_SNAPSHOT \<Rightarrow> send_snapshot (nat input_number) s
     | A_STREAM \<Rightarrow> send_stream (nat input_number) s
     | A_COMMAND \<Rightarrow>
         (if nocommands s then send_error 501 ''this server is configured to not accept commands'' s
          else command (the (req_parameter req)) s)
     | A_INPUT_JSON \<Rightarrow> send_Input_JSON (nat input_number) s
     | A_OUTPUT_JSON \<Rightarrow> send_Output_JSON (nat input_number) s
     | A_PROGRAM_JSON \<Rightarrow> send_Program_JSON s
     | A_FILE \<Rightarrow>
         (case www_folder s of
            None \<Rightarrow> send_error 501 ''no www-folder configured'' s
          | Some folder \<Rightarrow> send_file folder (the (req_parameter req)) s)
     | A_UNKNOWN \<Rightarrow> (Returns (), s))"

definition allowed :: "web \<Rightarrow> http_request \<Rightarrow> bool" where
  "allowed s req \<longleftrightarrow> credentials s = None \<or> req_credentials req = credentials s"

text \<open>The checks behind the header, and the answer.\<close>

definition check_and_answer :: "int \<Rightarrow> http_request \<Rightarrow> (web, unit) op" where
  "check_and_answer input_number req s =
     (if \<not> allowed s req
      then send_error 401 ''username and password do not match to configuration'' s
      else if \<not> input_number < int (length (inputs s))
      then send_error 404 ''Invalid input plugin number'' s
      else answer input_number req s)"

text \<open>The rest of the header is read and the request answered.\<close>

definition serve :: "string \<Rightarrow> answer_t \<Rightarrow> string option \<Rightarrow> (web, unit) op" where
  "serve buffer kind parameter = and_then
     (\<lambda>s. on_incoming (header_loop (can_allocate s) (init_request\<lparr>req_type := kind, req_parameter := parameter\<rparr>)) s)
     (\<lambda>header. case header of
         None \<Rightarrow> close_fd
       | Some req \<Rightarrow> and_then (check_and_answer (input_suffix kind buffer) req) (\<lambda>_. close_fd))"

definition client_thread :: "(web, unit) op" where
  "client_thread = and_then (modify_state (\<lambda>s. s\<lparr>incoming := (init_iobuffer, snd (incoming s))\<rparr>)) (\<lambda>_.
     and_then (on_incoming (readline (BUFFER_SIZE - 1))) (\<lambda>(cnt, buffer).
       if cnt = - 1 then close_fd
       else and_then (parse_parameter (c_text buffer)) (\<lambda>parsed. case parsed of
           None \<Rightarrow> close_fd
         | Some (kind, parameter) \<Rightarrow> serve (c_text buffer) kind parameter)))"

lemma on_incoming_step: "m (incoming s) = (r, r') \<Longrightarrow> on_incoming m s = (r, s\<lparr>incoming := r'\<rparr>)"
  by (simp add: on_incoming_def)

lemma open_or_closed:
  assumes "x = s \<or> x = s\<lparr>is_open := False\<rparr>"
  shows "\<exists>b. x = (s :: web)\<lparr>is_open := b\<rparr>"
proof -
  have "s = s\<lparr>is_open := is_open s\<rparr>" by simp
  with assms show ?thesis by blast
qed

text \<open>The thread after its first line.\<close>

lemma client_thread_line:
  assumes "readline (BUFFER_SIZE - 1) (init_iobuffer, snd (incoming s)) = (Returns (cnt, buffer), r1)" and "cnt \<noteq> - 1"
  shows "client_thread s = and_then (parse_parameter (c_text buffer)) (\<lambda>parsed. case parsed of
      None \<Rightarrow> close_fd | Some (kind, parameter) \<Rightarrow> serve (c_text buffer) kind parameter) (s\<lparr>incoming := r1\<rparr>)"
  using assms on_incoming_step [of "readline (BUFFER_SIZE - 1)" "s\<lparr>incoming := (init_iobuffer, snd (incoming s))\<rparr>"]
  by (simp add: client_thread_def)

lemma client_thread_no_line:
  assumes "readline (BUFFER_SIZE - 1) (init_iobuffer, snd (incoming s)) = (line, r1)"
    and "\<nexists>cnt buffer. line = Returns (cnt, buffer) \<and> cnt \<noteq> - 1"
  shows "\<exists>b. snd (client_thread s) = s\<lparr>incoming := r1, is_open := b\<rparr>"
proof -
  have first: "on_incoming (readline (BUFFER_SIZE - 1)) (s\<lparr>incoming := (init_iobuffer, snd (incoming s))\<rparr>) = (line, s\<lparr>incoming := r1\<rparr>)"
    using on_incoming_step [of "readline (BUFFER_SIZE - 1)" "s\<lparr>incoming := (init_iobuffer, snd (incoming s))\<rparr>"] assms(1) by simp
  consider buffer where "line = Returns (- 1, buffer)" | e where "line = Throws e" | "line = Blocks" | "line = Undefined"
    using assms(2) by (cases line) auto
  then have "snd (client_thread s) = s\<lparr>incoming := r1\<rparr> \<or> snd (client_thread s) = s\<lparr>incoming := r1, is_open := False\<rparr>"
    using first unfolding client_thread_def and_then_modify
    by cases (simp_all only: and_then_Returns and_then_stops prod.case snd_conv if_True simp_thms close_fd_def modify_state_def)
  then show ?thesis by (rule open_or_closed)
qed

lemma serve_header:
  assumes "header_loop (can_allocate s) (init_request\<lparr>req_type := kind, req_parameter := parameter\<rparr>) (incoming s) = (Returns (Some req), r')"
  shows "serve buffer kind parameter s =
    and_then (check_and_answer (input_suffix kind buffer) req) (\<lambda>_. close_fd) (s\<lparr>incoming := r'\<rparr>)"
  using on_incoming_step [of "header_loop (can_allocate s) (init_request\<lparr>req_type := kind, req_parameter := parameter\<rparr>)" s] assms
  by (simp add: serve_def)

lemma serve_no_header:
  assumes "header_loop (can_allocate s) (init_request\<lparr>req_type := kind, req_parameter := parameter\<rparr>) (incoming s) = (header, r')"
    and "\<nexists>req. header = Returns (Some req)"
  shows "\<exists>b. snd (serve buffer kind parameter s) = s\<lparr>incoming := r', is_open := b\<rparr>"
proof -
  have rest: "on_incoming (header_loop (can_allocate s) (init_request\<lparr>req_type := kind, req_parameter := parameter\<rparr>)) s = (header, s\<lparr>incoming := r'\<rparr>)"
    using on_incoming_step assms(1) by blast
  consider "header = Returns None" | e where "header = Throws e" | "header = Blocks" | "header = Undefined"
    using assms(2) by (cases header) auto
  then have "snd (serve buffer kind parameter s) = s\<lparr>incoming := r'\<rparr> \<or>
      snd (serve buffer kind parameter s) = s\<lparr>incoming := r', is_open := False\<rparr>"
    using rest unfolding serve_def
    by cases (simp_all only: and_then_Returns and_then_stops option.case snd_conv simp_thms close_fd_def modify_state_def)
  then show ?thesis by (rule open_or_closed)
qed

lemma and_then_close: "\<exists>b. snd (and_then m (\<lambda>_. close_fd) s) = (snd (m s))\<lparr>is_open := b\<rparr>"
  by (rule open_or_closed) (auto simp: and_then_def close_fd_def modify_state_def split: prod.splits run.splits)

end
