(* ===== verification/Http_Access.thy ===== *)
theory Http_Access
  imports Http_Client
begin

text \<open>
  What a client of the video server can reach: without the configured credentials nothing but an error message,
  and with them only files that lie directly in the configured folder.
\<close>

section \<open>Errors change nothing\<close>

text \<open>Only the connection itself has changed, and at most one error message has been sent.\<close>

definition only_error :: "web \<Rightarrow> web \<Rightarrow> bool" where
  "only_error s s' \<longleftrightarrow> executed s' = executed s \<and> opened s' = opened s \<and> frames s' = frames s \<and>
     (sent s' = sent s \<or> (\<exists>which msg n. sent s' = sent s @ [take n (error_text which msg)]))"

text \<open>The part of the configuration no operation changes.\<close>

definition same_server :: "web \<Rightarrow> web \<Rightarrow> bool" where
  "same_server s s' \<longleftrightarrow> credentials s' = credentials s \<and> www_folder s' = www_folder s \<and> inputs s' = inputs s \<and>
     can_allocate s' = can_allocate s \<and> opened s' = opened s \<and> executed s' = executed s \<and> frames s' = frames s"

lemma write_fd_sent:
  "\<exists>n. sent (snd (write_fd text s)) = sent s @ [take n text] \<or> sent (snd (write_fd text s)) = sent s"
proof (cases "write_results s")
  case Nil
  then show ?thesis by (intro exI [of _ "length text"]) (simp add: write_fd_def)
next
  case (Cons a list)
  then show ?thesis by (cases a) (auto simp: write_fd_def)
qed

lemma write_fd_fields [simp]:
  "executed (snd (write_fd text s)) = executed s" "opened (snd (write_fd text s)) = opened s"
  "frames (snd (write_fd text s)) = frames s" "credentials (snd (write_fd text s)) = credentials s"
  "www_folder (snd (write_fd text s)) = www_folder s" "inputs (snd (write_fd text s)) = inputs s"
  "can_allocate (snd (write_fd text s)) = can_allocate s"
  by (simp_all add: write_fd_def split: list.split write_result.split)

lemma send_error_cases:
  "send_error which msg s = (Returns (), snd (write_fd (error_text which msg) s)) \<or> send_error which msg s = (Undefined, s)"
  by (simp add: send_error_def formatted_def write_ignored_def modify_state_def)

lemma send_error_only: "only_error s (snd (send_error which msg s))"
proof -
  consider "send_error which msg s = (Returns (), snd (write_fd (error_text which msg) s))" | "send_error which msg s = (Undefined, s)"
    using send_error_cases by blast
  then show ?thesis
    using write_fd_sent [of "error_text which msg" s] by cases (auto simp: only_error_def)
qed

lemma send_error_same: "same_server s (snd (send_error which msg s))"
  using send_error_cases [of which msg s] by (auto simp: same_server_def)

lemma only_error_frame:
  "only_error s (s'\<lparr>incoming := r\<rparr>) = only_error s s'" "only_error (s\<lparr>incoming := r\<rparr>) s' = only_error s s'"
  "only_error s (s'\<lparr>is_open := b\<rparr>) = only_error s s'" "only_error s s"
  by (simp_all add: only_error_def)

lemma same_server_frame:
  "same_server s (s'\<lparr>incoming := r\<rparr>) = same_server s s'" "same_server (s\<lparr>incoming := r\<rparr>) s' = same_server s s'"
  "same_server s (s'\<lparr>is_open := b\<rparr>) = same_server s s'" "same_server s s"
  by (simp_all add: same_server_def)

lemmas frames_simps = only_error_frame same_server_frame

section \<open>The way to an answer\<close>

lemma and_then_snd: "(\<And>x s'. m s = (Returns x, s') \<Longrightarrow> P (snd (f x s'))) \<Longrightarrow> (\<And>r s'. m s = (r, s') \<Longrightarrow> \<forall>x. r \<noteq> Returns x \<Longrightarrow> P s') \<Longrightarrow>
  P (snd (and_then m f s))"
  using and_then_cases [of m s f] by (metis snd_conv)

lemma parse_parameter_cases:
  assumes "parse_parameter buffer s = (r, s')"
  shows "only_error s s' \<and> ((\<exists>x. r = Returns (Some x)) \<longrightarrow> s' = s)"
proof -
  have error: "and_then (send_error which msg) (\<lambda>_ s. (Returns None, s)) s = (r, s') \<Longrightarrow> ?thesis" for which msg
    using send_error_cases [of which msg s] send_error_only [of s which msg] by (auto simp: and_then_def)
  show ?thesis
    using assms error
    by (auto simp: parse_parameter_def Let_def frames_simps split: answer_t.splits option.splits prod.splits if_splits)
qed

lemma header_loop_fields:
  "header_loop alloc req r = (Returns (Some req'), r') \<Longrightarrow> req_type req' = req_type req \<and> req_parameter req' = req_parameter req"
proof (induction alloc req r rule: header_loop.induct)
  case (1 alloc req r)
  have header: "req_type q = req_type req \<and> req_parameter q = req_parameter req" if "handle_header alloc b req = Some q" for b q
    using that by (auto simp: handle_header_def split: if_splits bind_splits)
  from "1.prems" obtain cnt buffer r1 q where q: "readline (BUFFER_SIZE - 1) r = (Returns (cnt, buffer), r1)" "cnt \<noteq> - 1"
      "handle_header alloc (c_text buffer) req = Some q"
      "(if 2 < cnt \<and> \<not> is_prefix crlf buffer then header_loop alloc q r1 else (Returns (Some q), r1)) = (Returns (Some req'), r')"
    by (subst (asm) header_loop.simps) (auto split: prod.splits run.splits option.splits if_splits)
  show ?case
  proof (cases "2 < cnt \<and> \<not> is_prefix crlf buffer")
    case True
    with "1.IH" [OF q(1) [symmetric] refl refl q(2,3) True] q(4) header [OF q(3)] show ?thesis by simp
  next
    case False
    with q(4) header [OF q(3)] show ?thesis by simp
  qed
qed

lemma serve_cases:
  "(\<exists>r' b. snd (serve buffer kind parameter s) = s\<lparr>incoming := r', is_open := b\<rparr>) \<or>
   (\<exists>req r' b. header_loop (can_allocate s) (init_request\<lparr>req_type := kind, req_parameter := parameter\<rparr>) (incoming s) = (Returns (Some req), r') \<and>
      snd (serve buffer kind parameter s) = (snd (check_and_answer (input_suffix kind buffer) req (s\<lparr>incoming := r'\<rparr>)))\<lparr>is_open := b\<rparr>)"
proof -
  obtain header r' where h: "header_loop (can_allocate s) (init_request\<lparr>req_type := kind, req_parameter := parameter\<rparr>) (incoming s) = (header, r')"
    by (cases "header_loop (can_allocate s) (init_request\<lparr>req_type := kind, req_parameter := parameter\<rparr>) (incoming s)")
  show ?thesis
  proof (cases "\<exists>req. header = Returns (Some req)")
    case False
    from serve_no_header [OF h this, of buffer] show ?thesis by blast
  next
    case True
    then obtain req where req: "header = Returns (Some req)" by blast
    obtain b where "snd (serve buffer kind parameter s) = (snd (check_and_answer (input_suffix kind buffer) req (s\<lparr>incoming := r'\<rparr>)))\<lparr>is_open := b\<rparr>"
      using and_then_close [of "check_and_answer (input_suffix kind buffer) req" "s\<lparr>incoming := r'\<rparr>"]
      unfolding serve_header [OF h [unfolded req]] by blast
    with h req show ?thesis by blast
  qed
qed

lemma client_thread_cases:
  "only_error s (snd (client_thread s)) \<or>
   (\<exists>cnt line buffer kind parameter reader req r' b.
      readline (BUFFER_SIZE - 1) (init_iobuffer, snd (incoming s)) = (Returns (cnt, line), reader) \<and>
      parse_parameter buffer (s\<lparr>incoming := reader\<rparr>) = (Returns (Some (kind, parameter)), s\<lparr>incoming := reader\<rparr>) \<and>
      header_loop (can_allocate s) (init_request\<lparr>req_type := kind, req_parameter := parameter\<rparr>) reader = (Returns (Some req), r') \<and>
      snd (client_thread s) = (snd (check_and_answer (input_suffix kind buffer) req (s\<lparr>incoming := r'\<rparr>)))\<lparr>is_open := b\<rparr>)"
proof -
  obtain line r1 where line: "readline (BUFFER_SIZE - 1) (init_iobuffer, snd (incoming s)) = (line, r1)"
    by (cases "readline (BUFFER_SIZE - 1) (init_iobuffer, snd (incoming s))")
  show ?thesis
  proof (cases "\<exists>cnt buffer. line = Returns (cnt, buffer) \<and> cnt \<noteq> - 1")
    case False
    from client_thread_no_line [OF line this] show ?thesis by (auto simp: frames_simps)
  next
    case True
    then obtain cnt buffer where first: "line = Returns (cnt, buffer)" "cnt \<noteq> - 1" by blast
    define s1 where "s1 = s\<lparr>incoming := r1\<rparr>"
    note client = client_thread_line [OF line [unfolded first(1)] first(2), folded s1_def]
    obtain parsed s2 where parsed: "parse_parameter (c_text buffer) s1 = (parsed, s2)" by (cases "parse_parameter (c_text buffer) s1")
    note error = parse_parameter_cases [OF parsed]
    consider kind parameter where "parsed = Returns (Some (kind, parameter))" | "parsed = Returns None"
      | "\<forall>x. parsed \<noteq> Returns x" by (cases parsed) (auto, metis option.exhaust surj_pair)
    then show ?thesis
    proof cases
      case 1
      with error have s2: "s2 = s1" by simp
      with client parsed 1 have serve: "client_thread s = serve (c_text buffer) kind parameter s1" by simp
      have pp: "parse_parameter (c_text buffer) (s\<lparr>incoming := r1\<rparr>) = (Returns (Some (kind, parameter)), s\<lparr>incoming := r1\<rparr>)"
        using parsed 1 s2 by (simp add: s1_def)
      have s1: "s1\<lparr>incoming := r\<rparr> = s\<lparr>incoming := r\<rparr>" "incoming s1 = r1" "can_allocate s1 = can_allocate s" for r
        by (simp_all add: s1_def)
      from serve_cases [of "c_text buffer" kind parameter s1] show ?thesis
      proof (elim disjE exE conjE)
        fix r' b
        assume "snd (serve (c_text buffer) kind parameter s1) = s1\<lparr>incoming := r', is_open := b\<rparr>"
        with serve show ?thesis by (simp add: s1 frames_simps)
      next
        fix req r' b
        assume "header_loop (can_allocate s1) (init_request\<lparr>req_type := kind, req_parameter := parameter\<rparr>) (incoming s1) = (Returns (Some req), r')"
          and "snd (serve (c_text buffer) kind parameter s1) =
            (snd (check_and_answer (input_suffix kind (c_text buffer)) req (s1\<lparr>incoming := r'\<rparr>)))\<lparr>is_open := b\<rparr>"
        with line [unfolded first(1)] pp show ?thesis unfolding s1 serve by (intro disjI2 exI conjI)
      qed
    next
      case 2
      with client parsed have "snd (client_thread s) = s2\<lparr>is_open := False\<rparr>" by (simp add: close_fd_def modify_state_def)
      with error show ?thesis by (simp add: s1_def frames_simps)
    next
      case 3
      with client parsed have "snd (client_thread s) = s2" by (cases parsed) simp_all
      with error show ?thesis by (simp add: s1_def frames_simps)
    qed
  qed
qed

section \<open>Access\<close>

lemma check_and_answer_refused:
  "\<not> allowed s req \<Longrightarrow> only_error s (snd (check_and_answer n req s))"
  by (simp add: check_and_answer_def send_error_only)

lemma allowed_frame [simp]: "allowed (s\<lparr>incoming := r\<rparr>) req = allowed s req"
  by (simp add: allowed_def)

text \<open>The lines of the header do not look at the kind of the request.\<close>

lemma handle_header_update:
  "handle_header alloc b (req\<lparr>req_type := t, req_parameter := p\<rparr>) =
   map_option (\<lambda>q. q\<lparr>req_type := t, req_parameter := p\<rparr>) (handle_header alloc b req)"
  by (auto simp: handle_header_def duplicate_def split: Option.bind_splits)

lemma header_loop_update:
  "header_loop alloc (req\<lparr>req_type := t, req_parameter := p\<rparr>) r = (Returns (Some q), r') \<Longrightarrow>
   \<exists>q0. header_loop alloc req r = (Returns (Some q0), r') \<and> req_credentials q = req_credentials q0"
proof (induction alloc req r rule: header_loop.induct)
  case (1 alloc req r)
  from "1.prems" obtain cnt buffer r1 q1 where q1: "readline (BUFFER_SIZE - 1) r = (Returns (cnt, buffer), r1)" "cnt \<noteq> - 1"
      "handle_header alloc (c_text buffer) req = Some q1"
      "(if 2 < cnt \<and> \<not> is_prefix crlf buffer then header_loop alloc (q1\<lparr>req_type := t, req_parameter := p\<rparr>) r1
        else (Returns (Some (q1\<lparr>req_type := t, req_parameter := p\<rparr>)), r1)) = (Returns (Some q), r')"
    by (subst (asm) header_loop.simps) (auto simp: handle_header_update split: prod.splits run.splits option.splits if_splits)
  have step: "header_loop alloc req r = (if 2 < cnt \<and> \<not> is_prefix crlf buffer then header_loop alloc q1 r1 else (Returns (Some q1), r1))"
    using q1(1-3) by (subst header_loop.simps) simp
  show ?case
  proof (cases "2 < cnt \<and> \<not> is_prefix crlf buffer")
    case True
    with "1.IH" [OF q1(1) [symmetric] refl refl q1(2,3) True] q1(4) step show ?thesis by simp
  next
    case False
    with q1(4) step show ?thesis by auto
  qed
qed

text \<open>The credentials a connection presents: the last of its header, when the header is read to its end.\<close>

definition presented :: "web \<Rightarrow> string option" where
  "presented s = (case readline (BUFFER_SIZE - 1) (init_iobuffer, snd (incoming s)) of
       (Returns (cnt, line), r) \<Rightarrow> (case header_loop (can_allocate s) init_request r of
           (Returns (Some req), r') \<Rightarrow> req_credentials req
         | _ \<Rightarrow> None)
     | _ \<Rightarrow> None)"

text \<open>C5: nothing without the credentials. Whatever arrives on a connection, the thread calls no plugin, opens no file, takes no
  picture and sends at most one error message, unless no credentials are configured or the header was read to its end
  and the last credentials in it are, decoded, those of the configuration.
\<close>

lemma access_needs_credentials:
  "only_error s (snd (client_thread s)) \<or> credentials s = None \<or> presented s = credentials s"
  using client_thread_cases [of s]
proof (elim disjE exE conjE)
  fix cnt line buffer kind parameter reader req r' b
  assume line: "readline (BUFFER_SIZE - 1) (init_iobuffer, snd (incoming s)) = (Returns (cnt, line), reader)"
    and header: "header_loop (can_allocate s) (init_request\<lparr>req_type := kind, req_parameter := parameter\<rparr>) reader = (Returns (Some req), r')"
    and end_state: "snd (client_thread s) = (snd (check_and_answer (input_suffix kind buffer) req (s\<lparr>incoming := r'\<rparr>)))\<lparr>is_open := b\<rparr>"
  from line header_loop_update [OF header] have presented: "presented s = req_credentials req"
    by (auto simp: presented_def)
  show ?thesis
  proof (cases "allowed s req")
    case True
    with presented show ?thesis unfolding allowed_def by simp
  next
    case False
    then have "only_error s (snd (client_thread s))"
      using check_and_answer_refused [of "s\<lparr>incoming := r'\<rparr>" req "input_suffix kind buffer"] by (simp add: end_state frames_simps)
    then show ?thesis ..
  qed
qed simp

section \<open>Files\<close>

text \<open>Operations that open nothing.\<close>

definition opens_nothing :: "(web, 'a) op \<Rightarrow> bool" where
  "opens_nothing m \<longleftrightarrow> (\<forall>s. opened (snd (m s)) = opened s)"

lemma opens_nothingD: "opens_nothing m \<Longrightarrow> opened (snd (m s)) = opened s"
  by (simp add: opens_nothing_def)

lemma opens_nothing_then:
  assumes "opens_nothing m" and "\<And>x. opens_nothing (f x)"
  shows "opens_nothing (and_then m f)"
  unfolding opens_nothing_def
proof
  fix s
  show "opened (snd (and_then m f s)) = opened s"
    using opens_nothingD [OF assms(1), of s] opens_nothingD [OF assms(2)] by (cases "m s"; cases "fst (m s)") auto
qed

lemma opens_nothing_formatted: "(\<And>t. opens_nothing (k t)) \<Longrightarrow> opens_nothing (formatted n text k)"
  by (simp add: opens_nothing_def formatted_def)

lemma opens_nothing_write: "opens_nothing (write_ignored text)"
  by (simp add: opens_nothing_def write_ignored_def modify_state_def)

lemma opens_nothing_error: "opens_nothing (send_error which msg)"
  unfolding send_error_def by (intro opens_nothing_formatted opens_nothing_write)

lemmas opens_nothing_intros = opens_nothing_then opens_nothing_formatted opens_nothing_write opens_nothing_error

lemma snapshot_opens_nothing: "opens_nothing (send_snapshot n)"
proof -
  have "opens_nothing (wait_frame n)" by (simp add: opens_nothing_def wait_frame_def split: list.split)
  then show ?thesis
    unfolding send_snapshot_def
    by (rule opens_nothing_then)
       (auto simp: opens_nothing_def formatted_def write_ignored_def modify_state_def opens_nothingD [OF opens_nothing_error]
         split: prod.splits dest: arg_cong [where f = "\<lambda>p. opened (snd p)"])
qed

lemma write_fd_opened: "write_fd t s = (n, s') \<Longrightarrow> opened s' = opened s"
  using write_fd_fields(2) [of t s] by simp

lemma part_opens_nothing: "opens_nothing (send_part f)"
  unfolding send_part_def
  by (intro opens_nothing_formatted)
     (auto simp: opens_nothing_def formatted_def split: prod.splits dest!: write_fd_opened)

lemma stream_loop_opened: "opened (snd (stream_loop n sz fs s)) = opened s"
proof (induction n sz fs s rule: stream_loop.induct)
  case (1 n sz s)
  then show ?case by simp
next
  case (2 n max_size f stopped fs s)
  define s1 where "s1 = s\<lparr>frames := (frames s)[n := fs], stop := stopped\<rparr>"
  define sz where "sz = (if max_size < length (picture f) then length (picture f) + 10 * 1024 else max_size)"
  have s1: "opened s1 = opened s" by (simp add: s1_def)
  obtain r s2 where part: "send_part f s1 = (r, s2)" by (cases "send_part f s1")
  have s2: "opened s2 = opened s" using opens_nothingD [OF part_opens_nothing, of f s1] part s1 by simp
  have IH: "opened (snd (stream_loop n sz fs s2)) = opened s2" if "\<not> stop s" "r = Returns True"
    "\<not> (max_size < length (picture f) \<and> \<not> can_allocate s1 sz)"
    using "2.IH" [OF that(1) s1_def sz_def that(3) part [symmetric] that(2)] by simp
  show ?case
    using part s1 s2 IH opens_nothingD [OF opens_nothing_error, of 500 "''not enough memory''" s1]
    by (cases r) (auto simp: s1_def [symmetric] sz_def [symmetric] Let_def split: bool.split)
qed

lemma stream_opens_nothing: "opens_nothing (send_stream n)"
  unfolding send_stream_def
  by (intro opens_nothing_formatted)
     (auto simp: opens_nothing_def stream_loop_opened split: prod.splits dest!: write_fd_opened)

lemma json_opens_nothing: "opened (snd (send_json a s)) = opened s"
  using opens_nothingD [OF opens_nothing_write] by (simp add: send_json_def split: run.split option.split)

lemma command_opens_nothing: "opens_nothing (command parameter)"
proof -
  have dispatch: "opens_nothing (dispatch d p c g i)" for d p c g i
    by (simp add: opens_nothing_def dispatch_def call_plugin_def)
  have rest: "opens_nothing (and_then (dispatch d p c g i) (\<lambda>res. formatted n (t res) write_ignored))" for d p c g i n t
    by (intro opens_nothing_intros dispatch)
  show ?thesis
    unfolding opens_nothing_def command_def no_memory_def
    by (simp add: Let_def opens_nothingD [OF opens_nothing_error] opens_nothingD [OF rest] split: option.split)
qed

lemma send_blocks_opened: "opened (send_blocks block rest s) = opened s"
proof (induction block rest s rule: send_blocks.induct)
  case (1 block rest s)
  obtain n s1 where w: "write_fd block s = (n, s1)" by (cases "write_fd block s")
  with write_fd_opened [OF w] "1.IH" [OF w [symmetric]] show ?case
    by (subst send_blocks.simps) simp
qed

text \<open>The name of the file: the parameter, or the index.\<close>

definition file_name :: "string \<Rightarrow> string" where
  "file_name parameter = (if parameter = [] then ''index.html'' else parameter)"

lemma file_path_eq: "file_path folder name = take (BUFFER_SIZE - 1) (folder @ name)"
  by (simp add: file_path_def Let_def min_def)

lemma send_file_opened:
  "opened (snd (send_file folder parameter s)) = opened s \<or>
   (opened (snd (send_file folder parameter s)) = opened s @ [take (BUFFER_SIZE - 1) (folder @ file_name parameter)] \<and>
    (\<exists>stem ext. file_name parameter = stem @ ext \<and> stem \<noteq> [] \<and> ext \<in> fst ` set mimetypes))"
proof (cases "last_dot (file_name parameter) 0 0 = 0 \<or> map_of mimetypes (drop (last_dot (file_name parameter) 0 0) (file_name parameter)) = None")
  case True
  then show ?thesis
    using opens_nothingD [OF opens_nothing_error]
    by (auto simp: send_file_def file_name_def [symmetric] Let_def)
next
  case False
  define name where "name = file_name parameter"
  define path where "path = file_path folder name"
  from False obtain mimetype where mime: "map_of mimetypes (drop (last_dot name 0 0) name) = Some mimetype" "last_dot name 0 0 \<noteq> 0"
    by (auto simp: name_def)
  then have ext: "drop (last_dot name 0 0) name \<in> fst ` set mimetypes" by (auto dest: map_of_SomeD intro: rev_image_eqI)
  then have "drop (last_dot name 0 0) name \<noteq> []" by (auto simp: mimetypes_def)
  with mime(2) have "take (last_dot name 0 0) name \<noteq> []" by auto
  moreover have "opened (snd (send_file folder parameter s)) = opened s @ [path]"
    using mime send_blocks_opened opens_nothingD [OF opens_nothing_error, of 404 "''Could not open file''" "s\<lparr>opened := opened s @ [path]\<rparr>"]
    by (auto simp: send_file_def file_name_def [symmetric] name_def [symmetric] path_def [symmetric] Let_def formatted_def
        modify_state_def split: option.split)
  ultimately show ?thesis
    using ext unfolding name_def path_def file_path_eq by (metis append_take_drop_id)
qed

lemma answer_opened:
  "opened (snd (answer n req s)) = opened s \<or>
   (req_type req = A_FILE \<and> (\<exists>folder. www_folder s = Some folder \<and>
     answer n req s = send_file folder (the (req_parameter req)) s))"
  using opens_nothingD [OF opens_nothing_error] opens_nothingD [OF snapshot_opens_nothing] opens_nothingD [OF stream_opens_nothing]
    opens_nothingD [OF command_opens_nothing]
  by (cases "req_type req")
     (auto simp: answer_def send_Input_JSON_def send_Output_JSON_def send_Program_JSON_def json_opens_nothing split: option.split)

lemma strspn_accepted: "set (accepted chars pb) \<subseteq> set chars"
proof
  fix c
  assume "c \<in> set (accepted chars pb)"
  then have "c \<in> set (take (strspn pb chars) pb)"
    unfolding accepted_def by (meson in_mono min.cobounded1 set_take_subset_set_take)
  then show "c \<in> set chars"
    by (auto simp: strspn_def takeWhile_eq_take [symmetric] dest: set_takeWhileD)
qed

lemma file_parameter:
  assumes "parse_parameter buffer s = (Returns (Some (A_FILE, parameter)), s')"
  shows "\<exists>pb. parameter = Some (accepted file_chars pb)"
  using assms
  by (auto simp: parse_parameter_def Let_def and_then_def split: answer_t.splits option.splits prod.splits run.splits if_splits)

text \<open>C14: files stay in the folder. Whatever arrives on a connection, at most one file is opened, and it lies in the configured folder
  itself: the path is the folder with a name that has no slash and ends in one of the known extensions, behind at
  least one other character (cut to the size of the buffer).
\<close>

lemma files_stay_in_folder:
  "opened (snd (client_thread s)) = opened s \<or>
   (\<exists>folder stem ext. www_folder s = Some folder \<and> ext \<in> fst ` set mimetypes \<and> stem \<noteq> [] \<and> CHR ''/'' \<notin> set (stem @ ext) \<and>
      opened (snd (client_thread s)) = opened s @ [take (BUFFER_SIZE - 1) (folder @ stem @ ext)])"
  using client_thread_cases [of s]
proof (elim disjE exE conjE)
  assume "only_error s (snd (client_thread s))"
  then show ?thesis by (simp add: only_error_def)
next
  fix cnt line buffer kind parameter reader req r' b
  define t where "t = s\<lparr>incoming := r'\<rparr>"
  assume parsed: "parse_parameter buffer (s\<lparr>incoming := reader\<rparr>) = (Returns (Some (kind, parameter)), s\<lparr>incoming := reader\<rparr>)"
    and header: "header_loop (can_allocate s) (init_request\<lparr>req_type := kind, req_parameter := parameter\<rparr>) reader = (Returns (Some req), r')"
    and end_state: "snd (client_thread s) = (snd (check_and_answer (input_suffix kind buffer) req (s\<lparr>incoming := r'\<rparr>)))\<lparr>is_open := b\<rparr>"
  from header_loop_fields [OF header] have req: "req_type req = kind" "req_parameter req = parameter" by simp_all
  have t: "opened t = opened s" "www_folder t = www_folder s" by (simp_all add: t_def)
  show ?thesis
  proof (cases "opened (snd (check_and_answer (input_suffix kind buffer) req t)) = opened t")
    case True
    then show ?thesis by (simp add: end_state t_def)
  next
    case False
    then have "opened (snd (answer (input_suffix kind buffer) req t)) \<noteq> opened t"
      and same: "check_and_answer (input_suffix kind buffer) req t = answer (input_suffix kind buffer) req t"
      using opens_nothingD [OF opens_nothing_error] by (auto simp: check_and_answer_def split: if_splits)
    with answer_opened [of "input_suffix kind buffer" req t] req t obtain folder where
      folder: "kind = A_FILE" "www_folder s = Some folder" "answer (input_suffix kind buffer) req t = send_file folder (the parameter) t"
      by auto
    from file_parameter parsed folder(1) obtain pb where pb: "parameter = Some (accepted file_chars pb)" by blast
    have "CHR ''/'' \<notin> set (file_name (the parameter))"
      using strspn_accepted [of file_chars pb] by (auto simp: pb file_name_def)
    with send_file_opened [of folder "the parameter" t] False same folder t obtain stem ext where
      "opened (snd (send_file folder (the parameter) t)) = opened s @ [take (BUFFER_SIZE - 1) (folder @ stem @ ext)]"
      "stem \<noteq> []" "ext \<in> fst ` set mimetypes" "CHR ''/'' \<notin> set (stem @ ext)" by metis
    with folder(2) show ?thesis
      by (intro disjI2 exI [of _ folder] exI [of _ stem] exI [of _ ext])
         (simp add: end_state t_def [symmetric] same folder(3) del: take_append)
  qed
qed

end
