(* ===== verification/Http_Request.thy ===== *)
theory Http_Request
  imports Http_Access
begin

text \<open>
  What a well-formed request achieves: its bytes may arrive in any chunks, its parameter may be escaped in any way, and the
  credentials are found among its header lines; then the command of the plugin it names is called with the
  numbers it names. The same path leads to the cases that go wrong.
\<close>

section \<open>Header lines\<close>

definition memory :: "web \<Rightarrow> bool" where
  "memory s \<longleftrightarrow> can_allocate s = (\<lambda>_. True)"

lemma handle_header_total: "\<exists>q. handle_header (\<lambda>_. True) (c_text b) req = Some q"
proof -
  have "NUL \<notin> set (c_text b)" by (auto simp: c_text_def dest: set_takeWhileD)
  then have "NUL \<notin> set (drop n (c_text b))" for n by (meson in_set_dropD)
  from decodeBase64_out [OF this, of "length ''Authorization: Basic ''" "[]"] show ?thesis
    by (auto simp: handle_header_def duplicate_def)
qed

text \<open>The effect of a line, without its newline.\<close>

definition handled :: "string \<Rightarrow> http_request \<Rightarrow> http_request" where
  "handled l req = the (handle_header (\<lambda>_. True) (c_text (l @ [newline])) req)"

lemma handle_header_handled: "handle_header (\<lambda>_. True) (c_text (l @ [newline])) req = Some (handled l req)"
  using handle_header_total [of "l @ [newline]" req] by (auto simp: handled_def)

definition header_line :: "string \<Rightarrow> bool" where
  "header_line h \<longleftrightarrow> h \<noteq> [] \<and> newline \<notin> set h \<and> NUL \<notin> set h \<and> length h < BUFFER_SIZE - 2"

text \<open>Lines end in a carriage return and a newline, the last one is empty.\<close>

definition request_text :: "string \<Rightarrow> string list \<Rightarrow> string" where
  "request_text first hs = first @ crlf @ concat (map (\<lambda>h. h @ crlf) hs) @ crlf"

abbreviation cr :: string where "cr \<equiv> [CHR 0x0D]"

definition header_end :: "string \<Rightarrow> bool" where
  "header_end l \<longleftrightarrow> \<not> (2 < int (length l) + 1 \<and> \<not> is_prefix crlf (l @ [newline]))"

lemma header_line_goes_on: "header_line h \<Longrightarrow> \<not> header_end (h @ cr)"
  by (cases h; cases "tl h") (auto simp: header_line_def header_end_def)

lemma header_read:
  assumes "buffer_ok (fst r)" and "upcoming r = concat (map (\<lambda>h. h @ crlf) hs) @ crlf @ rest" and "\<forall>h \<in> set hs. header_line h"
  shows "\<exists>r'. header_loop (\<lambda>_. True) req r = (Returns (Some (fold handled (map (\<lambda>h. h @ cr) hs @ [cr]) req)), r')"
proof -
  have loop: "header_loop (\<lambda>_. True) x s = (if header_end l then (Returns (Some (handled l x)), s') else header_loop (\<lambda>_. True) (handled l x) s')"
    if "readline (BUFFER_SIZE - 1) s = (Returns (int (length l) + 1, l @ [newline]), s')" for l x s s'
    using that handle_header_handled [of l x] by (subst header_loop.simps) (simp add: header_end_def)
  have "upcoming r = concat (map (\<lambda>l. l @ [newline]) (map (\<lambda>h. h @ cr) hs @ [cr])) @ rest"
    using assms(2) by (simp add: comp_def)
  moreover have "header_end cr" by (simp add: header_end_def)
  moreover have "\<forall>l \<in> set (map (\<lambda>h. h @ cr) hs). \<not> header_end l" using assms(3) header_line_goes_on by auto
  moreover have "\<forall>l \<in> set (map (\<lambda>h. h @ cr) hs @ [cr]). newline \<notin> set l \<and> length l < BUFFER_SIZE - 1"
    using assms(3) by (auto simp: header_line_def)
  ultimately show ?thesis
    using http_line.read_until [of "BUFFER_SIZE - 1" "header_loop (\<lambda>_. True)" header_end Some handled
        "map (\<lambda>h. h @ cr) hs" cr r rest req] loop assms(1) by blast
qed

section \<open>Credentials\<close>

definition authorization :: "string \<Rightarrow> string" where
  "authorization c = ''Authorization: Basic '' @ base64_text c"

lemma strstr_None: "(\<And>i. take (length pat) (drop i s) \<noteq> pat) \<Longrightarrow> strstr s pat = None"
  using strstr_Some [of s pat] by (cases "strstr s pat") auto

lemma not_has: "c \<in> set pat \<Longrightarrow> c \<notin> set s \<Longrightarrow> \<not> has s pat"
  by (simp add: has_def, rule strstr_None) (metis in_set_dropD in_set_takeD)

lemma base64_text_plain:
  "CHR ''-'' \<notin> set (base64_text c)" "NUL \<notin> set (base64_text c)" "newline \<notin> set (base64_text c)"
proof -
  have "base64_value (CHR ''-'') = None" "base64_value NUL = None" "base64_value newline = None" by code_simp+
  then show "CHR ''-'' \<notin> set (base64_text c)" "NUL \<notin> set (base64_text c)" "newline \<notin> set (base64_text c)"
    using base64_text_values by metis+
qed

lemma handled_authorization:
  assumes "NUL \<notin> set c"
  shows "handled (authorization c @ cr) req = req\<lparr>req_credentials := Some c\<rparr>"
proof -
  have line: "c_text ((authorization c @ cr) @ [newline]) = ''Authorization: Basic '' @ base64_text c @ crlf"
    using base64_text_plain(2) [of c] by (subst c_text_id) (auto simp: authorization_def)
  have "\<not> has (''Authorization: Basic '' @ base64_text c @ crlf) ''User-Agent: ''"
    using base64_text_plain(1) [of c] by (intro not_has [of "CHR ''-''"]) auto
  moreover have "has (''Authorization: Basic '' @ base64_text c @ crlf) ''Authorization: Basic ''"
    by (simp add: has_def)
  moreover have "\<forall>x \<in> set crlf. base64_value x = None \<and> x \<noteq> NUL" by code_simp
  with decodeBase64_text [OF assms, of crlf "[]"] obtain buf where
    "decodeBase64 (base64_text c @ crlf @ [NUL]) = Some buf" "c_str buf 0 = Some c" by auto
  ultimately show ?thesis
    unfolding handled_def line by (simp add: handle_header_def duplicate_def)
qed

lemma handled_other:
  "\<not> has (c_text (l @ [newline])) ''Authorization: Basic '' \<Longrightarrow> req_credentials (handled l req) = req_credentials req"
  by (simp add: handled_def handle_header_def)

text \<open>The credentials of the last line that has some.\<close>

definition header_credentials :: "string list \<Rightarrow> string option" where
  "header_credentials hs = req_credentials (fold handled (map (\<lambda>h. h @ cr) hs @ [cr]) init_request)"

lemma handled_type [simp]: "req_type (handled l req) = req_type req" "req_parameter (handled l req) = req_parameter req"
  using handle_header_handled [of l req]
  by (auto simp: handle_header_def split: if_splits bind_splits dest: arg_cong [of _ _ req_type] arg_cong [of _ _ req_parameter])

lemma handled_update:
  "handled l (req\<lparr>req_type := t, req_parameter := p\<rparr>) = (handled l req)\<lparr>req_type := t, req_parameter := p\<rparr>"
  using handle_header_total [of "l @ [newline]" req] by (auto simp: handled_def handle_header_update)

lemma fold_handled:
  "fold handled ls (req\<lparr>req_type := t, req_parameter := p\<rparr>) = (fold handled ls req)\<lparr>req_type := t, req_parameter := p\<rparr>"
  by (induction ls arbitrary: req) (simp_all add: handled_update)

lemma handled_cr: "req_credentials (handled cr req) = req_credentials req"
  by (rule handled_other) (simp add: has_def c_text_def)

lemma header_credentials_authorization:
  assumes "NUL \<notin> set c" and "\<forall>h \<in> set later. \<not> has (c_text (h @ crlf)) ''Authorization: Basic ''"
  shows "header_credentials (earlier @ authorization c # later) = Some c"
proof -
  have "req_credentials (fold handled (map (\<lambda>h. h @ cr) later) req) = req_credentials req" for req
    using assms(2) by (induction later arbitrary: req) (simp_all add: handled_other)
  then show ?thesis
    by (simp add: header_credentials_def handled_authorization [OF assms(1)] handled_cr)
qed

section \<open>The first line\<close>

lemma strstr_words:
  assumes "CHR '' '' \<notin> set w"
  shows "strstr (w @ '' HTTP/1.1'' @ crlf) (''GET /'' @ x) = None"
  using assms
proof (induction w)
  case Nil
  then show ?case by simp
next
  case (Cons a w)
  have "\<not> is_prefix (''GET /'' @ x) ((a # w) @ '' HTTP/1.1'' @ crlf)"
  proof (cases w)
    case w: (Cons b v)
    show ?thesis
    proof (cases v)
      case v: (Cons d u)
      with Cons.prems w show ?thesis by (cases u) auto
    qed (use w in simp)
  qed simp
  with Cons show ?case by simp
qed

definition request_line :: "string \<Rightarrow> string" where
  "request_line w = ''GET /?action=command'' @ w @ '' HTTP/1.1''"

lemma command_chars_plain:
  "set w \<subseteq> set command_chars \<Longrightarrow> CHR '' '' \<notin> set w \<and> NUL \<notin> set w \<and> newline \<notin> set w \<and> CHR 0x0D \<notin> set w"
proof -
  assume "set w \<subseteq> set command_chars"
  moreover have "CHR '' '' \<notin> set command_chars" "NUL \<notin> set command_chars" "newline \<notin> set command_chars" "CHR 0x0D \<notin> set command_chars"
    by code_simp+
  ultimately show ?thesis by blast
qed

lemma request_type_command:
  assumes "set w \<subseteq> set command_chars"
  shows "request_type (request_line w @ crlf) = A_COMMAND"
    and "strstr (request_line w @ crlf) ''GET /?action=command'' = Some 0"
proof -
  have space: "CHR '' '' \<notin> set w" using command_chars_plain [OF assms] by simp
  note none = strstr_words [OF space, of "''?action=snapshot''"] strstr_words [OF space, of "''?action=stream''"]
    strstr_words [OF space, of "''input''"] strstr_words [OF space, of "''output''"] strstr_words [OF space, of "''program.json''"]
  show "strstr (request_line w @ crlf) ''GET /?action=command'' = Some 0" by (simp add: request_line_def)
  with none show "request_type (request_line w @ crlf) = A_COMMAND"
    by (simp add: request_type_def has_def request_line_def)
qed

lemma accepted_stop:
  assumes "set w \<subseteq> set chars" and "x \<notin> set chars" and "length w \<le> 100"
  shows "accepted chars (w @ x # rest) = w"
proof -
  have "takeWhile (\<lambda>c. c \<in> set chars) (w @ x # rest) = w"
    using assms(1,2) by (subst takeWhile_append2) auto
  then show ?thesis using assms(3) by (simp add: accepted_def strspn_def)
qed

lemma parse_command:
  assumes "set (concat ws) \<subseteq> set command_chars" and "length (concat ws) \<le> 100" and "list_all2 written_as p ws" and "NUL \<notin> set p"
    and "memory s"
  shows "parse_parameter (request_line (concat ws) @ crlf) s = (Returns (Some (A_COMMAND, Some p)), s)"
proof -
  define w where "w = concat ws"
  note w = assms(1,2) [folded w_def]
  have "CHR '' '' \<notin> set command_chars" by code_simp
  from accepted_stop [OF w(1) this w(2), of "''HTTP/1.1'' @ crlf"]
  have acc: "accepted command_chars (w @ '' HTTP/1.1'' @ crlf) = w" by simp
  have drop: "drop (0 + length ''GET /?action=command'') (request_line w @ crlf) = w @ '' HTTP/1.1'' @ crlf"
    by (simp add: request_line_def)
  obtain tail where un: "unescape (w @ [NUL]) = Some (0, p @ NUL # tail)"
    using unescape_written [OF assms(3), of "[]"] command_chars_plain [OF w(1)] by (auto simp: w_def)
  have "c_text (p @ NUL # tail) = p" using assms(4) c_text_id [of p] by (simp add: c_text_def takeWhile_tail)
  then show ?thesis
    unfolding w_def [symmetric] parse_parameter_def request_type_command [OF w(1)] answer_t.case option.case drop acc Let_def
    using assms(5) un by (simp add: memory_def)
qed

lemma command_served:
  assumes "memory s" and "arriving (snd (incoming s)) = request_text (request_line (concat ws)) hs @ rest"
    and "\<forall>h \<in> set hs. header_line h"
    and "set (concat ws) \<subseteq> set command_chars" and "length (concat ws) \<le> 100" and "list_all2 written_as p ws" and "NUL \<notin> set p"
  obtains req r' where "client_thread s = and_then (check_and_answer 0 req) (\<lambda>_. close_fd) (s\<lparr>incoming := r'\<rparr>)"
    and "req_type req = A_COMMAND" and "req_parameter req = Some p" and "req_credentials req = header_credentials hs"
proof -
  define l where "l = request_line (concat ws) @ cr"
  have "NUL \<notin> set (request_line (concat ws))" "newline \<notin> set l" "length l < BUFFER_SIZE - 1"
    using command_chars_plain [OF assms(4)] assms(5) by (auto simp: l_def request_line_def)
  moreover have "upcoming (init_iobuffer, snd (incoming s)) = l @ newline # (concat (map (\<lambda>h. h @ crlf) hs) @ crlf @ rest)"
    using assms(2) by (simp add: upcoming_def request_text_def l_def)
  ultimately obtain b1 as1 where first: "readline (BUFFER_SIZE - 1) (init_iobuffer, snd (incoming s)) =
      (Returns (int (length l) + 1, l @ [newline]), b1, as1)" "buffer_ok b1"
      "upcoming (b1, as1) = concat (map (\<lambda>h. h @ crlf) hs) @ crlf @ rest"
    using readline_line [OF init_iobuffer_ok, of "snd (incoming s)" l _ "BUFFER_SIZE - 1"] by blast
  have line: "c_text (l @ [newline]) = request_line (concat ws) @ crlf"
    using \<open>NUL \<notin> set (request_line (concat ws))\<close> by (subst c_text_id) (simp_all add: l_def)
  define s1 where "s1 = s\<lparr>incoming := (b1, as1)\<rparr>"
  have "memory s1" using assms(1) by (simp add: memory_def s1_def)
  note parsed = parse_command [OF assms(4-7) this]
  have cnt: "int (length l) + 1 \<noteq> - 1" by simp
  have client: "client_thread s = serve (request_line (concat ws) @ crlf) A_COMMAND (Some p) s1"
    using client_thread_line [OF first(1) cnt, folded s1_def] parsed by (simp add: line)
  define req where "req = fold handled (map (\<lambda>h. h @ cr) hs @ [cr]) (init_request\<lparr>req_type := A_COMMAND, req_parameter := Some p\<rparr>)"
  obtain r' where r': "header_loop (\<lambda>_. True) (init_request\<lparr>req_type := A_COMMAND, req_parameter := Some p\<rparr>) (b1, as1) = (Returns (Some req), r')"
    using header_read [OF _ first(3) assms(3), of "init_request\<lparr>req_type := A_COMMAND, req_parameter := Some p\<rparr>"] first(2)
    unfolding req_def by auto
  then have loop: "header_loop (can_allocate s1) (init_request\<lparr>req_type := A_COMMAND, req_parameter := Some p\<rparr>) (incoming s1) = (Returns (Some req), r')"
    using \<open>memory s1\<close> by (simp add: s1_def memory_def)
  have suffix: "input_suffix A_COMMAND (request_line (concat ws) @ crlf) = 0" by (simp add: input_suffix_def)
  have "client_thread s = and_then (check_and_answer 0 req) (\<lambda>_. close_fd) (s\<lparr>incoming := r'\<rparr>)"
    using serve_header [OF loop, of "request_line (concat ws) @ crlf"] by (simp add: client suffix s1_def)
  moreover have "req_type req = A_COMMAND" "req_parameter req = Some p" "req_credentials req = header_credentials hs"
    unfolding req_def fold_handled header_credentials_def by simp_all
  ultimately show ?thesis using that by blast
qed

section \<open>The parameters of a command\<close>

text \<open>The text behind the first occurrence of a key.\<close>

definition after :: "string \<Rightarrow> string \<Rightarrow> string option" where
  "after key t = map_option (\<lambda>i. drop (i + length key) t) (strstr t key)"

lemma after_Cons: "after key (c # cs) = (if is_prefix key (c # cs) then Some (drop (length key) (c # cs)) else after key cs)"
  by (simp add: after_def option.map_comp comp_def)

lemma after_Nil: "key \<noteq> [] \<Longrightarrow> after key [] = None"
  by (simp add: after_def)

lemma after_skip: "hd key \<notin> set ds \<Longrightarrow> key \<noteq> [] \<Longrightarrow> after key (ds @ rest) = after key rest"
proof (induction ds)
  case (Cons d ds)
  then have "\<not> is_prefix key ((d # ds) @ rest)" by (cases key) auto
  with Cons show ?case by (simp add: after_Cons)
qed simp

lemma get_variable_after:
  "memory s \<Longrightarrow> get_variable key n t s = Some (case after key t of None \<Rightarrow> n | Some u \<Rightarrow> int_option u)"
  by (simp add: get_variable_def after_def memory_def Let_def split: option.split)

lemma fmt_d_no: "\<not> is_digit c \<Longrightarrow> c \<noteq> CHR ''-'' \<Longrightarrow> c \<notin> set (fmt_d n)"
  by (simp add: fmt_d_def)

lemma fmt_d_number_chars: "set (fmt_d n) \<subseteq> set ''-1234567890''"
proof
  fix c
  assume c: "c \<in> set (fmt_d n)"
  then have "c = CHR ''-'' \<or> is_digit c" using digits10_all_digits [of "\<bar>n\<bar>"] by (auto simp: fmt_d_def split: if_splits)
  then show "c \<in> set ''-1234567890''" by (auto simp: is_digit_def)
qed

lemma strtol10_fmt_d:
  assumes "- (2 ^ 31) \<le> n" and "n < 2 ^ 31"
  shows "strtol10 64 (fmt_d n) = n"
proof (cases "n < 0")
  case False
  with assms strtol10_digits10 [of n 64 "[]"] show ?thesis by simp
next
  case True
  then have f: "fmt_d n = CHR ''-'' # digits10 (- n)" by (simp add: fmt_d_def)
  have all: "takeWhile is_digit (digits10 (- n)) = digits10 (- n)"
    unfolding takeWhile_eq_all_conv using digits10_all_digits [of "- n"] True by simp
  moreover have "\<not> is_space (CHR ''-'')" by (simp add: is_space_def)
  ultimately show ?thesis using True assms unfolding f strtol10_def Let_def by (simp add: all del: takeWhile_eq_all_conv)
qed

lemma int_option_fmt_d:
  assumes "- (2 ^ 31) \<le> n" and "n < 2 ^ 31" and "rest = [] \<or> hd rest = CHR ''&''"
  shows "int_option (fmt_d n @ rest) = n"
proof -
  have stop: "CHR ''&'' \<notin> set ''-1234567890''" by code_simp
  have "takeWhile (\<lambda>c. c \<in> set ''-1234567890'') (fmt_d n @ rest) = fmt_d n"
    using fmt_d_number_chars [of n] assms(3) stop by (cases rest) (auto simp: subset_iff takeWhile_append2 takeWhile_eq_all_conv simp del: set_simps)
  then have "take (strspn (fmt_d n @ rest) ''-1234567890'') (fmt_d n @ rest) = fmt_d n"
    by (simp only: strspn_def) simp
  with strtol10_fmt_d [OF assms(1,2)] assms(1,2) show ?thesis by (simp add: int_option_def)
qed

definition command_text :: "int \<Rightarrow> int \<Rightarrow> int \<Rightarrow> int \<Rightarrow> string" where
  "command_text k i g v = ''&dest=0&plugin='' @ fmt_d k @ ''&id='' @ fmt_d i @ ''&group='' @ fmt_d g @ ''&value='' @ fmt_d v"

lemma letters_no_digits:
  "\<not> is_digit (CHR ''i'')" "\<not> is_digit (CHR ''v'')" "\<not> is_digit (CHR ''g'')" "\<not> is_digit (CHR ''d'')" "\<not> is_digit (CHR ''p'')"
  by (simp_all add: is_digit_def)

lemma command_variables:
  "after ''dest='' (command_text k i g v) = Some (fmt_d 0 @ ''&plugin='' @ fmt_d k @ ''&id='' @ fmt_d i @ ''&group='' @ fmt_d g @ ''&value='' @ fmt_d v)"
  "after ''plugin='' (command_text k i g v) = Some (fmt_d k @ ''&id='' @ fmt_d i @ ''&group='' @ fmt_d g @ ''&value='' @ fmt_d v)"
  "after ''id='' (command_text k i g v) = Some (fmt_d i @ ''&group='' @ fmt_d g @ ''&value='' @ fmt_d v)"
  "after ''group='' (command_text k i g v) = Some (fmt_d g @ ''&value='' @ fmt_d v)"
  "after ''value='' (command_text k i g v) = Some (fmt_d v @ [])"
  by (simp_all add: command_text_def after_Cons after_skip fmt_d_no letters_no_digits fmt_d_def [of 0] digits10.simps [of 0] digit_char_def)

definition in_int :: "int \<Rightarrow> bool" where
  "in_int n \<longleftrightarrow> - (2 ^ 31) \<le> n \<and> n < 2 ^ 31"

definition command_answer :: "string \<Rightarrow> int \<Rightarrow> string" where
  "command_answer name res = ''HTTP/1.0 200 OK'' @ crlf @ ''Content-type: text/plain'' @ crlf @ STD_HEADER @ crlf @ name @ '': '' @ fmt_d res"

lemma length_fmt_d: "in_int n \<Longrightarrow> length (fmt_d n) \<le> 11"
proof -
  assume n: "in_int n"
  then have "length (digits10 \<bar>n\<bar>) \<le> Suc 9" by (intro length_digits10_le) (auto simp: in_int_def)
  then show ?thesis by (cases "n < 0") (simp_all add: fmt_d_def)
qed

text \<open>A command whose variables are all given.\<close>

lemma command_eq:
  assumes "memory s" and "length (command_text k i g v) \<le> 100" and "in_int k" and "in_int i" and "0 \<le> i" and "in_int g" and "in_int v"
  shows "command (command_text k i g v) s = and_then (dispatch 0 k i g v) (\<lambda>res.
    formatted BUFFER_SIZE (command_answer (fmt_d i) res) write_ignored) s"
proof -
  define p where "p = command_text k i g v"
  note vars = command_variables [of k i g v, folded p_def]
  have amp: "hd (''&'' @ u) = CHR ''&''" for u by simp
  have "int_option (fmt_d n @ ''&'' @ u) = n" "int_option (fmt_d n @ []) = n" if "in_int n" for n u
    using that int_option_fmt_d [of n "''&'' @ u"] int_option_fmt_d [of n "[]"] by (simp_all add: in_int_def)
  note options = this(1) [of _ "u" for u, simplified] this(2)
  obtain j where j: "strstr p ''id='' = Some j" "drop (j + length ''id='') p = fmt_d i @ ''&group='' @ fmt_d g @ ''&value='' @ fmt_d v"
    using vars(3) by (auto simp: after_def)
  define name where "name = ''abcdefghijklmnopqrstuvwxyzABCDEFGHIJKLMNOPQRSTUVWXYZ_1234567890''"
  have "set (fmt_d i) \<subseteq> set name"
  proof
    fix x assume "x \<in> set (fmt_d i)"
    then have "is_digit x" using digits10_all_digits [of i] assms(5) by auto
    then show "x \<in> set name" by (auto simp: is_digit_def name_def)
  qed
  moreover have "CHR ''&'' \<notin> set name" unfolding name_def by code_simp
  ultimately have tw: "takeWhile (\<lambda>x. x \<in> set name) (fmt_d i @ ''&group='' @ fmt_d g @ ''&value='' @ fmt_d v) = fmt_d i"
    by (subst takeWhile_append2) auto
  define t where "t = fmt_d i @ ''&group='' @ fmt_d g @ ''&value='' @ fmt_d v"
  have name: "take (strspn t name) t = fmt_d i"
    unfolding t_def strspn_def tw by simp
  have t: "drop (Suc (Suc (Suc j))) p = t" using j(2) by (simp add: t_def)
  have "in_int 0" by (simp add: in_int_def)
  note opts = options(1) [OF this] options(1) [OF assms(3)] options(1) [OF assms(6)] options(2) [OF assms(7)] options(2) [OF assms(4)]
  have "p \<noteq> []" "length p < 255" using assms(2) by (simp_all add: p_def command_text_def)
  then show ?thesis
    using j(1) assms(1) opts
    unfolding p_def [symmetric] command_def name_def [symmetric] get_variable_after [OF assms(1)] vars
    by (simp add: t name memory_def command_answer_def Let_def)
qed

lemma written_length: "list_all2 written_as p ws \<Longrightarrow> length p \<le> length (concat ws)"
  by (induction p ws rule: list_all2_induct) (auto simp: written_as_def)

lemma command_text_plain: "NUL \<notin> set (command_text k i g v)"
proof -
  have "NUL \<notin> set (fmt_d n)" for n using fmt_d_number_chars [of n] by auto
  then show ?thesis by (simp add: command_text_def)
qed

lemma STD_HEADER_length: "length STD_HEADER < 300"
  by (simp add: STD_HEADER_def)

lemma command_answer_fits: "in_int i \<Longrightarrow> in_int res \<Longrightarrow> length (command_answer (fmt_d i) res) < BUFFER_SIZE"
  using length_fmt_d [of i] length_fmt_d [of res] STD_HEADER_length by (simp add: command_answer_def)

definition good_request :: "web \<Rightarrow> string \<Rightarrow> string list \<Rightarrow> string list \<Rightarrow> string \<Rightarrow> bool" where
  "good_request s c hs ws p \<longleftrightarrow>
     (\<exists>rest. arriving (snd (incoming s)) = request_text (request_line (concat ws)) hs @ rest) \<and>
     (\<forall>h \<in> set hs. header_line h) \<and> set (concat ws) \<subseteq> set command_chars \<and> length (concat ws) \<le> 100 \<and> list_all2 written_as p ws \<and>
     (\<exists>earlier later. hs = earlier @ authorization c # later \<and>
        (\<forall>h \<in> set later. \<not> has (c_text (h @ crlf)) ''Authorization: Basic '')) \<and> NUL \<notin> set c"

text \<open>A request with the right credentials reaches \<open>command\<close>.\<close>

lemma good_request_command:
  assumes "good_request s c hs ws p" and "memory s" and "credentials s = Some c" and "NUL \<notin> set p" and "inputs s \<noteq> []" and "\<not> nocommands s"
  shows "\<exists>r'. client_thread s = and_then (command p) (\<lambda>_. close_fd) (s\<lparr>incoming := r'\<rparr>)"
proof -
  from assms(1) obtain rest where r: "arriving (snd (incoming s)) = request_text (request_line (concat ws)) hs @ rest"
      "\<forall>h \<in> set hs. header_line h" "set (concat ws) \<subseteq> set command_chars" "length (concat ws) \<le> 100" "list_all2 written_as p ws"
    by (auto simp: good_request_def)
  obtain req r' where req: "client_thread s = and_then (check_and_answer 0 req) (\<lambda>_. close_fd) (s\<lparr>incoming := r'\<rparr>)"
      "req_type req = A_COMMAND" "req_parameter req = Some p" "req_credentials req = header_credentials hs"
    using command_served [OF assms(2) r assms(4)] by blast
  have "header_credentials hs = Some c"
    using assms(1) header_credentials_authorization by (auto simp: good_request_def)
  then have "check_and_answer 0 req (s\<lparr>incoming := r'\<rparr>) = command p (s\<lparr>incoming := r'\<rparr>)"
    using assms req by (simp add: check_and_answer_def allowed_def answer_def)
  then have "client_thread s = and_then (command p) (\<lambda>_. close_fd) (s\<lparr>incoming := r'\<rparr>)"
    unfolding req(1) by (simp add: and_then_def)
  then show ?thesis ..
qed

lemma good_request_length: "good_request s c hs ws p \<Longrightarrow> length p \<le> 100"
  using written_length [of p ws] by (auto simp: good_request_def)

section \<open>Properties\<close>

text \<open>C4: a command is carried out. A request for a control of an input arrives in any chunks, with its parameter escaped in any way,
  and among its header lines the last authorization is the Base64 text of the configured credentials. Then the thread returns, the
  plugin's command function has been called once, with exactly the plugin, control, group and value the request
  names, its result is in the answer, and the connection is closed.
\<close>

lemma http_command_executed:
  assumes "good_request s c hs ws (command_text k i g v)" and "credentials s = Some c" and "memory s" and "write_results s = []"
    and "\<not> nocommands s" and "0 \<le> k" and "k < int (length (inputs s))"
    and "in_int k" and "in_int i" and "0 \<le> i" and "in_int g" and "0 \<le> g" and "in_int v" and "in_int (cmd (inputs s ! nat k) k i g v)"
  shows "\<exists>s'. client_thread s = (Returns (), s') \<and> executed s' = executed s @ [(Dest_Input, k, i, g, v)] \<and>
    sent s' = sent s @ [command_answer (fmt_d i) (cmd (inputs s ! nat k) k i g v)] \<and> \<not> is_open s'"
proof -
  from assms(6,7) have "inputs s \<noteq> []" by auto
  from good_request_command [OF assms(1,3,2) command_text_plain this assms(5)] obtain r' where
    client: "client_thread s = and_then (command (command_text k i g v)) (\<lambda>_. close_fd) (s\<lparr>incoming := r'\<rparr>)" by blast
  define t where "t = s\<lparr>incoming := r'\<rparr>"
  have "memory t" using assms(3) by (simp add: memory_def t_def)
  note eq = command_eq [OF this good_request_length [OF assms(1)] assms(8-11,13)]
  have u32: "to_u32 i = i" "to_u32 g = g" using assms(9-12) by (simp_all add: in_int_def)
  have d: "dispatch 0 k i g v t = (Returns (cmd (inputs s ! nat k) k i g v), t\<lparr>executed := executed s @ [(Dest_Input, k, i, g, v)]\<rparr>)"
    using assms(6,7) by (simp add: dispatch_def call_plugin_def u32 t_def)
  have "command (command_text k i g v) t = (Returns (), t\<lparr>executed := executed s @ [(Dest_Input, k, i, g, v)],
      sent := sent s @ [command_answer (fmt_d i) (cmd (inputs s ! nat k) k i g v)]\<rparr>)"
    unfolding eq using d command_answer_fits [OF assms(9,14)] assms(4)
    by (simp add: formatted_def write_ignored_def modify_state_def write_fd_def t_def)
  then show ?thesis
    unfolding client t_def [symmetric] by (simp add: close_fd_def modify_state_def t_def)
qed

text \<open>C39: a negative plugin number is undefined behaviour. The number is compared with the count of the plugins only: a request that is
  accepted and names a plugin below zero makes the server call through an entry in front of its array of plugins.
\<close>

lemma negative_plugin_undefined:
  assumes "good_request s c hs ws (command_text k i g v)" and "credentials s = Some c" and "memory s"
    and "\<not> nocommands s" and "inputs s \<noteq> []" and "k < 0"
    and "in_int k" and "in_int i" and "0 \<le> i" and "in_int g" and "in_int v"
  shows "fst (client_thread s) = Undefined"
proof -
  from good_request_command [OF assms(1,3,2) command_text_plain assms(5,4)] obtain r' where
    client: "client_thread s = and_then (command (command_text k i g v)) (\<lambda>_. close_fd) (s\<lparr>incoming := r'\<rparr>)" by blast
  define t where "t = s\<lparr>incoming := r'\<rparr>"
  have "memory t" using assms(3) by (simp add: memory_def t_def)
  note eq = command_eq [OF this good_request_length [OF assms(1)] assms(7-11)]
  have "dispatch 0 k i g v t = (Undefined, t)"
    using assms(6) by (simp add: dispatch_def call_plugin_def)
  then have "command (command_text k i g v) t = (Undefined, t)" unfolding eq by simp
  then show ?thesis unfolding client t_def [symmetric] by simp
qed

section \<open>Witnesses\<close>

lemma arriving_bytes: "arriving (map (\<lambda>c. Chunk [c]) t) = t"
  by (induction t) simp_all

lemma written_plain: "CHR ''%'' \<notin> set p \<Longrightarrow> list_all2 written_as p (map (\<lambda>c. [c]) p)"
  by (induction p) (auto simp: written_as_def)

lemma concat_singletons [simp]: "concat (map (\<lambda>c. [c]) t) = t"
  by (induction t) simp_all

text \<open>A server with one input plugin, and a client whose bytes arrive one by one.\<close>

definition video_server :: "string \<Rightarrow> web" where
  "video_server t = \<lparr>inputs = [\<lparr>plugin_name = ''input_uvc.so'', plugin_id = 0, parameters = [], controls = None, cmd = \<lambda>_ _ _ v. v\<rparr>],
     outputs = [], stop = False, frames = [[]], credentials = Some ''user:pass'', www_folder = None, nocommands = False,
     files = \<lambda>_. None, can_allocate = \<lambda>_. True, incoming = (init_iobuffer, map (\<lambda>c. Chunk [c]) t), write_results = [],
     sent = [], opened = [], executed = [], is_open = True\<rparr>"

definition example_request :: "int \<Rightarrow> string" where
  "example_request k = request_text (request_line (command_text k 9963776 1 (- 5))) [''Host: clank'', authorization ''user:pass'']"

lemma example_text: "set (command_text 0 9963776 1 (- 5)) \<subseteq> set command_chars" "set (command_text (- 1) 9963776 1 (- 5)) \<subseteq> set command_chars"
  "length (command_text 0 9963776 1 (- 5)) \<le> 100" "length (command_text (- 1) 9963776 1 (- 5)) \<le> 100"
  "CHR ''%'' \<notin> set (command_text 0 9963776 1 (- 5))" "CHR ''%'' \<notin> set (command_text (- 1) 9963776 1 (- 5))"
  by code_simp+

lemma example_base64: "base64_text ''user:pass'' = ''dXNlcjpwYXNz''"
  by (simp add: base64_group_def six_bits_def byte_number_def base64_alphabet_def)

lemma example_header: "header_line ''Host: clank''" "header_line (authorization ''user:pass'')" "NUL \<notin> set ''user:pass''"
  unfolding authorization_def example_base64 by (simp_all add: header_line_def)

lemma example_good:
  assumes "set (command_text k 9963776 1 (- 5)) \<subseteq> set command_chars" and "length (command_text k 9963776 1 (- 5)) \<le> 100"
    and "CHR ''%'' \<notin> set (command_text k 9963776 1 (- 5))"
  shows "good_request (video_server (example_request k)) ''user:pass'' [''Host: clank'', authorization ''user:pass'']
    (map (\<lambda>c. [c]) (command_text k 9963776 1 (- 5))) (command_text k 9963776 1 (- 5))"
  unfolding good_request_def
proof (intro conjI)
  show "\<exists>rest. arriving (snd (incoming (video_server (example_request k)))) =
      request_text (request_line (concat (map (\<lambda>c. [c]) (command_text k 9963776 1 (- 5))))) [''Host: clank'', authorization ''user:pass''] @ rest"
    by (rule exI [of _ "[]"]) (simp add: video_server_def arriving_bytes example_request_def)
  show "\<exists>earlier later. [''Host: clank'', authorization ''user:pass''] = earlier @ authorization ''user:pass'' # later \<and>
      (\<forall>h \<in> set later. \<not> has (c_text (h @ crlf)) ''Authorization: Basic '')"
    by (intro exI [of _ "[''Host: clank'']"] exI [of _ "[]"]) simp
  show "\<forall>h \<in> set [''Host: clank'', authorization ''user:pass'']. header_line h" using example_header by simp
  show "list_all2 written_as (command_text k 9963776 1 (- 5)) (map (\<lambda>c. [c]) (command_text k 9963776 1 (- 5)))"
    by (rule written_plain [OF assms(3)])
qed (simp_all only: concat_singletons assms(1,2) example_header(3) not_False_eq_True)

lemma video_server_fields:
  "credentials (video_server t) = Some ''user:pass''" "memory (video_server t)" "write_results (video_server t) = []"
  "\<not> nocommands (video_server t)" "length (inputs (video_server t)) = 1" "cmd (inputs (video_server t) ! 0) a b c d = d"
  "executed (video_server t) = []" "sent (video_server t) = []" "inputs (video_server t) \<noteq> []"
  by (simp_all add: video_server_def memory_def)

lemma http_command_executed_witness:
  "\<exists>s'. client_thread (video_server (example_request 0)) = (Returns (), s') \<and> executed s' = [(Dest_Input, 0, 9963776, 1, - 5)] \<and>
    sent s' = [command_answer (fmt_d 9963776) (- 5)] \<and> \<not> is_open s'"
  using http_command_executed [OF example_good [OF example_text(1,3,5)]]
  by (simp add: video_server_fields in_int_def)

lemma negative_plugin_undefined_witness:
  "fst (client_thread (video_server (example_request (- 1)))) = Undefined"
  using negative_plugin_undefined [OF example_good [OF example_text(2,4,6)]]
  by (simp add: video_server_fields in_int_def)

end
