(* ===== verification/Http_Parts.thy ===== *)
theory Http_Parts
  imports Http_Request
begin

text \<open>
  The stream of pictures seen from the client: a reader of the multipart format, which takes as many bytes as the length
  of a part says, finds every picture as it was, whatever its bytes are. And the limits of the descriptions in JSON.
\<close>

section \<open>A reader of the stream\<close>

lemma after_shorter: "after key t = Some u \<Longrightarrow> length u + length key \<le> length t"
proof -
  assume "after key t = Some u"
  then obtain i where i: "strstr t key = Some i" "u = drop (i + length key) t" by (auto simp: after_def)
  from strstr_Some [OF i(1)] have "length (take (length key) (drop i t)) = length key" "i \<le> length t" by simp_all
  then have "i + length key \<le> length t" unfolding length_take length_drop by linarith
  with i(2) show ?thesis by simp
qed

text \<open>The text starts behind a boundary. The reader stops where the format is broken.\<close>

function read_parts :: "string \<Rightarrow> string list" where
  "read_parts t = (case after ''Content-Length: '' t of
       None \<Rightarrow> []
     | Some u \<Rightarrow> (case after (crlf @ crlf) t of
           None \<Rightarrow> []
         | Some body \<Rightarrow>
             (let n = nat (strtol10 64 u)
              in if is_prefix part_end (drop n body) then take n body # read_parts (drop (length part_end) (drop n body)) else [])))"
  by pat_completeness auto
termination
  by (relation "measure length") (auto dest: after_shorter)

declare read_parts.simps [simp del]

definition frame_ok :: "frame \<Rightarrow> bool" where
  "frame_ok f \<longleftrightarrow> length (picture f) < 2 ^ 31 \<and> in_int (tv_sec f) \<and> in_int (tv_usec f)"

definition part_text :: "frame \<Rightarrow> string" where
  "part_text f = part_header f @ picture f @ part_end"

lemma fmt_06d_no: "\<not> is_digit c \<Longrightarrow> c \<noteq> CHR ''-'' \<Longrightarrow> c \<notin> set (fmt_06d n)"
proof -
  assume c: "\<not> is_digit c" "c \<noteq> CHR ''-''"
  then have "c \<noteq> CHR ''0''" by (auto simp: is_digit_def)
  with c show ?thesis by (simp add: fmt_06d_def Let_def)
qed

lemma header_chars_no_digits: "\<not> is_digit (CHR 0x0D)" "\<not> is_digit (CHR ''C'')"
  by (simp_all add: is_digit_def)

lemma part_header_after:
  "after (crlf @ crlf) (part_header f @ u) = Some u"
  by (simp add: part_header_def time_text_def after_Cons after_skip fmt_d_no fmt_06d_no header_chars_no_digits
      del: fmt_d_nonneg)

lemma part_header_length:
  "\<exists>v. after ''Content-Length: '' (part_header f @ u) = Some (fmt_d (int (length (picture f))) @ CHR 0x0D # v)"
  by (simp add: part_header_def after_Cons del: fmt_d_nonneg)

lemma read_parts_part:
  assumes "frame_ok f"
  shows "read_parts (part_text f @ u) = picture f # read_parts u"
proof -
  obtain v where v: "after ''Content-Length: '' (part_header f @ picture f @ part_end @ u) =
      Some (fmt_d (int (length (picture f))) @ CHR 0x0D # v)"
    using part_header_length by blast
  have "strtol10 64 (fmt_d (int (length (picture f))) @ CHR 0x0D # v) = int (length (picture f))"
    using strtol10_digits10 [of "int (length (picture f))" 64 "CHR 0x0D # v"] assms header_chars_no_digits
    by (simp add: frame_ok_def)
  moreover have "is_prefix part_end (part_end @ u)" by (simp add: is_prefix_iff)
  ultimately show ?thesis
    by (subst read_parts.simps) (simp add: part_text_def v part_header_after [simplified])
qed

lemma read_parts_all: "\<forall>f \<in> set fs. frame_ok f \<Longrightarrow> read_parts (concat (map part_text fs)) = map picture fs"
proof (induction fs)
  case Nil
  then show ?case by (subst read_parts.simps) (simp add: after_Nil)
qed (simp add: read_parts_part)

section \<open>The stream that is sent\<close>

lemma write_fd_all: "write_results s = [] \<Longrightarrow> write_fd t s = (int (length t), s\<lparr>sent := sent s @ [t]\<rparr>)"
  by (simp add: write_fd_def)

lemma length_fmt_06d: "in_int n \<Longrightarrow> length (fmt_06d n) \<le> 11"
  using length_fmt_d [of n] by (cases "n < 0") (auto simp: fmt_06d_def fmt_d_def Let_def)

lemma part_header_fits: "frame_ok f \<Longrightarrow> length (part_header f) < BUFFER_SIZE"
proof -
  assume f: "frame_ok f"
  then have "in_int (int (length (picture f)))" by (simp add: frame_ok_def in_int_def)
  from length_fmt_d [OF this] length_fmt_d [of "tv_sec f"] length_fmt_06d [of "tv_usec f"] f show ?thesis
    by (simp add: frame_ok_def part_header_def time_text_def)
qed

lemma send_part_all:
  assumes "write_results s = []" and "frame_ok f"
  shows "send_part f s = (Returns True, s\<lparr>sent := sent s @ [part_header f, picture f, part_end]\<rparr>)"
  using assms part_header_fits [OF assms(2)] by (simp add: send_part_def formatted_def write_fd_all part_end_def)

text \<open>The last picture is the one during whose wait the program is told to stop.\<close>

lemma stream_loop_all:
  assumes "write_results s = []" and "memory s" and "\<not> stop s" and "\<forall>f \<in> set (fs @ [g]). frame_ok f"
  shows "\<exists>s'. stream_loop n room (map (\<lambda>f. (f, False)) fs @ [(g, True)]) s = (Returns (), s') \<and>
    concat (sent s') = concat (sent s) @ concat (map part_text (fs @ [g]))"
  using assms
proof (induction fs arbitrary: s room)
  case Nil
  define s1 where "s1 = s\<lparr>frames := (frames s)[n := []], stop := True\<rparr>"
  have "send_part g s1 = (Returns True, s1\<lparr>sent := sent s1 @ [part_header g, picture g, part_end]\<rparr>)"
    using Nil.prems by (intro send_part_all) (simp_all add: s1_def)
  then show ?case
    using Nil.prems by (simp add: s1_def memory_def Let_def part_text_def)
next
  case (Cons f fs)
  define s1 where "s1 = s\<lparr>frames := (frames s)[n := map (\<lambda>f. (f, False)) fs @ [(g, True)]], stop := False\<rparr>"
  define s2 where "s2 = s1\<lparr>sent := sent s1 @ [part_header f, picture f, part_end]\<rparr>"
  have part: "send_part f s1 = (Returns True, s2)"
    using Cons.prems unfolding s2_def by (intro send_part_all) (simp_all add: s1_def)
  have step: "stream_loop n room (map (\<lambda>f. (f, False)) (f # fs) @ [(g, True)]) s =
      stream_loop n (if room < length (picture f) then length (picture f) + 10 * 1024 else room)
        (map (\<lambda>f. (f, False)) fs @ [(g, True)]) s2"
    using Cons.prems(2,3) part by (simp add: s1_def [symmetric] memory_def Let_def) (simp add: s1_def)
  have s2: "write_results s2 = []" "memory s2" "\<not> stop s2" "concat (sent s2) = concat (sent s) @ part_text f"
    using Cons.prems by (simp_all add: s2_def s1_def memory_def part_text_def)
  show ?case
    unfolding step using Cons.IH [OF s2(1-3)] Cons.prems(4) s2(4) by simp
qed

text \<open>C13: the stream of pictures can be read back. While all writes succeed and there is memory, everything sent until the program is
  told to stop is the stream's header and a text from which a reader of the multipart format, which takes as many bytes as
  each part's length says, recovers all pictures in order, with whatever bytes they have - the boundary included.
\<close>

lemma stream_frames_recovered:
  assumes "write_results s = []" and "memory s" and "\<not> stop s" and "sent s = []"
    and "frames s ! n = map (\<lambda>f. (f, False)) fs @ [(g, True)]" and "\<forall>f \<in> set (fs @ [g]). frame_ok f"
  shows "\<exists>s' t. send_stream n s = (Returns (), s') \<and> concat (sent s') = stream_header @ t \<and>
    read_parts t = map picture (fs @ [g])"
proof -
  define s1 where "s1 = s\<lparr>sent := [stream_header]\<rparr>"
  have "length stream_header < BUFFER_SIZE" using STD_HEADER_length by (simp add: stream_header_def)
  then have "send_stream n s = stream_loop n 0 (frames s1 ! n) s1"
    using assms(1,4) by (simp add: send_stream_def formatted_def write_fd_all s1_def)
  moreover have "\<exists>s'. stream_loop n 0 (map (\<lambda>f. (f, False)) fs @ [(g, True)]) s1 = (Returns (), s') \<and>
      concat (sent s') = concat (sent s1) @ concat (map part_text (fs @ [g]))"
    using assms by (intro stream_loop_all) (simp_all add: s1_def memory_def)
  ultimately show ?thesis
    using assms(5) read_parts_all [OF assms(6)] by (auto simp: s1_def)
qed

section \<open>The limits of the descriptions\<close>

text \<open>Controls that are not menus, and their text.\<close>

definition plain_control :: "plugin_control \<Rightarrow> bool" where
  "plain_control c \<longleftrightarrow> ctrl_type c \<noteq> V4L2_CTRL_TYPE_MENU \<and> length (ctrl_name c) < 32 \<and> in_int (ctrl_id c) \<and> in_int (ctrl_type c) \<and>
     in_int (minimum c) \<and> in_int (maximum c) \<and> in_int (step c) \<and> in_int (default_value c) \<and> in_int (ctrl_value c) \<and>
     in_int (ctrl_flags c) \<and> in_int (ctrl_group c)"

fun controls_text :: "string \<Rightarrow> plugin_control list \<Rightarrow> string" where
  "controls_text dest [] = []"
| "controls_text dest (c # cs) = control_text dest c @ nl @ ''}'' @ (if cs \<noteq> [] then '','' @ nl else []) @ controls_text dest cs"

lemma control_text_fits: "plain_control c \<Longrightarrow> length dest = 1 \<Longrightarrow> length (control_text dest c) \<le> 276"
proof -
  assume c: "plain_control c" "length dest = 1"
  note n = length_fmt_d [of "ctrl_id c"] length_fmt_d [of "ctrl_type c"] length_fmt_d [of "minimum c"] length_fmt_d [of "maximum c"]
    length_fmt_d [of "step c"] length_fmt_d [of "default_value c"] length_fmt_d [of "ctrl_value c"]
    length_fmt_d [of "ctrl_flags c"] length_fmt_d [of "ctrl_group c"]
  from c n show ?thesis by (simp add: plain_control_def control_text_def member_text_def quoted_def)
qed

lemma controls_text_fits: "\<forall>c \<in> set cs. plain_control c \<Longrightarrow> length (controls_text ''0'' cs) \<le> 280 * length cs"
proof (induction cs)
  case (Cons c cs)
  with control_text_fits [of c "''0''"] show ?case by simp
qed simp

text \<open>The answer that is meant.\<close>

definition json_text :: "string \<Rightarrow> plugin_control list \<Rightarrow> string" where
  "json_text dest cs = json_header @ ''{'' @ nl @ quoted ''controls'' @ '': ['' @ nl @ controls_text dest cs @ nl @ '']'' @ nl @ ''}'' @ nl"

text \<open>A menu that has no text, or no result, leaves the loop undefined: \<open>%s\<close> needs a string.\<close>

definition menu_fails :: "(plugin_control \<Rightarrow> string option option run) \<Rightarrow> plugin_control \<Rightarrow> bool" where
  "menu_fails menu_of c \<longleftrightarrow> (if ctrl_type c = V4L2_CTRL_TYPE_MENU then menu_of c \<in> {Undefined, Returns (Some None)}
     else menu_of c = Returns (Some None))"

lemma controls_loop_exact:
  assumes "\<forall>c \<in> set cs. menu_fails menu_of c"
  shows "controls_loop menu_of dest cs buffer =
    (if cs = [] \<or> (\<forall>c \<in> set cs. ctrl_type c \<noteq> V4L2_CTRL_TYPE_MENU) \<and> length buffer + length (controls_text dest cs) < JSON_SIZE
     then Returns (Some (buffer @ controls_text dest cs)) else Undefined)"
  using assms
proof (induction cs arbitrary: buffer)
  case Nil
  then show ?case by simp
next
  case (Cons c cs)
  show ?case
  proof (cases "ctrl_type c = V4L2_CTRL_TYPE_MENU")
    case True
    with Cons.prems show ?thesis by (auto simp: menu_fails_def control_end_def split: bind_splits)
  next
    case False
    with Cons show ?thesis by (auto simp: menu_fails_def control_end_def append_text_def)
  qed
qed

lemma controls_json_exact:
  assumes "\<forall>c \<in> set cs. menu_fails menu_of c"
  shows "controls_json menu_of dest (Some cs) =
    (if (\<forall>c \<in> set cs. ctrl_type c \<noteq> V4L2_CTRL_TYPE_MENU) \<and> length (json_text dest cs) < JSON_SIZE
     then Returns (Some (json_text dest cs)) else Undefined)"
proof -
  define buffer where "buffer = json_header @ ''{'' @ nl @ quoted ''controls'' @ '': ['' @ nl"
  have t: "json_text dest cs = buffer @ controls_text dest cs @ nl @ '']'' @ nl @ ''}'' @ nl" by (simp add: json_text_def buffer_def)
  have "cs = [] \<Longrightarrow> \<forall>c \<in> set cs. ctrl_type c \<noteq> V4L2_CTRL_TYPE_MENU" by simp
  with controls_loop_exact [OF assms, of dest buffer] show ?thesis
    unfolding controls_json_def buffer_def [symmetric] Let_def option.case t by (auto simp: append_text_def)
qed

lemma input_menu_plain: "ctrl_type c \<noteq> V4L2_CTRL_TYPE_MENU \<Longrightarrow> menu_fails (input_menu alloc) c"
  by (simp add: input_menu_def menu_fails_def)

text \<open>An output's menu never has a text: it starts as a null pointer, whose length the first item takes.\<close>

lemma output_menu_fails: "menu_fails (output_menu alloc) c"
  by (auto simp: output_menu_def menu_fails_def menu_loop.simps [of _ "maximum c" "minimum c"] output_menu_step_def
      string_length_def split: option.split)

text \<open>C38: the description of the controls fits. For an input of up to fifty controls that are not menus, with names of at most 31
  characters and values of 32 bits, the answer to \<open>GET /input.json\<close> stays inside its buffer and is the header and
  the text of each control, separated by commas.
\<close>

lemma input_json_sent:
  assumes "controls (inputs s ! n) = Some cs" and "\<forall>c \<in> set cs. plain_control c" and "length cs \<le> 50" and "write_results s = []"
  shows "send_Input_JSON n s = (Returns (), s\<lparr>sent := sent s @ [json_header @ ''{'' @ nl @ quoted ''controls'' @ '': ['' @ nl @
    controls_text ''0'' cs @ nl @ '']'' @ nl @ ''}'' @ nl]\<rparr>)"
proof -
  have "length (controls_text ''0'' cs) \<le> 14000" using controls_text_fits [OF assms(2)] assms(3) by simp
  then have fits: "length (json_text ''0'' cs) < JSON_SIZE" using STD_HEADER_length by (simp add: json_text_def json_header_def quoted_def)
  have plain: "\<forall>c \<in> set cs. ctrl_type c \<noteq> V4L2_CTRL_TYPE_MENU" using assms(2) by (simp add: plain_control_def)
  then have "\<forall>c \<in> set cs. menu_fails (input_menu (can_allocate s)) c" by (simp add: input_menu_plain)
  from controls_json_exact [OF this] fits plain have "send_Input_JSON n s = (Returns (), s\<lparr>sent := sent s @ [json_text ''0'' cs]\<rparr>)"
    by (simp add: send_Input_JSON_def assms(1) send_json_def write_ignored_def modify_state_def write_fd_all [OF assms(4)])
  then show ?thesis by (simp only: json_text_def)
qed

text \<open>With more than 163 controls the buffer always overflows.\<close>

lemma controls_text_length: "100 * length cs \<le> length (controls_text dest cs)"
proof (induction cs)
  case (Cons c cs)
  with control_text_length [of dest c] show ?case by simp
qed simp

lemma input_json_overflows:
  assumes "controls (inputs s ! n) = Some cs" and "\<forall>c \<in> set cs. ctrl_type c \<noteq> V4L2_CTRL_TYPE_MENU" and "163 < length cs"
  shows "send_Input_JSON n s = (Undefined, s)"
proof -
  have "\<not> length (json_text ''0'' cs) < JSON_SIZE" using controls_text_length [of cs "''0''"] assms(3) by (simp add: json_text_def)
  moreover have "\<forall>c \<in> set cs. menu_fails (input_menu (can_allocate s)) c" using assms(2) by (simp add: input_menu_plain)
  ultimately show ?thesis by (simp add: send_Input_JSON_def assms(1) send_json_def controls_json_exact)
qed

text \<open>C40: which outputs can be described. The answer of \<open>send_Output_JSON\<close> is the text of all controls of the output when none
  of them is a menu and the text fits into the buffer. In every other case the code is undefined: the text of a menu starts as a null
  pointer, whose length is taken at the first item, before it is looked at and whatever can be allocated, and which is printed
  with \<open>%s\<close> when there are no items; and a text that does not fit is written past the end of the buffer.
\<close>

lemma output_json_exact:
  assumes "n < length (outputs s)" and "controls (outputs s ! n) = Some cs"
  shows "send_Output_JSON n s =
    (if (\<forall>c \<in> set cs. ctrl_type c \<noteq> V4L2_CTRL_TYPE_MENU) \<and> length (json_text ''1'' cs) < JSON_SIZE
     then write_ignored (json_text ''1'' cs) s else (Undefined, s))"
proof -
  have "\<forall>c \<in> set cs. menu_fails (output_menu (can_allocate s)) c" by (simp add: output_menu_fails)
  from controls_json_exact [OF this, of "''1''"] show ?thesis by (simp add: send_Output_JSON_def assms send_json_def)
qed

text \<open>A menu item with an index of three digits does not fit the block that was allocated for it.\<close>

lemma long_menu_overflows:
  assumes "100 \<le> j" and "j < maximum c" and "j < int (length items)" and "alloc = (\<lambda>_. True)"
  shows "input_menu_step c items alloc j menu = Undefined"
proof -
  have "3 \<le> length (digits10 j)"
  proof -
    from assms(1) have "\<not> j < 10" "\<not> j div 10 < 10" by auto
    then have "digits10 j = digits10 (j div 10 div 10) @ [digit_char (j div 10 mod 10), digit_char (j mod 10)]"
      by (simp add: digits10.simps [of j] digits10.simps [of "j div 10"])
    then show ?thesis by (simp add: Suc_le_eq)
  qed
  with assms show ?thesis
    by (simp add: input_menu_step_def menu_item_def member_text_def quoted_def Let_def fmt_d_def)
qed

section \<open>Witnesses\<close>

definition example_frame :: "string \<Rightarrow> frame" where
  "example_frame bs = \<lparr>tv_sec = 1700000000, tv_usec = 42, picture = bs\<rparr>"

lemma stream_frames_recovered_witness:
  "\<exists>s' t. send_stream 0 (video_server [] \<lparr>frames := [[(example_frame part_end, False), (example_frame [CHR 0xFF, NUL], True)]]\<rparr>) =
      (Returns (), s') \<and> concat (sent s') = stream_header @ t \<and> read_parts t = [part_end, [CHR 0xFF, NUL]]"
  using stream_frames_recovered [of "video_server [] \<lparr>frames := [[(example_frame part_end, False), (example_frame [CHR 0xFF, NUL], True)]]\<rparr>"
      0 "[example_frame part_end]" "example_frame [CHR 0xFF, NUL]"]
  by (simp add: video_server_def memory_def example_frame_def frame_ok_def in_int_def part_end_def)

definition example_control :: "int \<Rightarrow> plugin_control" where
  "example_control kind = \<lparr>ctrl_name = ''Brightness'', ctrl_id = 9963776, ctrl_type = kind, minimum = - 64, maximum = 64, step = 1,
     default_value = 0, ctrl_flags = 0, ctrl_value = 10, ctrl_group = 1, menuitems = Some [''low'', ''high'']\<rparr>"

definition example_plugin :: "int \<Rightarrow> plugin" where
  "example_plugin kind = \<lparr>plugin_name = ''plugin'', plugin_id = 0, parameters = [], controls = Some [example_control kind], cmd = \<lambda>_ _ _ _. 0\<rparr>"

lemma input_json_sent_witness:
  "send_Input_JSON 0 (video_server [] \<lparr>inputs := [example_plugin 1]\<rparr>) = (Returns (), video_server [] \<lparr>inputs := [example_plugin 1],
     sent := [json_header @ ''{'' @ nl @ quoted ''controls'' @ '': ['' @ nl @ controls_text ''0'' [example_control 1] @ nl @ '']'' @ nl @ ''}'' @ nl]\<rparr>)"
  using input_json_sent [of "video_server [] \<lparr>inputs := [example_plugin 1]\<rparr>" 0 "[example_control 1]"]
  by (simp add: video_server_def example_plugin_def example_control_def plain_control_def in_int_def)

lemma output_json_exact_witness:
  "send_Output_JSON 0 (video_server [] \<lparr>outputs := [example_plugin 3]\<rparr>) = (Undefined, video_server [] \<lparr>outputs := [example_plugin 3]\<rparr>) \<and>
   send_Output_JSON 0 (video_server [] \<lparr>outputs := [example_plugin 1]\<rparr>) =
     write_ignored (json_text ''1'' [example_control 1]) (video_server [] \<lparr>outputs := [example_plugin 1]\<rparr>)"
proof -
  have "plain_control (example_control 1)" by (simp add: plain_control_def example_control_def in_int_def)
  from control_text_fits [OF this, of "''1''"] have "length (json_text ''1'' [example_control 1]) < JSON_SIZE"
    using STD_HEADER_length by (simp add: json_text_def json_header_def quoted_def)
  then show ?thesis
    using output_json_exact [of 0 "video_server [] \<lparr>outputs := [example_plugin 3]\<rparr>" "[example_control 3]"]
      output_json_exact [of 0 "video_server [] \<lparr>outputs := [example_plugin 1]\<rparr>" "[example_control 1]"]
    by (simp add: example_plugin_def example_control_def)
qed

end
