(* ===== verification/Spec2Isabelle.thy ===== *)
theory Spec2Isabelle
  imports Sam_Protocol Sam_Ramp Jpeg_Pipeline Host_Manager Host_Motor Robot_Main Nav_File Http_Parts
begin

text \<open>
  A verification development for the Clank robotics platform (\<open>clank/\<close>): the firmware of the SAM
  coprocessor, the host library that talks to it, the control path of the teleoperated robot, its
  configuration files and maps, and the video stream: its JPEG encoder and its HTTP server.

  \<^bold>\<open>How the program is put together.\<close> An operator's front end opens a TCP connection and sends one
  line per command, \<open>Module:Component.Property=(Value)\<close>. \<open>TcpServer\<close> receives it, \<open>Command\<close> splits it,
  \<open>TeleoperatedRobot\<close> hands a speed and a heading to \<open>DifferentialDriveModule\<close>, which turns them into
  two velocities, and \<open>ClawMotorController\<close> sends each as a packet with a check value over a serial
  line and waits for the acknowledgement. A \<open>Watchdog\<close> stops the motors when no command arrives. The
  digital, analogue and pulse-width pins sit on a second board: the objects \<open>GpioPin\<close>, \<open>AdcPin\<close>
  and \<open>PwmPin\<close> of the host state their settings in text lines, the firmware
  (\<open>SAM/HardwareDaemon.ino\<close>) collects the characters, changes its own record of the pin, and reports changes
  in lines of the same form, which \<open>SamPeripheralManager\<close> routes back to the objects. All parts
  are constructed from trees read from an indented text file. The camera images are turned into
  JPEG files by \<open>input_gspcav1\<close> and handed to web browsers by \<open>output_http\<close>, which also lets them set the controls of the camera.

  \<^bold>\<open>Conventions\<close> (Clank_Prelude, C_String, C_Float, Float_Text, Host_Stream, Robot_Run). A C array
  is a list, a pointer into it an index; loads and stores outside it, a null pointer that is
  dereferenced and signed overflow have no result (\<open>None\<close>, or \<open>Undefined\<close> in a \<open>run\<close>). Integers are
  words or \<open>int\<close> with the conversions written where the code converts. \<open>float\<close> and
  \<open>double\<close> are rational values, two infinities and a NaN with the rounding of IEEE 754 to nearest even
  (\<open>fround\<close>), subnormal numbers included; the sign of a zero is not kept.
  An exception is a value (\<open>Inl\<close>, or \<open>Throws\<close> in a \<open>run\<close>), and a constructor that throws gives no object. The C and C++
  library functions the sources use (\<open>strtok\<close>, \<open>strspn\<close>, \<open>strtod\<close>, \<open>sprintf\<close>, \<open>getline\<close>, \<open>stod\<close>, \<open>stoi\<close>,
  \<open>to_string\<close>) are defined as the standards describe them.

  \<^bold>\<open>The firmware.\<close> Sam_Board has the parameters of the Arduino core (a record \<open>board\<close> of its
  constants, with \<open>board_ok\<close> the facts the code needs of them and \<open>sam3x\<close> an instance) and the calls
  that drive pins as events. Sam_Gpio, Sam_Adc and Sam_Pwm model \<open>SAM/libs/*.c\<close>, one definition per C function
  under its name. Sam_Daemon models \<open>HardwareDaemon.ino\<close>: \<open>ResetAll\<close>, \<open>ProcessMessage\<close>, \<open>recv_char\<close> (the
  body of the receive loop), \<open>ReportStatus\<close> and \<open>loop_body\<close>, over the record \<open>daemon\<close>. Each pin has an
  invariant and every operation keeps it (\<open>gpio_inv\<close>, \<open>adc_inv\<close>, \<open>pwm_inv\<close>); \<open>daemon_inv\<close> puts them together with
  the sizes of the buffers. Sam_Protocol states what the host may rely on: the loop never leaves the invariant, a command line
  sets the pin it names, reports fit into the buffer, and the cases that overflow. Sam_Ramp follows a
  pulse-width pin over many reports (\<open>ramp_steps\<close>): when the value arrives at the set point and when it never does.

  \<^bold>\<open>The host library.\<close> Host_Names has the enumeration of the peripherals and its
  order (instances of \<open>linorder\<close>). Host_Port models \<open>SamSerialPort\<close>: the kernel's \<open>write\<close> is a
  parameter, that it accepts everything (\<open>accepts_all\<close>) a hypothesis. Host_Peripheral
  has the base class and the locale \<open>sam_peripheral\<close>, the contract between a pin and the port and
  the manager; Host_Gpio, Host_Adc and Host_Pwm interpret it. Their end-to-end properties compose
  the host object, the firmware's receive loop and report, and the host's parser. Host_Manager models \<open>SamPeripheralManager\<close>: \<open>RouteMessage\<close> of the
  receive thread and \<open>Get\<close>/\<open>Return\<close>, cut where the threads can interleave into \<open>request_command\<close>,
  \<open>register_request\<close>, \<open>poll_request\<close>, \<open>finish_request\<close> and \<open>enter_peripheral\<close>. \<open>sam_step\<close> is the step relation of client, receive
  thread, firmware and the two lines between them; \<open>protocol_inv\<close> is its invariant by rule induction. In
  \<open>sam_step\<close> the firmware answers requests, reports the states of enabled pins and refuses other peripherals with an
  error that runs into the next line; the lines that change a
  pin's settings are the subject of Host_Gpio and Host_Adc. One access to a \<open>std::map\<close> is one step, so data
  races inside the container are not modelled.

  Host_Motor models the two motors built from pins (\<open>LiteMotor.cpp\<close>, \<open>VHN2Motor.cpp\<close>). Their interface
  \<open>IMotor\<close> is the locale \<open>i_motor\<close>, interpreted for both; a motor's lines are followed through the port, the
  firmware's receive loop and the pins.

  \<^bold>\<open>The configuration.\<close> Host_Config has the tree of \<open>Configuration.cpp\<close> and the reader of
  \<open>IndentedFileConfigurationReader.cpp\<close>. The reader recurses and loops on the stream, so it carries
  fuel: \<open>2 * length + 4\<close> steps are enough for every text that is empty or ends in a newline
  (config_reader_terminates), and no fuel is enough for a document of more than one line without the
  newline behind its last line (config_reader_diverges).
  Host_Reader has the lemmas: \<open>line_kind\<close> abstracts what a line is, \<open>reads_documents\<close> follows the
  reader through the printed form of any well-formed tree, and more fuel never changes a result.

  \<^bold>\<open>The control path.\<close> An operation is a function from a state to a \<open>run\<close>: it returns or throws,
  with the state it leaves; or it blocks for ever, or is undefined (Robot_Run). Robot_Claw is
  \<open>ClawMotorController\<close>: \<open>ComputeCRC\<close> and the packet, \<open>WriteAndVerify\<close> with its lock and the
  \<open>select\<close> of Linux, which writes the time left into its argument; \<open>crc16_residue\<close> and
  \<open>crc16_change\<close> are the algebra of the check value. The answering times of the controller are a list in the
  state. Robot_Drive is \<open>DifferentialDriveModule\<close>; the cosine of the C library is a parameter, and
  \<open>unit_range\<close> (its values lie between -1 and 1) the only thing assumed of it. Robot_Command,
  Robot_Teleop and Robot_Server are the parser, the handlers of \<open>TeleoperatedRobot\<close>, and the thread of the server;
  what the network delivers, and how much of an answer the kernel takes at a time, are lists in the state, and
  \<open>server_loop\<close> counts its turns. Robot_Watchdog is a step relation over the shared variables of
  \<open>Watchdog.cpp\<close>, one step per access to the mutex or a flag; the
  mutex is undefined before \<open>Start\<close> has initialised it and after \<open>Stop\<close> has destroyed it, and deadlines are unbounded
  (deadline_exact has the range in which the 32-bit seconds agree). Robot_Main composes the constructors and shows that the
  configuration file of the repository is accepted; its fuel of 2000 covers the bound above.

  \<^bold>\<open>The navigation maps.\<close> Nav_Text has the number formats of the C++ streams (\<open>fmt_g\<close> prints six
  significant digits, \<open>read_double\<close> is the extraction operator). Nav_Map has the points, obstacles and
  waypoints of \<open>lib/types/navigation\<close> and every operation of \<open>SparseMap.cpp\<close>; obstacles and waypoints are held by
  pointers, so a map is two lists of addresses beside a store, and a freed address has no object. The directory is left
  out of the build at this commit; the definitions follow its lines as they stand. Nav_File states what \<open>Serialize\<close> and
  \<open>Deserialize\<close> promise each other. The reading loop takes one step per obstacle and waypoint and three more, which is the
  fuel used; on a file that cannot be opened no fuel is enough (missing_map_file_hangs).

  \<^bold>\<open>The encoder.\<close> Jpeg_Quant (\<open>quant.c\<close>), Jpeg_Marker (\<open>marker.c\<close>), Jpeg_Huffman (\<open>huffman.c\<close>), Jpeg_Dct,
  Jpeg_Read, Jpeg_Colour and Jpeg_Encoder (\<open>encoder.c\<close>) hold the definitions. The theories beside
  them relate the code to the JPEG standard: Jpeg_Bitstream (the bits that the word buffer and the bytes
  written represent), Jpeg_Block (the symbols of a block), Jpeg_Prefix (a canonical code is prefix
  free, a locale), Jpeg_Roundtrip (a decoder written from the standard), Jpeg_Scan (header and scan), Jpeg_Mcu
  (what the readers fetch, by triples over lists of instructions), Jpeg_Pipeline (whole images:
  the file decodes to the quantised transform of the image's blocks).

  \<^bold>\<open>The video server\<close> (\<open>output_http/httpd.c\<close>). Http_Io is the buffer between the socket and the parser: \<open>_read\<close> is \<open>read_loop\<close>,
  \<open>_readline\<close> is \<open>readline\<close>, and the abstraction \<open>upcoming\<close> (the bytes still to come) makes a call the taking of a line off a stream,
  whatever the chunks are; the locale \<open>line_source\<close> is that contract, and the loop over the header lines rests on it. Http_Text has
  \<open>decodeBase64\<close> and \<open>unescape\<close>, which work in place, with the encodings they undo. Http_Server has the state and the answers: errors,
  pictures, the stream, files and commands; Http_Json the descriptions of the plugins; Http_Client the thread of a connection.
  Http_Access shows what a client can reach, Http_Request follows a request to the plugin it names, Http_Parts reads the stream back,
  bounds the descriptions of inputs and says which outputs can be described at all (a menu of an output starts as a null
  pointer, \<open>output_menu_step\<close>). The loops over arrivals and lines end because each turn consumes bytes (\<open>bytes_left\<close>, \<open>reader_size\<close>).
  The command functions of the plugins, the files, the pictures, the arrivals and the results of \<open>write\<close> and \<open>malloc\<close> are fields of the state.

  \<^bold>\<open>Hypotheses.\<close> Besides those named above: a theorem about a run of the firmware assumes its
  invariant, which holds at the start; one about the motors assumes which answers arrive in time; one about
  \<open>encode_image\<close> assumes sizes that are multiples of 16, with other sizes the subject of full_mcu_overflow and
  right_edge_overflow. Each property with a hypothesis has a witness.

  \<^bold>\<open>Not modelled.\<close> Sockets, terminal settings beside the baud rate, and the creation and joining of threads are the
  operating system's. \<open>VideoStreamer\<close> forks, executes and kills a separate program; only its
  constructor is modelled. The core of \<open>mjpg-streamer\<close> and its plugins beside the encoder and the
  HTTP server are vendored and mostly system calls, \<open>lib/mjpeg-streamer\<close> is a second copy of it, the test pictures
  are generated arrays, \<open>gtest\<close> is the vendored test framework, the front end is Java. The path
  planner and the intersection test of the obstacle planes are empty functions in the source.
\<close>

end
